(* ===== verification/Prelude.thy ===== *)
theory Prelude
  imports
    "HOL-Library.Word"
    "HOL-Library.AList"
    "HOL-Library.Char_ord"
    "HOL-Library.List_Lexorder"
    "HOL-Library.Multiset"
    "HOL-Library.Monad_Syntax"
    "HOL-Library.Sublist"
begin

text \<open>
  The types and the generic lemmas every component of the development shares.

  A Go map is an association list whose keys are distinct. The order of the list
  is the order in which a \<open>range\<close> loop visits the entries; Go leaves it
  unspecified, and no theorem below assumes anything about it. \<^theory_text>\<open>map_of\<close> is the
  lookup, \<^theory_text>\<open>AList.update\<close> the assignment \<open>m[k] = v\<close> and \<^theory_text>\<open>AList.delete\<close> the
  builtin \<open>delete\<close>.
\<close>

section \<open>Types\<close>

text \<open>\<open>uu.ID\<close> is a \<open>[16]byte\<close>, compared and sorted bytewise, so as a big-endian number.\<close>

type_synonym uuid = "128 word"

type_synonym bytes = "8 word list"

type_synonym ('k, 'v) gomap = "('k \<times> 'v) list"

text \<open>
  \<open>docdb.VersionTime\<close> wraps a \<open>time.Time\<close>: nanoseconds since January 1 of year 1, UTC,
  which is the zero value of \<open>time.Time\<close>.
\<close>

datatype version_time = VersionTime (Time: int)

instantiation version_time :: linorder
begin

definition less_eq_version_time :: "version_time \<Rightarrow> version_time \<Rightarrow> bool" where
  "less_eq_version_time a b \<longleftrightarrow> Time a \<le> Time b"

definition less_version_time :: "version_time \<Rightarrow> version_time \<Rightarrow> bool" where
  "less_version_time a b \<longleftrightarrow> Time a < Time b"

instance
  by standard (auto simp: less_eq_version_time_def less_version_time_def version_time.expand)

end

section \<open>Hint collections\<close>

named_theorems iface_defs \<open>definitions of the interface values a component provides\<close>
named_theorems store_laws \<open>laws of the store interfaces\<close>

section \<open>Go maps\<close>

abbreviation wf_gomap :: "('k, 'v) gomap \<Rightarrow> bool" where
  "wf_gomap m \<equiv> distinct (map fst m)"

declare map_of_eq_Some_iff [simp del] Some_eq_map_of_iff [simp del]

lemma map_of_update [simp]: "map_of (AList.update k v m) = (map_of m)(k \<mapsto> v)"
  by (rule AList.update_conv')

lemma map_of_delete [simp]: "map_of (AList.delete k m) = (map_of m)(k := None)"
  by (rule AList.delete_conv')

lemma wf_gomap_update [simp, intro]: "wf_gomap m \<Longrightarrow> wf_gomap (AList.update k v m)"
  by (rule AList.distinct_update)

lemma wf_gomap_delete [simp, intro]: "wf_gomap m \<Longrightarrow> wf_gomap (AList.delete k m)"
  by (rule AList.distinct_delete)

lemma wf_gomap_mem_iff: "wf_gomap m \<Longrightarrow> (k, v) \<in> set m \<longleftrightarrow> map_of m k = Some v"
  by (auto dest: map_of_SomeD)

lemma map_of_in_keys: "map_of m k = Some v \<Longrightarrow> k \<in> fst ` set m"
  by (force dest: map_of_SomeD)

lemma map_of_eq_None_keys: "map_of m k = None \<longleftrightarrow> k \<notin> fst ` set m"
  by (simp add: map_of_eq_None_iff)

lemma map_of_dom_keys: "dom (map_of m) = fst ` set m"
  by (rule dom_map_of_conv_image_fst)

lemma wf_gomap_card: "wf_gomap m \<Longrightarrow> card (dom (map_of m)) = length m"
  by (metis dom_map_of_conv_image_fst length_map list.set_map distinct_card)

lemma wf_gomap_eq_lengthI:
  assumes "wf_gomap m" "wf_gomap n" "length m = length n" "map_of m \<subseteq>\<^sub>m map_of n"
  shows "map_of m = map_of n"
proof -
  have sub: "dom (map_of m) \<subseteq> dom (map_of n)"
    using assms(4) by (rule map_le_implies_dom_le)
  have "card (dom (map_of m)) = length m" "card (dom (map_of n)) = length n"
    using assms(1,2) by (simp_all add: wf_gomap_card)
  then have "dom (map_of m) = dom (map_of n)"
    using sub assms(3) by (metis card_subset_eq finite_dom_map_of)
  then show ?thesis
    using assms(4) by (metis map_le_antisym map_le_def)
qed

lemma wf_gomap_length_eq:
  assumes "wf_gomap m" "wf_gomap n" "map_of m = map_of n"
  shows "length m = length n"
proof -
  have "card (dom (map_of m)) = length m" "card (dom (map_of n)) = length n"
    using assms(1,2) by (simp_all add: wf_gomap_card)
  then show ?thesis using assms(3) by simp
qed

text \<open>A loop that assigns one entry per element.\<close>

definition put_all :: "('a \<Rightarrow> 'k) \<Rightarrow> ('a \<Rightarrow> 'v) \<Rightarrow> 'a list \<Rightarrow> ('k, 'v) gomap \<Rightarrow> ('k, 'v) gomap" where
  "put_all f g xs m = fold (\<lambda>x. AList.update (f x) (g x)) xs m"

lemma put_all_simps [simp]:
  "put_all f g [] m = m"
  "put_all f g (x # xs) m = put_all f g xs (AList.update (f x) (g x) m)"
  "put_all f g (xs @ [y]) m = AList.update (f y) (g y) (put_all f g xs m)"
  by (simp_all add: put_all_def)

lemma wf_put_all [simp, intro]: "wf_gomap m \<Longrightarrow> wf_gomap (put_all f g xs m)"
  by (induction xs arbitrary: m) simp_all

lemma map_of_put_all_notin: "k \<notin> f ` set xs \<Longrightarrow> map_of (put_all f g xs m) k = map_of m k"
  by (induction xs arbitrary: m) auto

lemma map_of_put_all_SomeD:
  "map_of (put_all f g xs m) k = Some v \<Longrightarrow> (\<exists>x\<in>set xs. f x = k \<and> g x = v) \<or> map_of m k = Some v"
  by (induction xs rule: rev_induct) (auto split: if_splits)

lemma map_of_put_all_in: "k \<in> f ` set xs \<Longrightarrow> \<exists>x\<in>set xs. f x = k \<and> map_of (put_all f g xs m) k = Some (g x)"
  by (induction xs rule: rev_induct) (auto simp: map_of_put_all_notin)

lemma put_all_nonempty: "xs \<noteq> [] \<Longrightarrow> put_all f g xs m \<noteq> []"
  by (induction xs rule: rev_induct) simp_all

lemma keys_put_all: "fst ` set (put_all f g xs m) = fst ` set m \<union> f ` set xs"
  by (induction xs arbitrary: m) (auto simp: AList.dom_update)

text \<open>A loop that deletes one key per element.\<close>

definition del_all :: "'k list \<Rightarrow> ('k, 'v) gomap \<Rightarrow> ('k, 'v) gomap" where
  "del_all ks m = fold AList.delete ks m"

lemma del_all_simps [simp]:
  "del_all [] m = m"
  "del_all (k # ks) m = del_all ks (AList.delete k m)"
  by (simp_all add: del_all_def)

lemma wf_del_all [simp, intro]: "wf_gomap m \<Longrightarrow> wf_gomap (del_all ks m)"
  by (induction ks arbitrary: m) simp_all

lemma map_of_del_all: "map_of (del_all ks m) k = (if k \<in> set ks then None else map_of m k)"
  by (induction ks arbitrary: m) auto

section \<open>Lists\<close>

lemma sort_eq_iff_mset: "sort xs = sort ys \<longleftrightarrow> mset xs = mset (ys :: 'a::linorder list)"
  by (metis mset_sort properties_for_sort sorted_sort)

lemma map_filter_eq_Nil: "filter P xs = [] \<longleftrightarrow> (\<forall>x\<in>set xs. \<not> P x)"
  by (simp add: filter_empty_conv)

lemma find_SomeD: "find P xs = Some x \<Longrightarrow> x \<in> set xs \<and> P x"
  by (induction xs) (auto split: if_splits)

lemma find_None_iff': "find P xs = None \<longleftrightarrow> (\<forall>x\<in>set xs. \<not> P x)"
  by (auto simp: find_None_iff)

lemma Max_set_sorted: "sorted xs \<Longrightarrow> xs \<noteq> [] \<Longrightarrow> Max (set xs) = last xs"
  by (induction xs rule: rev_induct) (auto simp: sorted_append intro!: Max_eqI)

lemma sorted_le_last: "sorted xs \<Longrightarrow> x \<in> set xs \<Longrightarrow> x \<le> last xs"
  by (induction xs rule: rev_induct) (auto simp: sorted_append)

lemma filter_unique: "distinct (map k xs) \<Longrightarrow> x \<in> set xs \<Longrightarrow> filter (\<lambda>y. k y = k x) xs = [x]"
  by (induction xs) (auto simp: filter_empty_conv image_iff)

lemma find_unique: "distinct (map k xs) \<Longrightarrow> x \<in> set xs \<Longrightarrow> find (\<lambda>y. k y = k x) xs = Some x"
  by (induction xs) (auto simp: image_iff)

lemma put_all_distinct:
  assumes "distinct (map f xs)"
  shows "put_all f g xs [] = map (\<lambda>x. (f x, g x)) xs"
proof -
  have "put_all f g xs m = m @ map (\<lambda>x. (f x, g x)) xs" if "f ` set xs \<inter> fst ` set m = {}" for m
    using assms that
  proof (induction xs arbitrary: m)
    case (Cons x xs)
    have "AList.update (f x) (g x) m = m @ [(f x, g x)]"
      using Cons.prems(2) by (induction m) auto
    with Cons show ?case by auto
  qed simp
  from this [of "[]"] show ?thesis by simp
qed

end
