(* ===== verification/Errors.thy ===== *)
theory Errors
  imports Prelude
begin

text \<open>
  The error values of \<open>errors.go\<close> and the parts of Go's \<open>errors\<close> package the code uses.

  A Go error is a tree: \<open>fmt.Errorf\<close> and \<open>errs.Errorf\<close> with \<open>%w\<close> wrap errors
  (\<open>Errorf\<close>), \<open>errors.Join\<close> joins several (\<open>Join\<close>). \<open>errs.WrapWithFuncParams\<close> adds
  the parameters of the call to the message only, so it is the identity here.
  The values of other packages that \<open>errors.Is\<close> is asked for are constructors of
  their own; every other error of a library or a service is \<open>OtherErr\<close>.
\<close>

datatype err =
    ErrNoChanges
  | ErrNotImplemented
  | ErrReadonly
  | ErrDocumentNotFound uuid
  | ErrDocumentFileNotFound uuid string
  | ErrDocumentVersionNotFound uuid version_time
  | ErrDocumentAlreadyExists uuid
  | ErrVersionAlreadyExists uuid version_time
  | ErrPathConflict uuid uuid string string
  | ErrDocumentChanged uuid version_time
  | OsErrNotExist | OsErrExist | SqlErrNoRows | ErrsErrNotFound
  | ErrPathDoesNotExist string
  | ErrUniqueViolation
  | NoSuchKey
  | OtherErr string
  | Errorf string "err list"
  | Join "err list"

text \<open>The methods \<open>Is\<close> of the error types of \<open>errors.go\<close>.\<close>

fun Is_method :: "err \<Rightarrow> err \<Rightarrow> bool" where
  "Is_method (ErrDocumentNotFound _) target =
     (target = OsErrNotExist \<or> target = SqlErrNoRows \<or> target = ErrsErrNotFound)"
| "Is_method (ErrDocumentFileNotFound _ _) target = (target = ErrsErrNotFound \<or> target = OsErrNotExist)"
| "Is_method (ErrDocumentVersionNotFound _ _) target = (target = ErrsErrNotFound)"
| "Is_method (ErrPathConflict _ _ _ _) target = (target = OsErrExist)"
| "Is_method (ErrPathDoesNotExist _) target = (target = OsErrNotExist)"
| "Is_method _ target = False"

text \<open>\<open>errors.Is\<close>: the tree holds the target or an error whose \<open>Is\<close> accepts it.\<close>

fun errors_Is :: "err \<Rightarrow> err \<Rightarrow> bool" where
  "errors_Is (Errorf msg es) target = list_ex (\<lambda>e. errors_Is e target) es"
| "errors_Is (Join es) target = list_ex (\<lambda>e. errors_Is e target) es"
| "errors_Is e target = (e = target \<or> Is_method e target)"

text \<open>
  \<open>errors.As\<close> and \<open>errs.Has\<close>: the tree holds an error of a type, given by its
  discriminator.
\<close>

fun errors_As :: "(err \<Rightarrow> bool) \<Rightarrow> err \<Rightarrow> bool" where
  "errors_As P (Errorf msg es) = list_ex (errors_As P) es"
| "errors_As P (Join es) = list_ex (errors_As P) es"
| "errors_As P e = P e"

fun is_DocumentAlreadyExists :: "err \<Rightarrow> bool" where
  "is_DocumentAlreadyExists (ErrDocumentAlreadyExists _) = True"
| "is_DocumentAlreadyExists _ = False"

fun is_DocumentVersionNotFound :: "err \<Rightarrow> bool" where
  "is_DocumentVersionNotFound (ErrDocumentVersionNotFound _ _) = True"
| "is_DocumentVersionNotFound _ = False"

fun is_DocumentFileNotFound :: "err \<Rightarrow> bool" where
  "is_DocumentFileNotFound (ErrDocumentFileNotFound _ _) = True"
| "is_DocumentFileNotFound _ = False"

fun is_UniqueViolation :: "err \<Rightarrow> bool" where
  "is_UniqueViolation ErrUniqueViolation = True"
| "is_UniqueViolation _ = False"

text \<open>\<open>errors.Join\<close> drops nil errors and returns nil when none is left.\<close>

definition errors_Join :: "err option list \<Rightarrow> err option" where
  "errors_Join es = (case List.map_filter id es of [] \<Rightarrow> None | xs \<Rightarrow> Some (Join xs))"

text \<open>
  The result of a call that may also panic, such as a user's callback:
  \<open>Ret\<close> a value, \<open>Fail\<close> an error, or \<open>Panic\<close>.
\<close>

datatype 'a outcome = Ret 'a | Fail err | Panic string

text \<open>\<open>defer errs.RecoverPanicAsError(&err)\<close> turns a panic into an error.\<close>

fun recovered :: "'a outcome \<Rightarrow> err + 'a" where
  "recovered (Ret x) = Inr x"
| "recovered (Fail e) = Inl e"
| "recovered (Panic msg) = Inl (OtherErr msg)"

fun to_outcome :: "err + 'a \<Rightarrow> 'a outcome" where
  "to_outcome (Inl e) = Fail e"
| "to_outcome (Inr x) = Ret x"

text \<open>
  An error that comes from outside the repository (a driver, a service): none of the
  repository's own error values, no not-found sentinel, no unique violation.
\<close>

definition foreign_err :: "err \<Rightarrow> bool" where
  "foreign_err e \<longleftrightarrow> \<not> errors_As is_DocumentAlreadyExists e \<and> \<not> errors_As is_UniqueViolation e
     \<and> \<not> errors_Is e OsErrNotExist \<and> \<not> errors_Is e ErrNoChanges"

section \<open>Lemmas\<close>

lemma errors_Join_None_iff: "errors_Join es = None \<longleftrightarrow> set es \<subseteq> {None}"
  by (induction es) (auto simp: errors_Join_def List.map_filter_simps split: option.splits list.splits)

lemma errors_Is_Join2 [simp]: "errors_Is (Join [a, b]) t \<longleftrightarrow> errors_Is a t \<or> errors_Is b t"
  by simp

lemma recovered_eq_Inr [simp]: "recovered r = Inr x \<longleftrightarrow> r = Ret x"
  by (cases r) auto

lemma to_outcome_iffs [simp]:
  "to_outcome r = Ret x \<longleftrightarrow> r = Inr x"
  "to_outcome r = Fail e \<longleftrightarrow> r = Inl e"
  "to_outcome r \<noteq> Panic m"
  by (cases r; auto)+

lemma foreign_errD:
  assumes "foreign_err e"
  shows "\<not> errors_As is_DocumentAlreadyExists e" "\<not> errors_As is_UniqueViolation e"
    "\<not> errors_Is e OsErrNotExist"
  using assms by (auto simp: foreign_err_def)

end
