(* ===== verification/VersionTime.thy ===== *)
theory VersionTime
  imports Errors
begin

text \<open>
  \<open>versiontime.go\<close>: the timestamps that name document versions, their comparison
  (truncated to milliseconds), their text form and its parser. \<open>time.Time\<close> is a
  number of nanoseconds; the calendar is the proleptic Gregorian one of Go's
  \<open>time\<close> package, and \<open>Format\<close> and \<open>ParseInLocation\<close> are modelled for the two
  layouts the file uses.
\<close>

section \<open>Truncation and comparison\<close>

definition millisecond :: int where "millisecond = 1000000"

text \<open>\<open>time.Time.Truncate\<close> rounds down to a multiple of the duration since the zero time.\<close>

definition truncate_ms :: "int \<Rightarrow> int" where
  "truncate_ms t = t - t mod millisecond"

definition IsZero :: "version_time \<Rightarrow> bool" where
  "IsZero v \<longleftrightarrow> Time v = 0"

definition VersionTimeFrom :: "int \<Rightarrow> version_time" where
  "VersionTimeFrom t = (if t = 0 then VersionTime 0 else VersionTime (truncate_ms t))"

definition VersionTime_Validate :: "version_time \<Rightarrow> err option" where
  "VersionTime_Validate v = (if IsZero v then Some (OtherErr ''invalid zero VersionTime'') else None)"

definition After :: "version_time \<Rightarrow> version_time \<Rightarrow> bool" where
  "After v other \<longleftrightarrow> truncate_ms (Time v) > truncate_ms (Time other)"

definition Before :: "version_time \<Rightarrow> version_time \<Rightarrow> bool" where
  "Before v other \<longleftrightarrow> truncate_ms (Time v) < truncate_ms (Time other)"

definition VersionTime_Equal :: "version_time \<Rightarrow> version_time \<Rightarrow> bool" where
  "VersionTime_Equal v other \<longleftrightarrow> truncate_ms (Time v) = truncate_ms (Time other)"

definition Compare :: "version_time \<Rightarrow> version_time \<Rightarrow> int" where
  "Compare v r =
     (let a = truncate_ms (Time v); b = truncate_ms (Time r)
      in if a < b then -1 else if a > b then 1 else 0)"

text \<open>\<open>Value\<close>, the value a \<open>VersionTime\<close> has as an SQL parameter.\<close>

definition VersionTime_Value :: "version_time \<Rightarrow> err + version_time" where
  "VersionTime_Value v =
     (case VersionTime_Validate v of
        Some e \<Rightarrow> Inl e
      | None \<Rightarrow> Inr (VersionTime (truncate_ms (Time v))))"

section \<open>The calendar\<close>

definition leap :: "int \<Rightarrow> bool" where
  "leap y \<longleftrightarrow> y mod 4 = 0 \<and> (y mod 100 \<noteq> 0 \<or> y mod 400 = 0)"

definition month_lengths :: "int \<Rightarrow> int list" where
  "month_lengths y = [31, if leap y then 29 else 28, 31, 30, 31, 30, 31, 31, 30, 31, 30, 31]"

definition daysIn :: "int \<Rightarrow> int \<Rightarrow> int" where
  "daysIn m y = month_lengths y ! nat (m - 1)"

text \<open>Days from January 1 of year 1 to January 1 of year \<open>y\<close>.\<close>

definition days_before_year :: "int \<Rightarrow> int" where
  "days_before_year y = (let n = y - 1 in 365 * n + n div 4 - n div 100 + n div 400)"

definition year_of_day :: "int \<Rightarrow> int" where
  "year_of_day d =
     (let y = (400 * d) div 146097 + 1
      in if d < days_before_year y then y - 1
         else if d < days_before_year (y + 1) then y
         else y + 1)"

fun split_month :: "int \<Rightarrow> int list \<Rightarrow> int \<Rightarrow> int \<times> int" where
  "split_month m [] d = (m, d + 1)"
| "split_month m (l # ls) d = (if d < l then (m, d + 1) else split_month (m + 1) ls (d - l))"

definition date_of_day :: "int \<Rightarrow> int \<times> int \<times> int" where
  "date_of_day d = (let y = year_of_day d; (m, dd) = split_month 1 (month_lengths y) (d - days_before_year y)
                    in (y, m, dd))"

definition day_of_date :: "int \<Rightarrow> int \<Rightarrow> int \<Rightarrow> int" where
  "day_of_date y m d = days_before_year y + sum_list (take (nat (m - 1)) (month_lengths y)) + d - 1"

section \<open>Formatting\<close>

definition digit_char :: "nat \<Rightarrow> char" where
  "digit_char d = char_of (48 + d)"

fun dec :: "nat \<Rightarrow> string" where
  "dec n = (if n < 10 then [digit_char n] else dec (n div 10) @ [digit_char (n mod 10)])"

declare dec.simps [simp del]

text \<open>Go's \<open>appendInt\<close>: the decimal digits, padded with zeros to a width.\<close>

definition append_int :: "int \<Rightarrow> nat \<Rightarrow> string" where
  "append_int x width =
     (let s = dec (nat \<bar>x\<bar>)
      in (if x < 0 then ''-'' else []) @ replicate (width - length s) CHR ''0'' @ s)"

definition ns_per_day :: int where "ns_per_day = 86400 * 1000000000"

text \<open>\<open>String\<close> is \<open>Format("2006-01-02_15-04-05.000")\<close>.\<close>

definition VersionTime_String :: "version_time \<Rightarrow> string" where
  "VersionTime_String v =
     (let t = Time v;
          (y, mo, d) = date_of_day (t div ns_per_day);
          sec = (t mod ns_per_day) div 1000000000;
          frac = (t mod 1000000000) div millisecond
      in append_int y 4 @ ''-'' @ append_int mo 2 @ ''-'' @ append_int d 2 @ ''_''
         @ append_int (sec div 3600) 2 @ ''-'' @ append_int (sec mod 3600 div 60) 2
         @ ''-'' @ append_int (sec mod 60) 2 @ ''.'' @ append_int frac 3)"

section \<open>Parsing\<close>

definition is_digit :: "char \<Rightarrow> bool" where
  "is_digit c \<longleftrightarrow> 48 \<le> (of_char c :: nat) \<and> (of_char c :: nat) \<le> 57"

definition digit_val :: "char \<Rightarrow> int" where
  "digit_val c = int (of_char c) - 48"

fun leadingInt :: "int \<Rightarrow> string \<Rightarrow> int \<times> string" where
  "leadingInt acc [] = (acc, [])"
| "leadingInt acc (c # s) = (if is_digit c then leadingInt (10 * acc + digit_val c) s else (acc, c # s))"

text \<open>Go's \<open>atoi\<close> of the \<open>time\<close> package: an optional sign, then digits only.\<close>

definition atoi :: "string \<Rightarrow> int option" where
  "atoi s =
     (let (neg, s') = (case s of c # r \<Rightarrow> if c = CHR ''-'' then (True, r)
                                          else if c = CHR ''+'' then (False, r) else (False, s)
                       | [] \<Rightarrow> (False, []));
          (x, rem) = leadingInt 0 s'
      in if rem \<noteq> [] then None else Some (if neg then - x else x))"

text \<open>Go's \<open>getnum\<close>: two digits, or one if the field is not fixed.\<close>

fun getnum :: "bool \<Rightarrow> string \<Rightarrow> (int \<times> string) option" where
  "getnum fixed [] = None"
| "getnum fixed (a # s) =
     (if \<not> is_digit a then None
      else case s of
        b # r \<Rightarrow> if is_digit b then Some (10 * digit_val a + digit_val b, r)
                 else if fixed then None else Some (digit_val a, s)
      | [] \<Rightarrow> if fixed then None else Some (digit_val a, []))"

text \<open>
  Go's \<open>skip\<close>: a space of the layout matches any number of spaces (at least one,
  unless the value is at its end), every other character itself.
\<close>

fun skip :: "char \<Rightarrow> string \<Rightarrow> string option" where
  "skip c s =
     (if c = CHR '' ''
      then (case s of [] \<Rightarrow> Some []
            | a # _ \<Rightarrow> if a = CHR '' '' then Some (dropWhile (\<lambda>x. x = CHR '' '') s) else None)
      else case s of [] \<Rightarrow> None | a # r \<Rightarrow> if a = c then Some r else None)"

definition getyear :: "string \<Rightarrow> (int \<times> string) option" where
  "getyear s =
     (if length s < 4 \<or> \<not> is_digit (hd s) then None
      else map_option (\<lambda>y. (y, drop 4 s)) (atoi (take 4 s)))"

definition comma_or_period :: "char \<Rightarrow> bool" where
  "comma_or_period c \<longleftrightarrow> c = CHR ''.'' \<or> c = CHR '',''"

text \<open>Go's \<open>parseNanoseconds\<close>: at most nine digits are read, scaled to nanoseconds.\<close>

definition parseNanoseconds :: "string \<Rightarrow> nat \<Rightarrow> int option" where
  "parseNanoseconds value nbytes =
     (if value = [] \<or> \<not> comma_or_period (hd value) then None
      else let n = min nbytes 10
           in case atoi (drop 1 (take n value)) of
                None \<Rightarrow> None
              | Some ns \<Rightarrow> if ns < 0 then None else Some (ns * 10 ^ (10 - n)))"

text \<open>The layout element \<open>.000\<close>: a separator and exactly three digits.\<close>

definition frac_000 :: "string \<Rightarrow> (int \<times> string) option" where
  "frac_000 s = (if length s < 4 then None else map_option (\<lambda>ns. (ns, drop 4 s)) (parseNanoseconds s 4))"

text \<open>The layout element \<open>.999\<close>: optional, any number of digits.\<close>

definition frac_999 :: "string \<Rightarrow> (int \<times> string) option" where
  "frac_999 s =
     (if length s < 2 \<or> \<not> comma_or_period (hd s) \<or> \<not> is_digit (s ! 1) then Some (0, s)
      else let i = length (takeWhile is_digit (drop 1 s))
           in map_option (\<lambda>ns. (ns, drop (i + 1) s)) (parseNanoseconds s (i + 1)))"

text \<open>
  \<open>time.ParseInLocation\<close> for a layout \<open>2006-01-02<a>15<b>04<b>05<frac>\<close>: month and
  clock fields are checked as they are read, the day against its month at the end.
\<close>

definition parse_layout ::
  "char \<Rightarrow> char \<Rightarrow> (string \<Rightarrow> (int \<times> string) option) \<Rightarrow> string \<Rightarrow> int option" where
  "parse_layout a b frac str =
     do { (y, s) \<leftarrow> getyear str;
          s \<leftarrow> skip CHR ''-'' s;
          (mo, s) \<leftarrow> getnum True s;
          (if mo \<le> 0 \<or> 12 < mo then None else Some ());
          s \<leftarrow> skip CHR ''-'' s;
          (d, s) \<leftarrow> getnum True s;
          s \<leftarrow> skip a s;
          (h, s) \<leftarrow> getnum False s;
          (if h < 0 \<or> 24 \<le> h then None else Some ());
          s \<leftarrow> skip b s;
          (mi, s) \<leftarrow> getnum True s;
          (if mi < 0 \<or> 60 \<le> mi then None else Some ());
          s \<leftarrow> skip b s;
          (se, s) \<leftarrow> getnum True s;
          (if se < 0 \<or> 60 \<le> se then None else Some ());
          (ns, s) \<leftarrow> frac s;
          (if s \<noteq> [] then None
           else if d < 1 \<or> d > daysIn mo y then None
           else Some (day_of_date y mo d * ns_per_day
                      + (3600 * h + 60 * mi + se) * 1000000000 + ns)) }"

definition VersionTimeFromString :: "string \<Rightarrow> err + version_time" where
  "VersionTimeFromString str =
     (case parse_layout CHR ''_'' CHR ''-'' frac_000 str of
        Some t \<Rightarrow> Inr (VersionTime t)
      | None \<Rightarrow>
         (case parse_layout CHR '' '' CHR '':'' frac_999 str of
            Some t \<Rightarrow> Inr (VersionTime t)
          | None \<Rightarrow> Inl (OtherErr ''error parsing as docdb.VersionTime'')))"

definition MustVersionTimeFromString :: "string \<Rightarrow> version_time outcome" where
  "MustVersionTimeFromString str =
     (case VersionTimeFromString str of
        Inl e \<Rightarrow> Panic ''error parsing as docdb.VersionTime''
      | Inr version \<Rightarrow> Ret version)"

definition VersionTime_MarshalText :: "version_time \<Rightarrow> err + string" where
  "VersionTime_MarshalText v = Inr (VersionTime_String v)"

text \<open>\<open>UnmarshalText\<close> assigns to the receiver only when the text can be parsed.\<close>

definition VersionTime_UnmarshalText :: "string \<Rightarrow> version_time \<Rightarrow> err option \<times> version_time" where
  "VersionTime_UnmarshalText text v =
     (case VersionTimeFromString text of
        Inl e \<Rightarrow> (Some e, v)
      | Inr vt \<Rightarrow> (None, vt))"

text \<open>\<open>Scan\<close> reads a time or a text column.\<close>

datatype scan_value = ScanTime int | ScanBytes string | ScanString string | ScanOther

fun VersionTime_Scan :: "scan_value \<Rightarrow> err + version_time" where
  "VersionTime_Scan (ScanTime t) = Inr (VersionTimeFrom t)"
| "VersionTime_Scan (ScanBytes s) = VersionTimeFromString s"
| "VersionTime_Scan (ScanString s) = VersionTimeFromString s"
| "VersionTime_Scan ScanOther = Inl (OtherErr ''unable to scan as docdb.VersionTime'')"

section \<open>Lemmas: comparison\<close>

lemma truncate_ms_idem [simp]: "truncate_ms (truncate_ms t) = truncate_ms t"
  by (simp add: truncate_ms_def millisecond_def mod_diff_left_eq [symmetric])

lemma truncate_ms_le: "truncate_ms t \<le> t"
  by (simp add: truncate_ms_def millisecond_def)

lemma truncate_ms_0 [simp]: "truncate_ms 0 = 0"
  by (simp add: truncate_ms_def)

abbreviation ms_trunc :: "version_time \<Rightarrow> version_time" where
  "ms_trunc v \<equiv> VersionTime (truncate_ms (Time v))"

lemma Equal_iff_ms_trunc: "VersionTime_Equal v w \<longleftrightarrow> ms_trunc v = ms_trunc w"
  by (simp add: VersionTime_Equal_def)

lemma After_iff_ms_trunc: "After v w \<longleftrightarrow> ms_trunc w < ms_trunc v"
  by (simp add: After_def less_version_time_def)

lemma Value_eq_Inr_iff: "VersionTime_Value v = Inr w \<longleftrightarrow> Time v \<noteq> 0 \<and> w = ms_trunc v"
  by (auto simp: VersionTime_Value_def VersionTime_Validate_def IsZero_def)

lemma Validate_None_iff: "VersionTime_Validate v = None \<longleftrightarrow> Time v \<noteq> 0"
  by (simp add: VersionTime_Validate_def IsZero_def)

lemma VersionTimeFrom_ms_trunc [simp]: "ms_trunc (VersionTimeFrom t) = VersionTimeFrom t"
  by (simp add: VersionTimeFrom_def)

section \<open>Lemmas: decimal digits\<close>

lemma of_char_digit_char: "k < 10 \<Longrightarrow> (of_char (digit_char k) :: nat) = 48 + k"
  by (simp add: digit_char_def)

lemma is_digit_digit_char [simp]: "k < 10 \<Longrightarrow> is_digit (digit_char k)"
  by (simp add: is_digit_def of_char_digit_char)

lemma digit_val_digit_char [simp]: "k < 10 \<Longrightarrow> digit_val (digit_char k) = int k"
  by (simp add: digit_val_def of_char_digit_char)

lemma digit_char_0: "digit_char 0 = CHR ''0''"
  by code_simp

lemma div_10_div_10: "(n::nat) div 10 div 10 = n div 100" "(n::nat) div 100 div 10 = n div 1000"
  using div_mult2_eq [of n 10 10] div_mult2_eq [of n 100 10] by simp_all

lemma decimal_3: "(n::nat) = 100 * (n div 100) + 10 * (n div 10 mod 10) + n mod 10"
  using mult_div_mod_eq [of 10 n] mult_div_mod_eq [of 10 "n div 10"]
  unfolding div_10_div_10 by linarith

lemma decimal_4: "(n::nat) = 1000 * (n div 1000) + 100 * (n div 100 mod 10) + 10 * (n div 10 mod 10) + n mod 10"
  using decimal_3 [of n] mult_div_mod_eq [of 10 "n div 100"]
  unfolding div_10_div_10 by linarith

section \<open>Lemmas: the calendar\<close>

lemma int_div_bounds:
  assumes "0 < (k::int)"
  shows "k * (n div k) \<le> n" "n < k * (n div k) + k"
proof -
  have "n = k * (n div k) + n mod k" by simp
  moreover have "0 \<le> n mod k" "n mod k < k" using assms by simp_all
  ultimately show "k * (n div k) \<le> n" "n < k * (n div k) + k" by linarith+
qed

lemma int_pred_div:
  assumes "1 < (k::int)"
  shows "(y - 1) div k = (if y mod k = 0 then y div k - 1 else y div k)"
proof (cases "y mod k = 0")
  case True
  then have "y - 1 = k * (y div k - 1) + (k - 1)"
    using mult_div_mod_eq [of k y] by (simp add: algebra_simps)
  then have "(y - 1) div k = y div k - 1"
    by (rule int_div_pos_eq) (use assms in auto)
  with True show ?thesis by simp
next
  case False
  have "y - 1 = k * (y div k) + (y mod k - 1)"
    by simp
  then have "(y - 1) div k = y div k"
    by (rule int_div_pos_eq)
       (use assms False pos_mod_sign [of k y] pos_mod_bound [of k y] in linarith)+
  with False show ?thesis by simp
qed

lemma dec_1: "n < 10 \<Longrightarrow> dec n = [digit_char n]"
  by (simp add: dec.simps)

lemma dec_step: "10 \<le> n \<Longrightarrow> dec n = dec (n div 10) @ [digit_char (n mod 10)]"
  by (subst dec.simps) simp

lemma append_int_2:
  assumes "0 \<le> x" "x < 100"
  shows "append_int x 2 = [digit_char (nat x div 10), digit_char (nat x mod 10)]"
proof (cases "nat x < 10")
  case True
  then show ?thesis
    using assms by (simp add: append_int_def dec_1 digit_char_0 numeral_2_eq_2)
next
  case False
  then have "10 \<le> nat x" "nat x div 10 < 10" using assms by auto
  then show ?thesis
    using assms by (simp add: append_int_def dec_step dec_1)
qed

lemma append_int_3:
  assumes "0 \<le> x" "x < 1000"
  shows "append_int x 3 =
    [digit_char (nat x div 100), digit_char (nat x div 10 mod 10), digit_char (nat x mod 10)]"
proof -
  have k: "nat x < 1000" using assms by auto
  consider "nat x < 10" | "10 \<le> nat x" "nat x < 100" | "100 \<le> nat x" by linarith
  then show ?thesis
  proof cases
    case 1
    then show ?thesis
      using assms by (simp add: append_int_def dec_1 digit_char_0 numeral_3_eq_3)
  next
    case 2
    then show ?thesis
      using assms by (simp add: append_int_def dec_step dec_1 digit_char_0 numeral_3_eq_3)
  next
    case 3
    then have "10 \<le> nat x" "10 \<le> nat x div 10" "nat x div 10 div 10 < 10"
      using k by auto
    then show ?thesis
      using assms by (simp add: append_int_def dec_step dec_1 div_mult2_eq [symmetric])
  qed
qed

lemma append_int_4:
  assumes "0 \<le> x" "x < 10000"
  shows "append_int x 4 = [digit_char (nat x div 1000), digit_char (nat x div 100 mod 10),
    digit_char (nat x div 10 mod 10), digit_char (nat x mod 10)]"
proof -
  have k: "nat x < 10000" using assms by auto
  consider "nat x < 10" | "10 \<le> nat x" "nat x < 100" | "100 \<le> nat x" "nat x < 1000" | "1000 \<le> nat x"
    by linarith
  then show ?thesis
  proof cases
    case 1
    then show ?thesis
      using assms by (simp add: append_int_def dec_1 digit_char_0 numeral_3_eq_3)
  next
    case 2
    then show ?thesis
      using assms by (simp add: append_int_def dec_step dec_1 digit_char_0 numeral_2_eq_2)
  next
    case 3
    then have "10 \<le> nat x" "10 \<le> nat x div 10" "nat x div 10 div 10 < 10"
      using k by auto
    then show ?thesis
      using assms 3
      by (simp add: append_int_def dec_step dec_1 div_mult2_eq [symmetric] digit_char_0)
  next
    case 4
    then have "10 \<le> nat x" "10 \<le> nat x div 10" "10 \<le> nat x div 10 div 10" "nat x div 10 div 10 div 10 < 10"
      using k by auto
    then show ?thesis
      using assms by (simp add: append_int_def dec_step dec_1 div_mult2_eq [symmetric])
  qed
qed

lemma getnum_append_int_2:
  assumes "0 \<le> x" "x < 100"
  shows "getnum f (append_int x 2 @ r) = Some (x, r)"
proof -
  have "nat x div 10 < 10" using assms by auto
  then show ?thesis
    using assms by (simp add: append_int_2 zdiv_int zmod_int)
qed

lemma atoi_digits:
  assumes "k < 10" "s = digit_char k # r" "leadingInt 0 s = (x, [])"
  shows "atoi s = Some x"
proof -
  have "digit_char k \<noteq> CHR ''-''" "digit_char k \<noteq> CHR ''+''"
    using is_digit_digit_char [OF assms(1)] by (auto simp: is_digit_def)
  then show ?thesis
    using assms(2,3) by (simp add: atoi_def)
qed

lemma leadingInt_digits:
  assumes "a < 10" "b < 10" "c < 10" "d < 10"
  shows "leadingInt 0 [digit_char a, digit_char b, digit_char c] = (int (100 * a + 10 * b + c), [])"
    "leadingInt 0 [digit_char a, digit_char b, digit_char c, digit_char d] = (int (1000 * a + 100 * b + 10 * c + d), [])"
  using assms by simp_all

lemma atoi_append_int_4:
  assumes "0 \<le> x" "x < 10000"
  shows "atoi (append_int x 4) = Some x"
proof -
  have k: "nat x div 1000 < 10" "nat x div 100 mod 10 < 10" "nat x div 10 mod 10 < 10" "nat x mod 10 < 10"
    using assms by auto
  have "leadingInt 0 (append_int x 4) = (int (nat x), [])"
    using leadingInt_digits(2) [OF k] assms unfolding append_int_4 [OF assms] decimal_4 [symmetric] by simp
  then show ?thesis
    using atoi_digits [OF k(1) append_int_4 [OF assms]] assms(1) by simp
qed

lemma atoi_append_int_3:
  assumes "0 \<le> x" "x < 1000"
  shows "atoi (append_int x 3) = Some x"
proof -
  have k: "nat x div 100 < 10" "nat x div 10 mod 10 < 10" "nat x mod 10 < 10" "(0::nat) < 10"
    using assms by auto
  have "leadingInt 0 (append_int x 3) = (int (nat x), [])"
    using leadingInt_digits(1) [OF k] assms unfolding append_int_3 [OF assms] decimal_3 [symmetric] by simp
  then show ?thesis
    using atoi_digits [OF k(1) append_int_3 [OF assms]] assms(1) by simp
qed

lemma getyear_append_int_4:
  assumes "0 \<le> x" "x < 10000"
  shows "getyear (append_int x 4 @ r) = Some (x, r)"
proof -
  have "nat x div 1000 < 10" using assms by auto
  then have "is_digit (hd (append_int x 4))" "length (append_int x 4) = 4"
    using assms by (simp_all add: append_int_4)
  then show ?thesis
    using atoi_append_int_4 [OF assms] by (cases "append_int x 4") (auto simp: getyear_def)
qed

lemma frac_000_append_int_3:
  assumes "0 \<le> x" "x < 1000"
  shows "frac_000 (CHR ''.'' # append_int x 3) = Some (x * millisecond, [])"
proof -
  have "length (append_int x 3) = 3"
    using assms by (simp add: append_int_3)
  then show ?thesis
    using assms atoi_append_int_3 [OF assms]
    by (simp add: frac_000_def parseNanoseconds_def comma_or_period_def millisecond_def min_def)
qed

lemma days_before_year_Suc: "days_before_year (y + 1) = days_before_year y + (if leap y then 366 else 365)"
proof -
  have "y mod 100 = 0 \<Longrightarrow> y mod 4 = 0" "y mod 400 = 0 \<Longrightarrow> y mod 100 = 0"
    by (auto simp: mod_eq_0_iff_dvd elim: dvd_trans [rotated])
  then show ?thesis
    by (auto simp: days_before_year_def leap_def Let_def int_pred_div)
qed

lemma sum_month_lengths: "sum_list (month_lengths y) = (if leap y then 366 else 365)"
  by (simp add: month_lengths_def)

lemma gregorian_bounds:
  assumes "4 * a \<le> n" "n < 4 * a + 4" "100 * b \<le> n" "n < 100 * b + 100"
    "400 * c \<le> n" "n < 400 * c + (400::int)"
  shows "400 * (365 * n + a - b + c) \<le> 146097 * n + 396"
    "146097 * n \<le> 400 * (365 * n + a - b + c) + 699"
  using assms unfolding right_diff_distrib distrib_left by linarith+

lemma days_before_year_bounds:
  "400 * days_before_year y \<le> 146097 * (y - 1) + 396"
  "146097 * (y - 1) \<le> 400 * days_before_year y + 699"
proof -
  define n where "n = y - 1"
  have a: "4 * (n div 4) \<le> n" "n < 4 * (n div 4) + 4" "100 * (n div 100) \<le> n"
    "n < 100 * (n div 100) + 100" "400 * (n div 400) \<le> n" "n < 400 * (n div 400) + 400"
    by (rule int_div_bounds; simp)+
  have eq: "days_before_year y = 365 * n + n div 4 - n div 100 + n div 400"
    by (simp add: days_before_year_def n_def Let_def)
  have m: "146097 * (y - 1) = 146097 * n"
    by (simp add: n_def)
  show "400 * days_before_year y \<le> 146097 * (y - 1) + 396"
    "146097 * (y - 1) \<le> 400 * days_before_year y + 699"
    unfolding eq m by (rule gregorian_bounds [OF a])+
qed

lemma year_of_day_bounds:
  "days_before_year (year_of_day d) \<le> d" "d < days_before_year (year_of_day d + 1)"
proof -
  define e where "e = (400 * d) div 146097"
  have e: "146097 * e \<le> 400 * d" "400 * d < 146097 * (e + 1)"
    unfolding e_def using int_div_bounds [of 146097 "400 * d"] by (simp_all add: algebra_simps)
  have lo: "days_before_year e \<le> d"
    using days_before_year_bounds(1) [of e] e unfolding right_diff_distrib distrib_left by linarith
  have hi: "d < days_before_year (e + 3)"
    using days_before_year_bounds(2) [of "e + 3"] e unfolding right_diff_distrib distrib_left by linarith
  have y: "year_of_day d = (if d < days_before_year (e + 1) then e
      else if d < days_before_year (e + 2) then e + 1 else e + 2)"
    unfolding year_of_day_def e_def Let_def by (simp add: algebra_simps)
  show "days_before_year (year_of_day d) \<le> d" "d < days_before_year (year_of_day d + 1)"
    using lo hi unfolding y by (auto simp: algebra_simps)
qed

lemma split_month_correct:
  assumes "split_month m ls d = (m', dd)" "0 \<le> d" "d < sum_list ls"
  shows "\<exists>i<length ls. m' = m + int i \<and> 1 \<le> dd \<and> dd \<le> ls ! i \<and> d = sum_list (take i ls) + dd - 1"
  using assms
proof (induction m ls d rule: split_month.induct)
  case (1 m d)
  then show ?case by simp
next
  case (2 m l ls d)
  show ?case
  proof (cases "d < l")
    case True
    with "2.prems" show ?thesis by (intro exI [of _ 0]) auto
  next
    case False
    with "2.prems" "2.IH" obtain i where
      "i < length ls" "m' = m + 1 + int i" "1 \<le> dd" "dd \<le> ls ! i" "d - l = sum_list (take i ls) + dd - 1"
      by auto
    then show ?thesis by (intro exI [of _ "Suc i"]) auto
  qed
qed

lemma date_of_day_correct:
  assumes "date_of_day d = (y, m, dd)"
  shows "1 \<le> m" "m \<le> 12" "1 \<le> dd" "dd \<le> daysIn m y" "dd \<le> 31" "day_of_date y m dd = d" "y = year_of_day d"
proof -
  define r where "r = d - days_before_year (year_of_day d)"
  have y: "y = year_of_day d" and s: "split_month 1 (month_lengths y) r = (m, dd)"
    using assms by (auto simp: date_of_day_def Let_def r_def split: prod.splits)
  have "0 \<le> r" "r < sum_list (month_lengths y)"
    using year_of_day_bounds [of d] by (simp_all add: r_def y sum_month_lengths days_before_year_Suc)
  from split_month_correct [OF s this] obtain i where i:
    "i < 12" "m = 1 + int i" "1 \<le> dd" "dd \<le> month_lengths y ! i"
    "r = sum_list (take i (month_lengths y)) + dd - 1"
    by (auto simp: month_lengths_def)
  show "1 \<le> m" "m \<le> 12" "1 \<le> dd" "dd \<le> daysIn m y" "y = year_of_day d"
    using i y by (auto simp: daysIn_def)
  show "day_of_date y m dd = d"
    using i y by (simp add: day_of_date_def r_def)
  have "\<forall>i<12. month_lengths y ! i \<le> 31"
    by (simp add: month_lengths_def All_less_Suc eval_nat_numeral)
  then show "dd \<le> 31" using i by force
qed

lemma days_before_year_mono:
  assumes "a \<le> b"
  shows "days_before_year a \<le> days_before_year b"
  using assms
proof (induction b rule: int_ge_induct)
  case base
  show ?case by simp
next
  case (step b)
  then show ?case by (auto simp: days_before_year_Suc)
qed

lemma year_of_day_range:
  assumes "0 \<le> d" "d < days_before_year 10000"
  shows "1 \<le> year_of_day d" "year_of_day d < 10000"
proof -
  have "days_before_year 1 = 0" by (simp add: days_before_year_def)
  then show "1 \<le> year_of_day d"
    using year_of_day_bounds(2) [of d] assms(1) days_before_year_mono [of "year_of_day d + 1" 1]
    by linarith
  show "year_of_day d < 10000"
    using year_of_day_bounds(1) [of d] assms(2) days_before_year_mono [of 10000 "year_of_day d"]
    by linarith
qed

section \<open>The text form\<close>

text \<open>The years 1 to 9999, which the four-digit year of the layout can hold.\<close>

definition year_10000 :: int where
  "year_10000 = days_before_year 10000 * ns_per_day"

lemma clock_sum:
  fixes t :: int
  defines "sec \<equiv> (t mod ns_per_day) div 1000000000"
  shows "t div ns_per_day * ns_per_day
      + (3600 * (sec div 3600) + 60 * (sec mod 3600 div 60) + sec mod 60) * 1000000000
      + (t mod 1000000000) div millisecond * millisecond = truncate_ms t"
proof -
  have hms: "3600 * (sec div 3600) + 60 * (sec mod 3600 div 60) + sec mod 60 = sec"
  proof -
    have "sec = 3600 * (sec div 3600) + sec mod 3600" by simp
    moreover have "sec mod 3600 = 60 * (sec mod 3600 div 60) + sec mod 3600 mod 60" by simp
    moreover have "sec mod 3600 mod 60 = sec mod 60" by (rule mod_mod_cancel) simp
    ultimately show ?thesis by linarith
  qed
  have "t mod ns_per_day mod 1000000000 = t mod 1000000000"
    by (rule mod_mod_cancel) (simp add: ns_per_day_def)
  then have day: "t mod ns_per_day = sec * 1000000000 + t mod 1000000000"
    using mult_div_mod_eq [of 1000000000 "t mod ns_per_day"] by (simp add: sec_def)
  have "t mod 1000000000 mod millisecond = t mod millisecond"
    by (rule mod_mod_cancel) (simp add: millisecond_def)
  then have frac: "(t mod 1000000000) div millisecond * millisecond = t mod 1000000000 - t mod millisecond"
    by (metis minus_mod_eq_div_mult)
  have "t = t div ns_per_day * ns_per_day + t mod ns_per_day" by simp
  then show ?thesis
    unfolding truncate_ms_def hms frac using day by linarith
qed

lemma div_less_of_less_mult:
  assumes "t < k * n" "0 < (n::int)"
  shows "t div n < k"
proof -
  have "n * (t div n) < n * k"
    using int_div_bounds(1) [OF assms(2), of t] assms(1) by (simp add: mult.commute)
  then show ?thesis using assms(2) by (simp add: mult_less_cancel_left)
qed

lemma parse_formatted:
  assumes "0 \<le> Time v" "Time v < year_10000"
  shows "VersionTimeFromString (VersionTime_String v) = Inr (ms_trunc v)"
proof -
  define t where "t = Time v"
  define day where "day = t div ns_per_day"
  define sec where "sec = (t mod ns_per_day) div 1000000000"
  define frac where "frac = (t mod 1000000000) div millisecond"
  obtain y mo d where date: "date_of_day day = (y, mo, d)" by (cases "date_of_day day") auto
  have pos: "0 < ns_per_day" by (simp add: ns_per_day_def)
  have day: "0 \<le> day" "day < days_before_year 10000"
    using assms pos unfolding day_def t_def year_10000_def
    by (simp_all add: pos_imp_zdiv_nonneg_iff div_less_of_less_mult)
  note dc = date_of_day_correct [OF date]
  have y: "0 \<le> y" "y < 10000" using year_of_day_range [OF day] dc(7) by auto
  have sec: "0 \<le> sec" "sec < 86400"
  proof -
    have "0 \<le> t mod ns_per_day" "t mod ns_per_day < 86400 * 1000000000"
      using pos by (auto simp: ns_per_day_def)
    then show "0 \<le> sec" "sec < 86400"
      unfolding sec_def by (auto simp: div_less_iff_less_mult pos_imp_zdiv_nonneg_iff)
  qed
  have hms: "0 \<le> sec div 3600" "sec div 3600 < 24" "0 \<le> sec mod 3600 div 60" "sec mod 3600 div 60 < 60"
    "0 \<le> sec mod 60" "sec mod 60 < 60"
    using sec by (auto simp: div_less_iff_less_mult pos_imp_zdiv_nonneg_iff)
  have frac: "0 \<le> frac" "frac < 1000"
    unfolding frac_def by (auto simp: millisecond_def div_less_iff_less_mult pos_imp_zdiv_nonneg_iff)
  define h mi se where "h = sec div 3600" and "mi = sec mod 3600 div 60" and "se = sec mod 60"
  note hms = hms [folded h_def mi_def se_def]
  have str: "VersionTime_String v = append_int y 4 @ CHR ''-'' # append_int mo 2 @ CHR ''-'' # append_int d 2
     @ CHR ''_'' # append_int h 2 @ CHR ''-'' # append_int mi 2
     @ CHR ''-'' # append_int se 2 @ CHR ''.'' # append_int frac 3"
    using date by (simp add: VersionTime_String_def Let_def t_def day_def sec_def frac_def h_def mi_def se_def)
  have sum: "day * ns_per_day + (3600 * h + 60 * mi + se) * 1000000000
      + frac * millisecond = truncate_ms t"
    unfolding day_def sec_def frac_def h_def mi_def se_def by (rule clock_sum)
  have "parse_layout CHR ''_'' CHR ''-'' frac_000 (VersionTime_String v) = Some (truncate_ms t)"
    unfolding str parse_layout_def sum [symmetric] dc(6) [symmetric]
    using y dc(1-5) hms frac
    by (simp add: getyear_append_int_4 getnum_append_int_2 frac_000_append_int_3)
  then show ?thesis
    by (simp add: VersionTimeFromString_def t_def)
qed

lemma trunc_div_mod:
  assumes "0 < n" "n dvd k" "0 < (k::int)"
  shows "(t - t mod n) div k = t div k" "(t - t mod n) mod k = t mod k - t mod k mod n"
proof -
  have m: "t mod n = t mod k mod n" using assms(2) by (simp add: mod_mod_cancel)
  have "t mod k mod n \<le> t mod k"
    using assms pos_mod_sign [of k t] by (simp add: zmod_le_nonneg_dividend)
  then have r: "0 \<le> t mod k - t mod n" "t mod k - t mod n < k"
    using assms m pos_mod_bound [of k t] pos_mod_sign [of n t] by linarith+
  have t: "t - t mod n = k * (t div k) + (t mod k - t mod n)" by simp
  show "(t - t mod n) div k = t div k" "(t - t mod n) mod k = t mod k - t mod k mod n"
    using int_div_pos_eq [OF t r] int_mod_pos_eq [OF t r] m by simp_all
qed

lemma VersionTime_String_ms_trunc: "VersionTime_String (ms_trunc v) = VersionTime_String v"
proof -
  define t where "t = Time v"
  have pos: "0 < millisecond" "0 < ns_per_day" "millisecond dvd ns_per_day"
    "millisecond dvd 1000000000"
    by (simp_all add: millisecond_def ns_per_day_def)
  have "truncate_ms t div ns_per_day = t div ns_per_day"
    unfolding truncate_ms_def by (rule trunc_div_mod(1)) (rule pos)+
  moreover have "truncate_ms t mod ns_per_day div 1000000000 = t mod ns_per_day div 1000000000"
    unfolding truncate_ms_def trunc_div_mod(2) [OF pos(1,3,2)]
    by (rule trunc_div_mod(1)) (use pos in simp_all)
  moreover have "truncate_ms t mod 1000000000 div millisecond = t mod 1000000000 div millisecond"
    unfolding truncate_ms_def trunc_div_mod(2) [OF pos(1,4) zero_less_numeral]
    by (rule trunc_div_mod(1)) (use pos in simp_all)
  ultimately show ?thesis
    by (simp only: VersionTime_String_def t_def [symmetric] Let_def split_def version_time.sel)
qed

lemma VersionTime_String_eq_iff:
  assumes "0 \<le> Time v" "Time v < year_10000" "0 \<le> Time w" "Time w < year_10000"
  shows "VersionTime_String v = VersionTime_String w \<longleftrightarrow> VersionTime_Equal v w"
proof
  assume "VersionTime_String v = VersionTime_String w"
  then show "VersionTime_Equal v w"
    using parse_formatted [OF assms(1,2)] parse_formatted [OF assms(3,4)]
    by (simp add: VersionTime_Equal_def)
next
  assume "VersionTime_Equal v w"
  then have "ms_trunc v = ms_trunc w" by (simp add: VersionTime_Equal_def)
  then show "VersionTime_String v = VersionTime_String w"
    by (metis VersionTime_String_ms_trunc)
qed

end
