(* ===== verification/VersionInfo.thy ===== *)
theory VersionInfo
  imports VersionTime
begin

text \<open>
  \<open>fileinfo.go\<close> and \<open>versioninfo.go\<close>: the metadata of a file and of a committed
  version, and their comparison. The functions of other modules the code calls are
  the fields of a parameter \<open>ext\<close>: the Dropbox content hash of \<open>go-fs\<close> and the
  text form and validation of an \<open>uu.ID\<close>.
\<close>

record ext =
  DropboxContentHash :: "bytes \<Rightarrow> string"
  ID_String :: "uuid \<Rightarrow> string"
  ID_Validate :: "uuid \<Rightarrow> err option"

definition ContentHash :: "ext \<Rightarrow> bytes \<Rightarrow> string" where
  "ContentHash x data = DropboxContentHash x data"

record file_info =
  Name :: string
  Size :: int
  Hash :: string

text \<open>An \<open>fs.FileReader\<close>: its name and what \<open>Exists\<close>, \<open>Size\<close> and \<open>ReadAll\<close> return.\<close>

record file_reader =
  FileName :: string
  FileExists :: bool
  FileSize :: int
  FileData :: "err + bytes"

definition NewMemFile :: "string \<Rightarrow> bytes \<Rightarrow> file_reader" where
  "NewMemFile name data =
     \<lparr>FileName = name, FileExists = True, FileSize = int (length data), FileData = Inr data\<rparr>"

definition ReadFileInfo :: "ext \<Rightarrow> file_reader \<Rightarrow> err + file_info" where
  "ReadFileInfo x file =
     (case FileData file of
        Inl e \<Rightarrow> Inl e
      | Inr data \<Rightarrow> Inr \<lparr>Name = FileName file, Size = int (length data), Hash = DropboxContentHash x data\<rparr>)"

record version_info =
  CompanyID :: uuid
  DocID :: uuid
  Version :: version_time
  PrevVersion :: "version_time option"
  CommitUserID :: uuid
  CommitReason :: string
  Files :: "(string, file_info) gomap"
  AddedFiles :: "string list"
  RemovedFiles :: "string list"
  ModifiedFiles :: "string list"

text \<open>
  \<open>UnmarshalJSON\<close>: the decoder reads \<open>PrevVersion\<close> as an optional string; a missing
  or an empty one is nil, any other is parsed.
\<close>

definition VersionInfo_UnmarshalJSON :: "version_info \<Rightarrow> string option \<Rightarrow> err + version_info" where
  "VersionInfo_UnmarshalJSON alias auxPrevVersion =
     (case auxPrevVersion of
        None \<Rightarrow> Inr (alias\<lparr>PrevVersion := None\<rparr>)
      | Some s \<Rightarrow>
         if s = [] then Inr (alias\<lparr>PrevVersion := None\<rparr>)
         else (case VersionTimeFromString s of
                 Inl e \<Rightarrow> Inl e
               | Inr vt \<Rightarrow> Inr (alias\<lparr>PrevVersion := Some vt\<rparr>)))"

text \<open>A nil pointer is \<open>None\<close>.\<close>

definition EqualFiles :: "version_info option \<Rightarrow> version_info option \<Rightarrow> bool" where
  "EqualFiles vi other =
     (if vi = other then True
      else case (vi, other) of
        (Some v, Some w) \<Rightarrow>
          (if length (Files v) \<noteq> length (Files w) then False
           else list_all (\<lambda>(name, info). map_of (Files w) name = Some info) (Files v))
      | _ \<Rightarrow> False)"

fun equalVersionTimePtr :: "version_time option \<Rightarrow> version_time option \<Rightarrow> bool" where
  "equalVersionTimePtr (Some a) (Some b) = VersionTime_Equal a b"
| "equalVersionTimePtr a b = (a = None \<and> b = None)"

definition equalStringSets :: "string list \<Rightarrow> string list \<Rightarrow> bool" where
  "equalStringSets a b = (if length a \<noteq> length b then False else sort a = sort b)"

definition VersionInfo_Equal :: "version_info option \<Rightarrow> version_info option \<Rightarrow> bool" where
  "VersionInfo_Equal vi other =
     (if vi = other then True
      else case (vi, other) of
        (Some v, Some w) \<Rightarrow>
          (if CompanyID v \<noteq> CompanyID w \<or> DocID v \<noteq> DocID w
              \<or> \<not> VersionTime_Equal (Version v) (Version w)
              \<or> \<not> equalVersionTimePtr (PrevVersion v) (PrevVersion w)
              \<or> CommitUserID v \<noteq> CommitUserID w \<or> CommitReason v \<noteq> CommitReason w
           then False
           else if \<not> equalStringSets (AddedFiles v) (AddedFiles w)
              \<or> \<not> equalStringSets (RemovedFiles v) (RemovedFiles w)
              \<or> \<not> equalStringSets (ModifiedFiles v) (ModifiedFiles w)
           then False
           else EqualFiles vi other)
      | _ \<Rightarrow> False)"

section \<open>Lemmas\<close>

text \<open>A file set is well formed when every entry is stored under its own name.\<close>

definition wf_files :: "(string, file_info) gomap \<Rightarrow> bool" where
  "wf_files fs \<longleftrightarrow> wf_gomap fs \<and> (\<forall>(k, fi)\<in>set fs. Name fi = k)"

lemma wf_files_empty [simp]: "wf_files []"
  by (simp add: wf_files_def)

lemma wf_files_wf_gomap [simp]: "wf_files fs \<Longrightarrow> wf_gomap fs"
  by (simp add: wf_files_def)

lemma wf_files_Name: "wf_files fs \<Longrightarrow> map_of fs k = Some fi \<Longrightarrow> Name fi = k"
  unfolding wf_files_def by (blast dest: map_of_SomeD)

lemma wf_filesI: "wf_gomap fs \<Longrightarrow> (\<And>k fi. map_of fs k = Some fi \<Longrightarrow> Name fi = k) \<Longrightarrow> wf_files fs"
  unfolding wf_files_def by (blast dest: wf_gomap_mem_iff [THEN iffD1])

lemma wf_files_update [simp]: "wf_files fs \<Longrightarrow> wf_files (AList.update (Name fi) fi fs)"
  by (rule wf_filesI) (auto split: if_splits dest: wf_files_Name)

lemma wf_files_put_all [simp]: "wf_files fs \<Longrightarrow> wf_files (put_all Name id xs fs)"
  by (induction xs arbitrary: fs) auto

lemma wf_files_del_all [simp]: "wf_files fs \<Longrightarrow> wf_files (del_all ks fs)"
  by (rule wf_filesI) (auto simp: map_of_del_all split: if_splits dest: wf_files_Name)

lemma wf_files_conv_map: "wf_files fs \<Longrightarrow> map (\<lambda>fi. (Name fi, fi)) (map snd fs) = fs"
  by (rule map_idI [THEN trans [rotated]]) (auto simp: wf_files_def o_def)

lemma wf_files_distinct_names: "wf_files fs \<Longrightarrow> distinct (map Name (map snd fs))"
proof -
  assume wf: "wf_files fs"
  then have "map Name (map snd fs) = map fst fs" by (auto simp: wf_files_def)
  with wf_files_wf_gomap [OF wf] show ?thesis by (simp only:)
qed

lemma files_le_iff:
  assumes "wf_gomap m"
  shows "list_all (\<lambda>(name, info). map_of n name = Some info) m \<longleftrightarrow> map_of m \<subseteq>\<^sub>m map_of n"
proof -
  have "map_of m \<subseteq>\<^sub>m map_of n \<longleftrightarrow> (\<forall>k v. map_of m k = Some v \<longrightarrow> map_of n k = Some v)"
    unfolding map_le_def dom_def by force
  also have "\<dots> \<longleftrightarrow> list_all (\<lambda>(name, info). map_of n name = Some info) m"
    unfolding list_all_iff wf_gomap_mem_iff [OF assms, symmetric] by blast
  finally show ?thesis by blast
qed

lemma EqualFiles_iff:
  assumes "wf_gomap (Files v)" "wf_gomap (Files w)"
  shows "EqualFiles (Some v) (Some w) \<longleftrightarrow> map_of (Files v) = map_of (Files w)"
proof -
  have "EqualFiles (Some v) (Some w) \<longleftrightarrow>
      v = w \<or> length (Files v) = length (Files w) \<and> map_of (Files v) \<subseteq>\<^sub>m map_of (Files w)"
    using files_le_iff [OF assms(1), of "Files w"] by (simp add: EqualFiles_def)
  also have "\<dots> \<longleftrightarrow> map_of (Files v) = map_of (Files w)"
    using assms wf_gomap_eq_lengthI [OF assms] wf_gomap_length_eq [OF assms] by auto
  finally show ?thesis .
qed

lemma equalStringSets_iff: "equalStringSets a b \<longleftrightarrow> mset a = mset b"
  by (auto simp: equalStringSets_def sort_eq_iff_mset dest: mset_eq_length)

lemma equalVersionTimePtr_iff: "equalVersionTimePtr a b \<longleftrightarrow> map_option ms_trunc a = map_option ms_trunc b"
  by (cases a; cases b) (auto simp: VersionTime_Equal_def)

text \<open>The canonical form of a version's metadata: \<open>Equal\<close> is equality of it.\<close>

definition info_key where
  "info_key v = (CompanyID v, DocID v, ms_trunc (Version v), map_option ms_trunc (PrevVersion v),
     CommitUserID v, CommitReason v, mset (AddedFiles v), mset (RemovedFiles v),
     mset (ModifiedFiles v), map_of (Files v))"

lemma VersionInfo_Equal_key:
  assumes "wf_gomap (Files v)" "wf_gomap (Files w)"
  shows "VersionInfo_Equal (Some v) (Some w) \<longleftrightarrow> info_key v = info_key w"
  by (auto simp: VersionInfo_Equal_def info_key_def EqualFiles_iff [OF assms] equalStringSets_iff
      equalVersionTimePtr_iff Equal_iff_ms_trunc)

end
