(* ===== verification/FileProvider.thy ===== *)
theory FileProvider
  imports VersionInfo
begin

text \<open>
  \<open>fileprovider.go\<close>: read access to named files. The interface value
  \<open>FileProvider\<close> is a record of its three methods, as they answer in the state the
  provider is used in.
\<close>

record file_provider =
  HasFile :: "string \<Rightarrow> err + bool"
  ListFiles :: "err + string list"
  ReadFile :: "string \<Rightarrow> err + bytes"

text \<open>\<open>NewFileProvider\<close>: the provider over a list of readers.\<close>

definition NewFileProvider :: "file_reader list \<Rightarrow> file_provider" where
  "NewFileProvider files =
     \<lparr>HasFile = (\<lambda>filename. Inr (list_ex (\<lambda>f. FileName f = filename) files)),
      ListFiles = Inr (sort (map FileName files)),
      ReadFile = (\<lambda>filename.
        case find (\<lambda>f. FileName f = filename) files of
          Some f \<Rightarrow> FileData f
        | None \<Rightarrow> Inl (ErrPathDoesNotExist filename))\<rparr>"

definition ReadMemFile :: "file_provider \<Rightarrow> string \<Rightarrow> err + file_reader" where
  "ReadMemFile provider filename =
     (case ReadFile provider filename of
        Inl e \<Rightarrow> Inl e
      | Inr data \<Rightarrow> Inr (NewMemFile filename data))"

definition SingleMemFileProvider :: "string \<Rightarrow> bytes \<Rightarrow> file_provider" where
  "SingleMemFileProvider name data =
     \<lparr>HasFile = (\<lambda>filename. Inr (name = filename)),
      ListFiles = Inr [name],
      ReadFile = (\<lambda>filename. if filename \<noteq> name then Inl (ErrPathDoesNotExist filename) else Inr data)\<rparr>"

text \<open>\<open>ExtFileProvider\<close>: extra files in front of an optional base provider.\<close>

fun ext_append :: "string list \<Rightarrow> file_reader list \<Rightarrow> string list" where
  "ext_append filenames [] = filenames"
| "ext_append filenames (f # fs) =
     ext_append (if FileName f \<in> set filenames then filenames else filenames @ [FileName f]) fs"

definition ExtFileProvider :: "file_provider option \<Rightarrow> file_reader list \<Rightarrow> file_provider" where
  "ExtFileProvider base extFiles =
     \<lparr>HasFile = (\<lambda>filename.
        if list_ex (\<lambda>f. FileName f = filename) extFiles then Inr True
        else case base of None \<Rightarrow> Inr False | Some b \<Rightarrow> HasFile b filename),
      ListFiles =
        (case (case base of None \<Rightarrow> Inr [] | Some b \<Rightarrow> ListFiles b) of
           Inl e \<Rightarrow> Inl e
         | Inr filenames \<Rightarrow> Inr (sort (ext_append filenames extFiles))),
      ReadFile = (\<lambda>filename.
        case find (\<lambda>f. FileName f = filename) extFiles of
          Some f \<Rightarrow> FileData f
        | None \<Rightarrow> (case base of
                     None \<Rightarrow> Inl (ErrPathDoesNotExist filename)
                   | Some b \<Rightarrow> ReadFile b filename))\<rparr>"

text \<open>\<open>RemoveFileProvider\<close>: hides the given names of a base provider.\<close>

definition RemoveFileProvider :: "file_provider \<Rightarrow> string list \<Rightarrow> file_provider" where
  "RemoveFileProvider base remove =
     \<lparr>HasFile = (\<lambda>filename. if filename \<in> set remove then Inr False else HasFile base filename),
      ListFiles =
        (case ListFiles base of
           Inl e \<Rightarrow> Inl e
         | Inr filenames \<Rightarrow> Inr (filter (\<lambda>filename. filename \<notin> set remove) filenames)),
      ReadFile = (\<lambda>filename.
        if filename \<in> set remove then Inl (ErrPathDoesNotExist filename)
        else ReadFile base filename)\<rparr>"

section \<open>The contract of a provider\<close>

text \<open>
  A provider \<^emph>\<open>provides\<close> a file map when its three methods agree with it: a name is
  there iff it is in the map, the listing holds exactly the names, a read returns
  the content or an error.
\<close>

definition provides :: "file_provider \<Rightarrow> (string \<rightharpoonup> bytes) \<Rightarrow> bool" where
  "provides p content \<longleftrightarrow>
     (\<forall>n. HasFile p n = Inr (n \<in> dom content)) \<and>
     (\<exists>ns. ListFiles p = Inr ns \<and> set ns = dom content) \<and>
     (\<forall>n b. ReadFile p n = Inr b \<longleftrightarrow> content n = Some b)"

text \<open>The file map of a list of readers: the first reader of a name counts.\<close>

definition reader_content :: "file_reader list \<Rightarrow> (string \<rightharpoonup> bytes)" where
  "reader_content files n =
     (case find (\<lambda>f. FileName f = n) files of
        None \<Rightarrow> None
      | Some f \<Rightarrow> (case FileData f of Inl _ \<Rightarrow> None | Inr b \<Rightarrow> Some b))"

definition readable :: "file_reader \<Rightarrow> bool" where
  "readable f \<longleftrightarrow> (\<exists>b. FileData f = Inr b)"

lemma find_reader_None: "find (\<lambda>f. FileName f = n) fs = None \<longleftrightarrow> n \<notin> FileName ` set fs"
  by (auto simp: find_None_iff)

lemma find_reader_Some: "find (\<lambda>f. FileName f = n) fs = Some f \<Longrightarrow> f \<in> set fs \<and> FileName f = n"
  by (rule find_SomeD)

lemma dom_reader_content:
  assumes "\<forall>f\<in>set fs. readable f"
  shows "dom (reader_content fs) = FileName ` set fs"
proof -
  have "n \<in> dom (reader_content fs) \<longleftrightarrow> n \<in> FileName ` set fs" for n
  proof (cases "find (\<lambda>f. FileName f = n) fs")
    case None
    then show ?thesis by (simp add: reader_content_def dom_def) (simp add: find_reader_None)
  next
    case (Some f)
    with find_reader_Some [OF Some] assms show ?thesis
      by (auto simp: reader_content_def dom_def readable_def)
  qed
  then show ?thesis by blast
qed

lemma list_ex_FileName: "list_ex (\<lambda>f. FileName f = n) fs \<longleftrightarrow> n \<in> FileName ` set fs"
  by (auto simp: list_ex_iff)

lemma NewFileProvider_provides:
  assumes "\<forall>f\<in>set fs. readable f"
  shows "provides (NewFileProvider fs) (reader_content fs)"
  unfolding provides_def dom_reader_content [OF assms]
  by (auto simp: NewFileProvider_def list_ex_FileName reader_content_def
      split: option.splits sum.splits)

lemma SingleMemFileProvider_provides: "provides (SingleMemFileProvider n b) [n \<mapsto> b]"
  by (auto simp: provides_def SingleMemFileProvider_def)

lemma set_ext_append: "set (ext_append ns fs) = set ns \<union> FileName ` set fs"
  by (induction ns fs rule: ext_append.induct) auto

lemma ext_append_distinct: "distinct ns \<Longrightarrow> distinct (ext_append ns fs)"
  by (induction ns fs rule: ext_append.induct) auto

lemma ExtFileProvider_base_provides:
  assumes "provides b content" "\<forall>f\<in>set fs. readable f"
  shows "provides (ExtFileProvider (Some b) fs) (content ++ reader_content fs)"
proof -
  obtain ns where ns: "ListFiles b = Inr ns" "set ns = dom content"
    using assms(1) by (auto simp: provides_def)
  have dom: "dom (reader_content fs) = FileName ` set fs"
    using assms(2) by (rule dom_reader_content)
  have has: "HasFile (ExtFileProvider (Some b) fs) n = Inr (n \<in> dom (content ++ reader_content fs))" for n
    using assms(1) dom by (auto simp: ExtFileProvider_def list_ex_FileName provides_def)
  have "ReadFile (ExtFileProvider (Some b) fs) n = Inr d \<longleftrightarrow> (content ++ reader_content fs) n = Some d" for n d
  proof (cases "find (\<lambda>f. FileName f = n) fs")
    case None
    then have "reader_content fs n = None" by (simp add: reader_content_def)
    with None assms(1) show ?thesis
      by (auto simp: ExtFileProvider_def provides_def map_add_def)
  next
    case (Some f)
    with find_reader_Some [OF Some] assms(2) show ?thesis
      by (auto simp: ExtFileProvider_def reader_content_def readable_def map_add_def)
  qed
  then show ?thesis
    using has ns dom by (auto simp: provides_def ExtFileProvider_def set_ext_append)
qed

lemma ExtFileProvider_nil_provides:
  assumes "\<forall>f\<in>set fs. readable f"
  shows "provides (ExtFileProvider None fs) (reader_content fs)"
  unfolding provides_def dom_reader_content [OF assms]
  by (auto simp: ExtFileProvider_def list_ex_FileName reader_content_def set_ext_append
      split: option.splits sum.splits)

lemma RemoveFileProvider_provides:
  assumes "provides b content"
  shows "provides (RemoveFileProvider b remove) (content |` (- set remove))"
  using assms by (auto simp: provides_def RemoveFileProvider_def restrict_map_def split: if_splits)

end
