(* ===== verification/CreateVersion.thy ===== *)
theory CreateVersion
  imports FileProvider
begin

text \<open>
  \<open>createversion.go\<close>: the result of a \<open>CreateVersionFunc\<close> callback, its validation
  and the ready-made callbacks. A callback may return, fail or panic; a nil result
  is \<open>None\<close>, a nil entry of \<open>WriteFiles\<close> too. \<open>NewVersionTime()\<close> reads the clock, so
  the callbacks that use it take the time as a parameter.
\<close>

record create_version_result =
  cvr_Version :: version_time
  WriteFiles :: "file_reader option list"
  RemoveFiles :: "string list"
  NewCompanyID :: "uuid option"

type_synonym create_version_func =
  "uuid \<Rightarrow> version_time \<Rightarrow> file_provider \<Rightarrow> create_version_result option outcome"

type_synonym on_new_version_func = "version_info \<Rightarrow> unit outcome"

definition join_err :: "err option \<Rightarrow> err \<Rightarrow> err option" where
  "join_err acc e = errors_Join [acc, Some e]"

text \<open>The loop of \<open>Validate\<close> over \<open>WriteFiles\<close>.\<close>

fun validate_write_files :: "string list \<Rightarrow> file_reader option list \<Rightarrow> err option \<Rightarrow> err option" where
  "validate_write_files remove [] err = err"
| "validate_write_files remove (None # wfs) err =
     validate_write_files remove wfs
       (join_err err (Errorf ''CreateVersionResult.WriteFiles entry does not exist'' []))"
| "validate_write_files remove (Some f # wfs) err =
     (if \<not> FileExists f then
        validate_write_files remove wfs
          (join_err err (Errorf ''CreateVersionResult.WriteFiles entry does not exist'' []))
      else if FileName f \<in> set remove then
        validate_write_files remove wfs
          (join_err err (Errorf ''filename in both WriteFiles and RemoveFiles'' []))
      else validate_write_files remove wfs err)"

definition CreateVersionResult_Validate :: "ext \<Rightarrow> create_version_result \<Rightarrow> err option" where
  "CreateVersionResult_Validate x r =
     (let err0 = (case VersionTime_Validate (cvr_Version r) of
                    None \<Rightarrow> None
                  | Some e \<Rightarrow> join_err None (Errorf ''CreateVersionResult.Version is invalid'' [e]));
          err1 = validate_write_files (RemoveFiles r) (WriteFiles r) err0
      in case (case NewCompanyID r of None \<Rightarrow> None | Some c \<Rightarrow> ID_Validate x c) of
           None \<Rightarrow> err1
         | Some e \<Rightarrow> join_err err1 (Errorf ''CreateVersionResult.NewCompanyID is invalid'' [e]))"

definition CreateVersionWriteFiles :: "int \<Rightarrow> file_reader option list \<Rightarrow> create_version_func" where
  "CreateVersionWriteFiles now writeFiles docID prevVersion prevFiles =
     Ret (Some \<lparr>cvr_Version = VersionTimeFrom now, WriteFiles = writeFiles,
                RemoveFiles = [], NewCompanyID = None\<rparr>)"

definition CreateVersionRemoveFiles :: "int \<Rightarrow> string list \<Rightarrow> create_version_func" where
  "CreateVersionRemoveFiles now removeFiles docID prevVersion prevFiles =
     Ret (Some \<lparr>cvr_Version = VersionTimeFrom now, WriteFiles = [],
                RemoveFiles = removeFiles, NewCompanyID = None\<rparr>)"

text \<open>
  \<open>CaptureNewVersionInfo(out)\<close> fails for a nil \<open>out\<close>; its assignment to \<open>*out\<close> is the
  second component.
\<close>

definition CaptureNewVersionInfo ::
  "version_info option option \<Rightarrow> version_info \<Rightarrow> unit outcome \<times> version_info option option" where
  "CaptureNewVersionInfo out versionInfo =
     (case out of
        None \<Rightarrow> (Fail (OtherErr ''nil output pointer passed to CaptureNewVersionInfo''), None)
      | Some _ \<Rightarrow> (Ret (), Some (Some versionInfo)))"

text \<open>The readers of a validated result: no entry is nil.\<close>

definition write_readers :: "create_version_result \<Rightarrow> file_reader list" where
  "write_readers r = map the (WriteFiles r)"

section \<open>Lemmas\<close>

lemma join_err_not_None [simp]: "join_err acc e \<noteq> None"
  by (cases acc) (simp_all add: join_err_def errors_Join_def List.map_filter_simps)

lemma validate_write_files_None_iff:
  "validate_write_files remove wfs err = None \<longleftrightarrow>
     err = None \<and> (\<forall>w\<in>set wfs. \<exists>f. w = Some f \<and> FileExists f \<and> FileName f \<notin> set remove)"
  by (induction remove wfs err rule: validate_write_files.induct) auto

lemma join_err_Some: "\<exists>y. join_err acc e = Some y"
  using join_err_not_None by (metis not_None_eq)

lemma validate_write_files_Some:
  "(\<exists>y. validate_write_files remove wfs (join_err acc e) = Some y)"
  using validate_write_files_None_iff [of remove wfs "join_err acc e"]
  by (cases "validate_write_files remove wfs (join_err acc e)") simp_all

lemma CreateVersionResult_Validate_None_iff:
  "CreateVersionResult_Validate x r = None \<longleftrightarrow>
     Time (cvr_Version r) \<noteq> 0
     \<and> (\<forall>w\<in>set (WriteFiles r). \<exists>f. w = Some f \<and> FileExists f \<and> FileName f \<notin> set (RemoveFiles r))
     \<and> (\<forall>c. NewCompanyID r = Some c \<longrightarrow> ID_Validate x c = None)"
  by (auto simp: CreateVersionResult_Validate_def Let_def validate_write_files_None_iff
      validate_write_files_Some join_err_Some VersionTime_Validate_def IsZero_def split: option.splits)

end
