(* ===== verification/HashedDocument.thy ===== *)
theory HashedDocument
  imports CreateVersion
begin

text \<open>
  \<open>hasheddocument.go\<close>, the data part: a document with all versions and contents in
  memory, its validation, its sorted version times and the version metadata
  reconstructed from it. A map value of pointer type is an option; the nil document
  is \<open>None\<close>.
\<close>

record hashed_version =
  hv_CommitUserID :: uuid
  hv_CommitReason :: string
  FileHashes :: "(string, string) gomap"

record hashed_document =
  hd_ID :: uuid
  hd_CompanyID :: uuid
  HashedFiles :: "(string, bytes) gomap"
  Versions :: "(version_time, hashed_version option) gomap"

text \<open>\<open>doc.Versions[v]\<close>: nil for a missing key and for a nil entry.\<close>

definition version_at :: "hashed_document \<Rightarrow> version_time \<Rightarrow> hashed_version option" where
  "version_at doc v = Option.bind (map_of (Versions doc) v) id"

text \<open>\<open>VersionTimes\<close>: the keys sorted with \<open>Compare\<close>, which compares whole milliseconds.\<close>

definition VersionTimes :: "hashed_document \<Rightarrow> version_time list" where
  "VersionTimes doc = sort_key ms_trunc (map fst (Versions doc))"

definition maps_Equal :: "(string, string) gomap \<Rightarrow> (string, string) gomap \<Rightarrow> bool" where
  "maps_Equal m1 m2 \<longleftrightarrow> length m1 = length m2 \<and> list_all (\<lambda>(k, v). map_of m2 k = Some v) m1"

section \<open>Validation\<close>

fun validate_hash_refs :: "(string, bytes) gomap \<Rightarrow> (string \<times> string) list \<Rightarrow> err option \<Rightarrow> err option" where
  "validate_hash_refs hashedFiles [] err = err"
| "validate_hash_refs hashedFiles ((filename, hash) # rest) err =
     validate_hash_refs hashedFiles rest
       (case map_of hashedFiles hash of
          Some _ \<Rightarrow> err
        | None \<Rightarrow> join_err err (Errorf ''HashedDocument file references missing hash'' []))"

fun validate_versions ::
  "(string, bytes) gomap \<Rightarrow> (version_time \<times> hashed_version option) list \<Rightarrow> err option \<Rightarrow> err option" where
  "validate_versions hashedFiles [] err = err"
| "validate_versions hashedFiles ((v, hv) # rest) err =
     (let err1 = (case VersionTime_Validate v of
                    None \<Rightarrow> err
                  | Some e \<Rightarrow> join_err err (Errorf ''HashedDocument version is invalid'' [e]))
      in validate_versions hashedFiles rest
           (case hv of
              None \<Rightarrow> join_err err1 (Errorf ''HashedDocument version has nil HashedVersion'' [])
            | Some w \<Rightarrow> validate_hash_refs hashedFiles (FileHashes w) err1))"

text \<open>The loop over the sorted versions; \<open>prev\<close> is \<open>sorted[i-1]\<close> when \<open>i > 0\<close>.\<close>

fun validate_sorted ::
  "hashed_document \<Rightarrow> version_time option \<Rightarrow> version_time list \<Rightarrow> err option \<Rightarrow> err option" where
  "validate_sorted doc prev [] err = err"
| "validate_sorted doc prev (v # vs) err =
     (case version_at doc v of
        None \<Rightarrow> validate_sorted doc (Some v) vs err
      | Some hv \<Rightarrow>
         (let err1 = (if FileHashes hv = [] then
                        join_err err (Errorf ''HashedDocument version has no files'' [])
                      else err);
              err2 = (case Option.bind prev (version_at doc) of
                        None \<Rightarrow> err1
                      | Some pv \<Rightarrow>
                         if maps_Equal (FileHashes hv) (FileHashes pv) then
                           join_err err1 (Errorf ''HashedDocument version is identical to previous version'' [])
                         else err1)
          in validate_sorted doc (Some v) vs err2))"

definition HashedDocument_Validate :: "ext \<Rightarrow> hashed_document option \<Rightarrow> err option" where
  "HashedDocument_Validate x docp =
     (case docp of
        None \<Rightarrow> Some (OtherErr ''nil HashedDocument'')
      | Some doc \<Rightarrow>
         (let err0 = (case ID_Validate x (hd_ID doc) of
                        None \<Rightarrow> None
                      | Some e \<Rightarrow> join_err None (Errorf ''HashedDocument.ID is invalid'' [e]));
              err1 = (case ID_Validate x (hd_CompanyID doc) of
                        None \<Rightarrow> err0
                      | Some e \<Rightarrow> join_err err0 (Errorf ''HashedDocument.CompanyID is invalid'' [e]));
              err2 = (if Versions doc = [] then join_err err1 (OtherErr ''HashedDocument has no versions'')
                      else err1);
              err3 = validate_versions (HashedFiles doc) (Versions doc) err2
          in validate_sorted doc None (VersionTimes doc) err3))"

section \<open>Reconstruction of a version's metadata\<close>

text \<open>The search loop: the predecessor of the first sorted entry \<open>Equal\<close> to the time.\<close>

fun find_version :: "version_time \<Rightarrow> version_time option \<Rightarrow> version_time list \<Rightarrow> version_time option option" where
  "find_version t prev [] = None"
| "find_version t prev (v # vs) = (if VersionTime_Equal v t then Some prev else find_version t (Some v) vs)"

text \<open>One round of the loop over the version's file hashes.\<close>

definition classify_file ::
  "hashed_version option \<Rightarrow> string \<Rightarrow> string \<Rightarrow> version_info \<Rightarrow> version_info" where
  "classify_file prevVersion filename hash info =
     (case prevVersion of
        None \<Rightarrow> info\<lparr>AddedFiles := AddedFiles info @ [filename]\<rparr>
      | Some pv \<Rightarrow>
         (case map_of (FileHashes pv) filename of
            None \<Rightarrow> info\<lparr>AddedFiles := AddedFiles info @ [filename]\<rparr>
          | Some prevHash \<Rightarrow>
             if prevHash \<noteq> hash then info\<lparr>ModifiedFiles := ModifiedFiles info @ [filename]\<rparr>
             else info))"

fun info_files ::
  "hashed_document \<Rightarrow> hashed_version option \<Rightarrow> (string \<times> string) list \<Rightarrow> version_info \<Rightarrow> err + version_info" where
  "info_files doc prevVersion [] info = Inr info"
| "info_files doc prevVersion ((filename, hash) # rest) info =
     (case map_of (HashedFiles doc) hash of
        None \<Rightarrow> Inl (Errorf ''HashedDocument version file references hash missing from HashedFiles'' [])
      | Some data \<Rightarrow>
         info_files doc prevVersion rest
           (classify_file prevVersion filename hash
             (info\<lparr>Files := AList.update filename
                \<lparr>Name = filename, Size = int (length data), Hash = hash\<rparr> (Files info)\<rparr>)))"

definition HashedDocument_VersionInfo :: "hashed_document \<Rightarrow> version_time \<Rightarrow> err + version_info" where
  "HashedDocument_VersionInfo doc versionTime =
     (case find_version versionTime None (VersionTimes doc) of
        None \<Rightarrow> Inl (ErrDocumentVersionNotFound (hd_ID doc) versionTime)
      | Some prevVersionTime \<Rightarrow>
         (case version_at doc versionTime of
            None \<Rightarrow> Inl (ErrDocumentVersionNotFound (hd_ID doc) versionTime)
          | Some version \<Rightarrow>
             (let prevVersion = Option.bind prevVersionTime (version_at doc);
                  info0 = \<lparr>CompanyID = hd_CompanyID doc, DocID = hd_ID doc, Version = versionTime,
                           PrevVersion = prevVersionTime, CommitUserID = hv_CommitUserID version,
                           CommitReason = hv_CommitReason version, Files = [], AddedFiles = [],
                           RemovedFiles = [], ModifiedFiles = []\<rparr>
              in case info_files doc prevVersion (FileHashes version) info0 of
                   Inl e \<Rightarrow> Inl e
                 | Inr info \<Rightarrow>
                    (let removed = (case prevVersion of
                                      None \<Rightarrow> []
                                    | Some pv \<Rightarrow> filter (\<lambda>n. map_of (FileHashes version) n = None)
                                                  (map fst (FileHashes pv)))
                     in Inr (info\<lparr>AddedFiles := sort (AddedFiles info),
                                  ModifiedFiles := sort (ModifiedFiles info),
                                  RemovedFiles := sort removed\<rparr>)))))"

section \<open>Lemmas: the sorted versions\<close>

text \<open>
  A document as a Go program can hold it: distinct map keys, and no two versions
  within the same millisecond.
\<close>

definition wf_hashed_document :: "hashed_document \<Rightarrow> bool" where
  "wf_hashed_document doc \<longleftrightarrow>
     wf_gomap (HashedFiles doc) \<and> wf_gomap (Versions doc) \<and> inj_on ms_trunc (fst ` set (Versions doc))
     \<and> (\<forall>v hv. version_at doc v = Some hv \<longrightarrow> wf_gomap (FileHashes hv))"

lemma wf_hashed_documentD:
  assumes "wf_hashed_document doc"
  shows "wf_gomap (HashedFiles doc)" "wf_gomap (Versions doc)" "inj_on ms_trunc (fst ` set (Versions doc))"
    "version_at doc v = Some hv \<Longrightarrow> wf_gomap (FileHashes hv)"
  using assms by (auto simp: wf_hashed_document_def)

lemma set_VersionTimes [simp]: "set (VersionTimes doc) = fst ` set (Versions doc)"
  by (simp add: VersionTimes_def)

lemma distinct_VersionTimes: "wf_gomap (Versions doc) \<Longrightarrow> distinct (VersionTimes doc)"
  by (simp add: VersionTimes_def)

lemma VersionTimes_Nil_iff [simp]: "VersionTimes doc = [] \<longleftrightarrow> Versions doc = []"
  by (metis VersionTimes_def length_0_conv length_map length_sort)

lemma ms_trunc_mono: "v \<le> w \<Longrightarrow> ms_trunc v \<le> ms_trunc w"
proof -
  assume "v \<le> w"
  then have "Time v div millisecond \<le> Time w div millisecond"
    by (simp add: less_eq_version_time_def zdiv_mono1 millisecond_def)
  then have "millisecond * (Time v div millisecond) \<le> millisecond * (Time w div millisecond)"
    by (simp add: millisecond_def)
  then show ?thesis
    by (simp add: less_eq_version_time_def truncate_ms_def minus_mod_eq_mult_div)
qed

lemma less_of_ms_trunc_less: "ms_trunc v < ms_trunc w \<Longrightarrow> v < w"
  by (metis ms_trunc_mono leD leI)

lemma version_at_key: "version_at doc v = Some hv \<Longrightarrow> v \<in> fst ` set (Versions doc)"
  by (auto simp: version_at_def bind_eq_Some_conv dest: map_of_in_keys)

lemma VersionTimes_sort:
  assumes "wf_hashed_document doc"
  shows "VersionTimes doc = sort (map fst (Versions doc))"
proof (rule sorted_distinct_set_unique)
  have inj: "inj_on ms_trunc (set (VersionTimes doc))" and dist: "distinct (VersionTimes doc)"
    using assms by (simp_all add: wf_hashed_documentD distinct_VersionTimes)
  have "sorted (map ms_trunc (VersionTimes doc))" by (simp add: VersionTimes_def)
  moreover have "distinct (map ms_trunc (VersionTimes doc))"
    using inj dist by (simp add: distinct_map)
  ultimately have "sorted_wrt (<) (map ms_trunc (VersionTimes doc))"
    by (simp add: strict_sorted_iff)
  then have "sorted_wrt (<) (VersionTimes doc)"
    unfolding sorted_wrt_map by (rule sorted_wrt_mono_rel [rotated]) (rule less_of_ms_trunc_less)
  then show "sorted (VersionTimes doc)" by (simp add: strict_sorted_imp_sorted)
  show "distinct (VersionTimes doc)" by (rule dist)
qed (use assms in \<open>simp_all add: wf_hashed_documentD\<close>)

lemma maps_Equal_iff:
  assumes "wf_gomap m" "wf_gomap n"
  shows "maps_Equal m n \<longleftrightarrow> map_of m = map_of n"
  using assms wf_gomap_eq_lengthI [OF assms] wf_gomap_length_eq [OF assms]
  by (auto simp: maps_Equal_def files_le_iff [OF assms(1)])

section \<open>Lemmas: validation\<close>

lemma validate_hash_refs_None_iff:
  "validate_hash_refs hf fs err = None \<longleftrightarrow> err = None \<and> (\<forall>(n, h)\<in>set fs. map_of hf h \<noteq> None)"
  by (induction hf fs err rule: validate_hash_refs.induct) (auto split: option.splits)

lemma validate_versions_None_iff:
  "validate_versions hf vs err = None \<longleftrightarrow>
     err = None \<and> (\<forall>(v, hv)\<in>set vs. Time v \<noteq> 0 \<and>
       (\<exists>w. hv = Some w \<and> (\<forall>(n, h)\<in>set (FileHashes w). map_of hf h \<noteq> None)))"
  by (induction hf vs err rule: validate_versions.induct)
    (auto simp: Let_def validate_hash_refs_None_iff VersionTime_Validate_def IsZero_def split: option.splits)

definition differs :: "hashed_document \<Rightarrow> version_time \<Rightarrow> version_time \<Rightarrow> bool" where
  "differs doc u v \<longleftrightarrow> (\<forall>hu hv. version_at doc u = Some hu \<longrightarrow> version_at doc v = Some hv \<longrightarrow>
     \<not> maps_Equal (FileHashes hv) (FileHashes hu))"

lemma validate_sorted_None_iff:
  "validate_sorted doc prev vs err = None \<longleftrightarrow>
     err = None \<and> (\<forall>v\<in>set vs. \<forall>hv. version_at doc v = Some hv \<longrightarrow> FileHashes hv \<noteq> [])
     \<and> successively (differs doc) (case prev of None \<Rightarrow> vs | Some p \<Rightarrow> p # vs)"
proof (induction doc prev vs err rule: validate_sorted.induct)
  case (2 doc prev v vs err)
  then show ?case
    by (cases "version_at doc v"; cases prev)
      (auto simp: Let_def differs_def successively_Cons split: option.splits)
qed (auto split: option.splits)

lemma HashedDocument_Validate_None_iff:
  "HashedDocument_Validate x (Some doc) = None \<longleftrightarrow>
     ID_Validate x (hd_ID doc) = None \<and> ID_Validate x (hd_CompanyID doc) = None \<and> Versions doc \<noteq> []
     \<and> (\<forall>(v, hv)\<in>set (Versions doc). Time v \<noteq> 0 \<and>
          (\<exists>w. hv = Some w \<and> (\<forall>(n, h)\<in>set (FileHashes w). map_of (HashedFiles doc) h \<noteq> None)))
     \<and> (\<forall>v hv. version_at doc v = Some hv \<longrightarrow> FileHashes hv \<noteq> [])
     \<and> successively (differs doc) (VersionTimes doc)"
proof -
  have "(\<forall>v\<in>set (VersionTimes doc). \<forall>hv. version_at doc v = Some hv \<longrightarrow> FileHashes hv \<noteq> []) \<longleftrightarrow>
      (\<forall>v hv. version_at doc v = Some hv \<longrightarrow> FileHashes hv \<noteq> [])"
    unfolding set_VersionTimes by (blast dest: version_at_key)
  then show ?thesis
    by (auto simp: HashedDocument_Validate_def Let_def validate_sorted_None_iff validate_versions_None_iff
        simp del: set_VersionTimes split: option.splits)
qed

section \<open>Lemmas: the reconstructed metadata\<close>

text \<open>
  The difference of two file maps, as the change lists of a version record it. The
  maps give each name the value its change is judged by, the content hash.
\<close>

definition added_names :: "(string \<rightharpoonup> string) \<Rightarrow> (string \<rightharpoonup> string) \<Rightarrow> string set" where
  "added_names prev cur = dom cur - dom prev"

definition modified_names :: "(string \<rightharpoonup> string) \<Rightarrow> (string \<rightharpoonup> string) \<Rightarrow> string set" where
  "modified_names prev cur = {n \<in> dom cur \<inter> dom prev. cur n \<noteq> prev n}"

definition removed_names :: "(string \<rightharpoonup> string) \<Rightarrow> (string \<rightharpoonup> string) \<Rightarrow> string set" where
  "removed_names prev cur = dom prev - dom cur"

lemmas diff_names_defs = added_names_def modified_names_def removed_names_def

definition lists_set :: "string list \<Rightarrow> string set \<Rightarrow> bool" where
  "lists_set xs A \<longleftrightarrow> sorted xs \<and> distinct xs \<and> set xs = A"

lemma lists_setI: "distinct xs \<Longrightarrow> set xs = A \<Longrightarrow> lists_set (sort xs) A"
  by (simp add: lists_set_def)

definition hashes_at :: "hashed_document \<Rightarrow> version_time \<Rightarrow> (string \<rightharpoonup> string)" where
  "hashes_at doc v = (case version_at doc v of None \<Rightarrow> Map.empty | Some hv \<Rightarrow> map_of (FileHashes hv))"

text \<open>The version before a given one.\<close>

definition predecessor :: "version_time set \<Rightarrow> version_time \<Rightarrow> version_time option" where
  "predecessor vs v = (if \<exists>u\<in>vs. u < v then Some (Max {u\<in>vs. u < v}) else None)"

lemma find_version_append:
  "\<forall>u\<in>set us. \<not> VersionTime_Equal u t \<Longrightarrow>
     find_version t prev (us @ t # ws) = Some (if us = [] then prev else Some (last us))"
  by (induction us arbitrary: prev) (auto simp: VersionTime_Equal_def)

lemma find_version_predecessor:
  assumes wf: "wf_hashed_document doc" and v: "v \<in> fst ` set (Versions doc)"
  shows "find_version v None (VersionTimes doc) = Some (predecessor (fst ` set (Versions doc)) v)"
proof -
  let ?V = "fst ` set (Versions doc)"
  obtain us ws where split: "VersionTimes doc = us @ v # ws"
    using v by (metis set_VersionTimes split_list)
  have sd: "sorted (us @ v # ws)" "distinct (us @ v # ws)"
    using split VersionTimes_sort [OF wf] distinct_VersionTimes [of doc] wf_hashed_documentD(2) [OF wf]
    by (metis sorted_sort)+
  have V: "?V = set (us @ v # ws)" using split set_VersionTimes by metis
  have "\<not> VersionTime_Equal u v" if "u \<in> set us" for u
    using that sd(2) V wf_hashed_documentD(3) [OF wf] by (auto simp: Equal_iff_ms_trunc inj_on_def)
  then have "find_version v None (VersionTimes doc) = Some (if us = [] then None else Some (last us))"
    by (simp add: split find_version_append)
  moreover have below: "{u \<in> ?V. u < v} = set us"
    unfolding V using sd by (fastforce simp: sorted_append)
  then have ex: "(\<exists>u\<in>?V. u < v) \<longleftrightarrow> us \<noteq> []"
    by (metis (mono_tags, lifting) empty_Collect_eq set_empty)
  have "predecessor ?V v = (if us = [] then None else Some (last us))"
  proof (cases "us = []")
    case False
    have "Max (set us) = last us"
      using sd(1) False by (intro Max_set_sorted) (auto simp: sorted_append)
    with False ex below show ?thesis by (simp add: predecessor_def)
  qed (use ex in \<open>simp add: predecessor_def\<close>)
  ultimately show ?thesis by simp
qed

lemma info_files_Inr:
  assumes "\<forall>(n, h)\<in>set fs. map_of (HashedFiles doc) h \<noteq> None"
  shows "info_files doc pv fs info = Inr (info
    \<lparr>Files := put_all fst (\<lambda>(n, h). \<lparr>Name = n, Size = int (length (the (map_of (HashedFiles doc) h))), Hash = h\<rparr>) fs (Files info),
     AddedFiles := AddedFiles info @ filter (\<lambda>n. case pv of None \<Rightarrow> True | Some p \<Rightarrow> map_of (FileHashes p) n = None) (map fst fs),
     ModifiedFiles := ModifiedFiles info @ map fst (filter (\<lambda>(n, h). case pv of None \<Rightarrow> False
        | Some p \<Rightarrow> map_of (FileHashes p) n \<noteq> None \<and> map_of (FileHashes p) n \<noteq> Some h) fs)\<rparr>)"
  using assms
proof (induction doc pv fs info rule: info_files.induct)
  case (2 doc pv n h rest info)
  then show ?case
    by (cases pv) (auto simp: classify_file_def split: option.splits)
qed simp

text \<open>What \<open>VersionInfo\<close> reports for a version \<open>v\<close> that the document holds.\<close>

definition info_of :: "hashed_document \<Rightarrow> version_time \<Rightarrow> hashed_version \<Rightarrow> version_info \<Rightarrow> bool" where
  "info_of doc v hv info \<longleftrightarrow>
     (let prev = predecessor (fst ` set (Versions doc)) v;
          prev_hashes = (case prev of None \<Rightarrow> Map.empty | Some p \<Rightarrow> hashes_at doc p)
      in CompanyID info = hd_CompanyID doc \<and> DocID info = hd_ID doc \<and> Version info = v
         \<and> PrevVersion info = prev
         \<and> CommitUserID info = hv_CommitUserID hv \<and> CommitReason info = hv_CommitReason hv
         \<and> map_of (Files info) = (\<lambda>n. map_option (\<lambda>h. \<lparr>Name = n,
              Size = int (length (the (map_of (HashedFiles doc) h))), Hash = h\<rparr>) (hashes_at doc v n))
         \<and> lists_set (AddedFiles info) (added_names prev_hashes (hashes_at doc v))
         \<and> lists_set (ModifiedFiles info) (modified_names prev_hashes (hashes_at doc v))
         \<and> lists_set (RemovedFiles info) (removed_names prev_hashes (hashes_at doc v)))"

lemma map_of_put_files:
  assumes "wf_gomap fs"
  shows "map_of (put_all fst g fs []) n = map_option (\<lambda>h. g (n, h)) (map_of fs n)"
proof (cases "map_of fs n")
  case None
  then have "n \<notin> fst ` set fs" by (simp add: map_of_eq_None_keys)
  with None show ?thesis by (simp add: map_of_put_all_notin)
next
  case (Some h)
  then have n: "n \<in> fst ` set fs" by (rule map_of_in_keys)
  from map_of_put_all_in [OF n, of g "[]"] obtain y
    where y: "y \<in> set fs" "fst y = n" "map_of (put_all fst g fs []) n = Some (g y)" by blast
  have "map_of fs (fst y) = Some (snd y)"
    using y(1) by (intro map_of_is_SomeI assms) simp
  with y Some show ?thesis by (metis option.map(2) option.sel prod.collapse)
qed

text \<open>The three change lists the loops collect, for distinct keys.\<close>

lemma added_list:
  assumes "wf_gomap fs"
  shows "lists_set (sort (filter (\<lambda>n. prev n = None) (map fst fs))) (added_names prev (map_of fs))"
  using assms by (intro lists_setI) (auto simp: added_names_def map_of_dom_keys)

lemma removed_list:
  assumes "wf_gomap ps"
  shows "lists_set (sort (filter (\<lambda>n. cur n = None) (map fst ps))) (removed_names (map_of ps) cur)"
  using assms by (intro lists_setI) (auto simp: removed_names_def map_of_dom_keys)

lemma modified_list:
  assumes "wf_gomap fs"
  shows "lists_set (sort (map fst (filter (\<lambda>(n, h). prev n \<noteq> None \<and> prev n \<noteq> Some h) fs)))
    (modified_names prev (map_of fs))"
proof (rule lists_setI)
  show "distinct (map fst (filter (\<lambda>(n, h). prev n \<noteq> None \<and> prev n \<noteq> Some h) fs))"
    using assms by (rule distinct_map_filter)
  have "n \<in> fst ` set (filter (\<lambda>(n, h). prev n \<noteq> None \<and> prev n \<noteq> Some h) fs) \<longleftrightarrow>
      (\<exists>h. map_of fs n = Some h \<and> prev n \<noteq> None \<and> prev n \<noteq> Some h)" for n
    unfolding wf_gomap_mem_iff [OF assms, symmetric] by (auto simp: image_iff Bex_def)
  then show "set (map fst (filter (\<lambda>(n, h). prev n \<noteq> None \<and> prev n \<noteq> Some h) fs)) =
      modified_names prev (map_of fs)"
    unfolding set_map by (intro set_eqI) (auto simp only: modified_names_def mem_Collect_eq Int_iff domIff)
qed

lemma HashedDocument_VersionInfo_correct:
  assumes wf: "wf_hashed_document doc"
    and refs: "\<forall>(n, h)\<in>set (FileHashes hv). map_of (HashedFiles doc) h \<noteq> None"
    and v: "version_at doc v = Some hv"
  shows "\<exists>info. HashedDocument_VersionInfo doc v = Inr info \<and> info_of doc v hv info"
proof -
  let ?pred = "predecessor (fst ` set (Versions doc)) v"
  let ?pv = "Option.bind ?pred (version_at doc)"
  let ?ph = "case ?pv of None \<Rightarrow> Map.empty | Some p \<Rightarrow> map_of (FileHashes p)"
  have fhs: "wf_gomap (FileHashes hv)" using wf v by (rule wf_hashed_documentD)
  have wpv: "wf_gomap (FileHashes p)" if "?pv = Some p" for p
    using that wf_hashed_documentD(4) [OF wf] by (auto simp: bind_eq_Some_conv)
  have prev: "(case ?pred of None \<Rightarrow> Map.empty | Some p \<Rightarrow> hashes_at doc p) = ?ph"
    by (cases ?pred) (auto simp: hashes_at_def split: option.splits)
  have cur: "hashes_at doc v = map_of (FileHashes hv)" using v by (simp add: hashes_at_def)
  have find: "find_version v None (VersionTimes doc) = Some ?pred"
    using wf version_at_key [OF v] by (rule find_version_predecessor)
  have added: "(\<lambda>n. case ?pv of None \<Rightarrow> True | Some p \<Rightarrow> map_of (FileHashes p) n = None) = (\<lambda>n. ?ph n = None)"
    by (cases ?pv) auto
  have modified: "(\<lambda>(n, h). case ?pv of None \<Rightarrow> False
        | Some p \<Rightarrow> map_of (FileHashes p) n \<noteq> None \<and> map_of (FileHashes p) n \<noteq> Some h) =
      (\<lambda>(n, h). ?ph n \<noteq> None \<and> ?ph n \<noteq> Some h)"
    by (cases ?pv) auto
  have removed: "lists_set (sort (case ?pv of None \<Rightarrow> []
        | Some p \<Rightarrow> filter (\<lambda>n. map_of (FileHashes hv) n = None) (map fst (FileHashes p))))
      (removed_names ?ph (map_of (FileHashes hv)))"
    using removed_list wpv by (cases ?pv) (simp_all add: lists_set_def removed_names_def)
  show ?thesis
    unfolding HashedDocument_VersionInfo_def find option.case v Let_def info_files_Inr [OF refs]
      info_of_def prev cur sum.case added modified
    using added_list [OF fhs, of ?ph] modified_list [OF fhs, of ?ph] removed
    by (simp add: map_of_put_files [OF fhs] fun_eq_iff)
qed

end
