(* ===== verification/DocumentStore.thy ===== *)
theory DocumentStore
  imports HashedDocument
begin

text \<open>
  \<open>storeconn/documentstore.go\<close>: the interface \<open>DocumentStore\<close> as a record of its
  methods over a state, and its contract as a locale.

  A method that reads answers from the state; a method that writes returns the state
  it leaves behind, also when it fails. Of the call's context only what an operation
  looks at is modelled: its error, and the flag that \<open>pgstore\<close> defines.
\<close>

record ctx =
  ctx_Err :: "err option"
  VersionsExist :: bool

record 'd document_store =
  ds_CreateDocumentVersion :: "uuid \<Rightarrow> version_time \<Rightarrow> file_reader list \<Rightarrow> 'd \<Rightarrow> (err + file_info list) \<times> 'd"
  ds_DocumentExists :: "uuid \<Rightarrow> 'd \<Rightarrow> err + bool"
  ds_DocumentHashFileProvider :: "uuid \<Rightarrow> string list \<Rightarrow> 'd \<Rightarrow> err + file_provider"
  ds_ReadDocumentHashFile :: "uuid \<Rightarrow> string \<Rightarrow> string \<Rightarrow> 'd \<Rightarrow> err + bytes"
  ds_DeleteDocument :: "uuid \<Rightarrow> 'd \<Rightarrow> err option \<times> 'd"
  ds_DeleteDocumentHashes :: "uuid \<Rightarrow> string list \<Rightarrow> 'd \<Rightarrow> err option \<times> 'd"

section \<open>The contract\<close>

text \<open>The blobs of a document: content by filename and content hash.\<close>

type_synonym blob_map = "string \<times> string \<rightharpoonup> bytes"

text \<open>The keys a list of files is stored under, and what is written there: the last
  file of a key counts.\<close>

definition file_blobs :: "ext \<Rightarrow> file_reader list \<Rightarrow> blob_map" where
  "file_blobs x files =
     map_of (rev (map (\<lambda>f. ((FileName f, ContentHash x (projr (FileData f))), projr (FileData f))) files))"

definition stored_info :: "ext \<Rightarrow> file_reader \<Rightarrow> file_info" where
  "stored_info x f = \<lparr>Name = FileName f, Size = FileSize f, Hash = ContentHash x (projr (FileData f))\<rparr>"

text \<open>A write that may have stopped anywhere: every key holds what it held or its new content.\<close>

definition partly_written :: "blob_map \<Rightarrow> blob_map \<Rightarrow> blob_map \<Rightarrow> bool" where
  "partly_written old new now \<longleftrightarrow> (\<forall>k. now k = old k \<or> (now k = new k \<and> k \<in> dom new))"

text \<open>A removal that may have stopped anywhere.\<close>

definition partly_removed :: "blob_map \<Rightarrow> (string \<times> string) set \<Rightarrow> blob_map \<Rightarrow> bool" where
  "partly_removed old ks now \<longleftrightarrow> (\<forall>k. now k = old k \<or> (now k = None \<and> k \<in> ks))"

text \<open>
  What \<open>DocumentHashFileProvider\<close> returns: the files stored for the document under one of
  the hashes, whatever their name. A name is listed once per key.
\<close>

definition provides_hashes :: "blob_map \<Rightarrow> string list \<Rightarrow> file_provider \<Rightarrow> bool" where
  "provides_hashes bs hs p \<longleftrightarrow>
     (\<forall>n. HasFile p n = Inr (\<exists>h\<in>set hs. (n, h) \<in> dom bs)) \<and>
     (\<exists>ns. ListFiles p = Inr ns \<and> set ns = {n. n \<noteq> [] \<and> (\<exists>h\<in>set hs. (n, h) \<in> dom bs)}) \<and>
     (\<forall>n b. ReadFile p n = Inr b \<longrightarrow> (\<exists>h\<in>set hs. bs (n, h) = Some b))"

section \<open>Lemmas on written files\<close>

lemma file_blobs_SomeD:
  "file_blobs x files (n, h) = Some b \<Longrightarrow>
     \<exists>f\<in>set files. FileName f = n \<and> b = projr (FileData f) \<and> h = ContentHash x b"
  by (auto simp: file_blobs_def dest!: map_of_SomeD)

lemma file_blobs_hash: "file_blobs x files (n, h) = Some b \<Longrightarrow> ContentHash x b = h"
  by (auto dest: file_blobs_SomeD)

lemma dom_file_blobs:
  "dom (file_blobs x files) = (\<lambda>f. (FileName f, ContentHash x (projr (FileData f)))) ` set files"
  by (force simp: file_blobs_def dom_map_of_conv_image_fst)

text \<open>A blob map is sound when every blob is stored under its content hash.\<close>

definition sound_blobs :: "ext \<Rightarrow> blob_map \<Rightarrow> bool" where
  "sound_blobs x bs \<longleftrightarrow> (\<forall>n h b. bs (n, h) = Some b \<longrightarrow> ContentHash x b = h)"

lemma sound_file_blobs [simp]: "sound_blobs x (file_blobs x files)"
  by (auto simp: sound_blobs_def dest: file_blobs_hash)

lemma sound_blobs_add: "sound_blobs x a \<Longrightarrow> sound_blobs x b \<Longrightarrow> sound_blobs x (a ++ b)"
  by (auto simp: sound_blobs_def map_add_def split: option.splits)

lemma sound_partly_written: "sound_blobs x a \<Longrightarrow> sound_blobs x b \<Longrightarrow> partly_written a b c \<Longrightarrow> sound_blobs x c"
  unfolding sound_blobs_def partly_written_def by metis

lemma sound_partly_removed: "sound_blobs x a \<Longrightarrow> partly_removed a ks c \<Longrightarrow> sound_blobs x c"
  unfolding sound_blobs_def partly_removed_def by (metis option.distinct(1))

lemma partly_written_keeps: "partly_written old new now \<Longrightarrow> k \<in> dom old \<Longrightarrow> k \<in> dom now"
  unfolding partly_written_def by (metis domIff)

section \<open>The interface\<close>

locale document_store =
  fixes x :: ext
    and ds :: "'d document_store"
    and blobs :: "'d \<Rightarrow> uuid \<Rightarrow> blob_map"
    and dinv :: "'d \<Rightarrow> bool"
    and dcalm :: "'d \<Rightarrow> bool"
  assumes create_Inr:
      "dinv d \<Longrightarrow> ds_CreateDocumentVersion ds docID v files d = (Inr infos, d') \<Longrightarrow>
        (\<forall>f\<in>set files. readable f) \<and> infos = map (stored_info x) files \<and> dinv d'
        \<and> blobs d' = (blobs d)(docID := blobs d docID ++ file_blobs x files)"
    and create_Inl:
      "dinv d \<Longrightarrow> ds_CreateDocumentVersion ds docID v files d = (Inl e, d') \<Longrightarrow>
        dinv d' \<and> (\<exists>files'. set files' \<subseteq> set files \<and> (\<forall>f\<in>set files'. readable f) \<and>
          (\<exists>now. partly_written (blobs d docID) (file_blobs x files') now \<and> blobs d' = (blobs d)(docID := now)))"
    and create_calm:
      "dinv d \<Longrightarrow> dcalm d \<Longrightarrow> ds_CreateDocumentVersion ds docID v files d = (r, d') \<Longrightarrow>
        dcalm d' \<and> ((\<forall>f\<in>set files. readable f \<and> CHR ''/'' \<notin> set (FileName f)) \<longrightarrow> (\<exists>infos. r = Inr infos))"
    and exists_Inr:
      "dinv d \<Longrightarrow> ds_DocumentExists ds docID d = Inr found \<Longrightarrow> found \<longleftrightarrow> blobs d docID \<noteq> Map.empty"
    and exists_calm:
      "dinv d \<Longrightarrow> dcalm d \<Longrightarrow> ds_DocumentExists ds docID d = Inr (blobs d docID \<noteq> Map.empty)"
    and provider_Inr:
      "dinv d \<Longrightarrow> ds_DocumentHashFileProvider ds docID hs d = Inr p \<Longrightarrow> provides_hashes (blobs d docID) hs p"
    and provider_calm:
      "dinv d \<Longrightarrow> dcalm d \<Longrightarrow> \<exists>p. ds_DocumentHashFileProvider ds docID hs d = Inr p
        \<and> (\<forall>n. (\<exists>h\<in>set hs. (n, h) \<in> dom (blobs d docID)) \<longrightarrow> (\<exists>b. ReadFile p n = Inr b))"
    and read_Inr:
      "dinv d \<Longrightarrow> ds_ReadDocumentHashFile ds docID n h d = Inr b \<Longrightarrow> blobs d docID (n, h) = Some b"
    and read_calm:
      "dinv d \<Longrightarrow> dcalm d \<Longrightarrow> ds_ReadDocumentHashFile ds docID n h d =
        (case blobs d docID (n, h) of None \<Rightarrow> Inl (ErrDocumentFileNotFound docID n) | Some b \<Rightarrow> Inr b)"
    and delete_None:
      "dinv d \<Longrightarrow> ds_DeleteDocument ds docID d = (None, d') \<Longrightarrow>
        dinv d' \<and> blobs d docID \<noteq> Map.empty \<and> blobs d' = (blobs d)(docID := Map.empty)"
    and delete_Some:
      "dinv d \<Longrightarrow> ds_DeleteDocument ds docID d = (Some e, d') \<Longrightarrow>
        dinv d' \<and> (\<exists>now. partly_removed (blobs d docID) UNIV now \<and> blobs d' = (blobs d)(docID := now))"
    and delete_calm:
      "dinv d \<Longrightarrow> dcalm d \<Longrightarrow> ds_DeleteDocument ds docID d = (del, d') \<Longrightarrow>
        dcalm d' \<and> del = (if blobs d docID = Map.empty then Some (ErrDocumentNotFound docID) else None)
        \<and> blobs d' = (blobs d)(docID := Map.empty)"
    and delete_hashes_None:
      "dinv d \<Longrightarrow> ds_DeleteDocumentHashes ds docID hs d = (None, d') \<Longrightarrow>
        dinv d' \<and> blobs d' = (blobs d)(docID := (\<lambda>(n, h). if h \<in> set hs then None else blobs d docID (n, h)))"
    and delete_hashes_Some:
      "dinv d \<Longrightarrow> ds_DeleteDocumentHashes ds docID hs d = (Some e, d') \<Longrightarrow>
        dinv d' \<and> (\<exists>now. partly_removed (blobs d docID) {(n, h). h \<in> set hs} now \<and> blobs d' = (blobs d)(docID := now))"
    and delete_hashes_calm:
      "dinv d \<Longrightarrow> dcalm d \<Longrightarrow> ds_DeleteDocumentHashes ds docID hs d = (del, d') \<Longrightarrow>
        dcalm d' \<and> del = (if blobs d docID = Map.empty then Some (ErrDocumentNotFound docID) else None)"
begin

text \<open>What every operation keeps, whatever it returns.\<close>

lemma create_keeps:
  assumes "dinv d" "ds_CreateDocumentVersion ds docID v files d = (r, d')"
  shows "sound_blobs x (blobs d docID) \<Longrightarrow> sound_blobs x (blobs d' docID)"
    "dom (blobs d docID) \<subseteq> dom (blobs d' docID)"
proof -
  have "(sound_blobs x (blobs d docID) \<longrightarrow> sound_blobs x (blobs d' docID)) \<and> dom (blobs d docID) \<subseteq> dom (blobs d' docID)"
  proof (cases r)
    case (Inl e)
    with create_Inl [OF assms(1), of docID v files e d'] assms(2) obtain files' now where
      w: "partly_written (blobs d docID) (file_blobs x files') now" and now: "blobs d' = (blobs d)(docID := now)"
      by blast
    from w have "sound_blobs x (blobs d docID) \<Longrightarrow> sound_blobs x now" "dom (blobs d docID) \<subseteq> dom now"
      using sound_partly_written [OF _ sound_file_blobs] partly_written_keeps by blast+
    with now show ?thesis by simp
  next
    case (Inr infos)
    with create_Inr [OF assms(1), of docID v files infos d'] assms(2) show ?thesis
      by (auto simp: sound_blobs_add)
  qed
  then show "sound_blobs x (blobs d docID) \<Longrightarrow> sound_blobs x (blobs d' docID)"
    "dom (blobs d docID) \<subseteq> dom (blobs d' docID)" by blast+
qed

lemma create_frame:
  assumes "dinv d" "ds_CreateDocumentVersion ds docID v files d = (r, d')"
  shows "dinv d'" "docID' \<noteq> docID \<Longrightarrow> blobs d' docID' = blobs d docID'"
  using assms by (cases r; fastforce dest: create_Inl create_Inr)+

lemma delete_frame:
  assumes "dinv d" "ds_DeleteDocument ds docID d = (r, d')"
  shows "dinv d'" "docID' \<noteq> docID \<Longrightarrow> blobs d' docID' = blobs d docID'"
  using assms by (cases r; fastforce dest: delete_None delete_Some)+

lemma delete_sound:
  assumes "dinv d" "ds_DeleteDocument ds docID d = (r, d')" "sound_blobs x (blobs d docID)"
  shows "sound_blobs x (blobs d' docID)"
proof (cases r)
  case None
  with delete_None [OF assms(1)] assms(2) show ?thesis by (simp add: sound_blobs_def)
next
  case (Some e)
  with delete_Some [OF assms(1), of docID e d'] assms(2,3) sound_partly_removed show ?thesis by fastforce
qed

lemma delete_hashes_frame:
  assumes "dinv d" "ds_DeleteDocumentHashes ds docID hs d = (r, d')"
  shows "dinv d'" "docID' \<noteq> docID \<Longrightarrow> blobs d' docID' = blobs d docID'"
  using assms by (cases r; fastforce dest: delete_hashes_None delete_hashes_Some)+

lemma delete_hashes_keeps:
  assumes "dinv d" "ds_DeleteDocumentHashes ds docID hs d = (r, d')" "h \<notin> set hs"
  shows "blobs d' docID' (n, h) = blobs d docID' (n, h)"
proof (cases "docID' = docID")
  case True
  show ?thesis
  proof (cases r)
    case None
    with assms True delete_hashes_None [OF assms(1), of docID hs d'] show ?thesis by auto
  next
    case (Some e)
    with assms obtain now where "partly_removed (blobs d docID) {(n, h). h \<in> set hs} now"
      "blobs d' = (blobs d)(docID := now)"
      using delete_hashes_Some [OF assms(1)] by metis
    with assms(3) True show ?thesis by (auto simp: partly_removed_def)
  qed
qed (use delete_hashes_frame(2) [OF assms(1,2)] in simp)

end

end
