(* ===== verification/Conn.thy ===== *)
theory Conn
  imports DocumentStore
begin

text \<open>
  \<open>conn.go\<close>: the interface \<open>Conn\<close> as a record of its methods over a state, and the
  implementation of \<open>AddMultiDocumentVersion\<close> that every connection shares
  (\<open>AddMultiDocumentVersionImpl\<close> of \<open>docdb.go\<close>).

  A method gets the state and returns an outcome and the state it leaves behind, the
  reading ones too: a connection may log what it reads, and the file-system connection
  rewrites metadata of an old format when it reads them.
\<close>

section \<open>Operations on a state\<close>

type_synonym ('s, 'a) op = "'s \<Rightarrow> 'a outcome \<times> 's"

definition ret :: "'a \<Rightarrow> ('s, 'a) op" where
  "ret a s = (Ret a, s)"

definition fail :: "err \<Rightarrow> ('s, 'a) op" where
  "fail e s = (Fail e, s)"

definition panic :: "string \<Rightarrow> ('s, 'a) op" where
  "panic msg s = (Panic msg, s)"

text \<open>A call whose error or panic the caller passes on.\<close>

definition try_op :: "('s, 'a) op \<Rightarrow> ('a \<Rightarrow> ('s, 'b) op) \<Rightarrow> ('s, 'b) op" where
  "try_op m k s =
     (case m s of
        (Ret a, s') \<Rightarrow> k a s'
      | (Fail e, s') \<Rightarrow> (Fail e, s')
      | (Panic msg, s') \<Rightarrow> (Panic msg, s'))"

text \<open>A call that leaves the state alone.\<close>

definition read_op :: "('s \<Rightarrow> err + 'a) \<Rightarrow> ('s, 'a) op" where
  "read_op f s = (to_outcome (f s), s)"

text \<open>A call that returns a Go error, nil on success.\<close>

fun err_outcome :: "err option \<Rightarrow> unit outcome" where
  "err_outcome None = Ret ()"
| "err_outcome (Some e) = Fail e"

definition write_op :: "('s \<Rightarrow> err option \<times> 's) \<Rightarrow> ('s, unit) op" where
  "write_op f s = (let (r, s') = f s in (err_outcome r, s'))"

section \<open>The interface\<close>

text \<open>
  \<open>AddDocumentVersion\<close> also returns the metadata its \<open>onNewVersion\<close> callback accepted, in
  the order of the calls: a callback cannot change the state of the model, but
  \<open>AddMultiDocumentVersionImpl\<close> collects them in a variable.
\<close>

record 's conn =
  conn_DocumentExists :: "ctx \<Rightarrow> uuid \<Rightarrow> ('s, bool) op"
  conn_CompanyIDs :: "ctx \<Rightarrow> ('s, uuid list) op"
  conn_CompanyDocumentIDs :: "ctx \<Rightarrow> uuid \<Rightarrow> ('s, uuid list) op"
  conn_DocumentCompanyID :: "ctx \<Rightarrow> uuid \<Rightarrow> ('s, uuid) op"
  conn_SetDocumentCompanyID :: "ctx \<Rightarrow> uuid \<Rightarrow> uuid \<Rightarrow> ('s, unit) op"
  conn_DocumentVersions :: "ctx \<Rightarrow> uuid \<Rightarrow> ('s, version_time list) op"
  conn_LatestDocumentVersion :: "ctx \<Rightarrow> uuid \<Rightarrow> ('s, version_time) op"
  conn_DocumentVersionInfo :: "ctx \<Rightarrow> uuid \<Rightarrow> version_time \<Rightarrow> ('s, version_info) op"
  conn_LatestDocumentVersionInfo :: "ctx \<Rightarrow> uuid \<Rightarrow> ('s, version_info) op"
  conn_DocumentVersionFileProvider :: "ctx \<Rightarrow> uuid \<Rightarrow> version_time \<Rightarrow> ('s, file_provider) op"
  conn_ReadDocumentVersionFile :: "ctx \<Rightarrow> uuid \<Rightarrow> version_time \<Rightarrow> string \<Rightarrow> ('s, bytes) op"
  conn_DeleteDocument :: "ctx \<Rightarrow> uuid \<Rightarrow> ('s, unit) op"
  conn_DeleteDocumentVersion :: "ctx \<Rightarrow> uuid \<Rightarrow> version_time \<Rightarrow> ('s, version_time list) op"
  conn_CreateDocument :: "ctx \<Rightarrow> uuid \<Rightarrow> uuid \<Rightarrow> uuid \<Rightarrow> string \<Rightarrow> version_time \<Rightarrow> file_reader list
    \<Rightarrow> on_new_version_func option \<Rightarrow> ('s, unit) op"
  conn_AddDocumentVersion :: "ctx \<Rightarrow> uuid \<Rightarrow> uuid \<Rightarrow> string \<Rightarrow> create_version_func option
    \<Rightarrow> on_new_version_func option \<Rightarrow> 's \<Rightarrow> (unit outcome \<times> version_info list) \<times> 's"
  conn_AddMultiDocumentVersion :: "ctx \<Rightarrow> uuid list \<Rightarrow> uuid \<Rightarrow> string \<Rightarrow> create_version_func option
    \<Rightarrow> on_new_version_func option \<Rightarrow> ('s, unit) op"
  conn_RestoreDocument :: "ctx \<Rightarrow> hashed_document option \<Rightarrow> bool \<Rightarrow> ('s, unit) op"

text \<open>A connection on a part of a larger state, such as one of two connections that work side by side.\<close>

definition via :: "('t \<Rightarrow> 's) \<Rightarrow> ('s \<Rightarrow> 't \<Rightarrow> 't) \<Rightarrow> ('s \<Rightarrow> 'r \<times> 's) \<Rightarrow> 't \<Rightarrow> 'r \<times> 't" where
  "via get put m t = (let (r, s') = m (get t) in (r, put s' t))"

definition conn_via :: "('t \<Rightarrow> 's) \<Rightarrow> ('s \<Rightarrow> 't \<Rightarrow> 't) \<Rightarrow> 's conn \<Rightarrow> 't conn" where
  "conn_via get put c =
     \<lparr>conn_DocumentExists = (\<lambda>cx docID. via get put (conn_DocumentExists c cx docID)),
      conn_CompanyIDs = (\<lambda>cx. via get put (conn_CompanyIDs c cx)),
      conn_CompanyDocumentIDs = (\<lambda>cx companyID. via get put (conn_CompanyDocumentIDs c cx companyID)),
      conn_DocumentCompanyID = (\<lambda>cx docID. via get put (conn_DocumentCompanyID c cx docID)),
      conn_SetDocumentCompanyID = (\<lambda>cx docID companyID. via get put (conn_SetDocumentCompanyID c cx docID companyID)),
      conn_DocumentVersions = (\<lambda>cx docID. via get put (conn_DocumentVersions c cx docID)),
      conn_LatestDocumentVersion = (\<lambda>cx docID. via get put (conn_LatestDocumentVersion c cx docID)),
      conn_DocumentVersionInfo = (\<lambda>cx docID v. via get put (conn_DocumentVersionInfo c cx docID v)),
      conn_LatestDocumentVersionInfo = (\<lambda>cx docID. via get put (conn_LatestDocumentVersionInfo c cx docID)),
      conn_DocumentVersionFileProvider = (\<lambda>cx docID v. via get put (conn_DocumentVersionFileProvider c cx docID v)),
      conn_ReadDocumentVersionFile = (\<lambda>cx docID v filename.
        via get put (conn_ReadDocumentVersionFile c cx docID v filename)),
      conn_DeleteDocument = (\<lambda>cx docID. via get put (conn_DeleteDocument c cx docID)),
      conn_DeleteDocumentVersion = (\<lambda>cx docID v. via get put (conn_DeleteDocumentVersion c cx docID v)),
      conn_CreateDocument = (\<lambda>cx companyID docID userID reason v files onNewVersion.
        via get put (conn_CreateDocument c cx companyID docID userID reason v files onNewVersion)),
      conn_AddDocumentVersion = (\<lambda>cx docID userID reason createVersion onNewVersion.
        via get put (conn_AddDocumentVersion c cx docID userID reason createVersion onNewVersion)),
      conn_AddMultiDocumentVersion = (\<lambda>cx docIDs userID reason createVersion onNewVersion.
        via get put (conn_AddMultiDocumentVersion c cx docIDs userID reason createVersion onNewVersion)),
      conn_RestoreDocument = (\<lambda>cx doc recreate. via get put (conn_RestoreDocument c cx doc recreate))\<rparr>"

section \<open>AddMultiDocumentVersionImpl\<close>

text \<open>The callback passed on is never nil; it panics when it calls a nil \<open>onNewVersion\<close>.\<close>

definition multi_callback :: "on_new_version_func option \<Rightarrow> on_new_version_func" where
  "multi_callback onNewVersion versionInfo =
     (case onNewVersion of
        None \<Rightarrow> Panic ''nil pointer dereference''
      | Some onNew \<Rightarrow> onNew versionInfo)"

text \<open>\<open>created\<close>: the document and the time of each version the callback accepted.\<close>

definition created_versions :: "version_info list \<Rightarrow> (uuid \<times> version_time) list" where
  "created_versions infos = map (\<lambda>info. (DocID info, Version info)) infos"

fun add_multi_loop ::
  "ctx \<Rightarrow> 's conn \<Rightarrow> uuid \<Rightarrow> string \<Rightarrow> create_version_func option \<Rightarrow> on_new_version_func option
     \<Rightarrow> uuid list \<Rightarrow> (uuid \<times> version_time) list \<Rightarrow> 's \<Rightarrow> (unit outcome \<times> (uuid \<times> version_time) list) \<times> 's" where
  "add_multi_loop cx c userID reason createVersion onNewVersion [] created s =
     ((if created = [] then Fail ErrNoChanges else Ret (), created), s)"
| "add_multi_loop cx c userID reason createVersion onNewVersion (docID # docIDs) created s =
     (case conn_AddDocumentVersion c cx docID userID reason createVersion
             (Some (multi_callback onNewVersion)) s of
        ((r, infos), s') \<Rightarrow>
          (let created' = created @ created_versions infos
           in case r of
                Ret _ \<Rightarrow> add_multi_loop cx c userID reason createVersion onNewVersion docIDs created' s'
              | Fail e \<Rightarrow>
                  if errors_Is e ErrNoChanges
                  then add_multi_loop cx c userID reason createVersion onNewVersion docIDs created' s'
                  else ((Fail e, created'), s')
              | Panic msg \<Rightarrow> ((Panic msg, created'), s')))"

text \<open>The deferred function for a non-nil error: it deletes the versions in the order of their creation.\<close>

fun undo_created :: "ctx \<Rightarrow> 's conn \<Rightarrow> (uuid \<times> version_time) list \<Rightarrow> err \<Rightarrow> ('s, unit) op" where
  "undo_created cx c [] err s = (Fail err, s)"
| "undo_created cx c ((docID, version) # created) err s =
     (case conn_DeleteDocumentVersion c cx docID version s of
        (Ret _, s') \<Rightarrow> undo_created cx c created err s'
      | (Fail e, s') \<Rightarrow> undo_created cx c created
          (Join [err, Errorf ''failed to undo new document version of atomic multi-document operation'' [e]]) s'
      | (Panic msg, s') \<Rightarrow> (Panic msg, s'))"

definition AddMultiDocumentVersionImpl ::
  "ctx \<Rightarrow> 's conn \<Rightarrow> uuid list \<Rightarrow> uuid \<Rightarrow> string \<Rightarrow> create_version_func option
     \<Rightarrow> on_new_version_func option \<Rightarrow> ('s, unit) op" where
  "AddMultiDocumentVersionImpl cx c docIDs userID reason createVersion onNewVersion s =
     (case add_multi_loop cx c userID reason createVersion onNewVersion docIDs [] s of
        ((Ret _, created), s') \<Rightarrow> (Ret (), s')
      | ((Fail e, created), s') \<Rightarrow> undo_created cx c created e s'
      | ((Panic msg, created), s') \<Rightarrow> undo_created cx c created (OtherErr msg) s')"

text \<open>A connection whose \<open>AddMultiDocumentVersion\<close> calls the shared implementation with itself.\<close>

definition with_add_multi :: "'s conn \<Rightarrow> 's conn" where
  "with_add_multi c = c\<lparr>conn_AddMultiDocumentVersion := (\<lambda>cx. AddMultiDocumentVersionImpl cx c)\<rparr>"

section \<open>Sequences of calls\<close>

text \<open>A call of a method, and the state a connection is in after it, whatever the call returns.\<close>

datatype conn_call =
    Call_DocumentExists ctx uuid
  | Call_CompanyIDs ctx
  | Call_CompanyDocumentIDs ctx uuid
  | Call_DocumentCompanyID ctx uuid
  | Call_SetDocumentCompanyID ctx uuid uuid
  | Call_DocumentVersions ctx uuid
  | Call_LatestDocumentVersion ctx uuid
  | Call_DocumentVersionInfo ctx uuid version_time
  | Call_LatestDocumentVersionInfo ctx uuid
  | Call_DocumentVersionFileProvider ctx uuid version_time
  | Call_ReadDocumentVersionFile ctx uuid version_time string
  | Call_DeleteDocument ctx uuid
  | Call_DeleteDocumentVersion ctx uuid version_time
  | Call_CreateDocument ctx uuid uuid uuid string version_time "file_reader list" "on_new_version_func option"
  | Call_AddDocumentVersion ctx uuid uuid string "create_version_func option" "on_new_version_func option"
  | Call_AddMultiDocumentVersion ctx "uuid list" uuid string "create_version_func option" "on_new_version_func option"
  | Call_RestoreDocument ctx "hashed_document option" bool

fun exec :: "'s conn \<Rightarrow> conn_call \<Rightarrow> 's \<Rightarrow> 's" where
  "exec c (Call_DocumentExists cx docID) s = snd (conn_DocumentExists c cx docID s)"
| "exec c (Call_CompanyIDs cx) s = snd (conn_CompanyIDs c cx s)"
| "exec c (Call_CompanyDocumentIDs cx companyID) s = snd (conn_CompanyDocumentIDs c cx companyID s)"
| "exec c (Call_DocumentCompanyID cx docID) s = snd (conn_DocumentCompanyID c cx docID s)"
| "exec c (Call_SetDocumentCompanyID cx docID companyID) s = snd (conn_SetDocumentCompanyID c cx docID companyID s)"
| "exec c (Call_DocumentVersions cx docID) s = snd (conn_DocumentVersions c cx docID s)"
| "exec c (Call_LatestDocumentVersion cx docID) s = snd (conn_LatestDocumentVersion c cx docID s)"
| "exec c (Call_DocumentVersionInfo cx docID v) s = snd (conn_DocumentVersionInfo c cx docID v s)"
| "exec c (Call_LatestDocumentVersionInfo cx docID) s = snd (conn_LatestDocumentVersionInfo c cx docID s)"
| "exec c (Call_DocumentVersionFileProvider cx docID v) s = snd (conn_DocumentVersionFileProvider c cx docID v s)"
| "exec c (Call_ReadDocumentVersionFile cx docID v filename) s = snd (conn_ReadDocumentVersionFile c cx docID v filename s)"
| "exec c (Call_DeleteDocument cx docID) s = snd (conn_DeleteDocument c cx docID s)"
| "exec c (Call_DeleteDocumentVersion cx docID v) s = snd (conn_DeleteDocumentVersion c cx docID v s)"
| "exec c (Call_CreateDocument cx companyID docID userID reason v files onNewVersion) s = snd (conn_CreateDocument c cx companyID docID userID reason v files onNewVersion s)"
| "exec c (Call_AddDocumentVersion cx docID userID reason createVersion onNewVersion) s = snd (conn_AddDocumentVersion c cx docID userID reason createVersion onNewVersion s)"
| "exec c (Call_AddMultiDocumentVersion cx docIDs userID reason createVersion onNewVersion) s = snd (conn_AddMultiDocumentVersion c cx docIDs userID reason createVersion onNewVersion s)"
| "exec c (Call_RestoreDocument cx doc recreate) s = snd (conn_RestoreDocument c cx doc recreate s)"

text \<open>Whether the call returns, fails or panics.\<close>

fun call_result :: "'s conn \<Rightarrow> conn_call \<Rightarrow> 's \<Rightarrow> unit outcome" where
  "call_result c (Call_DocumentExists cx docID) s = map_outcome (\<lambda>_. ()) (fst (conn_DocumentExists c cx docID s))"
| "call_result c (Call_CompanyIDs cx) s = map_outcome (\<lambda>_. ()) (fst (conn_CompanyIDs c cx s))"
| "call_result c (Call_CompanyDocumentIDs cx companyID) s = map_outcome (\<lambda>_. ()) (fst (conn_CompanyDocumentIDs c cx companyID s))"
| "call_result c (Call_DocumentCompanyID cx docID) s = map_outcome (\<lambda>_. ()) (fst (conn_DocumentCompanyID c cx docID s))"
| "call_result c (Call_SetDocumentCompanyID cx docID companyID) s = fst (conn_SetDocumentCompanyID c cx docID companyID s)"
| "call_result c (Call_DocumentVersions cx docID) s = map_outcome (\<lambda>_. ()) (fst (conn_DocumentVersions c cx docID s))"
| "call_result c (Call_LatestDocumentVersion cx docID) s = map_outcome (\<lambda>_. ()) (fst (conn_LatestDocumentVersion c cx docID s))"
| "call_result c (Call_DocumentVersionInfo cx docID v) s = map_outcome (\<lambda>_. ()) (fst (conn_DocumentVersionInfo c cx docID v s))"
| "call_result c (Call_LatestDocumentVersionInfo cx docID) s = map_outcome (\<lambda>_. ()) (fst (conn_LatestDocumentVersionInfo c cx docID s))"
| "call_result c (Call_DocumentVersionFileProvider cx docID v) s = map_outcome (\<lambda>_. ()) (fst (conn_DocumentVersionFileProvider c cx docID v s))"
| "call_result c (Call_ReadDocumentVersionFile cx docID v filename) s = map_outcome (\<lambda>_. ()) (fst (conn_ReadDocumentVersionFile c cx docID v filename s))"
| "call_result c (Call_DeleteDocument cx docID) s = fst (conn_DeleteDocument c cx docID s)"
| "call_result c (Call_DeleteDocumentVersion cx docID v) s = map_outcome (\<lambda>_. ()) (fst (conn_DeleteDocumentVersion c cx docID v s))"
| "call_result c (Call_CreateDocument cx companyID docID userID reason v files onNewVersion) s = fst (conn_CreateDocument c cx companyID docID userID reason v files onNewVersion s)"
| "call_result c (Call_AddDocumentVersion cx docID userID reason createVersion onNewVersion) s = fst (fst (conn_AddDocumentVersion c cx docID userID reason createVersion onNewVersion s))"
| "call_result c (Call_AddMultiDocumentVersion cx docIDs userID reason createVersion onNewVersion) s = fst (conn_AddMultiDocumentVersion c cx docIDs userID reason createVersion onNewVersion s)"
| "call_result c (Call_RestoreDocument cx doc recreate) s = fst (conn_RestoreDocument c cx doc recreate s)"

text \<open>The calls that are meant to change the state.\<close>

fun is_write :: "conn_call \<Rightarrow> bool" where
  "is_write (Call_SetDocumentCompanyID cx docID companyID) = True"
| "is_write (Call_DeleteDocument cx docID) = True"
| "is_write (Call_DeleteDocumentVersion cx docID v) = True"
| "is_write (Call_CreateDocument cx companyID docID userID reason v files onNewVersion) = True"
| "is_write (Call_AddDocumentVersion cx docID userID reason createVersion onNewVersion) = True"
| "is_write (Call_AddMultiDocumentVersion cx docIDs userID reason createVersion onNewVersion) = True"
| "is_write (Call_RestoreDocument cx doc recreate) = True"
| "is_write _ = False"

text \<open>A connection whose reads leave the state alone.\<close>

definition reads_only :: "'s conn \<Rightarrow> bool" where
  "reads_only c \<longleftrightarrow> (\<forall>call s. \<not> is_write call \<longrightarrow> exec c call s = s)"

definition exec_all :: "'s conn \<Rightarrow> conn_call list \<Rightarrow> 's \<Rightarrow> 's" where
  "exec_all c calls s = fold (exec c) calls s"

lemma exec_all_simps [simp]:
  "exec_all c [] s = s"
  "exec_all c (call # calls) s = exec_all c calls (exec c call s)"
  by (simp_all add: exec_all_def)

lemma exec_all_invariant:
  assumes "\<And>call s. call \<in> set calls \<Longrightarrow> I s \<Longrightarrow> I (exec c call s)" "I s"
  shows "I (exec_all c calls s)"
  using assms by (induction calls arbitrary: s) auto

section \<open>Lemmas\<close>

lemma ret_simps [simp]: "ret a s = (Ret a, s)" "fail e s = (Fail e, s)" "panic msg s = (Panic msg, s)"
  by (simp_all add: ret_def fail_def panic_def)

lemma read_op_snd [simp]: "snd (read_op f s) = s"
  by (simp add: read_op_def)

lemma read_op_Ret [simp]: "read_op f s = (Ret a, s') \<longleftrightarrow> f s = Inr a \<and> s' = s"
  by (auto simp: read_op_def)

lemma read_op_Fail [simp]: "read_op f s = (Fail e, s') \<longleftrightarrow> f s = Inl e \<and> s' = s"
  by (auto simp: read_op_def)

lemma read_op_Panic [simp]: "read_op f s \<noteq> (Panic msg, s')"
  by (simp add: read_op_def)

lemma try_op_Ret_iff: "try_op m k s = (Ret b, s') \<longleftrightarrow> (\<exists>a t. m s = (Ret a, t) \<and> k a t = (Ret b, s'))"
  by (auto simp: try_op_def split: prod.splits outcome.splits)

lemma via_eq: "via get put m t = (r, t') \<longleftrightarrow> (\<exists>s'. m (get t) = (r, s') \<and> t' = put s' t)"
  by (auto simp: via_def split: prod.splits)

lemma try_op_cong: "(\<And>a t. m s = (Ret a, t) \<Longrightarrow> k a t = k' a t) \<Longrightarrow> try_op m k s = try_op m k' s"
  by (auto simp: try_op_def split: prod.splits outcome.splits)

lemma try_op_ret [simp]: "m s = (Ret a, t) \<Longrightarrow> try_op m k s = k a t"
  by (simp add: try_op_def)

lemma try_op_fail [simp]: "m s = (Fail e, t) \<Longrightarrow> try_op m k s = (Fail e, t)"
  by (simp add: try_op_def)

lemma err_outcome_iffs [simp]:
  "err_outcome r = Ret () \<longleftrightarrow> r = None" "err_outcome r = Fail e \<longleftrightarrow> r = Some e" "err_outcome r \<noteq> Panic m"
  by (cases r; simp)+

lemma err_outcome_Ret [simp]: "err_outcome r = Ret u \<longleftrightarrow> r = None"
  by (cases r) auto

text \<open>The shared implementation looks at two methods only, so it may call the connection built from it.\<close>

lemma add_multi_loop_with:
  "add_multi_loop cx (with_add_multi c) userID reason createVersion onNewVersion docIDs created s =
     add_multi_loop cx c userID reason createVersion onNewVersion docIDs created s"
  by (induction docIDs arbitrary: created s)
    (simp_all add: with_add_multi_def Let_def split: prod.splits outcome.splits)

lemma undo_created_with: "undo_created cx (with_add_multi c) created e s = undo_created cx c created e s"
  by (induction created arbitrary: e s)
    (auto simp: with_add_multi_def split: prod.splits outcome.splits)

lemma AddMulti_with_self:
  "conn_AddMultiDocumentVersion (with_add_multi c) cx docIDs userID reason createVersion onNewVersion s =
     AddMultiDocumentVersionImpl cx (with_add_multi c) docIDs userID reason createVersion onNewVersion s"
proof -
  have "conn_AddMultiDocumentVersion (with_add_multi c) cx docIDs userID reason createVersion onNewVersion s =
      AddMultiDocumentVersionImpl cx c docIDs userID reason createVersion onNewVersion s"
    by (simp add: with_add_multi_def)
  also have "\<dots> = AddMultiDocumentVersionImpl cx (with_add_multi c) docIDs userID reason createVersion onNewVersion s"
    by (simp add: AddMultiDocumentVersionImpl_def add_multi_loop_with undo_created_with split: prod.splits outcome.splits)
  finally show ?thesis .
qed

lemma with_add_multi_sel [simp]:
  "conn_AddDocumentVersion (with_add_multi c) = conn_AddDocumentVersion c"
  "conn_DeleteDocumentVersion (with_add_multi c) = conn_DeleteDocumentVersion c"
  by (simp_all add: with_add_multi_def)

end
