(* ===== verification/MetadataStore.thy ===== *)
theory MetadataStore
  imports DocumentStore
begin

text \<open>
  \<open>storeconn/metadatastore.go\<close>: the interface \<open>MetadataStore\<close> as a record of its methods
  over a state, and its contract as a locale. The methods that behave differently in
  pgstore's versions-exist mode take the context.
\<close>

record create_document_version_input =
  in_DocID :: uuid
  in_CompanyID :: uuid
  in_UserID :: uuid
  in_Reason :: string
  in_NewVersion :: version_time
  in_PreviousVersion :: "version_time option"
  in_AddedFiles :: "file_info list"
  in_ModifiedFiles :: "file_info list"
  in_RemovedFiles :: "string list"
  in_Files :: "(string, file_info) gomap option"

record 'm metadata_store =
  ms_CreateDocumentVersion :: "ctx \<Rightarrow> create_document_version_input \<Rightarrow> 'm \<Rightarrow> (err + version_info) \<times> 'm"
  ms_DocumentCompanyID :: "uuid \<Rightarrow> 'm \<Rightarrow> err + uuid"
  ms_SetDocumentCompanyID :: "uuid \<Rightarrow> uuid \<Rightarrow> 'm \<Rightarrow> err option \<times> 'm"
  ms_DocumentVersions :: "uuid \<Rightarrow> 'm \<Rightarrow> err + version_time list"
  ms_LatestDocumentVersion :: "uuid \<Rightarrow> 'm \<Rightarrow> err + version_time"
  ms_CompanyIDs :: "'m \<Rightarrow> err + uuid list"
  ms_CompanyDocumentIDs :: "uuid \<Rightarrow> 'm \<Rightarrow> err + uuid list"
  ms_DocumentVersionInfo :: "uuid \<Rightarrow> version_time \<Rightarrow> 'm \<Rightarrow> err + version_info"
  ms_LatestDocumentVersionInfo :: "uuid \<Rightarrow> 'm \<Rightarrow> err + version_info"
  ms_DeleteDocument :: "ctx \<Rightarrow> uuid \<Rightarrow> 'm \<Rightarrow> err option \<times> 'm"
  ms_DeleteDocumentVersion :: "ctx \<Rightarrow> uuid \<Rightarrow> version_time \<Rightarrow> 'm \<Rightarrow> (err + version_time list \<times> string list) \<times> 'm"

section \<open>The contract\<close>

text \<open>The committed versions of every document, by their time in whole milliseconds.\<close>

type_synonym doc_view = "version_time \<rightharpoonup> version_info"

type_synonym meta_view = "uuid \<Rightarrow> doc_view"

definition hashes_of :: "version_info \<Rightarrow> string set" where
  "hashes_of info = Hash ` ran (map_of (Files info))"

definition wf_view :: "meta_view \<Rightarrow> bool" where
  "wf_view mv \<longleftrightarrow> (\<forall>docID v info. mv docID v = Some info \<longrightarrow>
     DocID info = docID \<and> Version info = v \<and> ms_trunc v = v \<and> wf_files (Files info))"

text \<open>The file set of the version to write: given, or carried forward from the predecessor.\<close>

definition resulting_files ::
  "(string, file_info) gomap \<Rightarrow> create_document_version_input \<Rightarrow> (string, file_info) gomap" where
  "resulting_files prev inp =
     (case in_Files inp of
        Some fs \<Rightarrow> fs
      | None \<Rightarrow> put_all Name id (in_ModifiedFiles inp)
                (put_all Name id (in_AddedFiles inp) (del_all (in_RemovedFiles inp) prev)))"

definition input_files :: "meta_view \<Rightarrow> create_document_version_input \<Rightarrow> (string, file_info) gomap" where
  "input_files mv inp =
     resulting_files (case in_PreviousVersion inp of None \<Rightarrow> []
        | Some p \<Rightarrow> (case mv (in_DocID inp) (ms_trunc p) of None \<Rightarrow> [] | Some i \<Rightarrow> Files i)) inp"

text \<open>The metadata the method returns.\<close>

definition input_info :: "(string, file_info) gomap \<Rightarrow> create_document_version_input \<Rightarrow> version_info" where
  "input_info files inp =
     \<lparr>CompanyID = in_CompanyID inp, DocID = in_DocID inp, Version = in_NewVersion inp,
      PrevVersion = in_PreviousVersion inp, CommitUserID = in_UserID inp, CommitReason = in_Reason inp,
      Files = files, AddedFiles = map Name (in_AddedFiles inp), RemovedFiles = in_RemovedFiles inp,
      ModifiedFiles = map Name (in_ModifiedFiles inp)\<rparr>"

text \<open>What is stored of it: the times lose their fraction of a millisecond.\<close>

definition as_stored :: "version_info \<Rightarrow> version_info" where
  "as_stored info = info\<lparr>Version := ms_trunc (Version info),
     PrevVersion := map_option ms_trunc (PrevVersion info)\<rparr>"

definition put_version :: "meta_view \<Rightarrow> uuid \<Rightarrow> version_time \<Rightarrow> version_info \<Rightarrow> meta_view" where
  "put_version mv docID v info = mv(docID := (mv docID)(ms_trunc v \<mapsto> info))"

definition drop_version :: "meta_view \<Rightarrow> uuid \<Rightarrow> version_time \<Rightarrow> meta_view" where
  "drop_version mv docID v = mv(docID := (mv docID)(ms_trunc v := None))"

text \<open>The input a store can hold: what the tables' constraints demand.\<close>

definition storable_file :: "file_info \<Rightarrow> bool" where
  "storable_file fi \<longleftrightarrow> Name fi \<noteq> [] \<and> 0 \<le> Size fi \<and> length (Hash fi) = 64"

definition storable :: "meta_view \<Rightarrow> create_document_version_input \<Rightarrow> bool" where
  "storable mv inp \<longleftrightarrow>
     Time (in_NewVersion inp) \<noteq> 0 \<and>
     (\<forall>p. in_PreviousVersion inp = Some p \<longrightarrow> Time p \<noteq> 0 \<and> (in_Files inp = None \<longrightarrow> mv (in_DocID inp) (ms_trunc p) \<noteq> None)) \<and>
     (\<forall>fi\<in>ran (map_of (input_files mv inp)). storable_file fi) \<and>
     mv (in_DocID inp) (ms_trunc (in_NewVersion inp)) = None \<and>
     (in_PreviousVersion inp = None \<longrightarrow> (\<forall>i\<in>ran (mv (in_DocID inp)). PrevVersion i \<noteq> None))"

definition latest :: "doc_view \<Rightarrow> version_time \<Rightarrow> bool" where
  "latest dv v \<longleftrightarrow> v \<in> dom dv \<and> (\<forall>u\<in>dom dv. u \<le> v)"

text \<open>
  \<open>minv\<close> is the invariant, \<open>mcalm\<close> says that no request of the store fails by itself,
  \<open>mroom\<close> that the store can hold one more version.
\<close>

locale metadata_store =
  fixes ms :: "'m metadata_store"
    and view :: "'m \<Rightarrow> meta_view"
    and minv :: "'m \<Rightarrow> bool"
    and mcalm :: "'m \<Rightarrow> bool"
    and mroom :: "'m \<Rightarrow> bool"
  assumes view_wf: "minv m \<Longrightarrow> wf_view (view m) \<and> (\<forall>docID. finite (dom (view m docID)))"
    and version_info_Inr:
      "minv m \<Longrightarrow> ms_DocumentVersionInfo ms docID v m = Inr info \<Longrightarrow> view m docID (ms_trunc v) = Some info"
    and version_info_calm:
      "minv m \<Longrightarrow> mcalm m \<Longrightarrow> Time v \<noteq> 0 \<Longrightarrow> view m docID (ms_trunc v) = Some info \<Longrightarrow> ms_DocumentVersionInfo ms docID v m = Inr info"
    and latest_info_Inr:
      "minv m \<Longrightarrow> ms_LatestDocumentVersionInfo ms docID m = Inr info \<Longrightarrow>
        latest (view m docID) (Version info) \<and> view m docID (Version info) = Some info"
    and latest_info_calm:
      "minv m \<Longrightarrow> mcalm m \<Longrightarrow> view m docID \<noteq> Map.empty \<Longrightarrow> \<exists>info. ms_LatestDocumentVersionInfo ms docID m = Inr info"
    and versions_Inr:
      "minv m \<Longrightarrow> ms_DocumentVersions ms docID m = Inr vs \<Longrightarrow>
        sorted vs \<and> distinct vs \<and> set vs = dom (view m docID) \<and> vs \<noteq> []"
    and versions_calm:
      "minv m \<Longrightarrow> mcalm m \<Longrightarrow> view m docID \<noteq> Map.empty \<Longrightarrow> \<exists>vs. ms_DocumentVersions ms docID m = Inr vs"
    and latest_version_Inr:
      "minv m \<Longrightarrow> ms_LatestDocumentVersion ms docID m = Inr u \<Longrightarrow> latest (view m docID) u"
    and company_Inr:
      "minv m \<Longrightarrow> ms_DocumentCompanyID ms docID m = Inr c \<Longrightarrow>
        \<exists>v info. latest (view m docID) v \<and> view m docID v = Some info \<and> CompanyID info = c"
    and company_calm:
      "minv m \<Longrightarrow> mcalm m \<Longrightarrow> view m docID \<noteq> Map.empty \<Longrightarrow> \<exists>c. ms_DocumentCompanyID ms docID m = Inr c"
    and set_company_None:
      "minv m \<Longrightarrow> ms_SetDocumentCompanyID ms docID c m = (None, m') \<Longrightarrow>
        minv m' \<and> view m docID \<noteq> Map.empty
        \<and> view m' = (view m)(docID := (\<lambda>v. map_option (CompanyID_update (\<lambda>_. c)) (view m docID v)))"
    and set_company_Some:
      "minv m \<Longrightarrow> ms_SetDocumentCompanyID ms docID c m = (Some e, m') \<Longrightarrow> minv m' \<and> view m' = view m"
    and company_ids_Inr:
      "minv m \<Longrightarrow> ms_CompanyIDs ms m = Inr cs \<Longrightarrow>
        sorted cs \<and> distinct cs \<and> set cs = {CompanyID info | docID v info. view m docID v = Some info}"
    and company_docs_Inr:
      "minv m \<Longrightarrow> ms_CompanyDocumentIDs ms c m = Inr ids \<Longrightarrow>
        sorted ids \<and> distinct ids
        \<and> set ids = {docID. \<exists>v info. view m docID v = Some info \<and> CompanyID info = c}"
    and create_Inr:
      "minv m \<Longrightarrow> \<not> VersionsExist cx \<Longrightarrow> wf_files (input_files (view m) inp) \<Longrightarrow>
        ms_CreateDocumentVersion ms cx inp m = (Inr info, m') \<Longrightarrow>
        minv m' \<and> info = input_info (input_files (view m) inp) inp
        \<and> view m (in_DocID inp) (ms_trunc (in_NewVersion inp)) = None
        \<and> view m' = put_version (view m) (in_DocID inp) (in_NewVersion inp) (as_stored info)"
    and create_Inl:
      "minv m \<Longrightarrow> \<not> VersionsExist cx \<Longrightarrow>
        ms_CreateDocumentVersion ms cx inp m = (Inl e, m') \<Longrightarrow> minv m' \<and> view m' = view m"
    and create_calm:
      "minv m \<Longrightarrow> mcalm m \<Longrightarrow> \<not> VersionsExist cx \<Longrightarrow>
        ms_CreateDocumentVersion ms cx inp m = (r, m') \<Longrightarrow>
        mcalm m' \<and> (mroom m \<and> storable (view m) inp \<and> wf_files (input_files (view m) inp) \<longrightarrow> (\<exists>info. r = Inr info))"
    and delete_None:
      "minv m \<Longrightarrow> \<not> VersionsExist cx \<Longrightarrow> ms_DeleteDocument ms cx docID m = (None, m') \<Longrightarrow>
        minv m' \<and> view m docID \<noteq> Map.empty \<and> view m' = (view m)(docID := Map.empty)"
    and delete_Some:
      "minv m \<Longrightarrow> \<not> VersionsExist cx \<Longrightarrow> ms_DeleteDocument ms cx docID m = (Some e, m') \<Longrightarrow>
        minv m' \<and> view m' = view m"
    and delete_calm:
      "minv m \<Longrightarrow> mcalm m \<Longrightarrow> \<not> VersionsExist cx \<Longrightarrow> ms_DeleteDocument ms cx docID m = (del, m') \<Longrightarrow>
        mcalm m' \<and> (view m docID \<noteq> Map.empty \<longrightarrow> del = None)"
    and delete_version_Inr:
      "minv m \<Longrightarrow> \<not> VersionsExist cx \<Longrightarrow>
        ms_DeleteDocumentVersion ms cx docID v m = (Inr (left, hashes), m') \<Longrightarrow>
        minv m' \<and> view m' = drop_version (view m) docID v \<and>
        (\<exists>info. view m docID (ms_trunc v) = Some info \<and>
          set hashes = hashes_of info - \<Union> (hashes_of ` ran (view m' docID)))"
    and delete_version_Inl:
      "minv m \<Longrightarrow> \<not> VersionsExist cx \<Longrightarrow> ms_DeleteDocumentVersion ms cx docID v m = (Inl e, m') \<Longrightarrow>
        minv m' \<and> (view m' = view m \<or> view m' = drop_version (view m) docID v)"
    and delete_version_calm:
      "minv m \<Longrightarrow> mcalm m \<Longrightarrow> \<not> VersionsExist cx \<Longrightarrow>
        ms_DeleteDocumentVersion ms cx docID v m = (res, m') \<Longrightarrow>
        mcalm m' \<and> (Time v \<noteq> 0 \<longrightarrow> view m' = drop_version (view m) docID v)"
begin

lemma create_frame:
  assumes "minv m" "\<not> VersionsExist cx" "wf_files (input_files (view m) inp)"
    "ms_CreateDocumentVersion ms cx inp m = (r, m')"
  shows "minv m'" "docID \<noteq> in_DocID inp \<Longrightarrow> view m' docID = view m docID"
  using assms by (cases r; fastforce dest: create_Inr create_Inl simp: put_version_def)+

lemma delete_version_frame:
  assumes "minv m" "\<not> VersionsExist cx" "ms_DeleteDocumentVersion ms cx docID v m = (r, m')"
  shows "minv m'" "view m' = view m \<or> view m' = drop_version (view m) docID v"
  using assms by (cases r; fastforce dest: delete_version_Inr delete_version_Inl)+

lemma view_Files_wf: "minv m \<Longrightarrow> view m docID v = Some info \<Longrightarrow> wf_files (Files info)"
  using view_wf [of m] by (auto simp: wf_view_def)

lemma view_Version: "minv m \<Longrightarrow> view m docID v = Some info \<Longrightarrow> Version info = v \<and> ms_trunc v = v"
  using view_wf [of m] unfolding wf_view_def by blast

end

section \<open>Lemmas on views\<close>

lemma put_version_same [simp]: "put_version mv docID v info docID = (mv docID)(ms_trunc v \<mapsto> info)"
  by (simp add: put_version_def)

lemma put_version_other [simp]: "docID' \<noteq> docID \<Longrightarrow> put_version mv docID v info docID' = mv docID'"
  by (simp add: put_version_def)

lemma drop_version_same [simp]: "drop_version mv docID v docID = (mv docID)(ms_trunc v := None)"
  by (simp add: drop_version_def)

lemma drop_version_other [simp]: "docID' \<noteq> docID \<Longrightarrow> drop_version mv docID v docID' = mv docID'"
  by (simp add: drop_version_def)

lemma drop_put_version: "mv docID (ms_trunc v) = None \<Longrightarrow> drop_version (put_version mv docID v info) docID v = mv"
  by (auto simp: drop_version_def put_version_def fun_eq_iff)

lemma drop_version_absent: "mv docID (ms_trunc v) = None \<Longrightarrow> drop_version mv docID v = mv"
  by (auto simp: drop_version_def fun_eq_iff)

lemma as_stored_simps [simp]:
  "Files (as_stored info) = Files info" "CompanyID (as_stored info) = CompanyID info"
  "DocID (as_stored info) = DocID info" "Version (as_stored info) = ms_trunc (Version info)"
  "PrevVersion (as_stored info) = map_option ms_trunc (PrevVersion info)"
  "CommitUserID (as_stored info) = CommitUserID info" "CommitReason (as_stored info) = CommitReason info"
  "AddedFiles (as_stored info) = AddedFiles info" "RemovedFiles (as_stored info) = RemovedFiles info"
  "ModifiedFiles (as_stored info) = ModifiedFiles info"
  by (simp_all add: as_stored_def)

lemma input_info_Files [simp]: "Files (input_info files inp) = files"
  by (simp add: input_info_def)

lemma input_files_given [simp]: "in_Files inp = Some fs \<Longrightarrow> input_files mv inp = fs"
  by (simp add: input_files_def resulting_files_def)

lemma input_files_genesis:
  "in_Files inp = None \<Longrightarrow> in_PreviousVersion inp = None \<Longrightarrow> in_RemovedFiles inp = [] \<Longrightarrow> in_ModifiedFiles inp = [] \<Longrightarrow>
     input_files mv inp = put_all Name id (in_AddedFiles inp) []"
  by (simp add: input_files_def resulting_files_def)

end
