(* ===== verification/AddMulti.thy ===== *)
theory AddMulti
  imports Conn MetadataStore
begin

text \<open>
  The contract of a connection that keeps document versions, as far as
  \<open>AddMultiDocumentVersionImpl\<close> relies on it, and what the shared implementation makes
  of it: all documents get their version or none does.
\<close>

section \<open>Versions added one after another\<close>

text \<open>
  A state in which the versions \<open>infos\<close> were added one after another to the state of \<open>mv\<close>.
  \<open>st\<close> relates the metadata of a new version to what is stored of it.
\<close>

fun adds :: "(version_info \<Rightarrow> version_info \<Rightarrow> bool) \<Rightarrow> meta_view \<Rightarrow> version_info list \<Rightarrow> meta_view \<Rightarrow> bool" where
  "adds st mv [] mv' = (mv' = mv)"
| "adds st mv (info # infos) mv' =
     (mv (DocID info) (ms_trunc (Version info)) = None
      \<and> (\<exists>info'. st info info' \<and> adds st (put_version mv (DocID info) (Version info) info') infos mv'))"

text \<open>What the metadata store keeps.\<close>

definition stored_version :: "version_info \<Rightarrow> version_info \<Rightarrow> bool" where
  "stored_version info info' \<longleftrightarrow> info' = as_stored info \<and> Time (Version info) \<noteq> 0"

definition accepted_by :: "on_new_version_func option \<Rightarrow> version_info list \<Rightarrow> bool" where
  "accepted_by onNewVersion infos \<longleftrightarrow>
     (\<forall>info\<in>set infos. \<exists>onNew. onNewVersion = Some onNew \<and> onNew info = Ret ())"

lemma multi_callback_Ret: "multi_callback onNewVersion info = Ret () \<longleftrightarrow> (\<exists>onNew. onNewVersion = Some onNew \<and> onNew info = Ret ())"
  by (simp add: multi_callback_def split: option.splits)

text \<open>The versions \<open>created\<close> taken out again.\<close>

fun drops :: "meta_view \<Rightarrow> (uuid \<times> version_time) list \<Rightarrow> meta_view" where
  "drops mv [] = mv"
| "drops mv ((docID, v) # created) = drops (drop_version mv docID v) created"

lemma drops_apply:
  "drops mv created docID t = (if \<exists>v. (docID, v) \<in> set created \<and> ms_trunc v = t then None else mv docID t)"
proof (induction mv created rule: drops.induct)
  case (2 mv docID' v created)
  show ?case unfolding drops.simps 2 by (auto simp: drop_version_def)
qed simp

lemma put_version_NoneD: "put_version mv docID v info docID' t = None \<Longrightarrow> mv docID' t = None"
  by (simp add: put_version_def split: if_splits)

lemma adds_absent: "adds st mv infos mv' \<Longrightarrow> info \<in> set infos \<Longrightarrow> mv (DocID info) (ms_trunc (Version info)) = None"
  by (induction infos arbitrary: mv) (auto, metis put_version_NoneD)

lemma adds_other:
  "adds st mv infos mv' \<Longrightarrow> \<forall>info\<in>set infos. DocID info \<noteq> docID \<or> ms_trunc (Version info) \<noteq> t \<Longrightarrow> mv' docID t = mv docID t"
  by (induction infos arbitrary: mv) (auto simp: put_version_def)

lemma adds_stored: "adds st mv infos mv' \<Longrightarrow> info \<in> set infos \<Longrightarrow> \<exists>info'. st info info'"
  by (induction infos arbitrary: mv) auto

lemma drops_adds:
  assumes "adds st mv infos mv'"
  shows "drops mv' (created_versions infos) = mv"
proof (intro ext)
  fix docID t
  show "drops mv' (created_versions infos) docID t = mv docID t"
  proof (cases "\<exists>info\<in>set infos. DocID info = docID \<and> ms_trunc (Version info) = t")
    case True
    then have "\<exists>v. (docID, v) \<in> set (created_versions infos) \<and> ms_trunc v = t"
      by (force simp: created_versions_def)
    with True adds_absent [OF assms] show ?thesis by (auto simp: drops_apply)
  next
    case False
    then have "\<not> (\<exists>v. (docID, v) \<in> set (created_versions infos) \<and> ms_trunc v = t)"
      by (auto simp: created_versions_def)
    with False adds_other [OF assms] show ?thesis by (auto simp: drops_apply)
  qed
qed

section \<open>The contract\<close>

text \<open>
  \<open>vw\<close> are the committed versions, \<open>inv\<close> the invariant, \<open>calm\<close> says that no request fails by
  itself. \<open>cx\<close> is the context of the call, \<open>D\<close> the documents the connection is asked for, \<open>ok\<close>
  what it needs to know of the callback, \<open>st\<close> what it stores of the metadata of a version.
\<close>

locale versioned_conn =
  fixes c :: "'s conn" and cx :: ctx
    and vw :: "'s \<Rightarrow> meta_view" and inv :: "'s \<Rightarrow> bool" and calm :: "'s \<Rightarrow> bool"
    and ok :: "create_version_func option \<Rightarrow> bool" and st :: "version_info \<Rightarrow> version_info \<Rightarrow> bool"
    and D :: "uuid set"
  assumes add_Ret:
      "docID \<in> D \<Longrightarrow> inv s \<Longrightarrow> ok createVersion \<Longrightarrow> conn_AddDocumentVersion c cx docID userID reason createVersion onNewVersion s = ((Ret u, infos), s') \<Longrightarrow>
        inv s' \<and> (\<exists>info onNew info'. infos = [info] \<and> onNewVersion = Some onNew \<and> onNew info = Ret () \<and> DocID info = docID
          \<and> st info info' \<and> vw s docID (ms_trunc (Version info)) = None
          \<and> vw s' = put_version (vw s) docID (Version info) info')"
    and add_fails:
      "docID \<in> D \<Longrightarrow> inv s \<Longrightarrow> ok createVersion \<Longrightarrow> conn_AddDocumentVersion c cx docID userID reason createVersion onNewVersion s = ((r, infos), s') \<Longrightarrow>
        r \<noteq> Ret () \<Longrightarrow> inv s' \<and> infos = [] \<and> (calm s \<longrightarrow> vw s' = vw s)"
    and add_calm:
      "docID \<in> D \<Longrightarrow> inv s \<Longrightarrow> ok createVersion \<Longrightarrow> calm s \<Longrightarrow> conn_AddDocumentVersion c cx docID userID reason createVersion onNewVersion s = ((r, infos), s') \<Longrightarrow>
        calm s'"
    and delete_inv:
      "docID \<in> D \<Longrightarrow> inv s \<Longrightarrow> conn_DeleteDocumentVersion c cx docID v s = (rd, s') \<Longrightarrow> inv s' \<and> (\<forall>msg. rd \<noteq> Panic msg)"
    and delete_calm:
      "docID \<in> D \<Longrightarrow> inv s \<Longrightarrow> calm s \<Longrightarrow> st info info' \<Longrightarrow> Version info = v \<Longrightarrow> conn_DeleteDocumentVersion c cx docID v s = (rd, s') \<Longrightarrow>
        calm s' \<and> vw s' = drop_version (vw s) docID v"
begin

text \<open>The loop: what is in \<open>created\<close> was added, and nothing else changed while the store is calm.\<close>

lemma loop:
  assumes "add_multi_loop cx c userID reason createVersion onNewVersion docIDs (created_versions before) s = ((r, created), s')"
    and "inv s" "set docIDs \<subseteq> D" and ok: "ok createVersion"
  shows "inv s' \<and> (calm s \<longrightarrow> calm s') \<and> (\<exists>infos. created = created_versions (before @ infos)
    \<and> accepted_by onNewVersion infos \<and> subseq (map DocID infos) docIDs
    \<and> (r = Ret () \<longrightarrow> before @ infos \<noteq> []) \<and> (calm s \<longrightarrow> adds st (vw s) infos (vw s')))"
  using assms(1-3)
proof (induction docIDs arbitrary: before s)
  case Nil
  then show ?case by (auto simp: created_versions_def accepted_by_def split: if_splits)
next
  case (Cons docID docIDs)
  obtain ra infos1 s1 where add: "conn_AddDocumentVersion c cx docID userID reason createVersion
      (Some (multi_callback onNewVersion)) s = ((ra, infos1), s1)" by (metis prod.collapse)
  have D: "docID \<in> D" "set docIDs \<subseteq> D" using Cons.prems(3) by auto
  have calm: "calm s \<Longrightarrow> calm s1" using add_calm [OF D(1) Cons.prems(2) ok _ add] by blast
  show ?case
  proof (cases "ra = Ret ()")
    case True
    obtain info info' where a: "inv s1" "infos1 = [info]" "multi_callback onNewVersion info = Ret ()" "DocID info = docID"
      "st info info'" "vw s docID (ms_trunc (Version info)) = None"
      "vw s1 = put_version (vw s) docID (Version info) info'"
      using add_Ret [OF D(1) Cons.prems(2) ok add [unfolded True]] by auto
    have run: "add_multi_loop cx c userID reason createVersion onNewVersion docIDs (created_versions (before @ [info])) s1
        = ((r, created), s')"
      using Cons.prems(1) add True a(2) by (simp add: created_versions_def)
    from Cons.IH [OF run a(1) D(2)] obtain infos where IH: "inv s'" "calm s1 \<longrightarrow> calm s'"
      "created = created_versions ((before @ [info]) @ infos)" "accepted_by onNewVersion infos"
      "subseq (map DocID infos) docIDs" "calm s1 \<longrightarrow> adds st (vw s1) infos (vw s')" by blast
    have "adds st (vw s) (info # infos) (vw s')" if "calm s"
      using IH(6) calm [OF that] a(4-7) by auto
    moreover have "accepted_by onNewVersion (info # infos)"
      using IH(4) a(3) by (simp add: accepted_by_def multi_callback_Ret)
    ultimately show ?thesis
      using IH(1,2,3,5) calm a(4) by (intro conjI exI [of _ "info # infos"]) auto
  next
    case False
    have f: "inv s1" "infos1 = []" "calm s \<Longrightarrow> vw s1 = vw s"
      using add_fails [OF D(1) Cons.prems(2) ok add False] by auto
    show ?thesis
    proof (cases "\<exists>e. ra = Fail e \<and> errors_Is e ErrNoChanges")
      case True
      then have run: "add_multi_loop cx c userID reason createVersion onNewVersion docIDs (created_versions before) s1
          = ((r, created), s')"
        using Cons.prems(1) add f(2) by (auto simp: created_versions_def)
      from Cons.IH [OF run f(1) D(2)] obtain infos where IH: "inv s'" "calm s1 \<longrightarrow> calm s'"
        "created = created_versions (before @ infos)" "accepted_by onNewVersion infos"
        "subseq (map DocID infos) docIDs" "r = Ret () \<longrightarrow> before @ infos \<noteq> []"
        "calm s1 \<longrightarrow> adds st (vw s1) infos (vw s')" by blast
      then show ?thesis using calm f(3) by (intro conjI exI [of _ infos]) auto
    next
      case noskip: False
      have "r = ra \<and> created = created_versions before \<and> s' = s1"
        using Cons.prems(1) add False f(2) noskip
        by (auto simp: created_versions_def Let_def split: outcome.splits if_splits)
      then show ?thesis using False f calm
        by (intro conjI exI [of _ "[]"]) (auto simp: accepted_by_def)
    qed
  qed
qed

lemma undo:
  assumes "undo_created cx c created e s = (r, s')" "inv s" "fst ` set created \<subseteq> D"
  shows "inv s' \<and> (\<exists>e'. r = Fail e') \<and>
    (calm s \<and> (\<forall>(docID, v)\<in>set created. \<exists>info info'. st info info' \<and> Version info = v) \<longrightarrow> calm s' \<and> vw s' = drops (vw s) created)"
  using assms
proof (induction created arbitrary: e s)
  case (Cons dv created)
  obtain docID v where dv: "dv = (docID, v)" by fastforce
  obtain rd s1 where del: "conn_DeleteDocumentVersion c cx docID v s = (rd, s1)" by fastforce
  have D: "docID \<in> D" "fst ` set created \<subseteq> D" using Cons.prems(3) dv by auto
  have s1: "inv s1" "\<And>msg. rd \<noteq> Panic msg" using delete_inv [OF D(1) Cons.prems(2) del] by auto
  have calm: "calm s \<Longrightarrow> \<exists>info info'. st info info' \<and> Version info = v \<Longrightarrow> calm s1 \<and> vw s1 = drop_version (vw s) docID v"
    using delete_calm [OF D(1) Cons.prems(2) _ _ _ del] by blast
  obtain e1 where "undo_created cx c created e1 s1 = (r, s')"
    using Cons.prems(1) dv del s1(2) by (auto split: outcome.splits)
  from Cons.IH [OF this s1(1) D(2)] calm show ?case by (auto simp: dv)
qed auto

text \<open>All or nothing.\<close>

lemma created_in_D: "subseq (map DocID infos) docIDs \<Longrightarrow> set docIDs \<subseteq> D \<Longrightarrow> fst ` set (created_versions infos) \<subseteq> D"
  using list_emb_set [of "(=)" "map DocID infos" docIDs] by (force simp: created_versions_def)

lemma add_multi_Ret:
  assumes run: "AddMultiDocumentVersionImpl cx c docIDs userID reason createVersion onNewVersion s = (Ret u, s')"
    and inv: "inv s" and D: "set docIDs \<subseteq> D" and ok: "ok createVersion"
  shows "inv s' \<and> (\<exists>infos. infos \<noteq> [] \<and> accepted_by onNewVersion infos \<and> subseq (map DocID infos) docIDs
    \<and> (calm s \<longrightarrow> adds st (vw s) infos (vw s')))"
proof -
  obtain r created s1 where l: "add_multi_loop cx c userID reason createVersion onNewVersion docIDs (created_versions []) s
      = ((r, created), s1)" by (metis prod.collapse)
  from loop [OF l inv D ok] obtain infos where i: "inv s1" "calm s \<longrightarrow> calm s1" "created = created_versions infos"
    "accepted_by onNewVersion infos" "subseq (map DocID infos) docIDs" "r = Ret () \<longrightarrow> infos \<noteq> []"
    "calm s \<longrightarrow> adds st (vw s) infos (vw s1)" by auto
  have l': "add_multi_loop cx c userID reason createVersion onNewVersion docIDs [] s = ((r, created), s1)"
    using l by (simp add: created_versions_def)
  show ?thesis
  proof (cases "r = Ret ()")
    case True
    with run l' have "s' = s1" by (simp add: AddMultiDocumentVersionImpl_def)
    with True i show ?thesis by auto
  next
    case False
    have "\<exists>e. undo_created cx c created e s1 = (Ret u, s')"
      using run l' False by (auto simp: AddMultiDocumentVersionImpl_def split: outcome.splits)
    then obtain e where un: "undo_created cx c created e s1 = (Ret u, s')" by blast
    have "\<exists>e'. Ret u = Fail e'"
      by (rule undo [OF un i(1) created_in_D [OF i(5) D, folded i(3)], THEN conjunct2, THEN conjunct1])
    then show ?thesis by simp
  qed
qed

lemma add_multi_fails:
  assumes run: "AddMultiDocumentVersionImpl cx c docIDs userID reason createVersion onNewVersion s = (r, s')"
    and inv: "inv s" and D: "set docIDs \<subseteq> D" and ok: "ok createVersion" and r: "r \<noteq> Ret ()"
  shows "inv s' \<and> (\<exists>e. r = Fail e) \<and> (calm s \<longrightarrow> calm s' \<and> vw s' = vw s)"
proof -
  obtain rl created s1 where l: "add_multi_loop cx c userID reason createVersion onNewVersion docIDs (created_versions []) s
      = ((rl, created), s1)" by (metis prod.collapse)
  from loop [OF l inv D ok] obtain infos where i: "inv s1" "calm s \<longrightarrow> calm s1" "created = created_versions infos"
    "calm s \<longrightarrow> adds st (vw s) infos (vw s1)" "subseq (map DocID infos) docIDs" by auto
  have l': "add_multi_loop cx c userID reason createVersion onNewVersion docIDs [] s = ((rl, created), s1)"
    using l by (simp add: created_versions_def)
  have "\<exists>e. undo_created cx c created e s1 = (r, s')"
    using run l' r by (auto simp: AddMultiDocumentVersionImpl_def split: outcome.splits)
  then obtain e where un: "undo_created cx c created e s1 = (r, s')" by blast
  have "calm s1 \<and> (\<forall>(docID, v)\<in>set created. \<exists>info info'. st info info' \<and> Version info = v) \<and> drops (vw s1) created = vw s" if "calm s"
    using that i(2-4) adds_stored [of st "vw s" infos "vw s1"] drops_adds [of st "vw s" infos "vw s1"]
    by (fastforce simp: created_versions_def)
  with undo [OF un i(1) created_in_D [OF i(5) D, folded i(3)]] show ?thesis by auto
qed

end

section \<open>Contents\<close>

text \<open>\<open>fl\<close> is what the connection keeps beside the metadata of a version.\<close>

locale versioned_files = versioned_conn +
  fixes fl :: "'a \<Rightarrow> uuid \<Rightarrow> version_time \<Rightarrow> 'b"
  assumes add_keeps:
      "docID \<in> D \<Longrightarrow> inv s \<Longrightarrow> ok createVersion \<Longrightarrow> calm s \<Longrightarrow>
        conn_AddDocumentVersion c cx docID userID reason createVersion onNewVersion s = ((r, infos), s') \<Longrightarrow>
        vw s d w \<noteq> None \<Longrightarrow> fl s' d w = fl s d w"
    and delete_keeps:
      "docID \<in> D \<Longrightarrow> inv s \<Longrightarrow> calm s \<Longrightarrow> st info info' \<Longrightarrow> Version info = v \<Longrightarrow>
        conn_DeleteDocumentVersion c cx docID v s = (rd, s') \<Longrightarrow> vw s' d w \<noteq> None \<Longrightarrow> fl s' d w = fl s d w"
begin

lemma loop_keeps:
  assumes "add_multi_loop cx c userID reason createVersion onNewVersion docIDs created s = ((r, created'), s')"
    and "inv s" "set docIDs \<subseteq> D" and ok: "ok createVersion" and "calm s" "vw s d w \<noteq> None"
  shows "fl s' d w = fl s d w"
  using assms(1-3,5-)
proof (induction docIDs arbitrary: created s)
  case Nil
  then show ?case by simp
next
  case (Cons docID docIDs)
  obtain ra infos1 s1 where add: "conn_AddDocumentVersion c cx docID userID reason createVersion
      (Some (multi_callback onNewVersion)) s = ((ra, infos1), s1)" by (metis prod.collapse)
  have D: "docID \<in> D" "set docIDs \<subseteq> D" using Cons.prems(3) by auto
  have "inv s1 \<and> vw s1 d w \<noteq> None"
  proof (cases "ra = Ret ()")
    case True
    from add_Ret [OF D(1) Cons.prems(2) ok add [unfolded True]] Cons.prems(5) show ?thesis by (auto simp: put_version_def)
  next
    case False
    from add_fails [OF D(1) Cons.prems(2) ok add False] Cons.prems(4,5) show ?thesis by simp
  qed
  note s1 = this [THEN conjunct1] this [THEN conjunct2] add_calm [OF D(1) Cons.prems(2) ok Cons.prems(4) add]
  have "fl s1 d w = fl s d w" by (rule add_keeps [OF D(1) Cons.prems(2) ok Cons.prems(4) add Cons.prems(5)])
  moreover have "s' = s1 \<or> (\<exists>cr. add_multi_loop cx c userID reason createVersion onNewVersion docIDs cr s1 = ((r, created'), s'))"
    using Cons.prems(1) add by (auto simp: Let_def split: outcome.splits if_splits)
  ultimately show ?case using Cons.IH [OF _ s1(1) D(2) s1(3,2)] by auto
qed

lemma undo_keeps:
  assumes "undo_created cx c created e s = (r, s')" "inv s" "fst ` set created \<subseteq> D" "calm s"
    and "\<forall>(docID, v)\<in>set created. \<exists>info info'. st info info' \<and> Version info = v" "vw s' d w \<noteq> None"
  shows "fl s' d w = fl s d w"
  using assms
proof (induction created arbitrary: e s)
  case (Cons dv created)
  obtain docID v where dv: "dv = (docID, v)" by fastforce
  obtain rd s1 where del: "conn_DeleteDocumentVersion c cx docID v s = (rd, s1)" by fastforce
  have D: "docID \<in> D" "fst ` set created \<subseteq> D" using Cons.prems(3) dv by auto
  obtain info info' where st: "st info info'" "Version info = v" using Cons.prems(5) dv by auto
  have s1: "inv s1" "\<And>msg. rd \<noteq> Panic msg" using delete_inv [OF D(1) Cons.prems(2) del] by auto
  have calm: "calm s1" using delete_calm [OF D(1) Cons.prems(2,4) st del] by simp
  obtain e1 where run: "undo_created cx c created e1 s1 = (r, s')"
    using Cons.prems(1) dv del s1(2) by (auto split: outcome.splits)
  have sts: "\<forall>(docID, v)\<in>set created. \<exists>info info'. st info info' \<and> Version info = v" using Cons.prems(5) by simp
  have "vw s' = drops (vw s1) created" using undo [OF run s1(1) D(2)] calm sts by simp
  then have "vw s1 d w \<noteq> None" using Cons.prems(6) by (auto simp: drops_apply split: if_splits)
  then show ?case
    using Cons.IH [OF run s1(1) D(2) calm sts Cons.prems(6)] delete_keeps [OF D(1) Cons.prems(2,4) st del] by simp
qed simp

lemma add_multi_keeps:
  assumes run: "AddMultiDocumentVersionImpl cx c docIDs userID reason createVersion onNewVersion s = (r, s')"
    and inv: "inv s" and D: "set docIDs \<subseteq> D" and ok: "ok createVersion" and calm: "calm s" and vw: "vw s d w \<noteq> None"
  shows "fl s' d w = fl s d w"
proof -
  obtain rl created s1 where l: "add_multi_loop cx c userID reason createVersion onNewVersion docIDs (created_versions []) s
      = ((rl, created), s1)" by (metis prod.collapse)
  from loop [OF l inv D ok] obtain infos where i: "inv s1" "calm s1" "created = created_versions infos"
    "adds st (vw s) infos (vw s1)" "subseq (map DocID infos) docIDs" using calm by auto
  have same: "fl s1 d w = fl s d w" by (rule loop_keeps [OF l inv D ok calm vw])
  have l': "add_multi_loop cx c userID reason createVersion onNewVersion docIDs [] s = ((rl, created), s1)"
    using l by (simp add: created_versions_def)
  show ?thesis
  proof (cases "rl = Ret ()")
    case True
    with run l' same show ?thesis by (simp add: AddMultiDocumentVersionImpl_def)
  next
    case False
    then obtain e where un: "undo_created cx c created e s1 = (r, s')"
      using run l' by (auto simp: AddMultiDocumentVersionImpl_def split: outcome.splits)
    have sts: "\<forall>(docID, v)\<in>set created. \<exists>info info'. st info info' \<and> Version info = v"
      using i(3) adds_stored [OF i(4)] by (fastforce simp: created_versions_def)
    note cD = created_in_D [OF i(5) D, folded i(3)]
    have "vw s' = vw s" using undo [OF un i(1) cD] i(2) sts drops_adds [OF i(4)] i(3) by simp
    with undo_keeps [OF un i(1) cD i(2) sts] vw same show ?thesis by simp
  qed
qed

end

lemma add_multi_single_fails:
  assumes "fst (conn_AddDocumentVersion c cx docID userID reason createVersion (Some (multi_callback onNewVersion)) s)
      = (Fail e, [])" "\<not> errors_Is e ErrNoChanges"
  shows "fst (AddMultiDocumentVersionImpl cx c [docID] userID reason createVersion onNewVersion s) = Fail e"
  using assms by (auto simp: AddMultiDocumentVersionImpl_def created_versions_def split: prod.split)

section \<open>A connection on a part of the state\<close>

text \<open>
  A connection that keeps the contract on its own state keeps it, for the documents \<open>P\<close> it
  holds, on a larger state whose other parts it does not touch.
\<close>

lemma via_versions_eq:
  assumes "P docID" "\<And>t d. P d \<Longrightarrow> vw t d = vw1 (get t) d" "\<And>s t d. \<not> P d \<Longrightarrow> vw (put s t) d = vw t d"
    "\<And>s t. get (put s t) = s"
  shows "vw1 s' = put_version (vw1 (get t)) docID v info \<Longrightarrow> vw (put s' t) = put_version (vw t) docID v info"
    "vw1 s' = drop_version (vw1 (get t)) docID v \<Longrightarrow> vw (put s' t) = drop_version (vw t) docID v"
    "vw1 s' = vw1 (get t) \<Longrightarrow> vw (put s' t) = vw t"
proof -
  have eq: "vw (put s' t) d = (if P d then vw1 s' d else vw t d)" for d using assms by simp
  show "vw1 s' = put_version (vw1 (get t)) docID v info \<Longrightarrow> vw (put s' t) = put_version (vw t) docID v info"
    using assms(1,2) by (intro ext) (simp add: eq put_version_def)
  show "vw1 s' = drop_version (vw1 (get t)) docID v \<Longrightarrow> vw (put s' t) = drop_version (vw t) docID v"
    using assms(1,2) by (intro ext) (simp add: eq drop_version_def)
  show "vw1 s' = vw1 (get t) \<Longrightarrow> vw (put s' t) = vw t"
    using assms(2) by (intro ext) (simp add: eq)
qed

lemma versioned_conn_via:
  assumes c: "versioned_conn c cx vw1 I1 calm1 ok st D" and P: "\<And>d. d \<in> E \<Longrightarrow> d \<in> D \<and> P d"
    and vw: "\<And>t d. P d \<Longrightarrow> vw t d = vw1 (get t) d" "\<And>s t d. \<not> P d \<Longrightarrow> vw (put s t) d = vw t d"
    and get: "\<And>s t. get (put s t) = s"
    and I: "\<And>t. I t \<longleftrightarrow> I1 (get t) \<and> Irest t" "\<And>s t. Irest (put s t) = Irest t"
    and calm: "\<And>t. calm t \<longleftrightarrow> calm1 (get t) \<and> calmrest t" "\<And>s t. calmrest (put s t) = calmrest t"
  shows "versioned_conn (conn_via get put c) cx vw I calm ok st E"
proof (unfold_locales, goal_cases)
  case (1 docID s createVersion userID reason onNewVersion u infos s')
  obtain t where run: "conn_AddDocumentVersion c cx docID userID reason createVersion onNewVersion (get s) = ((Ret u, infos), t)"
    and s': "s' = put t s" using 1(4) by (auto simp: conn_via_def via_eq)
  have d: "docID \<in> D" "P docID" "I1 (get s)" using P [OF 1(1)] 1(2) I(1) by auto
  from versioned_conn.add_Ret [OF c d(1,3) 1(3) run] obtain info onNew info' where i: "I1 t" "infos = [info]"
    "onNewVersion = Some onNew" "onNew info = Ret ()" "DocID info = docID" "st info info'"
    "vw1 (get s) docID (ms_trunc (Version info)) = None"
    "vw1 t = put_version (vw1 (get s)) docID (Version info) info'" by blast
  have "vw s' = put_version (vw s) docID (Version info) info'"
    unfolding s' using d(2) vw get i(8) by (rule via_versions_eq)
  then show ?case using i 1(2) by (auto simp: s' I get vw(1) [OF d(2)])
next
  case (2 docID s createVersion userID reason onNewVersion r infos s')
  obtain t where run: "conn_AddDocumentVersion c cx docID userID reason createVersion onNewVersion (get s) = ((r, infos), t)"
    and s': "s' = put t s" using 2(4) by (auto simp: conn_via_def via_eq)
  have d: "docID \<in> D" "P docID" "I1 (get s)" using P [OF 2(1)] 2(2) I(1) by auto
  note f = versioned_conn.add_fails [OF c d(1,3) 2(3) run 2(5)]
  have "vw s' = vw s" if "calm1 (get s)"
    unfolding s' using d(2) vw get f [THEN conjunct2, THEN conjunct2, rule_format, OF that] by (rule via_versions_eq)
  then show ?case using f 2(2) by (simp add: s' I get calm)
next
  case (3 docID s createVersion userID reason onNewVersion r infos s')
  obtain t where run: "conn_AddDocumentVersion c cx docID userID reason createVersion onNewVersion (get s) = ((r, infos), t)"
    and s': "s' = put t s" using 3(5) by (auto simp: conn_via_def via_eq)
  have d: "docID \<in> D" "I1 (get s)" "calm1 (get s)" using P [OF 3(1)] 3(2,4) I(1) calm(1) by auto
  from versioned_conn.add_calm [OF c d(1,2) 3(3) d(3) run] 3(4) show ?case by (simp add: s' calm get)
next
  case (4 docID s v rd s')
  obtain t where run: "conn_DeleteDocumentVersion c cx docID v (get s) = (rd, t)"
    and s': "s' = put t s" using 4(3) by (auto simp: conn_via_def via_eq)
  have d: "docID \<in> D" "I1 (get s)" using P [OF 4(1)] 4(2) I(1) by auto
  from versioned_conn.delete_inv [OF c d run] 4(2) show ?case by (simp add: s' I get)
next
  case (5 docID s info info' v rd s')
  obtain t where run: "conn_DeleteDocumentVersion c cx docID v (get s) = (rd, t)"
    and s': "s' = put t s" using 5(6) by (auto simp: conn_via_def via_eq)
  have d: "docID \<in> D" "I1 (get s)" "calm1 (get s)" "P docID" using P [OF 5(1)] 5(2,3) I(1) calm(1) by auto
  note del = versioned_conn.delete_calm [OF c d(1-3) 5(4,5) run]
  have "vw s' = drop_version (vw s) docID v"
    unfolding s' using d(4) vw get del [THEN conjunct2] by (rule via_versions_eq)
  then show ?case using del 5(3) by (simp add: s' calm get)
qed

end
