(* ===== verification/WrapperConns.thy ===== *)
theory WrapperConns
  imports AddMulti
begin

text \<open>
  The connections made from other connections: \<open>readonlyconn.go\<close>, \<open>errconn.go\<close>,
  \<open>routerconn\<close> and \<open>logconn\<close>. The connections a wrapper is built from work on one
  common state.
\<close>

section \<open>ReadonlyConn\<close>

definition readonly_err :: "string \<Rightarrow> err" where
  "readonly_err msg = Errorf msg [ErrReadonly]"

definition ReadonlyConn :: "'s conn \<Rightarrow> 's conn" where
  "ReadonlyConn c = c
     \<lparr>conn_SetDocumentCompanyID := (\<lambda>cx docID companyID. fail (readonly_err ''cannot set company'')),
      conn_DeleteDocument := (\<lambda>cx docID. fail (readonly_err ''cannot delete document'')),
      conn_DeleteDocumentVersion := (\<lambda>cx docID v. fail (readonly_err ''cannot delete version'')),
      conn_CreateDocument := (\<lambda>cx companyID docID userID reason v files onNewVersion.
        fail (readonly_err ''cannot create document'')),
      conn_AddDocumentVersion := (\<lambda>cx docID userID reason createVersion onNewVersion s.
        ((Fail (readonly_err ''cannot add version to document''), []), s)),
      conn_AddMultiDocumentVersion := (\<lambda>cx docIDs userID reason createVersion onNewVersion.
        fail (readonly_err ''cannot add version to documents'')),
      conn_RestoreDocument := (\<lambda>cx doc recreate. fail (readonly_err ''cannot restore document''))\<rparr>"

section \<open>errConn\<close>

definition NewConnWithError :: "err \<Rightarrow> 's conn" where
  "NewConnWithError e =
     \<lparr>conn_DocumentExists = (\<lambda>cx docID. fail e),
      conn_CompanyIDs = (\<lambda>cx. fail e),
      conn_CompanyDocumentIDs = (\<lambda>cx companyID. fail e),
      conn_DocumentCompanyID = (\<lambda>cx docID. fail e),
      conn_SetDocumentCompanyID = (\<lambda>cx docID companyID. fail e),
      conn_DocumentVersions = (\<lambda>cx docID. fail e),
      conn_LatestDocumentVersion = (\<lambda>cx docID. fail e),
      conn_DocumentVersionInfo = (\<lambda>cx docID v. fail e),
      conn_LatestDocumentVersionInfo = (\<lambda>cx docID. fail e),
      conn_DocumentVersionFileProvider = (\<lambda>cx docID v. fail e),
      conn_ReadDocumentVersionFile = (\<lambda>cx docID v filename. fail e),
      conn_DeleteDocument = (\<lambda>cx docID. fail e),
      conn_DeleteDocumentVersion = (\<lambda>cx docID v. fail e),
      conn_CreateDocument = (\<lambda>cx companyID docID userID reason v files onNewVersion. fail e),
      conn_AddDocumentVersion = (\<lambda>cx docID userID reason createVersion onNewVersion s. ((Fail e, []), s)),
      conn_AddMultiDocumentVersion = (\<lambda>cx docIDs userID reason createVersion onNewVersion. fail e),
      conn_RestoreDocument = (\<lambda>cx doc recreate. fail e)\<rparr>"

section \<open>routerconn\<close>

text \<open>The two routing callbacks return a connection or an error.\<close>

type_synonym 's route = "ctx \<Rightarrow> uuid \<Rightarrow> ('s, 's conn) op"

definition routed :: "('s, 's conn) op \<Rightarrow> ('s conn \<Rightarrow> ('s, 'a) op) \<Rightarrow> ('s, 'a) op" where
  "routed route k = try_op route k"

text \<open>\<open>CompanyIDs\<close> collects the ids of all backends in a set; the first error is returned.\<close>

fun collect_company_ids :: "ctx \<Rightarrow> 's conn list \<Rightarrow> uuid list \<Rightarrow> ('s, uuid list) op" where
  "collect_company_ids cx [] companyIDs = ret companyIDs"
| "collect_company_ids cx (c # cs) companyIDs =
     try_op (conn_CompanyIDs c cx) (\<lambda>ids. collect_company_ids cx cs (companyIDs @ ids))"

definition router_CompanyIDs :: "'s conn list \<Rightarrow> ctx \<Rightarrow> ('s, uuid list) op" where
  "router_CompanyIDs allConns cx =
     try_op (collect_company_ids cx allConns []) (\<lambda>companyIDs. ret (sort (remdups companyIDs)))"

definition router_AddDocumentVersion ::
  "'s route \<Rightarrow> ctx \<Rightarrow> uuid \<Rightarrow> uuid \<Rightarrow> string \<Rightarrow> create_version_func option \<Rightarrow> on_new_version_func option
     \<Rightarrow> 's \<Rightarrow> (unit outcome \<times> version_info list) \<times> 's" where
  "router_AddDocumentVersion connForDocID cx docID userID reason createVersion onNewVersion s =
     (case connForDocID cx docID s of
        (Ret c, s') \<Rightarrow> conn_AddDocumentVersion c cx docID userID reason createVersion onNewVersion s'
      | (Fail e, s') \<Rightarrow> ((Fail e, []), s')
      | (Panic msg, s') \<Rightarrow> ((Panic msg, []), s'))"

definition router_methods :: "'s route \<Rightarrow> 's route \<Rightarrow> 's conn list \<Rightarrow> 's conn" where
  "router_methods connForCompanyID connForDocID allConns =
     \<lparr>conn_DocumentExists = (\<lambda>cx docID. routed (connForDocID cx docID) (\<lambda>c. conn_DocumentExists c cx docID)),
      conn_CompanyIDs = router_CompanyIDs allConns,
      conn_CompanyDocumentIDs = (\<lambda>cx companyID.
        routed (connForCompanyID cx companyID) (\<lambda>c. conn_CompanyDocumentIDs c cx companyID)),
      conn_DocumentCompanyID = (\<lambda>cx docID. routed (connForDocID cx docID) (\<lambda>c. conn_DocumentCompanyID c cx docID)),
      conn_SetDocumentCompanyID = (\<lambda>cx docID companyID.
        routed (connForDocID cx docID) (\<lambda>c. conn_SetDocumentCompanyID c cx docID companyID)),
      conn_DocumentVersions = (\<lambda>cx docID. routed (connForDocID cx docID) (\<lambda>c. conn_DocumentVersions c cx docID)),
      conn_LatestDocumentVersion = (\<lambda>cx docID.
        routed (connForDocID cx docID) (\<lambda>c. conn_LatestDocumentVersion c cx docID)),
      conn_DocumentVersionInfo = (\<lambda>cx docID v.
        routed (connForDocID cx docID) (\<lambda>c. conn_DocumentVersionInfo c cx docID v)),
      conn_LatestDocumentVersionInfo = (\<lambda>cx docID.
        routed (connForDocID cx docID) (\<lambda>c. conn_LatestDocumentVersionInfo c cx docID)),
      conn_DocumentVersionFileProvider = (\<lambda>cx docID v.
        routed (connForDocID cx docID) (\<lambda>c. conn_DocumentVersionFileProvider c cx docID v)),
      conn_ReadDocumentVersionFile = (\<lambda>cx docID v filename.
        routed (connForDocID cx docID) (\<lambda>c. conn_ReadDocumentVersionFile c cx docID v filename)),
      conn_DeleteDocument = (\<lambda>cx docID. routed (connForDocID cx docID) (\<lambda>c. conn_DeleteDocument c cx docID)),
      conn_DeleteDocumentVersion = (\<lambda>cx docID v.
        routed (connForDocID cx docID) (\<lambda>c. conn_DeleteDocumentVersion c cx docID v)),
      conn_CreateDocument = (\<lambda>cx companyID docID userID reason v files onNewVersion.
        routed (connForCompanyID cx companyID)
          (\<lambda>c. conn_CreateDocument c cx companyID docID userID reason v files onNewVersion)),
      conn_AddDocumentVersion = router_AddDocumentVersion connForDocID,
      conn_AddMultiDocumentVersion = (\<lambda>cx docIDs userID reason createVersion onNewVersion. panic ''with_add_multi''),
      conn_RestoreDocument = (\<lambda>cx doc recreate.
        case doc of
          None \<Rightarrow> panic ''nil pointer dereference''
        | Some d \<Rightarrow> routed (connForCompanyID cx (hd_CompanyID d)) (\<lambda>c. conn_RestoreDocument c cx doc recreate))\<rparr>"

definition routerConn :: "'s route \<Rightarrow> 's route \<Rightarrow> 's conn list \<Rightarrow> 's conn" where
  "routerConn connForCompanyID connForDocID allConns =
     with_add_multi (router_methods connForCompanyID connForDocID allConns)"

text \<open>\<open>New\<close>: nil callbacks and an empty list of backends panic.\<close>

definition routerconn_New :: "'s route option \<Rightarrow> 's route option \<Rightarrow> 's conn list \<Rightarrow> 's conn outcome" where
  "routerconn_New connForCompanyID connForDocID allConns =
     (case connForCompanyID of
        None \<Rightarrow> Panic ''connForCompanyID is nil''
      | Some forCompany \<Rightarrow>
     (case connForDocID of
        None \<Rightarrow> Panic ''connForDocID is nil''
      | Some forDoc \<Rightarrow>
      if allConns = [] then Panic ''allConns is empty''
      else Ret (routerConn forCompany forDoc allConns)))"

section \<open>logconn\<close>

text \<open>
  The methods that \<open>logConn\<close> does not define are those of the embedded connection. The log
  is a part of the state. What is logged inside a callback or by a file provider
  is not in it, since those are functions of the model: \<open>wrappedCreate\<close> keeps of
  \<open>logconn\<close>'s callback what it returns, including its panics, a nil \<open>createVersion\<close>
  called and the name of a nil entry of \<open>WriteFiles\<close> asked for.
\<close>

datatype log_entry =
    LogReadFile uuid version_time string int
  | LogWriteFile uuid version_time string int

type_synonym 's logged = "'s \<times> log_entry list"

definition log_add :: "log_entry list \<Rightarrow> 's logged \<Rightarrow> 's logged" where
  "log_add es s = (fst s, snd s @ es)"

definition wrappedCreate :: "create_version_func option \<Rightarrow> create_version_func" where
  "wrappedCreate createVersion docID prevVersion prevFiles =
     (case createVersion of
        None \<Rightarrow> Panic ''nil pointer dereference''
      | Some create \<Rightarrow>
         (case create docID prevVersion prevFiles of
            Ret (Some result) \<Rightarrow>
              if None \<in> set (WriteFiles result) then Panic ''nil pointer dereference'' else Ret (Some result)
          | r \<Rightarrow> r))"

definition under_log :: "'s \<Rightarrow> 's logged \<Rightarrow> 's logged" where
  "under_log t s = (t, snd s)"

definition log_methods :: "'s conn \<Rightarrow> 's logged conn" where
  "log_methods c = (conn_via fst under_log c)
     \<lparr>conn_ReadDocumentVersionFile := (\<lambda>cx docID v filename.
        try_op (via fst under_log (conn_ReadDocumentVersionFile c cx docID v filename))
          (\<lambda>data s. (Ret data, log_add [LogReadFile docID v filename (int (length data))] s))),
      conn_CreateDocument := (\<lambda>cx companyID docID userID reason v files onNewVersion s.
        via fst under_log (conn_CreateDocument c cx companyID docID userID reason v files onNewVersion)
          (log_add (map (\<lambda>f. LogWriteFile docID v (FileName f) (FileSize f)) files) s)),
      conn_AddDocumentVersion := (\<lambda>cx docID userID reason createVersion onNewVersion.
        via fst under_log (conn_AddDocumentVersion c cx docID userID reason
          (Some (wrappedCreate createVersion)) onNewVersion))\<rparr>"

definition logConn :: "'s conn \<Rightarrow> 's logged conn" where
  "logConn c = with_add_multi (log_methods c)"

section \<open>Lemmas: routerconn\<close>

text \<open>The companies a connection reports.\<close>

definition reported_companies :: "ctx \<Rightarrow> 's \<Rightarrow> 's conn \<Rightarrow> uuid set" where
  "reported_companies cx s c = (case fst (conn_CompanyIDs c cx s) of Ret ids \<Rightarrow> set ids | _ \<Rightarrow> {})"

lemma collect_company_ids_Ret:
  assumes "collect_company_ids cx cs acc s = (Ret ids, s')"
    and "\<forall>c\<in>set cs. \<forall>t. snd (conn_CompanyIDs c cx t) = t"
  shows "s' = s \<and> (\<forall>c\<in>set cs. \<exists>xs. conn_CompanyIDs c cx s = (Ret xs, s))
    \<and> set ids = set acc \<union> (\<Union>c\<in>set cs. reported_companies cx s c)"
  using assms
proof (induction cs arbitrary: acc s)
  case (Cons c cs)
  from Cons.prems(1) obtain xs t where c: "conn_CompanyIDs c cx s = (Ret xs, t)"
    "collect_company_ids cx cs (acc @ xs) t = (Ret ids, s')" by (auto simp: try_op_Ret_iff)
  have t: "t = s" using Cons.prems(2) c(1) by (metis list.set_intros(1) snd_conv)
  from Cons.IH [OF c(2)] Cons.prems(2) c(1) t show ?case
    by (auto simp: reported_companies_def)
qed simp

locale routed_conns =
  fixes connForCompanyID connForDocID :: "'s route" and allConns :: "'s conn list"
    and cx :: ctx and backend :: "uuid \<Rightarrow> err + 's conn"
    and vw :: "'s \<Rightarrow> meta_view" and inv :: "'s \<Rightarrow> bool" and calm :: "'s \<Rightarrow> bool"
    and ok :: "create_version_func option \<Rightarrow> bool" and st :: "version_info \<Rightarrow> version_info \<Rightarrow> bool"
  assumes route: "connForDocID cx docID s = (to_outcome (backend docID), s)"
    and backend_laws: "backend docID = Inr c \<Longrightarrow> versioned_conn c cx vw inv calm ok st {docID}"
    and no_backend: "backend docID = Inl e \<Longrightarrow> inv s \<Longrightarrow> vw s docID = Map.empty"
begin

abbreviation router :: "'s conn" where
  "router \<equiv> routerConn connForCompanyID connForDocID allConns"

lemma router_add:
  "conn_AddDocumentVersion router cx docID userID reason createVersion onNewVersion s =
     (case backend docID of
        Inl e \<Rightarrow> ((Fail e, []), s)
      | Inr c \<Rightarrow> conn_AddDocumentVersion c cx docID userID reason createVersion onNewVersion s)"
  by (simp add: routerConn_def router_methods_def router_AddDocumentVersion_def route split: sum.split)

lemma router_delete:
  "conn_DeleteDocumentVersion router cx docID v s =
     (case backend docID of
        Inl e \<Rightarrow> (Fail e, s)
      | Inr c \<Rightarrow> conn_DeleteDocumentVersion c cx docID v s)"
  by (simp add: routerConn_def router_methods_def routed_def try_op_def route split: sum.split)

text \<open>A router over connections that keep the contract keeps it.\<close>

sublocale versioned_conn router cx vw inv calm ok st UNIV
proof (unfold_locales, goal_cases)
  case (1 docID s createVersion userID reason onNewVersion u infos s')
  then obtain c where c: "backend docID = Inr c"
    "conn_AddDocumentVersion c cx docID userID reason createVersion onNewVersion s = ((Ret u, infos), s')"
    by (auto simp: router_add split: sum.splits)
  show ?case using versioned_conn.add_Ret [OF backend_laws [OF c(1)] _ 1(2,3) c(2)] c(1) by simp
next
  case (2 docID s createVersion userID reason onNewVersion r infos s')
  show ?case
  proof (cases "backend docID")
    case (Inr c)
    with 2 have "conn_AddDocumentVersion c cx docID userID reason createVersion onNewVersion s = ((r, infos), s')"
      by (simp add: router_add)
    from versioned_conn.add_fails [OF backend_laws [OF Inr] _ 2(2,3) this 2(5)] Inr show ?thesis by simp
  qed (use 2 in \<open>auto simp: router_add\<close>)
next
  case (3 docID s createVersion userID reason onNewVersion r infos s')
  show ?case
  proof (cases "backend docID")
    case (Inr c)
    with 3 have "conn_AddDocumentVersion c cx docID userID reason createVersion onNewVersion s = ((r, infos), s')"
      by (simp add: router_add)
    from versioned_conn.add_calm [OF backend_laws [OF Inr] _ 3(2-4) this] Inr show ?thesis by simp
  qed (use 3 in \<open>auto simp: router_add\<close>)
next
  case (4 docID s v rd s')
  show ?case
  proof (cases "backend docID")
    case (Inr c)
    with 4 have "conn_DeleteDocumentVersion c cx docID v s = (rd, s')" by (simp add: router_delete)
    from versioned_conn.delete_inv [OF backend_laws [OF Inr] _ 4(2) this] Inr show ?thesis by simp
  qed (use 4 in \<open>auto simp: router_delete\<close>)
next
  case (5 docID s info info' v rd s')
  show ?case
  proof (cases "backend docID")
    case (Inl e)
    with 5 no_backend [OF Inl 5(2)] show ?thesis by (simp add: router_delete drop_version_absent)
  next
    case (Inr c)
    with 5 have "conn_DeleteDocumentVersion c cx docID v s = (rd, s')" by (simp add: router_delete)
    from versioned_conn.delete_calm [OF backend_laws [OF Inr] _ 5(2-5) this] Inr show ?thesis by simp
  qed
qed

end

end
