(* ===== verification/StoreConn.thy ===== *)
theory StoreConn
  imports MetadataStore
begin

text \<open>
  \<open>storeconn/conn.go\<close>: the split-store connection over a \<open>DocumentStore\<close> and a
  \<open>MetadataStore\<close>. Its state is the pair of theirs. \<open>x\<close> are the functions of other
  modules, \<open>cx\<close> the call's context, \<open>ds\<close> and \<open>ms\<close> the two stores. A nil callback is
  \<open>None\<close>.
\<close>

type_synonym ('d, 'm) store_state = "'d \<times> 'm"

section \<open>Reads and plain delegation\<close>

definition sc_DocumentExists ::
  "'d document_store \<Rightarrow> uuid \<Rightarrow> ('d, 'm) store_state \<Rightarrow> err + bool" where
  "sc_DocumentExists ds docID s = ds_DocumentExists ds docID (fst s)"

definition sc_DocumentVersionFileProvider ::
  "'d document_store \<Rightarrow> 'm metadata_store \<Rightarrow> uuid \<Rightarrow> version_time \<Rightarrow> ('d, 'm) store_state \<Rightarrow> err + file_provider" where
  "sc_DocumentVersionFileProvider ds ms docID version s =
     (case ms_DocumentVersionInfo ms docID version (snd s) of
        Inl e \<Rightarrow> Inl e
      | Inr versionInfo \<Rightarrow>
         ds_DocumentHashFileProvider ds docID (map (Hash \<circ> snd) (Files versionInfo)) (fst s))"

definition sc_ReadDocumentVersionFile ::
  "'d document_store \<Rightarrow> 'm metadata_store \<Rightarrow> uuid \<Rightarrow> version_time \<Rightarrow> string \<Rightarrow> ('d, 'm) store_state \<Rightarrow> err + bytes" where
  "sc_ReadDocumentVersionFile ds ms docID version filename s =
     (case ms_DocumentVersionInfo ms docID version (snd s) of
        Inl e \<Rightarrow> Inl e
      | Inr versionInfo \<Rightarrow>
         (case map_of (Files versionInfo) filename of
            None \<Rightarrow> Inl (ErrDocumentFileNotFound docID filename)
          | Some fileInfo \<Rightarrow> ds_ReadDocumentHashFile ds docID filename (Hash fileInfo) (fst s)))"

definition sc_SetDocumentCompanyID ::
  "'m metadata_store \<Rightarrow> uuid \<Rightarrow> uuid \<Rightarrow> ('d, 'm) store_state \<Rightarrow> err option \<times> ('d, 'm) store_state" where
  "sc_SetDocumentCompanyID ms docID companyID s =
     (let (r, m) = ms_SetDocumentCompanyID ms docID companyID (snd s) in (r, (fst s, m)))"

definition sc_DocumentCompanyID :: "'m metadata_store \<Rightarrow> uuid \<Rightarrow> ('d, 'm) store_state \<Rightarrow> err + uuid" where
  "sc_DocumentCompanyID ms docID s = ms_DocumentCompanyID ms docID (snd s)"

definition sc_DocumentVersions :: "'m metadata_store \<Rightarrow> uuid \<Rightarrow> ('d, 'm) store_state \<Rightarrow> err + version_time list" where
  "sc_DocumentVersions ms docID s = ms_DocumentVersions ms docID (snd s)"

definition sc_LatestDocumentVersion :: "'m metadata_store \<Rightarrow> uuid \<Rightarrow> ('d, 'm) store_state \<Rightarrow> err + version_time" where
  "sc_LatestDocumentVersion ms docID s = ms_LatestDocumentVersion ms docID (snd s)"

definition sc_CompanyIDs :: "'m metadata_store \<Rightarrow> ('d, 'm) store_state \<Rightarrow> err + uuid list" where
  "sc_CompanyIDs ms s = ms_CompanyIDs ms (snd s)"

definition sc_CompanyDocumentIDs :: "'m metadata_store \<Rightarrow> uuid \<Rightarrow> ('d, 'm) store_state \<Rightarrow> err + uuid list" where
  "sc_CompanyDocumentIDs ms companyID s = ms_CompanyDocumentIDs ms companyID (snd s)"

definition sc_DocumentVersionInfo ::
  "'m metadata_store \<Rightarrow> uuid \<Rightarrow> version_time \<Rightarrow> ('d, 'm) store_state \<Rightarrow> err + version_info" where
  "sc_DocumentVersionInfo ms docID version s = ms_DocumentVersionInfo ms docID version (snd s)"

definition sc_LatestDocumentVersionInfo ::
  "'m metadata_store \<Rightarrow> uuid \<Rightarrow> ('d, 'm) store_state \<Rightarrow> err + version_info" where
  "sc_LatestDocumentVersionInfo ms docID s = ms_LatestDocumentVersionInfo ms docID (snd s)"

section \<open>Deletion\<close>

definition sc_DeleteDocument ::
  "ctx \<Rightarrow> 'd document_store \<Rightarrow> 'm metadata_store \<Rightarrow> uuid \<Rightarrow> ('d, 'm) store_state \<Rightarrow> err option \<times> ('d, 'm) store_state" where
  "sc_DeleteDocument cx ds ms docID s =
     (case ms_DeleteDocument ms cx docID (snd s) of
        (Some e, m) \<Rightarrow> (Some e, (fst s, m))
      | (None, m) \<Rightarrow> (let (r, d) = ds_DeleteDocument ds docID (fst s) in (r, (d, m))))"

definition sc_DeleteDocumentVersion ::
  "ctx \<Rightarrow> 'd document_store \<Rightarrow> 'm metadata_store \<Rightarrow> uuid \<Rightarrow> version_time \<Rightarrow> ('d, 'm) store_state
     \<Rightarrow> (err + version_time list) \<times> ('d, 'm) store_state" where
  "sc_DeleteDocumentVersion cx ds ms docID version s =
     (case ms_DeleteDocumentVersion ms cx docID version (snd s) of
        (Inl e, m) \<Rightarrow> (Inl e, (fst s, m))
      | (Inr (leftVersions, hashesToDelete), m) \<Rightarrow>
         (case ds_DeleteDocumentHashes ds docID hashesToDelete (fst s) of
            (Some e, d) \<Rightarrow> (Inl e, (d, m))
          | (None, d) \<Rightarrow> (Inr leftVersions, (d, m))))"

section \<open>Creation\<close>

text \<open>
  The deferred function of \<open>CreateDocument\<close> for a non-nil error \<open>err\<close>; \<open>inserted\<close> is
  \<open>versionInfo != nil\<close>. A clean-up error is joined unless it is a not-found error.
\<close>

definition join_cleanup :: "err \<Rightarrow> err option \<Rightarrow> err" where
  "join_cleanup err delErr =
     (case delErr of
        None \<Rightarrow> err
      | Some e \<Rightarrow> if errors_Is e OsErrNotExist then err else Join [err, e])"

definition sc_rollback_genesis ::
  "ctx \<Rightarrow> 'd document_store \<Rightarrow> 'm metadata_store \<Rightarrow> uuid \<Rightarrow> version_time \<Rightarrow> bool \<Rightarrow> err
     \<Rightarrow> ('d, 'm) store_state \<Rightarrow> unit outcome \<times> ('d, 'm) store_state" where
  "sc_rollback_genesis cx ds ms docID version inserted err s =
     (let (err1, d1) =
        (if \<not> errors_As is_DocumentAlreadyExists err then
           let (delErr, d) = ds_DeleteDocument ds docID (fst s) in (join_cleanup err delErr, d)
         else (err, fst s));
          (err2, m1) =
        (if inserted then
           (case ms_DeleteDocumentVersion ms cx docID version (snd s) of
              (Inl e, m) \<Rightarrow> (join_cleanup err1 (Some e), m)
            | (Inr _, m) \<Rightarrow> (err1, m))
         else (err1, snd s))
      in (Fail err2, (d1, m1)))"

text \<open>The argument of the metadata insert of \<open>CreateDocument\<close>.\<close>

definition sc_genesis_input ::
  "uuid \<Rightarrow> uuid \<Rightarrow> uuid \<Rightarrow> string \<Rightarrow> version_time \<Rightarrow> file_info list \<Rightarrow> create_document_version_input" where
  "sc_genesis_input companyID docID userID reason version addedFiles =
     \<lparr>in_DocID = docID, in_CompanyID = companyID, in_UserID = userID, in_Reason = reason,
      in_NewVersion = version, in_PreviousVersion = None, in_AddedFiles = addedFiles,
      in_ModifiedFiles = [], in_RemovedFiles = [], in_Files = None\<rparr>"

text \<open>
  The deferred function calls \<open>errs.RecoverPanicAsErrorWithFuncParams\<close>, which calls
  \<open>recover\<close>. Go's \<open>recover\<close> stops a panic only when the deferred function itself calls
  it, so a panic of \<open>onNewVersion\<close> goes on, and with \<open>err == nil\<close> nothing is rolled back.
\<close>

definition sc_CreateDocument ::
  "ctx \<Rightarrow> 'd document_store \<Rightarrow> 'm metadata_store \<Rightarrow> uuid \<Rightarrow> uuid \<Rightarrow> uuid \<Rightarrow> string \<Rightarrow> version_time
     \<Rightarrow> file_reader list \<Rightarrow> on_new_version_func option \<Rightarrow> ('d, 'm) store_state \<Rightarrow> unit outcome \<times> ('d, 'm) store_state" where
  "sc_CreateDocument cx ds ms companyID docID userID reason version files onNewVersion s =
     (case VersionTime_Validate version of
        Some e \<Rightarrow> (Fail e, s)
      | None \<Rightarrow>
      if files = [] then (Fail (Errorf ''cannot create document without files'' []), s)
      else case onNewVersion of
        None \<Rightarrow> (Fail (OtherErr ''nil onNewVersion func passed to createDocumentVersion''), s)
      | Some onNew \<Rightarrow>
     (case ds_DocumentExists ds docID (fst s) of
        Inl e \<Rightarrow> (Fail e, s)
      | Inr True \<Rightarrow> (Fail (ErrDocumentAlreadyExists docID), s)
      | Inr False \<Rightarrow>
     (case ds_CreateDocumentVersion ds docID version files (fst s) of
        (Inl e, d1) \<Rightarrow> sc_rollback_genesis cx ds ms docID version False e (d1, snd s)
      | (Inr addedFiles, d1) \<Rightarrow>
     (case ms_CreateDocumentVersion ms cx
             (sc_genesis_input companyID docID userID reason version addedFiles) (snd s) of
        (Inl e, m1) \<Rightarrow> sc_rollback_genesis cx ds ms docID version False e (d1, m1)
      | (Inr versionInfo, m1) \<Rightarrow>
     (case onNew versionInfo of
        Ret _ \<Rightarrow> (Ret (), (d1, m1))
      | Fail e \<Rightarrow> sc_rollback_genesis cx ds ms docID version True e (d1, m1)
      | Panic msg \<Rightarrow> (Panic msg, (d1, m1)))))))"

section \<open>A new version\<close>

text \<open>The loop over \<open>result.WriteFiles\<close>. An error of \<open>HasFile\<close> is ignored.\<close>

definition has_file :: "file_provider \<Rightarrow> string \<Rightarrow> bool" where
  "has_file p n = (case HasFile p n of Inr b \<Rightarrow> b | Inl _ \<Rightarrow> False)"

fun classify_writes ::
  "ext \<Rightarrow> file_provider \<Rightarrow> file_reader list \<Rightarrow> file_info list \<Rightarrow> file_info list
     \<Rightarrow> err + file_info list \<times> file_info list" where
  "classify_writes x p [] added modified = Inr (added, modified)"
| "classify_writes x p (file # files) added modified =
     (case FileData file of
        Inl e \<Rightarrow> Inl e
      | Inr data \<Rightarrow>
         (let fileInfo = \<lparr>Name = FileName file, Size = FileSize file, Hash = ContentHash x data\<rparr>
          in if has_file p (FileName file) then classify_writes x p files added (modified @ [fileInfo])
             else classify_writes x p files (added @ [fileInfo]) modified))"

definition resulting_set ::
  "(string, file_info) gomap \<Rightarrow> string list \<Rightarrow> file_info list \<Rightarrow> file_info list \<Rightarrow> (string, file_info) gomap" where
  "resulting_set prev removed added modified =
     put_all Name id modified (put_all Name id added (del_all removed prev))"

definition sc_rollback_new_version ::
  "ctx \<Rightarrow> 'd document_store \<Rightarrow> 'm metadata_store \<Rightarrow> uuid \<Rightarrow> version_time \<Rightarrow> err
     \<Rightarrow> ('d, 'm) store_state \<Rightarrow> version_info outcome \<times> ('d, 'm) store_state" where
  "sc_rollback_new_version cx ds ms docID version cause s =
     (case ms_DeleteDocumentVersion ms cx docID version (snd s) of
        (Inl pgErr, m) \<Rightarrow> (Fail (Join [cause, pgErr]), (fst s, m))
      | (Inr (left, hashesToDelete), m) \<Rightarrow>
         if hashesToDelete \<noteq> [] then
           (case ds_DeleteDocumentHashes ds docID hashesToDelete (fst s) of
              (None, d) \<Rightarrow> (Fail cause, (d, m))
            | (Some s3Err, d) \<Rightarrow> (Fail (Join [cause, s3Err]), (d, m)))
         else (Fail cause, (fst s, m)))"

text \<open>The argument of the metadata insert of \<open>AddDocumentVersion\<close>.\<close>

definition sc_add_input ::
  "uuid \<Rightarrow> uuid \<Rightarrow> string \<Rightarrow> version_info \<Rightarrow> create_version_result \<Rightarrow> file_info list \<Rightarrow> file_info list
     \<Rightarrow> (string, file_info) gomap \<Rightarrow> create_document_version_input" where
  "sc_add_input docID userID reason latestInfo result addedFiles modifiedFiles resultingFiles =
     \<lparr>in_DocID = docID,
      in_CompanyID = (case NewCompanyID result of None \<Rightarrow> CompanyID latestInfo | Some c \<Rightarrow> c),
      in_UserID = userID, in_Reason = reason, in_NewVersion = cvr_Version result,
      in_PreviousVersion = Some (Version latestInfo), in_AddedFiles = addedFiles,
      in_ModifiedFiles = modifiedFiles, in_RemovedFiles = RemoveFiles result,
      in_Files = Some resultingFiles\<rparr>"

text \<open>
  The part of \<open>AddDocumentVersion\<close> from the validated result on. A return without error
  carries the metadata that \<open>onNewVersion\<close> was called with and accepted.
\<close>

definition sc_write_version ::
  "ctx \<Rightarrow> ext \<Rightarrow> 'd document_store \<Rightarrow> 'm metadata_store \<Rightarrow> uuid \<Rightarrow> uuid \<Rightarrow> string \<Rightarrow> version_info
     \<Rightarrow> file_provider \<Rightarrow> create_version_result \<Rightarrow> on_new_version_func \<Rightarrow> ('d, 'm) store_state
     \<Rightarrow> version_info outcome \<times> ('d, 'm) store_state" where
  "sc_write_version cx x ds ms docID userID reason latestInfo fileProvider result onNew s =
     (case classify_writes x fileProvider (write_readers result) [] [] of
        Inl e \<Rightarrow> (Fail e, s)
      | Inr (addedFiles, modifiedFiles) \<Rightarrow>
     (let resultingFiles = resulting_set (Files latestInfo) (RemoveFiles result) addedFiles modifiedFiles
      in if resultingFiles = [] then (Fail (Errorf ''cannot remove all files of document'' []), s)
      else
     (case ms_CreateDocumentVersion ms cx
             (sc_add_input docID userID reason latestInfo result addedFiles modifiedFiles resultingFiles) (snd s) of
        (Inl e, m1) \<Rightarrow> (Fail e, (fst s, m1))
      | (Inr newVersionInfo, m1) \<Rightarrow>
     (case ds_CreateDocumentVersion ds docID (cvr_Version result) (write_readers result) (fst s) of
        (Inl e, d1) \<Rightarrow> sc_rollback_new_version cx ds ms docID (cvr_Version result) e (d1, m1)
      | (Inr _, d1) \<Rightarrow>
     (case recovered (onNew newVersionInfo) of
        Inl e \<Rightarrow> sc_rollback_new_version cx ds ms docID (cvr_Version result) e (d1, m1)
      | Inr _ \<Rightarrow> (Ret newVersionInfo, (d1, m1)))))))"

definition sc_AddDocumentVersion ::
  "ctx \<Rightarrow> ext \<Rightarrow> 'd document_store \<Rightarrow> 'm metadata_store \<Rightarrow> uuid \<Rightarrow> uuid \<Rightarrow> string
     \<Rightarrow> create_version_func option \<Rightarrow> on_new_version_func option \<Rightarrow> ('d, 'm) store_state
     \<Rightarrow> version_info outcome \<times> ('d, 'm) store_state" where
  "sc_AddDocumentVersion cx x ds ms docID userID reason createVersion onNewVersion s =
     (case ctx_Err cx of Some e \<Rightarrow> (Fail e, s) | None \<Rightarrow>
     (case ID_Validate x docID of Some e \<Rightarrow> (Fail e, s) | None \<Rightarrow>
     (case ID_Validate x userID of Some e \<Rightarrow> (Fail e, s) | None \<Rightarrow>
     (case createVersion of
        None \<Rightarrow> (Fail (OtherErr ''nil createVersion func passed to AddDocumentVersion''), s)
      | Some create \<Rightarrow>
     (case onNewVersion of
        None \<Rightarrow> (Fail (OtherErr ''nil onNewVersion func passed to AddDocumentVersion''), s)
      | Some onNew \<Rightarrow>
     (case ms_LatestDocumentVersionInfo ms docID (snd s) of
        Inl e \<Rightarrow> (Fail e, s)
      | Inr latestInfo \<Rightarrow>
     (case ds_DocumentHashFileProvider ds docID (map (Hash \<circ> snd) (Files latestInfo)) (fst s) of
        Inl e \<Rightarrow> (Fail e, s)
      | Inr fileProvider \<Rightarrow>
     (case recovered (create docID (Version latestInfo) fileProvider) of
        Inl e \<Rightarrow> (Fail e, s)
      | Inr None \<Rightarrow> (Panic ''nil pointer dereference'', s)
      | Inr (Some result) \<Rightarrow>
     (case CreateVersionResult_Validate x result of
        Some e \<Rightarrow> (Fail e, s)
      | None \<Rightarrow>
      if \<not> After (cvr_Version result) (Version latestInfo) then
        (Fail (Errorf ''version returned from CreateVersionFunc is not after previous version'' []), s)
      else sc_write_version cx x ds ms docID userID reason latestInfo fileProvider result onNew s)))))))))"

section \<open>Restore\<close>

text \<open>\<open>hashedVersionFiles\<close>: a missing content reads as the empty file, as a nil slice does.\<close>

definition data_of :: "hashed_document \<Rightarrow> string \<Rightarrow> bytes" where
  "data_of doc hash = (case map_of (HashedFiles doc) hash of None \<Rightarrow> [] | Some b \<Rightarrow> b)"

definition hashedVersionFiles :: "hashed_document \<Rightarrow> hashed_version \<Rightarrow> file_reader list" where
  "hashedVersionFiles doc hv = map (\<lambda>(filename, hash). NewMemFile filename (data_of doc hash)) (FileHashes hv)"

definition versionTimeIn :: "version_time list \<Rightarrow> version_time \<Rightarrow> bool" where
  "versionTimeIn versions v = list_ex (\<lambda>e. VersionTime_Equal e v) versions"

text \<open>
  The metadata of one merged version: its change lists against the backup's previous
  version, \<open>prevHashes\<close>, and its whole file set.
\<close>

definition restore_info :: "hashed_document \<Rightarrow> string \<times> string \<Rightarrow> file_info" where
  "restore_info doc = (\<lambda>(filename, hash).
     \<lparr>Name = filename, Size = int (length (data_of doc hash)), Hash = hash\<rparr>)"

definition restore_input ::
  "hashed_document \<Rightarrow> hashed_version \<Rightarrow> version_time \<Rightarrow> version_time option \<Rightarrow> (string, string) gomap
     \<Rightarrow> create_document_version_input" where
  "restore_input doc hv v previousVersion prevHashes =
     \<lparr>in_DocID = hd_ID doc, in_CompanyID = hd_CompanyID doc, in_UserID = hv_CommitUserID hv,
      in_Reason = hv_CommitReason hv, in_NewVersion = v, in_PreviousVersion = previousVersion,
      in_AddedFiles = map (restore_info doc) (filter (\<lambda>(n, h). map_of prevHashes n = None) (FileHashes hv)),
      in_ModifiedFiles = map (restore_info doc)
        (filter (\<lambda>(n, h). map_of prevHashes n \<noteq> None \<and> map_of prevHashes n \<noteq> Some h) (FileHashes hv)),
      in_RemovedFiles = map fst (filter (\<lambda>(n, h). map_of (FileHashes hv) n = None) prevHashes),
      in_Files = Some (put_all fst (restore_info doc) (FileHashes hv) [])\<rparr>"

text \<open>What the deferred roll-back reads: the error, \<open>createdDoc\<close> and \<open>createdVersions\<close>.\<close>

record restore_progress =
  rp_docExists :: bool
  rp_createdDoc :: bool
  rp_createdVersions :: "version_time list"

fun restore_loop ::
  "ctx \<Rightarrow> 'd document_store \<Rightarrow> 'm metadata_store \<Rightarrow> hashed_document \<Rightarrow> bool \<Rightarrow> version_time list
     \<Rightarrow> version_time option \<Rightarrow> version_time list \<Rightarrow> restore_progress \<Rightarrow> ('d, 'm) store_state
     \<Rightarrow> unit outcome \<times> restore_progress \<times> ('d, 'm) store_state" where
  "restore_loop cx ds ms doc recreate existing prev [] rp s = (Ret (), rp, s)"
| "restore_loop cx ds ms doc recreate existing prev (v # vs) rp s =
     (if \<not> recreate \<and> versionTimeIn existing v then
        restore_loop cx ds ms doc recreate existing (Some v) vs rp s
      else case version_at doc v of
        None \<Rightarrow> (Panic ''nil pointer dereference'', rp, s)
      | Some hv \<Rightarrow>
         (let files = hashedVersionFiles doc hv
          in if \<not> rp_docExists rp then
               (case sc_CreateDocument cx ds ms (hd_CompanyID doc) (hd_ID doc) (hv_CommitUserID hv)
                       (hv_CommitReason hv) v files (Some (\<lambda>_. Ret ())) s of
                  (Ret _, s') \<Rightarrow> restore_loop cx ds ms doc recreate existing (Some v) vs
                     (rp\<lparr>rp_docExists := True, rp_createdDoc := True\<rparr>) s'
                | (Fail e, s') \<Rightarrow> (Fail e, rp, s')
                | (Panic msg, s') \<Rightarrow> (Panic msg, rp, s'))
             else case (case prev of None \<Rightarrow> Some [] | Some p \<Rightarrow> map_option FileHashes (version_at doc p)) of
               None \<Rightarrow> (Panic ''nil pointer dereference'', rp, s)
             | Some prevHashes \<Rightarrow>
                (case ms_CreateDocumentVersion ms cx (restore_input doc hv v prev prevHashes) (snd s) of
                   (Inl e, m1) \<Rightarrow> (Fail e, rp, (fst s, m1))
                 | (Inr _, m1) \<Rightarrow>
                    (let rp' = rp\<lparr>rp_createdVersions := rp_createdVersions rp @ [v]\<rparr>
                     in case ds_CreateDocumentVersion ds (hd_ID doc) v files (fst s) of
                          (Inl e, d1) \<Rightarrow> (Fail e, rp', (d1, m1))
                        | (Inr _, d1) \<Rightarrow>
                            restore_loop cx ds ms doc recreate existing (Some v) vs rp' (d1, m1)))))"

fun rollback_versions ::
  "ctx \<Rightarrow> 'd document_store \<Rightarrow> 'm metadata_store \<Rightarrow> uuid \<Rightarrow> version_time list \<Rightarrow> err
     \<Rightarrow> ('d, 'm) store_state \<Rightarrow> err \<times> ('d, 'm) store_state" where
  "rollback_versions cx ds ms docID [] err s = (err, s)"
| "rollback_versions cx ds ms docID (v # vs) err s =
     (case sc_DeleteDocumentVersion cx ds ms docID v s of
        (Inl delErr, s') \<Rightarrow> rollback_versions cx ds ms docID vs (Join [err, delErr]) s'
      | (Inr _, s') \<Rightarrow> rollback_versions cx ds ms docID vs err s')"

definition restore_rollback ::
  "ctx \<Rightarrow> 'd document_store \<Rightarrow> 'm metadata_store \<Rightarrow> uuid \<Rightarrow> restore_progress \<Rightarrow> err
     \<Rightarrow> ('d, 'm) store_state \<Rightarrow> unit outcome \<times> ('d, 'm) store_state" where
  "restore_rollback cx ds ms docID rp err s =
     (if rp_createdDoc rp then
        (let (delErr, s') = sc_DeleteDocument cx ds ms docID s
         in (Fail (case delErr of None \<Rightarrow> Join [err] | Some e \<Rightarrow> Join [err, e]), s'))
      else
        (let (err', s') = rollback_versions cx ds ms docID (rev (rp_createdVersions rp)) err s
         in (Fail err', s')))"

text \<open>The versions to skip: those of an existing document that is merged into.\<close>

definition restore_existing ::
  "'m metadata_store \<Rightarrow> hashed_document \<Rightarrow> bool \<Rightarrow> ('d, 'm) store_state \<Rightarrow> err + version_time list" where
  "restore_existing ms doc merge s =
     (if merge then
        (case sc_DocumentCompanyID ms (hd_ID doc) s of
           Inl e \<Rightarrow> Inl e
         | Inr currCompanyID \<Rightarrow>
            if currCompanyID \<noteq> hd_CompanyID doc then
              Inl (Errorf ''cannot restore document into existing document with different companyID'' [])
            else sc_DocumentVersions ms (hd_ID doc) s)
      else Inr [])"

definition sc_RestoreDocument ::
  "ctx \<Rightarrow> ext \<Rightarrow> 'd document_store \<Rightarrow> 'm metadata_store \<Rightarrow> hashed_document option \<Rightarrow> bool
     \<Rightarrow> ('d, 'm) store_state \<Rightarrow> unit outcome \<times> ('d, 'm) store_state" where
  "sc_RestoreDocument cx x ds ms docp recreate s =
     (case ctx_Err cx of Some e \<Rightarrow> (Fail e, s) | None \<Rightarrow>
     (case HashedDocument_Validate x docp of Some e \<Rightarrow> (Fail e, s) | None \<Rightarrow>
     (case docp of None \<Rightarrow> (Panic ''nil pointer dereference'', s) | Some doc \<Rightarrow>
     (case sc_DocumentExists ds (hd_ID doc) s of
        Inl e \<Rightarrow> (Fail e, s)
      | Inr found \<Rightarrow>
     (case (if recreate \<and> found then sc_DeleteDocument cx ds ms (hd_ID doc) s else (None, s)) of
        (Some e, s1) \<Rightarrow> (Fail e, s1)
      | (None, s1) \<Rightarrow>
     (let docExists = (found \<and> \<not> recreate)
      in case restore_existing ms doc docExists s1 of
        Inl e \<Rightarrow> (Fail e, s1)
      | Inr existing \<Rightarrow>
     (case restore_loop cx ds ms doc recreate existing None (VersionTimes doc)
             \<lparr>rp_docExists = docExists, rp_createdDoc = False, rp_createdVersions = []\<rparr> s1 of
        (Ret _, _, s2) \<Rightarrow> (Ret (), s2)
      | (Panic msg, _, s2) \<Rightarrow> (Panic msg, s2)
      | (Fail e, rp, s2) \<Rightarrow> restore_rollback cx ds ms (hd_ID doc) rp e s2)))))))"

end
