(* ===== verification/StoreConnLaws.thy ===== *)
theory StoreConnLaws
  imports StoreConn
begin

text \<open>
  What the split-store connection guarantees over any two stores that meet their
  contracts. The central notion is consistency: every blob is stored under its content
  hash, and every file of every committed version has its blob.
\<close>

definition references :: "blob_map \<Rightarrow> doc_view \<Rightarrow> bool" where
  "references bs dv \<longleftrightarrow> (\<forall>v info n fi. dv v = Some info \<longrightarrow> map_of (Files info) n = Some fi \<longrightarrow> (n, Hash fi) \<in> dom bs)"

definition consistent :: "ext \<Rightarrow> (uuid \<Rightarrow> blob_map) \<Rightarrow> meta_view \<Rightarrow> bool" where
  "consistent x bm mv \<longleftrightarrow> (\<forall>docID. sound_blobs x (bm docID) \<and> references (bm docID) (mv docID))"

lemma consistentD:
  assumes "consistent x bm mv"
  shows "sound_blobs x (bm docID)" "references (bm docID) (mv docID)"
  using assms by (auto simp: consistent_def)

lemma consistent_update:
  assumes "consistent x bm mv" "\<And>docID'. docID' \<noteq> docID \<Longrightarrow> bm' docID' = bm docID' \<and> mv' docID' = mv docID'"
    "sound_blobs x (bm' docID)" "references (bm' docID) (mv' docID)"
  shows "consistent x bm' mv'"
  using assms unfolding consistent_def by metis

lemma referencesD: "references bs dv \<Longrightarrow> dv v = Some info \<Longrightarrow> map_of (Files info) n = Some fi \<Longrightarrow> (n, Hash fi) \<in> dom bs"
  unfolding references_def by blast

lemma references_mono: "references bs dv \<Longrightarrow> dom bs \<subseteq> dom bs' \<Longrightarrow> dv' \<subseteq>\<^sub>m dv \<Longrightarrow> references bs' dv'"
  unfolding references_def map_le_def by (metis domI subsetD)

lemma references_drop: "references bs dv \<Longrightarrow> references bs (dv(v := None))"
  unfolding references_def by (metis fun_upd_apply option.distinct(1))

lemma references_put:
  "references bs dv \<Longrightarrow> (\<And>n fi. map_of (Files info) n = Some fi \<Longrightarrow> (n, Hash fi) \<in> dom bs) \<Longrightarrow> references bs (dv(v \<mapsto> info))"
  by (auto simp: references_def)

lemma references_empty [simp]: "references bs Map.empty"
  by (simp add: references_def)

lemma references_no_blobs: "references Map.empty dv \<Longrightarrow> references bs dv"
  by (auto simp: references_def)

lemma references_unreferenced:
  assumes "references bs dv" "set hs \<inter> \<Union> (hashes_of ` ran dv) = {}" "\<And>n h. h \<notin> set hs \<Longrightarrow> bs' (n, h) = bs (n, h)"
  shows "references bs' dv"
  unfolding references_def
proof (intro allI impI)
  fix v info n fi
  assume v: "dv v = Some info" and n: "map_of (Files info) n = Some fi"
  then have "Hash fi \<in> \<Union> (hashes_of ` ran dv)"
    by (auto simp: hashes_of_def intro!: bexI [of _ info] ranI)
  then have "bs' (n, Hash fi) = bs (n, Hash fi)"
    using assms(2,3) by blast
  with referencesD [OF assms(1) v n] show "(n, Hash fi) \<in> dom bs'" by (simp add: dom_def)
qed

section \<open>The files of a new version\<close>

text \<open>The files written, by name: the last one of a name counts.\<close>

definition written :: "ext \<Rightarrow> file_reader list \<Rightarrow> (string \<rightharpoonup> file_info)" where
  "written x ws = map_of (rev (map (\<lambda>f. (FileName f, stored_info x f)) ws))"

lemma map_of_put_all: "map_of (put_all f g xs m) = map_of m ++ map_of (rev (map (\<lambda>x. (f x, g x)) xs))"
  by (induction xs rule: rev_induct) (auto simp: fun_eq_iff map_add_def)

lemma map_of_rev_filter:
  "map_of (rev (map (\<lambda>x. (f x, g x)) (filter (\<lambda>x. P (f x)) xs))) n =
     (if P n then map_of (rev (map (\<lambda>x. (f x, g x)) xs)) n else None)"
  by (induction xs rule: rev_induct) auto

lemma written_SomeD: "written x ws n = Some fi \<Longrightarrow> \<exists>f\<in>set ws. FileName f = n \<and> fi = stored_info x f"
  by (auto simp: written_def dest!: map_of_SomeD)

lemma dom_written: "dom (written x ws) = FileName ` set ws"
  by (force simp: written_def dom_map_of_conv_image_fst)

lemma written_in_blobs: "written x ws n = Some fi \<Longrightarrow> (n, Hash fi) \<in> dom (file_blobs x ws)"
  by (auto simp: dom_file_blobs stored_info_def dest!: written_SomeD)

lemma classify_writes_Inr:
  "classify_writes x p ws added modified = Inr (added', modified') \<Longrightarrow>
     (\<forall>f\<in>set ws. readable f)
     \<and> added' = added @ map (stored_info x) (filter (\<lambda>f. \<not> has_file p (FileName f)) ws)
     \<and> modified' = modified @ map (stored_info x) (filter (\<lambda>f. has_file p (FileName f)) ws)"
  by (induction x p ws added modified rule: classify_writes.induct)
    (auto simp: Let_def stored_info_def readable_def split: sum.splits if_splits)

lemma classify_writes_readable:
  "\<forall>f\<in>set ws. readable f \<Longrightarrow> \<exists>r. classify_writes x p ws added modified = Inr r"
  by (induction x p ws added modified rule: classify_writes.induct)
    (auto simp: Let_def readable_def split: sum.splits)

lemma resulting_set_files:
  "map_of (resulting_set prev removed
      (map (stored_info x) (filter (\<lambda>f. \<not> has_file p (FileName f)) ws))
      (map (stored_info x) (filter (\<lambda>f. has_file p (FileName f)) ws))) =
   (map_of prev |` (- set removed)) ++ written x ws"
proof
  fix n
  have part: "map_of (rev (map (\<lambda>fi. (Name fi, fi)) (map (stored_info x) (filter (\<lambda>f. P (FileName f)) ws)))) n =
      (if P n then written x ws n else None)" for P
    using map_of_rev_filter [of FileName "stored_info x" P ws n]
    by (simp add: written_def o_def stored_info_def)
  show "map_of (resulting_set prev removed
      (map (stored_info x) (filter (\<lambda>f. \<not> has_file p (FileName f)) ws))
      (map (stored_info x) (filter (\<lambda>f. has_file p (FileName f)) ws))) n =
     ((map_of prev |` (- set removed)) ++ written x ws) n"
    using part [of "has_file p"] part [of "\<lambda>n. \<not> has_file p n"]
    by (auto simp: resulting_set_def map_of_put_all map_of_del_all map_add_def restrict_map_def split: option.splits)
qed

lemma resulting_set_wf: "wf_files prev \<Longrightarrow> wf_files (resulting_set prev removed added modified)"
  by (simp add: resulting_set_def)

section \<open>What the operations accept and commit\<close>

text \<open>The version \<open>AddDocumentVersion\<close> commits, as the metadata store keeps it.\<close>

definition new_version ::
  "ext \<Rightarrow> uuid \<Rightarrow> uuid \<Rightarrow> string \<Rightarrow> version_info \<Rightarrow> file_provider \<Rightarrow> create_version_result \<Rightarrow> version_info \<Rightarrow> bool" where
  "new_version x docID userID reason latestInfo p result info \<longleftrightarrow>
     DocID info = docID \<and> CommitUserID info = userID \<and> CommitReason info = reason
     \<and> CompanyID info = (case NewCompanyID result of None \<Rightarrow> CompanyID latestInfo | Some c \<Rightarrow> c)
     \<and> Version info = cvr_Version result \<and> PrevVersion info = Some (Version latestInfo)
     \<and> RemovedFiles info = RemoveFiles result
     \<and> AddedFiles info = filter (\<lambda>n. \<not> has_file p n) (map FileName (write_readers result))
     \<and> ModifiedFiles info = filter (has_file p) (map FileName (write_readers result))
     \<and> Files info \<noteq> [] \<and> wf_files (Files info)
     \<and> map_of (Files info) =
         (map_of (Files latestInfo) |` (- set (RemoveFiles result))) ++ written x (write_readers result)"

text \<open>The first version \<open>CreateDocument\<close> commits.\<close>

definition genesis_version ::
  "ext \<Rightarrow> uuid \<Rightarrow> uuid \<Rightarrow> uuid \<Rightarrow> string \<Rightarrow> version_time \<Rightarrow> file_reader list \<Rightarrow> version_info \<Rightarrow> bool" where
  "genesis_version x companyID docID userID reason v files info \<longleftrightarrow>
     CompanyID info = companyID \<and> DocID info = docID \<and> CommitUserID info = userID \<and> CommitReason info = reason
     \<and> Version info = v \<and> PrevVersion info = None \<and> RemovedFiles info = [] \<and> ModifiedFiles info = []
     \<and> AddedFiles info = map FileName files \<and> wf_files (Files info)
     \<and> map_of (Files info) = written x files"

text \<open>The guards of \<open>AddDocumentVersion\<close>: where the call comes from if it gets to write.\<close>

definition add_accepted ::
  "ext \<Rightarrow> 'd document_store \<Rightarrow> 'm metadata_store \<Rightarrow> ctx \<Rightarrow> uuid \<Rightarrow> uuid \<Rightarrow> create_version_func option \<Rightarrow> on_new_version_func option \<Rightarrow> ('d, 'm) store_state
     \<Rightarrow> version_info \<Rightarrow> file_provider \<Rightarrow> create_version_result \<Rightarrow> on_new_version_func \<Rightarrow> bool" where
  "add_accepted x ds ms cx docID userID createVersion onNewVersion s latestInfo p result onNew \<longleftrightarrow>
     ctx_Err cx = None \<and> ID_Validate x docID = None \<and> ID_Validate x userID = None
     \<and> ms_LatestDocumentVersionInfo ms docID (snd s) = Inr latestInfo
     \<and> ds_DocumentHashFileProvider ds docID (map (Hash \<circ> snd) (Files latestInfo)) (fst s) = Inr p
     \<and> (\<exists>create. createVersion = Some create \<and> create docID (Version latestInfo) p = Ret (Some result))
     \<and> onNewVersion = Some onNew \<and> CreateVersionResult_Validate x result = None
     \<and> After (cvr_Version result) (Version latestInfo)"

section \<open>The two stores together\<close>

locale store_conn =
  d: document_store x ds blobs dinv dcalm + m: metadata_store ms view minv mcalm mroom
  for x :: ext and ds :: "'d document_store" and blobs dinv dcalm
    and ms :: "'m metadata_store" and view minv mcalm mroom
begin

definition sinv :: "('d, 'm) store_state \<Rightarrow> bool" where
  "sinv s \<longleftrightarrow> dinv (fst s) \<and> minv (snd s)"

definition sblobs :: "('d, 'm) store_state \<Rightarrow> uuid \<Rightarrow> blob_map" where
  "sblobs s = blobs (fst s)"

definition sview :: "('d, 'm) store_state \<Rightarrow> meta_view" where
  "sview s = view (snd s)"

abbreviation sconsistent :: "('d, 'm) store_state \<Rightarrow> bool" where
  "sconsistent s \<equiv> consistent x (sblobs s) (sview s)"

lemmas s_defs = sinv_def sblobs_def sview_def

text \<open>
  A step on one document that only removes blobs no version of the result refers to:
  the other documents and the soundness of the blobs are kept.
\<close>

definition removes :: "uuid \<Rightarrow> ('d, 'm) store_state \<Rightarrow> ('d, 'm) store_state \<Rightarrow> bool" where
  "removes docID s s' \<longleftrightarrow> sinv s'
     \<and> (\<forall>docID'. docID' \<noteq> docID \<longrightarrow> sblobs s' docID' = sblobs s docID' \<and> sview s' docID' = sview s docID')
     \<and> (sound_blobs x (sblobs s docID) \<longrightarrow> sound_blobs x (sblobs s' docID))
     \<and> (references (sblobs s docID) (sview s' docID) \<longrightarrow> references (sblobs s' docID) (sview s' docID))"

lemma removes_blobs_eq:
  assumes "sinv s'" "sblobs s' = sblobs s" "\<And>docID'. docID' \<noteq> docID \<Longrightarrow> sview s' docID' = sview s docID'"
  shows "removes docID s s'"
  using assms by (simp add: removes_def)

lemma removes_consistent:
  assumes "removes docID s s'" "sconsistent s" "sview s' docID \<subseteq>\<^sub>m sview s docID"
  shows "sconsistent s'"
proof (rule consistent_update [OF assms(2), where docID = docID])
  show "references (sblobs s' docID) (sview s' docID)"
    using assms(1) references_mono [OF consistentD(2) [OF assms(2)] subset_refl assms(3)]
    by (simp add: removes_def)
qed (use assms(1) consistentD(1) [OF assms(2)] in \<open>auto simp: removes_def\<close>)

text \<open>The hashes reported for a deleted version are referenced by no other version.\<close>

lemma delete_hashes_removes:
  assumes inv: "sinv s" "\<not> VersionsExist cx"
    and del: "ms_DeleteDocumentVersion ms cx docID v (snd s) = (Inr (left, hs), m')"
    and rem: "ds_DeleteDocumentHashes ds docID hs (fst s) = (rd, d')"
  shows "removes docID s (d', m')" "sview (d', m') = drop_version (sview s) docID v"
proof -
  from inv have dinv: "dinv (fst s)" and minv: "minv (snd s)" by (auto simp: sinv_def)
  obtain info where m': "minv m'" "view m' = drop_version (view (snd s)) docID v"
    "set hs = hashes_of info - \<Union> (hashes_of ` ran (view m' docID))"
    using m.delete_version_Inr [OF minv inv(2) del] by blast
  then show "sview (d', m') = drop_version (sview s) docID v" by (simp add: s_defs)
  have "references (blobs d' docID) (view m' docID)" if "references (blobs (fst s) docID) (view m' docID)"
    using that by (rule references_unreferenced)
      (use m'(3) d.delete_hashes_keeps [OF dinv rem] in auto)
  moreover have "sound_blobs x (blobs d' docID)" if "sound_blobs x (blobs (fst s) docID)"
  proof (cases rd)
    case None
    with rem d.delete_hashes_None [OF dinv] that show ?thesis
      by (fastforce simp: sound_blobs_def)
  next
    case (Some e)
    with rem d.delete_hashes_Some [OF dinv, of docID hs e d'] that sound_partly_removed show ?thesis
      by fastforce
  qed
  ultimately show "removes docID s (d', m')"
    using m'(1,2) d.delete_hashes_frame [OF dinv rem] by (simp add: removes_def s_defs)
qed

lemma drop_version_le: "drop_version mv docID v docID' \<subseteq>\<^sub>m mv docID'"
  by (cases "docID' = docID") (auto simp: map_le_def)

text \<open>The roll-back of \<open>AddDocumentVersion\<close>.\<close>

lemma rollback_new_version:
  assumes run: "sc_rollback_new_version cx ds ms docID v cause s = (r, s')"
    and inv: "sinv s" "\<not> VersionsExist cx"
  shows "removes docID s s'" "\<exists>e. r = Fail e" "sview s' = sview s \<or> sview s' = drop_version (sview s) docID v"
    "mcalm (snd s) \<Longrightarrow> Time v \<noteq> 0 \<Longrightarrow> mcalm (snd s') \<and> sview s' = drop_version (sview s) docID v"
proof -
  obtain r1 m1 where del: "ms_DeleteDocumentVersion ms cx docID v (snd s) = (r1, m1)" by fastforce
  have minv: "minv (snd s)" using inv(1) by (simp add: sinv_def)
  have m1: "minv m1" "view m1 = view (snd s) \<or> view m1 = drop_version (view (snd s)) docID v"
    using m.delete_version_frame [OF minv inv(2) del] by auto
  have calm: "mcalm (snd s) \<Longrightarrow> Time v \<noteq> 0 \<Longrightarrow> mcalm m1 \<and> view m1 = drop_version (view (snd s)) docID v"
    using m.delete_version_calm [OF minv _ inv(2) del] by blast
  have same: "removes docID s (fst s, m1)"
    using m1 inv(1) by (intro removes_blobs_eq) (auto simp: s_defs)
  show "removes docID s s'"
    using run del same delete_hashes_removes(1) [OF inv]
    by (auto simp: sc_rollback_new_version_def split: sum.splits if_splits prod.splits option.splits)
  show "\<exists>e. r = Fail e"
    using run del by (auto simp: sc_rollback_new_version_def split: sum.splits if_splits prod.splits option.splits)
  have snd: "snd s' = m1"
    using run del by (auto simp: sc_rollback_new_version_def split: sum.splits if_splits prod.splits option.splits)
  show "sview s' = sview s \<or> sview s' = drop_version (sview s) docID v"
    using m1(2) snd by (simp add: sview_def)
  show "mcalm (snd s) \<Longrightarrow> Time v \<noteq> 0 \<Longrightarrow> mcalm (snd s') \<and> sview s' = drop_version (sview s) docID v"
    using calm snd by (simp add: sview_def)
qed

text \<open>Deletion keeps consistency on every path.\<close>

lemma delete_document_version:
  assumes run: "sc_DeleteDocumentVersion cx ds ms docID v s = (r, s')"
    and inv: "sinv s" "\<not> VersionsExist cx"
  shows "removes docID s s'" "sview s' = sview s \<or> sview s' = drop_version (sview s) docID v"
    "r = Inr left \<Longrightarrow> sview s' = drop_version (sview s) docID v \<and> sview s docID (ms_trunc v) \<noteq> None"
    "mcalm (snd s) \<Longrightarrow> Time v \<noteq> 0 \<Longrightarrow> mcalm (snd s') \<and> sview s' = drop_version (sview s) docID v"
proof -
  obtain r1 m1 where del: "ms_DeleteDocumentVersion ms cx docID v (snd s) = (r1, m1)" by fastforce
  have minv: "minv (snd s)" using inv(1) by (simp add: sinv_def)
  have m1: "minv m1" "view m1 = view (snd s) \<or> view m1 = drop_version (view (snd s)) docID v"
    using m.delete_version_frame [OF minv inv(2) del] by auto
  have calm: "mcalm (snd s) \<Longrightarrow> Time v \<noteq> 0 \<Longrightarrow> mcalm m1 \<and> view m1 = drop_version (view (snd s)) docID v"
    using m.delete_version_calm [OF minv _ inv(2) del] by blast
  have same: "removes docID s (fst s, m1)"
    using m1 inv(1) by (intro removes_blobs_eq) (auto simp: s_defs)
  show "removes docID s s'"
    using run del same delete_hashes_removes(1) [OF inv]
    by (auto simp: sc_DeleteDocumentVersion_def split: sum.splits if_splits prod.splits option.splits)
  have snd: "snd s' = m1"
    using run del by (auto simp: sc_DeleteDocumentVersion_def split: sum.splits prod.splits option.splits)
  show "sview s' = sview s \<or> sview s' = drop_version (sview s) docID v"
    using m1(2) snd by (simp add: sview_def)
  show "mcalm (snd s) \<Longrightarrow> Time v \<noteq> 0 \<Longrightarrow> mcalm (snd s') \<and> sview s' = drop_version (sview s) docID v"
    using calm snd by (simp add: sview_def)
  show "sview s' = drop_version (sview s) docID v \<and> sview s docID (ms_trunc v) \<noteq> None" if "r = Inr left"
  proof -
    from run del that obtain l hs where "r1 = Inr (l, hs)"
      by (auto simp: sc_DeleteDocumentVersion_def split: sum.splits prod.splits option.splits)
    with m.delete_version_Inr [OF minv inv(2), of docID v l hs m1] del snd show ?thesis
      by (auto simp: sview_def)
  qed
qed

lemma delete_document:
  assumes run: "sc_DeleteDocument cx ds ms docID s = (r, s')"
    and inv: "sinv s" "\<not> VersionsExist cx"
  shows "removes docID s s'" "sview s' = sview s \<or> sview s' = (sview s)(docID := Map.empty)"
    "r = None \<Longrightarrow> sview s' = (sview s)(docID := Map.empty) \<and> sblobs s' = (sblobs s)(docID := Map.empty)"
proof -
  have minv: "minv (snd s)" and dinv: "dinv (fst s)" using inv(1) by (auto simp: sinv_def)
  obtain r1 m1 where del: "ms_DeleteDocument ms cx docID (snd s) = (r1, m1)" by fastforce
  obtain r2 d2 where rem: "ds_DeleteDocument ds docID (fst s) = (r2, d2)" by fastforce
  have d2: "dinv d2" "docID' \<noteq> docID \<Longrightarrow> blobs d2 docID' = blobs (fst s) docID'" for docID'
    using d.delete_frame [OF dinv rem] by auto
  have sound: "sound_blobs x (blobs d2 docID)" if "sound_blobs x (blobs (fst s) docID)"
    using d.delete_sound [OF dinv rem that] .
  have m1: "minv m1" "view m1 = (if r1 = None then (view (snd s))(docID := Map.empty) else view (snd s))"
    using m.delete_None [OF minv inv(2), of docID m1] m.delete_Some [OF minv inv(2), of docID _ m1] del
    by (cases r1; auto)+
  show "removes docID s s'"
    using run del rem m1 d2 sound inv(1)
    by (auto simp: sc_DeleteDocument_def removes_def s_defs split: option.splits)
  show "sview s' = sview s \<or> sview s' = (sview s)(docID := Map.empty)"
    using run del rem m1(2) by (auto simp: sc_DeleteDocument_def s_defs split: option.splits)
  show "r = None \<Longrightarrow> sview s' = (sview s)(docID := Map.empty) \<and> sblobs s' = (sblobs s)(docID := Map.empty)"
    using run del rem m1(2) d.delete_None [OF dinv]
    by (auto simp: sc_DeleteDocument_def s_defs split: option.splits)
qed

section \<open>AddDocumentVersion\<close>

lemma new_version_add_input:
  assumes "classify_writes x p (write_readers result) [] [] = Inr (added, modified)"
    "fs = resulting_set (Files latestInfo) (RemoveFiles result) added modified" "fs \<noteq> []" "wf_files (Files latestInfo)"
  shows "new_version x docID userID reason latestInfo p result
    (input_info fs (sc_add_input docID userID reason latestInfo result added modified fs))"
proof -
  have "added = map (stored_info x) (filter (\<lambda>f. \<not> has_file p (FileName f)) (write_readers result))"
    "modified = map (stored_info x) (filter (\<lambda>f. has_file p (FileName f)) (write_readers result))"
    using classify_writes_Inr [OF assms(1)] by auto
  then show ?thesis
    using assms(2-4) resulting_set_files [of "Files latestInfo" "RemoveFiles result" x p "write_readers result"]
    by (simp add: new_version_def input_info_def sc_add_input_def resulting_set_wf o_def stored_info_def filter_map)
qed

lemma references_new_version:
  assumes "references bs dv" "dv (Version latestInfo) = Some latestInfo"
    "new_version x docID userID reason latestInfo p result info"
  shows "references (bs ++ file_blobs x (write_readers result)) (dv(v \<mapsto> as_stored info))"
proof (rule references_put)
  show "references (bs ++ file_blobs x (write_readers result)) dv"
    using assms(1) by (rule references_mono) auto
  fix n fi assume "map_of (Files (as_stored info)) n = Some fi"
  then have "(map_of (Files latestInfo) |` (- set (RemoveFiles result)) ++ written x (write_readers result)) n = Some fi"
    using assms(3) by (simp add: new_version_def)
  then have "map_of (Files latestInfo) n = Some fi \<or> written x (write_readers result) n = Some fi"
    by (auto simp: restrict_map_def split: if_splits)
  then show "(n, Hash fi) \<in> dom (bs ++ file_blobs x (write_readers result))"
    using referencesD [OF assms(1,2), of n fi] written_in_blobs [of x "write_readers result" n fi]
    by (auto simp del: dom_map_add) (auto simp: map_add_def split: option.splits)
qed

lemma write_version_Ret:
  assumes run: "sc_write_version cx x ds ms docID userID reason latestInfo p result onNew s = (Ret info, s')"
    and inv: "sinv s" "\<not> VersionsExist cx" and prev: "sview s docID (Version latestInfo) = Some latestInfo"
  shows "sinv s'" "new_version x docID userID reason latestInfo p result info \<and> onNew info = Ret ()
      \<and> sview s docID (ms_trunc (cvr_Version result)) = None
      \<and> sview s' = put_version (sview s) docID (cvr_Version result) (as_stored info)"
    "sblobs s' = (sblobs s)(docID := sblobs s docID ++ file_blobs x (write_readers result))"
    "\<forall>f\<in>set (write_readers result). readable f"
    "mcalm (snd s) \<Longrightarrow> mcalm (snd s')" "dcalm (fst s) \<Longrightarrow> dcalm (fst s')"
proof -
  have minv: "minv (snd s)" and dinv: "dinv (fst s)" using inv(1) by (auto simp: sinv_def)
  have wfp: "wf_files (Files latestInfo)"
    using m.view_Files_wf [OF minv] prev by (auto simp: sview_def)
  obtain added modified where cl: "classify_writes x p (write_readers result) [] [] = Inr (added, modified)"
    using run by (auto simp: sc_write_version_def split: sum.splits)
  define fs where "fs = resulting_set (Files latestInfo) (RemoveFiles result) added modified"
  define inp where "inp = sc_add_input docID userID reason latestInfo result added modified fs"
  have fs: "fs \<noteq> []" using run cl by (auto simp: sc_write_version_def fs_def Let_def split: if_splits)
  obtain i m1 where ms: "ms_CreateDocumentVersion ms cx inp (snd s) = (Inr i, m1)"
    using run cl fs by (auto simp: sc_write_version_def fs_def inp_def Let_def split: if_splits sum.splits prod.splits)
  obtain infos d1 where ds: "ds_CreateDocumentVersion ds docID (cvr_Version result) (write_readers result) (fst s) = (Inr infos, d1)"
    using run cl fs ms rollback_new_version(2) [OF _ _ inv(2), of docID "cvr_Version result"]
    by (auto simp: sc_write_version_def fs_def inp_def Let_def sc_rollback_new_version_def
        split: if_splits sum.splits prod.splits option.splits)
  have on: "onNew info = Ret ()" "i = info" and s': "s' = (d1, m1)"
    using run cl fs ms ds
    by (auto simp: sc_write_version_def fs_def inp_def Let_def sc_rollback_new_version_def
        split: if_splits sum.splits prod.splits option.splits)
  have input: "input_files mv inp = fs" "in_DocID inp = docID" "in_NewVersion inp = cvr_Version result" for mv
    by (simp_all add: inp_def sc_add_input_def)
  have "wf_files fs" using wfp by (simp add: fs_def resulting_set_wf)
  with m.create_Inr [OF minv inv(2) _ ms] on(2) have m1: "minv m1" "info = input_info fs inp"
    "view (snd s) docID (ms_trunc (cvr_Version result)) = None"
    "view m1 = put_version (view (snd s)) docID (cvr_Version result) (as_stored info)"
    by (simp_all add: input)
  have d1: "dinv d1" "blobs d1 = (blobs (fst s))(docID := blobs (fst s) docID ++ file_blobs x (write_readers result))"
    "\<forall>f\<in>set (write_readers result). readable f"
    using d.create_Inr [OF dinv ds] by auto
  show "sinv s'" "sblobs s' = (sblobs s)(docID := sblobs s docID ++ file_blobs x (write_readers result))"
    "\<forall>f\<in>set (write_readers result). readable f"
    using m1 d1 s' by (auto simp: s_defs)
  show "mcalm (snd s) \<Longrightarrow> mcalm (snd s')" "dcalm (fst s) \<Longrightarrow> dcalm (fst s')"
    using m.create_calm [OF minv _ inv(2) ms] d.create_calm [OF dinv _ ds] s' by auto
  show "new_version x docID userID reason latestInfo p result info \<and> onNew info = Ret ()
      \<and> sview s docID (ms_trunc (cvr_Version result)) = None
      \<and> sview s' = put_version (sview s) docID (cvr_Version result) (as_stored info)"
    using new_version_add_input [OF cl fs_def fs wfp] on m1 s' by (auto simp: s_defs inp_def)
qed

text \<open>
  Every path that does not succeed ends in an error. When the metadata store works, the
  versions are what they were, and no blob of theirs is lost.
\<close>

lemma write_version_Fail:
  assumes run: "sc_write_version cx x ds ms docID userID reason latestInfo p result onNew s = (r, s')" "\<forall>i. r \<noteq> Ret i"
    and inv: "sinv s" "\<not> VersionsExist cx" and prev: "sview s docID (Version latestInfo) = Some latestInfo"
    and nz: "Time (cvr_Version result) \<noteq> 0"
  shows "\<exists>e. r = Fail e" "sinv s'"
    "sview s' = sview s \<or> (\<exists>info. sview s' = put_version (sview s) docID (cvr_Version result) info)"
    "sview s' = sview s \<Longrightarrow> sconsistent s \<Longrightarrow> sconsistent s'"
    "mcalm (snd s) \<Longrightarrow> sview s' = sview s \<and> mcalm (snd s')"
proof -
  let ?v = "cvr_Version result" and ?ws = "write_readers result"
  let ?goal = "(\<exists>e. r = Fail e) \<and> sinv s' \<and>
    (sview s' = sview s \<or> (\<exists>info. sview s' = put_version (sview s) docID ?v info)) \<and>
    (sview s' = sview s \<longrightarrow> sconsistent s \<longrightarrow> sconsistent s') \<and>
    (mcalm (snd s) \<longrightarrow> sview s' = sview s \<and> mcalm (snd s'))"
  have minv: "minv (snd s)" and dinv: "dinv (fst s)" using inv(1) by (auto simp: sinv_def)
  have wfp: "wf_files (Files latestInfo)"
    using m.view_Files_wf [OF minv] prev by (auto simp: sview_def)
  have ?goal
  proof (cases "classify_writes x p ?ws [] []")
    case (Inl e)
    then show ?thesis using run inv by (auto simp: sc_write_version_def)
  next
    case (Inr am)
    obtain added modified where am: "am = (added, modified)" by fastforce
    define fs where "fs = resulting_set (Files latestInfo) (RemoveFiles result) added modified"
    define inp where "inp = sc_add_input docID userID reason latestInfo result added modified fs"
    have input: "input_files mv inp = fs" "in_DocID inp = docID" "in_NewVersion inp = ?v" for mv
      by (simp_all add: inp_def sc_add_input_def)
    have wffs: "wf_files fs" using wfp by (simp add: fs_def resulting_set_wf)
    obtain r1 m1 where ms: "ms_CreateDocumentVersion ms cx inp (snd s) = (r1, m1)" by fastforce
    have calm1: "mcalm (snd s) \<Longrightarrow> mcalm m1" using m.create_calm [OF minv _ inv(2) ms] by blast
    show ?thesis
    proof (cases "fs = []")
      case True
      then show ?thesis using run inv Inr am by (auto simp: sc_write_version_def fs_def)
    next
      case False
      show ?thesis
      proof (cases r1)
        case (Inl e)
        with m.create_Inl [OF minv inv(2)] ms have m1: "minv m1" "view m1 = view (snd s)" by auto
        have "r = Fail e \<and> s' = (fst s, m1)"
          using run False Inr am Inl ms by (auto simp: sc_write_version_def fs_def inp_def Let_def)
        with m1 dinv calm1 show ?thesis by (auto simp: s_defs)
      next
        case (Inr info)
        with m.create_Inr [OF minv inv(2), of inp info m1] ms wffs input
        have m1: "minv m1" "view (snd s) docID (ms_trunc ?v) = None"
          "view m1 = put_version (view (snd s)) docID ?v (as_stored info)" by simp_all
        obtain r2 d1 where ds: "ds_CreateDocumentVersion ds docID ?v ?ws (fst s) = (r2, d1)" by fastforce
        have d1: "dinv d1" "docID' \<noteq> docID \<Longrightarrow> blobs d1 docID' = blobs (fst s) docID'" for docID'
          using d.create_frame [OF dinv ds] by auto
        have keep: "(sound_blobs x (blobs (fst s) docID) \<longrightarrow> sound_blobs x (blobs d1 docID))
            \<and> dom (blobs (fst s) docID) \<subseteq> dom (blobs d1 docID)"
          using d.create_keeps [OF dinv ds] by blast
        obtain cause where roll: "sc_rollback_new_version cx ds ms docID ?v cause (d1, m1) = (r, s')"
          using run False \<open>classify_writes x p ?ws [] [] = Inr am\<close> am Inr ms ds
          by (cases "recovered (onNew info)")
            (auto simp: sc_write_version_def fs_def inp_def Let_def split: sum.splits)
        note rb = rollback_new_version [OF roll, unfolded s_defs fst_conv snd_conv, OF _ inv(2)]
        have rem: "removes docID (d1, m1) s'" "\<exists>e. r = Fail e"
          using rollback_new_version [OF roll _ inv(2)] m1 d1 by (auto simp: sinv_def)
        have drop: "drop_version (view m1) docID ?v = view (snd s)"
          using m1(2,3) by (simp add: drop_put_version)
        have views: "sview s' = view m1 \<or> sview s' = view (snd s)"
          using rb(3) m1 d1 drop by (auto simp: sview_def)
        have calm: "mcalm (snd s) \<Longrightarrow> mcalm (snd s') \<and> sview s' = sview s"
          using rb(4) m1 d1 drop calm1 nz by (auto simp: sview_def)
        have cons: "sconsistent s'" if "sview s' = sview s" "sconsistent s"
        proof (rule consistent_update [OF that(2), where docID = docID])
          fix docID' assume "docID' \<noteq> docID"
          then show "sblobs s' docID' = sblobs s docID' \<and> sview s' docID' = sview s docID'"
            using rem(1) d1(2) that(1) by (auto simp: removes_def sblobs_def)
        next
          show "sound_blobs x (sblobs s' docID)"
            using rem(1) keep consistentD(1) [OF that(2)] by (auto simp: removes_def sblobs_def)
          have "references (sblobs (d1, m1) docID) (sview s' docID)"
            using references_mono [OF consistentD(2) [OF that(2)], of docID "blobs d1 docID" "sview s' docID"]
              keep that(1) by (simp add: sblobs_def)
          then show "references (sblobs s' docID) (sview s' docID)"
            using rem(1) by (auto simp: removes_def)
        qed
        show ?thesis
          using rem views calm cons m1(3) by (auto simp: removes_def sview_def)
      qed
    qed
  qed
  then show "\<exists>e. r = Fail e" "sinv s'"
    "sview s' = sview s \<or> (\<exists>info. sview s' = put_version (sview s) docID (cvr_Version result) info)"
    "sview s' = sview s \<Longrightarrow> sconsistent s \<Longrightarrow> sconsistent s'"
    "mcalm (snd s) \<Longrightarrow> sview s' = sview s \<and> mcalm (snd s')" by blast+
qed

lemma add_document_version_cases:
  assumes "sc_AddDocumentVersion cx x ds ms docID userID reason createVersion onNewVersion s = (r, s')"
  obtains (refused) "\<forall>i. r \<noteq> Ret i" "s' = s"
  | (accepted) latestInfo p result onNew where
      "add_accepted x ds ms cx docID userID createVersion onNewVersion s latestInfo p result onNew"
      "sc_write_version cx x ds ms docID userID reason latestInfo p result onNew s = (r, s')"
  using assms unfolding sc_AddDocumentVersion_def add_accepted_def
  by (auto split: option.splits sum.splits if_splits)

lemma add_accepted_prev:
  assumes "add_accepted x ds ms cx docID userID createVersion onNewVersion s latestInfo p result onNew" "sinv s"
  shows "sview s docID (Version latestInfo) = Some latestInfo" "latest (sview s docID) (Version latestInfo)"
    "Time (cvr_Version result) \<noteq> 0"
  using assms m.latest_info_Inr
  by (auto simp: add_accepted_def s_defs CreateVersionResult_Validate_None_iff)

section \<open>CreateDocument\<close>

lemma genesis_input:
  assumes "infos = map (stored_info x) files"
    "inp = sc_genesis_input companyID docID userID reason v infos"
  shows "input_files mv inp = put_all Name id infos []" "wf_files (input_files mv inp)"
    "in_DocID inp = docID" "in_NewVersion inp = v"
    "genesis_version x companyID docID userID reason v files (input_info (input_files mv inp) inp)"
proof -
  have files: "input_files mv inp = put_all Name id infos []"
    by (simp add: assms(2) sc_genesis_input_def input_files_genesis)
  have "map_of (put_all Name id infos []) = written x files"
    by (simp add: map_of_put_all written_def assms(1) o_def stored_info_def)
  with files show "input_files mv inp = put_all Name id infos []" "wf_files (input_files mv inp)"
    "in_DocID inp = docID" "in_NewVersion inp = v"
    "genesis_version x companyID docID userID reason v files (input_info (input_files mv inp) inp)"
    by (simp_all add: assms sc_genesis_input_def genesis_version_def input_info_def o_def stored_info_def)
qed

text \<open>The roll-back of \<open>CreateDocument\<close>, for a document the blob store did not hold.\<close>

lemma rollback_genesis:
  assumes run: "sc_rollback_genesis cx ds ms docID v inserted err s = (r, s')"
    and inv: "sinv s" "\<not> VersionsExist cx"
  shows "\<exists>e. r = Fail e \<and> (errors_As is_DocumentAlreadyExists err \<longrightarrow> errors_As is_DocumentAlreadyExists e)"
    "sinv s'" "docID' \<noteq> docID \<Longrightarrow> sblobs s' docID' = sblobs s docID'"
    "sound_blobs x (sblobs s docID) \<Longrightarrow> sound_blobs x (sblobs s' docID)"
    "sview s' = sview s \<or> inserted \<and> sview s' = drop_version (sview s) docID v"
    "mcalm (snd s) \<Longrightarrow> Time v \<noteq> 0 \<Longrightarrow>
       mcalm (snd s') \<and> sview s' = (if inserted then drop_version (sview s) docID v else sview s)"
    "dcalm (fst s) \<Longrightarrow> dcalm (fst s') \<and> (errors_As is_DocumentAlreadyExists err \<or> sblobs s' docID = Map.empty)"
proof -
  have minv: "minv (snd s)" and dinv: "dinv (fst s)" using inv(1) by (auto simp: sinv_def)
  obtain rd d1 where dd: "ds_DeleteDocument ds docID (fst s) = (rd, d1)" by fastforce
  obtain rm m1 where mm: "ms_DeleteDocumentVersion ms cx docID v (snd s) = (rm, m1)" by fastforce
  have fst: "fst s' = (if errors_As is_DocumentAlreadyExists err then fst s else d1)"
    and snd: "snd s' = (if inserted then m1 else snd s)"
    using run dd mm by (auto simp: sc_rollback_genesis_def Let_def split: if_splits sum.splits)
  have m1: "minv m1" "view m1 = view (snd s) \<or> view m1 = drop_version (view (snd s)) docID v"
    using m.delete_version_frame [OF minv inv(2) mm] by auto
  have d1: "dinv d1" "docID' \<noteq> docID \<Longrightarrow> blobs d1 docID' = blobs (fst s) docID'" for docID'
    using d.delete_frame [OF dinv dd] by auto
  have sound: "sound_blobs x (blobs d1 docID)" if "sound_blobs x (blobs (fst s) docID)"
    using d.delete_sound [OF dinv dd that] .
  show "\<exists>e. r = Fail e \<and> (errors_As is_DocumentAlreadyExists err \<longrightarrow> errors_As is_DocumentAlreadyExists e)"
    using run dd mm by (auto simp: sc_rollback_genesis_def join_cleanup_def Let_def split: if_splits sum.splits option.splits)
  show "sinv s'" using fst snd inv m1 d1 by (auto simp: sinv_def)
  show "docID' \<noteq> docID \<Longrightarrow> sblobs s' docID' = sblobs s docID'" using fst d1 by (simp add: sblobs_def)
  show "sound_blobs x (sblobs s docID) \<Longrightarrow> sound_blobs x (sblobs s' docID)"
    using fst sound by (auto simp: sblobs_def)
  show "sview s' = sview s \<or> inserted \<and> sview s' = drop_version (sview s) docID v"
    using snd m1 by (auto simp: sview_def)
  show "mcalm (snd s) \<Longrightarrow> Time v \<noteq> 0 \<Longrightarrow>
       mcalm (snd s') \<and> sview s' = (if inserted then drop_version (sview s) docID v else sview s)"
    using snd m.delete_version_calm [OF minv _ inv(2) mm] by (auto simp: sview_def)
  show "dcalm (fst s) \<Longrightarrow> dcalm (fst s') \<and> (errors_As is_DocumentAlreadyExists err \<or> sblobs s' docID = Map.empty)"
    using fst d.delete_calm [OF dinv _ dd] by (auto simp: sblobs_def)
qed

lemma create_document_Ret:
  assumes run: "sc_CreateDocument cx ds ms companyID docID userID reason v files onNewVersion s = (r, s')"
      "r = Ret () \<or> (\<exists>msg. r = Panic msg)"
    and inv: "sinv s" "\<not> VersionsExist cx"
  shows "sinv s'" "sblobs s docID = Map.empty" "sview s docID (ms_trunc v) = None" "Time v \<noteq> 0" "files \<noteq> []"
    "\<forall>f\<in>set files. readable f"
    "\<exists>info. genesis_version x companyID docID userID reason v files info
       \<and> (\<exists>onNew. onNewVersion = Some onNew \<and> onNew info = r)
       \<and> sview s' = put_version (sview s) docID v (as_stored info)"
    "sblobs s' = (sblobs s)(docID := file_blobs x files)"
    "mcalm (snd s) \<Longrightarrow> mcalm (snd s')" "dcalm (fst s) \<Longrightarrow> dcalm (fst s')"
proof -
  have minv: "minv (snd s)" and dinv: "dinv (fst s)" using inv(1) by (auto simp: sinv_def)
  have no_roll: "fst (sc_rollback_genesis cx ds ms docID v i e t) \<noteq> r" for i e t
    using run(2) by (auto simp: sc_rollback_genesis_def Let_def split: prod.splits)
  obtain onNew infos d1 info m1 where v: "Time v \<noteq> 0" and files: "files \<noteq> []" and on: "onNewVersion = Some onNew"
    and ex: "ds_DocumentExists ds docID (fst s) = Inr False"
    and ds: "ds_CreateDocumentVersion ds docID v files (fst s) = (Inr infos, d1)"
    and ms: "ms_CreateDocumentVersion ms cx (sc_genesis_input companyID docID userID reason v infos) (snd s) = (Inr info, m1)"
    and new: "onNew info = r" and s': "s' = (d1, m1)"
    using run no_roll
    by (auto simp: sc_CreateDocument_def Validate_None_iff split: option.splits if_splits sum.splits bool.splits
        prod.splits outcome.splits) (metis fst_conv)+
  have empty: "blobs (fst s) docID = Map.empty" using d.exists_Inr [OF dinv ex] by simp
  have d1: "dinv d1" "\<forall>f\<in>set files. readable f" "infos = map (stored_info x) files"
    "blobs d1 = (blobs (fst s))(docID := file_blobs x files)"
    using d.create_Inr [OF dinv ds] empty by auto
  note inp = genesis_input [OF d1(3) refl]
  have m1: "minv m1" "info = input_info (input_files (view (snd s)) (sc_genesis_input companyID docID userID reason v infos))
        (sc_genesis_input companyID docID userID reason v infos)"
    "view (snd s) docID (ms_trunc v) = None" "view m1 = put_version (view (snd s)) docID v (as_stored info)"
    using m.create_Inr [OF minv inv(2) inp(2) ms] by (simp_all add: inp(3,4))
  show "sinv s'" "sblobs s docID = Map.empty" "sview s docID (ms_trunc v) = None" "Time v \<noteq> 0" "files \<noteq> []"
    "\<forall>f\<in>set files. readable f" "sblobs s' = (sblobs s)(docID := file_blobs x files)"
    using m1 d1 v files empty s' by (simp_all add: s_defs)
  show "mcalm (snd s) \<Longrightarrow> mcalm (snd s')" "dcalm (fst s) \<Longrightarrow> dcalm (fst s')"
    using m.create_calm [OF minv _ inv(2) ms] d.create_calm [OF dinv _ ds] s' by auto
  show "\<exists>info. genesis_version x companyID docID userID reason v files info
       \<and> (\<exists>onNew. onNewVersion = Some onNew \<and> onNew info = r)
       \<and> sview s' = put_version (sview s) docID v (as_stored info)"
    using inp(5) m1 on new s' by (intro exI [of _ info]) (simp add: sview_def)
qed

lemma create_document_Fail:
  assumes run: "sc_CreateDocument cx ds ms companyID docID userID reason v files onNewVersion s = (Fail e, s')"
    and inv: "sinv s" "\<not> VersionsExist cx"
  obtains (refused) "s' = s"
  | (rolled_back) err inserted rd d1 m1 where
      "sblobs s docID = Map.empty" "Time v \<noteq> 0"
      "ds_CreateDocumentVersion ds docID v files (fst s) = (rd, d1)"
      "minv m1" "sview (d1, m1) = sview s \<and> \<not> inserted
        \<or> inserted \<and> drop_version (sview (d1, m1)) docID v = sview s
          \<and> (\<exists>info. sview (d1, m1) = put_version (sview s) docID v info)"
      "mcalm (snd s) \<Longrightarrow> mcalm m1"
      "sc_rollback_genesis cx ds ms docID v inserted err (d1, m1) = (Fail e, s')"
proof -
  have minv: "minv (snd s)" and dinv: "dinv (fst s)" using inv(1) by (auto simp: sinv_def)
  show thesis
  proof (cases "s' = s")
    case False
    with run obtain rd d1 where ex: "ds_DocumentExists ds docID (fst s) = Inr False" and v: "Time v \<noteq> 0"
      and ds: "ds_CreateDocumentVersion ds docID v files (fst s) = (rd, d1)"
      by (auto simp: sc_CreateDocument_def Validate_None_iff split: option.splits if_splits sum.splits bool.splits prod.splits)
    have empty: "sblobs s docID = Map.empty" using d.exists_Inr [OF dinv ex] by (simp add: sblobs_def)
    show thesis
    proof (cases rd)
      case (Inl err)
      with run False ex ds v have "sc_rollback_genesis cx ds ms docID v False err (d1, snd s) = (Fail e, s')"
        by (auto simp: sc_CreateDocument_def Validate_None_iff split: option.splits if_splits)
      with empty v ds minv show thesis by (intro rolled_back [of rd d1 "snd s" False]) (auto simp: sview_def)
    next
      case (Inr infos)
      have d1: "infos = map (stored_info x) files"
        using d.create_Inr [OF dinv] ds Inr by auto
      let ?inp = "sc_genesis_input companyID docID userID reason v infos"
      note inp = genesis_input [OF d1 refl]
      obtain rm m1 where ms: "ms_CreateDocumentVersion ms cx ?inp (snd s) = (rm, m1)" by fastforce
      have calm1: "mcalm (snd s) \<Longrightarrow> mcalm m1" using m.create_calm [OF minv _ inv(2) ms] by blast
      show thesis
      proof (cases rm)
        case (Inl err)
        with run False ex ds v Inr ms have "sc_rollback_genesis cx ds ms docID v False err (d1, m1) = (Fail e, s')"
          by (auto simp: sc_CreateDocument_def Validate_None_iff split: option.splits if_splits)
        with empty v ds m.create_Inl [OF minv inv(2)] ms Inl calm1 show thesis
          by (intro rolled_back [of rd d1 m1 False]) (auto simp: sview_def)
      next
        case (Inr info)
        with run False ex ds v \<open>rd = Inr infos\<close> ms obtain err where
          "sc_rollback_genesis cx ds ms docID v True err (d1, m1) = (Fail e, s')"
          by (auto simp: sc_CreateDocument_def Validate_None_iff split: option.splits if_splits outcome.splits)
        with empty v ds m.create_Inr [OF minv inv(2) inp(2)] ms Inr calm1 show thesis
          by (intro rolled_back [of rd d1 m1 True]) (auto simp: sview_def inp(3,4) drop_put_version)
      qed
    qed
  qed (rule refused)
qed

lemma create_document_failed:
  assumes run: "sc_CreateDocument cx ds ms companyID docID userID reason v files onNewVersion s = (Fail e, s')"
    and inv: "sinv s" "\<not> VersionsExist cx"
  shows "sinv s'" "docID' \<noteq> docID \<Longrightarrow> sblobs s' docID' = sblobs s docID'"
    "sview s' = sview s \<or> (\<exists>info. sview s' = put_version (sview s) docID v info)"
    "mcalm (snd s) \<Longrightarrow> mcalm (snd s') \<and> sview s' = sview s"
    "sview s' = sview s \<Longrightarrow> sconsistent s \<Longrightarrow> sconsistent s'"
    "dcalm (fst s) \<Longrightarrow> \<not> errors_As is_DocumentAlreadyExists e \<Longrightarrow> sblobs s' = sblobs s"
proof -
  have minv: "minv (snd s)" and dinv: "dinv (fst s)" using inv(1) by (auto simp: sinv_def)
  let ?goal = "sinv s' \<and> (\<forall>docID'. docID' \<noteq> docID \<longrightarrow> sblobs s' docID' = sblobs s docID')
    \<and> (sview s' = sview s \<or> (\<exists>info. sview s' = put_version (sview s) docID v info))
    \<and> (mcalm (snd s) \<longrightarrow> mcalm (snd s') \<and> sview s' = sview s)
    \<and> (sview s' = sview s \<longrightarrow> sconsistent s \<longrightarrow> sconsistent s')
    \<and> (dcalm (fst s) \<longrightarrow> \<not> errors_As is_DocumentAlreadyExists e \<longrightarrow> sblobs s' = sblobs s)"
  have ?goal
    using run inv
  proof (cases rule: create_document_Fail)
    case refused
    then show ?thesis using inv by simp
  next
    case (rolled_back err inserted rd d1 m1)
    have d1: "dinv d1" "docID' \<noteq> docID \<Longrightarrow> blobs d1 docID' = blobs (fst s) docID'" for docID'
      using d.create_frame [OF dinv rolled_back(3)] by auto
    have sinv1: "sinv (d1, m1)" using d1 rolled_back(4) by (simp add: sinv_def)
    note rb = rollback_genesis [OF rolled_back(7) sinv1 inv(2)]
    have others: "sblobs s' docID' = sblobs s docID'" if "docID' \<noteq> docID" for docID'
      using rb(3) [OF that] d1(2) [OF that] by (simp add: sblobs_def)
    have views: "sview s' = sview s \<or> (\<exists>info. sview s' = put_version (sview s) docID v info)"
      using rb(5) rolled_back(5) by auto
    have calm: "mcalm (snd s') \<and> sview s' = sview s" if "mcalm (snd s)"
      using rb(6) rolled_back(5,6) that rolled_back(2) by auto
    have cons: "sconsistent s'" if "sview s' = sview s" "sconsistent s"
    proof (rule consistent_update [OF that(2), where docID = docID])
      show "sound_blobs x (sblobs s' docID)"
        using rb(4) d.create_keeps(1) [OF dinv rolled_back(3)] consistentD(1) [OF that(2)] by (simp add: sblobs_def)
      show "references (sblobs s' docID) (sview s' docID)"
        using consistentD(2) [OF that(2), of docID] rolled_back(1) references_no_blobs that(1) by simp
    qed (use others that in simp)
    have "sblobs s' = sblobs s" if "dcalm (fst s)" "\<not> errors_As is_DocumentAlreadyExists e"
    proof
      have "dcalm d1" using d.create_calm [OF dinv that(1) rolled_back(3)] by blast
      then have "sblobs s' docID = Map.empty" using rb(1,7) that(2) by auto
      then show "sblobs s' docID' = sblobs s docID'" for docID'
        using others rolled_back(1) by (cases "docID' = docID") auto
    qed
    with rb(2) others views calm cons show ?thesis by blast
  qed
  then show "sinv s'" "docID' \<noteq> docID \<Longrightarrow> sblobs s' docID' = sblobs s docID'"
    "sview s' = sview s \<or> (\<exists>info. sview s' = put_version (sview s) docID v info)"
    "mcalm (snd s) \<Longrightarrow> mcalm (snd s') \<and> sview s' = sview s"
    "sview s' = sview s \<Longrightarrow> sconsistent s \<Longrightarrow> sconsistent s'"
    "dcalm (fst s) \<Longrightarrow> \<not> errors_As is_DocumentAlreadyExists e \<Longrightarrow> sblobs s' = sblobs s" by blast+
qed

lemma create_document_consistent:
  assumes run: "sc_CreateDocument cx ds ms companyID docID userID reason v files onNewVersion s = (r, s')"
    and inv: "sinv s" "\<not> VersionsExist cx" "sconsistent s" "mcalm (snd s)"
  shows "sinv s' \<and> sconsistent s' \<and> mcalm (snd s')"
proof (cases "\<exists>e. r = Fail e")
  case True
  then obtain e where "r = Fail e" by blast
  with run have "sc_CreateDocument cx ds ms companyID docID userID reason v files onNewVersion s = (Fail e, s')"
    by simp
  from create_document_failed [OF this inv(1,2)] inv(3,4) show ?thesis by blast
next
  case False
  then have "r = Ret () \<or> (\<exists>msg. r = Panic msg)" by (cases r) auto
  note ok = create_document_Ret [OF run this inv(1,2)]
  obtain info where info: "genesis_version x companyID docID userID reason v files info"
    "sview s' = put_version (sview s) docID v (as_stored info)" using ok(7) by blast
  have "sconsistent s'"
  proof (rule consistent_update [OF inv(3), where docID = docID])
    have "references (file_blobs x files) (sview s docID)"
      using consistentD(2) [OF inv(3), of docID] ok(2) references_no_blobs by simp
    then show "references (sblobs s' docID) (sview s' docID)"
      using info ok(8) by (auto simp: genesis_version_def intro!: references_put dest!: written_in_blobs)
  qed (use info ok(8) in simp_all)
  with ok(1,9) inv(4) show ?thesis by blast
qed

lemma add_document_version_Ret:
  assumes run: "sc_AddDocumentVersion cx x ds ms docID userID reason createVersion onNewVersion s = (Ret info, s')"
    and inv: "sinv s" "\<not> VersionsExist cx"
  shows "sinv s'" "mcalm (snd s) \<Longrightarrow> mcalm (snd s')" "dcalm (fst s) \<Longrightarrow> dcalm (fst s')"
    "sconsistent s \<Longrightarrow> sconsistent s'"
    "\<exists>latestInfo p result onNew.
       add_accepted x ds ms cx docID userID createVersion onNewVersion s latestInfo p result onNew
       \<and> sview s docID (Version latestInfo) = Some latestInfo \<and> latest (sview s docID) (Version latestInfo)
       \<and> new_version x docID userID reason latestInfo p result info \<and> onNew info = Ret ()
       \<and> sview s docID (ms_trunc (cvr_Version result)) = None
       \<and> sview s' = put_version (sview s) docID (cvr_Version result) (as_stored info)
       \<and> sblobs s' = (sblobs s)(docID := sblobs s docID ++ file_blobs x (write_readers result))"
proof -
  from run obtain latestInfo p result onNew where
    acc: "add_accepted x ds ms cx docID userID createVersion onNewVersion s latestInfo p result onNew"
    and w: "sc_write_version cx x ds ms docID userID reason latestInfo p result onNew s = (Ret info, s')"
    by (cases rule: add_document_version_cases) auto
  note prev = add_accepted_prev [OF acc inv(1)]
  note ok = write_version_Ret [OF w inv prev(1)]
  have info: "new_version x docID userID reason latestInfo p result info" "onNew info = Ret ()"
    "sview s docID (ms_trunc (cvr_Version result)) = None"
    "sview s' = put_version (sview s) docID (cvr_Version result) (as_stored info)" using ok(2) by blast+
  show "sinv s'" "mcalm (snd s) \<Longrightarrow> mcalm (snd s')" "dcalm (fst s) \<Longrightarrow> dcalm (fst s')"
    by (rule ok; assumption)+
  show "sconsistent s'" if cons: "sconsistent s"
  proof (rule consistent_update [OF cons, where docID = docID])
    show "references (sblobs s' docID) (sview s' docID)"
      using references_new_version [OF consistentD(2) [OF cons] prev(1) info(1)] info(4) ok(3) by simp
    show "sound_blobs x (sblobs s' docID)"
      using consistentD(1) [OF cons] ok(3) by (simp add: sound_blobs_add)
  qed (use info(4) ok(3) in simp)
  show "\<exists>latestInfo p result onNew.
       add_accepted x ds ms cx docID userID createVersion onNewVersion s latestInfo p result onNew
       \<and> sview s docID (Version latestInfo) = Some latestInfo \<and> latest (sview s docID) (Version latestInfo)
       \<and> new_version x docID userID reason latestInfo p result info \<and> onNew info = Ret ()
       \<and> sview s docID (ms_trunc (cvr_Version result)) = None
       \<and> sview s' = put_version (sview s) docID (cvr_Version result) (as_stored info)
       \<and> sblobs s' = (sblobs s)(docID := sblobs s docID ++ file_blobs x (write_readers result))"
    using acc prev info ok(3) by blast
qed

lemma add_document_version_failed:
  assumes run: "sc_AddDocumentVersion cx x ds ms docID userID reason createVersion onNewVersion s = (r, s')"
      "\<forall>i. r \<noteq> Ret i"
    and inv: "sinv s" "\<not> VersionsExist cx"
  shows "sinv s'" "mcalm (snd s) \<Longrightarrow> sview s' = sview s \<and> mcalm (snd s')"
    "sview s' = sview s \<Longrightarrow> sconsistent s \<Longrightarrow> sconsistent s'"
proof -
  have "sinv s' \<and> (mcalm (snd s) \<longrightarrow> sview s' = sview s \<and> mcalm (snd s')) \<and>
    (sview s' = sview s \<longrightarrow> sconsistent s \<longrightarrow> sconsistent s')"
    using run(1)
  proof (cases rule: add_document_version_cases)
    case refused
    then show ?thesis using inv by simp
  next
    case (accepted latestInfo p result onNew)
    note prev = add_accepted_prev [OF accepted(1) inv(1)]
    show ?thesis using write_version_Fail [OF accepted(2) run(2) inv prev(1,3)] by blast
  qed
  then show "sinv s'" "mcalm (snd s) \<Longrightarrow> sview s' = sview s \<and> mcalm (snd s')"
    "sview s' = sview s \<Longrightarrow> sconsistent s \<Longrightarrow> sconsistent s'" by blast+
qed

section \<open>Reading back\<close>

lemma read_file:
  assumes inv: "sinv s" "sconsistent s" "dcalm (fst s)" "mcalm (snd s)"
    and v: "Time v \<noteq> 0" "sview s docID (ms_trunc v) = Some info"
  shows "sc_DocumentVersionInfo ms docID v s = Inr info"
    "map_of (Files info) n = None \<Longrightarrow> sc_ReadDocumentVersionFile ds ms docID v n s = Inl (ErrDocumentFileNotFound docID n)"
    "map_of (Files info) n = Some fi \<Longrightarrow>
       \<exists>b. sc_ReadDocumentVersionFile ds ms docID v n s = Inr b \<and> ContentHash x b = Hash fi
         \<and> sblobs s docID (n, Hash fi) = Some b"
proof -
  have info: "ms_DocumentVersionInfo ms docID v (snd s) = Inr info"
    using m.version_info_calm [of "snd s" v docID info] inv v by (simp add: s_defs)
  then show "sc_DocumentVersionInfo ms docID v s = Inr info" by (simp add: sc_DocumentVersionInfo_def)
  show "map_of (Files info) n = None \<Longrightarrow> sc_ReadDocumentVersionFile ds ms docID v n s = Inl (ErrDocumentFileNotFound docID n)"
    using info by (simp add: sc_ReadDocumentVersionFile_def)
  show "\<exists>b. sc_ReadDocumentVersionFile ds ms docID v n s = Inr b \<and> ContentHash x b = Hash fi
       \<and> sblobs s docID (n, Hash fi) = Some b"
    if fi: "map_of (Files info) n = Some fi"
  proof -
    obtain b where b: "sblobs s docID (n, Hash fi) = Some b"
      using referencesD [OF consistentD(2) [OF inv(2), of docID] v(2) fi] by blast
    then have "ContentHash x b = Hash fi"
      using consistentD(1) [OF inv(2), of docID] by (simp add: sound_blobs_def)
    with b info fi show ?thesis
      using d.read_calm [of "fst s" docID n "Hash fi"] inv by (simp add: sc_ReadDocumentVersionFile_def s_defs)
  qed
qed

end

end
