(* ===== verification/RestoreLaws.thy ===== *)
theory RestoreLaws
  imports StoreConnLaws AddMulti
begin

text \<open>
  What \<open>RestoreDocument\<close> of the split-store connection does over any two stores that keep
  their contracts: the versions it adds, and the roll-back when a later one fails.
\<close>

section \<open>Restored versions\<close>

text \<open>The file set of a version of the backup, and the metadata it is committed with.\<close>

definition restored_files :: "hashed_document \<Rightarrow> hashed_version \<Rightarrow> (string \<rightharpoonup> file_info)" where
  "restored_files doc hv n = map_option (\<lambda>h. restore_info doc (n, h)) (map_of (FileHashes hv) n)"

definition restored :: "hashed_document \<Rightarrow> version_time \<Rightarrow> version_info \<Rightarrow> bool" where
  "restored doc v info \<longleftrightarrow> (\<exists>hv. version_at doc v = Some hv \<and> CompanyID info = hd_CompanyID doc
     \<and> DocID info = hd_ID doc \<and> Version info = ms_trunc v \<and> CommitUserID info = hv_CommitUserID hv
     \<and> CommitReason info = hv_CommitReason hv \<and> map_of (Files info) = restored_files doc hv)"

text \<open>A backup whose hashes are the content hashes of what it holds for them.\<close>

definition hash_sound :: "ext \<Rightarrow> hashed_document \<Rightarrow> bool" where
  "hash_sound x doc \<longleftrightarrow> (\<forall>v hv. version_at doc v = Some hv \<longrightarrow> wf_gomap (FileHashes hv)
     \<and> (\<forall>(n, h)\<in>set (FileHashes hv). ContentHash x (data_of doc h) = h))"

lemma hash_soundD:
  assumes "hash_sound x doc" "version_at doc v = Some hv"
  shows "wf_gomap (FileHashes hv)" "(n, h) \<in> set (FileHashes hv) \<Longrightarrow> ContentHash x (data_of doc h) = h"
  using assms unfolding hash_sound_def by blast+

lemma map_of_rev_wf:
  assumes "wf_gomap m"
  shows "map_of (rev m) = map_of m"
proof
  fix k
  have wf: "wf_gomap (rev m)" using assms by (simp add: rev_map [symmetric])
  show "map_of (rev m) k = map_of m k"
  proof (cases "map_of m k")
    case None
    then have "map_of (rev m) k = None" by (simp add: map_of_eq_None_keys)
    with None show ?thesis by simp
  next
    case (Some v)
    then have "(k, v) \<in> set (rev m)" by (auto dest: map_of_SomeD)
    with map_of_is_SomeI [OF wf] Some show ?thesis by simp
  qed
qed

lemma map_of_map_key: "map_of (map (\<lambda>p. (fst p, f p)) m) n = map_option (\<lambda>h. f (n, h)) (map_of m n)"
  by (induction m) auto

lemma hashedVersionFiles_readable: "\<forall>f\<in>set (hashedVersionFiles doc hv). readable f"
  by (auto simp: hashedVersionFiles_def NewMemFile_def readable_def)

lemma written_hashedVersionFiles:
  assumes "hash_sound x doc" "version_at doc v = Some hv"
  shows "written x (hashedVersionFiles doc hv) = restored_files doc hv"
proof -
  have "map (\<lambda>f. (FileName f, stored_info x f)) (hashedVersionFiles doc hv)
      = map (\<lambda>p. (fst p, restore_info doc p)) (FileHashes hv)"
    using hash_soundD(2) [OF assms]
    by (auto simp: hashedVersionFiles_def NewMemFile_def stored_info_def restore_info_def)
  then show ?thesis
    using hash_soundD(1) [OF assms]
    by (simp add: written_def fun_eq_iff restored_files_def map_of_rev_wf o_def map_of_map_key)
qed

lemma in_Files_restore:
  assumes "hash_sound x doc" "version_at doc v = Some hv"
  shows "map_of (put_all fst (restore_info doc) (FileHashes hv) []) = restored_files doc hv"
    "wf_files (put_all fst (restore_info doc) (FileHashes hv) [])"
proof -
  have eq: "put_all fst (restore_info doc) (FileHashes hv) [] = map (\<lambda>p. (fst p, restore_info doc p)) (FileHashes hv)"
    by (rule put_all_distinct [OF hash_soundD(1) [OF assms]])
  then show "map_of (put_all fst (restore_info doc) (FileHashes hv) []) = restored_files doc hv"
    by (simp add: fun_eq_iff restored_files_def map_of_map_key)
  show "wf_files (put_all fst (restore_info doc) (FileHashes hv) [])"
    using hash_soundD(1) [OF assms] unfolding eq wf_files_def
    by (auto simp: restore_info_def o_def)
qed

lemma restored_files_in_blobs:
  assumes "hash_sound x doc" "version_at doc v = Some hv" "restored_files doc hv n = Some fi"
  shows "(n, Hash fi) \<in> dom (file_blobs x (hashedVersionFiles doc hv))"
  using written_in_blobs [of x "hashedVersionFiles doc hv" n fi] assms by (simp add: written_hashedVersionFiles)

text \<open>The versions \<open>vs\<close> of the backup added one after another.\<close>

fun restores :: "hashed_document \<Rightarrow> meta_view \<Rightarrow> version_time list \<Rightarrow> meta_view \<Rightarrow> bool" where
  "restores doc mv [] mv' = (mv' = mv)"
| "restores doc mv (v # vs) mv' =
     (mv (hd_ID doc) (ms_trunc v) = None
      \<and> (\<exists>info. restored doc v info \<and> restores doc (put_version mv (hd_ID doc) v info) vs mv'))"

lemma restores_other: "restores doc mv vs mv' \<Longrightarrow> docID \<noteq> hd_ID doc \<Longrightarrow> mv' docID = mv docID"
  by (induction vs arbitrary: mv) auto

lemma restores_append: "restores doc mv (vs @ ws) mv' \<longleftrightarrow> (\<exists>mv1. restores doc mv vs mv1 \<and> restores doc mv1 ws mv')"
  by (induction vs arbitrary: mv) auto

lemma restores_keeps: "restores doc mv vs mv' \<Longrightarrow> mv docID \<subseteq>\<^sub>m mv' docID"
proof (induction vs arbitrary: mv)
  case (Cons v vs)
  then obtain info where i: "mv (hd_ID doc) (ms_trunc v) = None"
    "restores doc (put_version mv (hd_ID doc) v info) vs mv'" by auto
  have "mv docID \<subseteq>\<^sub>m put_version mv (hd_ID doc) v info docID"
    using i(1) by (auto simp: put_version_def map_le_def)
  with Cons.IH [OF i(2)] show ?case by (rule map_le_trans [rotated])
qed simp

lemma restores_at:
  assumes "restores doc mv vs mv'"
  shows "v \<in> set vs \<Longrightarrow> mv (hd_ID doc) (ms_trunc v) = None \<and> (\<exists>info. mv' (hd_ID doc) (ms_trunc v) = Some info \<and> restored doc v info)"
    "t \<notin> ms_trunc ` set vs \<Longrightarrow> mv' (hd_ID doc) t = mv (hd_ID doc) t"
  using assms
proof (induction vs arbitrary: mv)
  case (Cons u vs)
  {
    case 1
    from 1(2) obtain info where i: "mv (hd_ID doc) (ms_trunc u) = None" "restored doc u info"
      "restores doc (put_version mv (hd_ID doc) u info) vs mv'" by auto
    show ?case
    proof (cases "v \<in> set vs")
      case True
      from Cons.IH(1) [OF True i(3)] show ?thesis by (auto simp: put_version_def split: if_splits)
    next
      case False
      with 1 have "v = u" by simp
      moreover have "mv' (hd_ID doc) (ms_trunc u) = Some info"
        using restores_keeps [OF i(3), of "hd_ID doc"] by (auto simp: map_le_def put_version_def)
      ultimately show ?thesis using i by auto
    qed
  next
    case 2
    from 2(2) obtain info where i: "restores doc (put_version mv (hd_ID doc) u info) vs mv'" by auto
    from Cons.IH(2) [OF _ i] 2(1) show ?case by (simp add: put_version_def)
  }
qed auto

text \<open>The versions the document has are kept, the missing ones of the backup are added.\<close>

definition restored_view :: "hashed_document \<Rightarrow> meta_view \<Rightarrow> meta_view \<Rightarrow> bool" where
  "restored_view doc mv mv' \<longleftrightarrow>
     (\<forall>docID. docID \<noteq> hd_ID doc \<longrightarrow> mv' docID = mv docID)
     \<and> (\<forall>t. t \<notin> ms_trunc ` fst ` set (Versions doc) \<or> mv (hd_ID doc) t \<noteq> None \<longrightarrow> mv' (hd_ID doc) t = mv (hd_ID doc) t)
     \<and> (\<forall>v\<in>fst ` set (Versions doc). mv (hd_ID doc) (ms_trunc v) = None \<longrightarrow>
          (\<exists>info. mv' (hd_ID doc) (ms_trunc v) = Some info \<and> restored doc v info))"

lemma restored_viewI:
  assumes r: "restores doc mv (filter (\<lambda>v. \<not> had v) (VersionTimes doc)) mv'"
    and had: "\<And>v. had v \<Longrightarrow> mv (hd_ID doc) (ms_trunc v) \<noteq> None"
  shows "restored_view doc mv mv'"
proof -
  have kept: "mv' (hd_ID doc) t = mv (hd_ID doc) t"
    if "t \<notin> ms_trunc ` fst ` set (Versions doc) \<or> mv (hd_ID doc) t \<noteq> None" for t
  proof (cases "mv (hd_ID doc) t")
    case None
    with that have "t \<notin> ms_trunc ` set (filter (\<lambda>v. \<not> had v) (VersionTimes doc))" by auto
    then show ?thesis by (rule restores_at(2) [OF r])
  next
    case (Some i)
    with restores_keeps [OF r, of "hd_ID doc"] show ?thesis by (metis domI map_le_def)
  qed
  have "\<exists>info. mv' (hd_ID doc) (ms_trunc v) = Some info \<and> restored doc v info"
    if "v \<in> fst ` set (Versions doc)" "mv (hd_ID doc) (ms_trunc v) = None" for v
  proof -
    have "\<not> had v" using had that(2) by blast
    with restores_at(1) [OF r, of v] that(1) show ?thesis by simp
  qed
  with kept restores_other [OF r] show ?thesis unfolding restored_view_def by blast
qed

lemma drops_le: "drops mv created docID \<subseteq>\<^sub>m mv docID"
  by (auto simp: drops_apply map_le_def split: if_splits)

section \<open>One version\<close>

context store_conn
begin

text \<open>A step that commits the version \<open>v\<close> of the backup and stores its blobs.\<close>

definition restore_step :: "hashed_document \<Rightarrow> version_time \<Rightarrow> ('d, 'm) store_state \<Rightarrow> ('d, 'm) store_state \<Rightarrow> bool" where
  "restore_step doc v s s' \<longleftrightarrow> sinv s' \<and> restores doc (sview s) [v] (sview s')
     \<and> (\<forall>docID. docID \<noteq> hd_ID doc \<longrightarrow> sblobs s' docID = sblobs s docID)
     \<and> (sconsistent s \<longrightarrow> sconsistent s') \<and> (mcalm (snd s) \<longrightarrow> mcalm (snd s'))"

lemma restore_genesis:
  assumes run: "sc_CreateDocument cx ds ms (hd_CompanyID doc) (hd_ID doc) (hv_CommitUserID hv) (hv_CommitReason hv) v
      (hashedVersionFiles doc hv) (Some (\<lambda>_. Ret ())) s = (Ret u, s')"
    and inv: "sinv s" "\<not> VersionsExist cx" and hv: "version_at doc v = Some hv" and doc: "hash_sound x doc"
  shows "restore_step doc v s s'" "sblobs s (hd_ID doc) = Map.empty"
proof -
  note ok = create_document_Ret [OF run _ inv]
  have run': "sc_CreateDocument cx ds ms (hd_CompanyID doc) (hd_ID doc) (hv_CommitUserID hv) (hv_CommitReason hv) v
      (hashedVersionFiles doc hv) (Some (\<lambda>_. Ret ())) s = (Ret (), s')" using run by simp
  obtain info where info: "genesis_version x (hd_CompanyID doc) (hd_ID doc) (hv_CommitUserID hv) (hv_CommitReason hv) v
      (hashedVersionFiles doc hv) info" "sview s' = put_version (sview s) (hd_ID doc) v (as_stored info)"
    using ok(7) by auto
  have files: "map_of (Files info) = restored_files doc hv"
    using info(1) written_hashedVersionFiles [OF doc hv] by (simp add: genesis_version_def)
  have r: "restored doc v (as_stored info)"
    using info(1) hv files by (simp add: restored_def genesis_version_def)
  have blobs: "sblobs s' = (sblobs s)(hd_ID doc := file_blobs x (hashedVersionFiles doc hv))" using ok(8) by simp
  have "sconsistent s'" if cons: "sconsistent s"
  proof (rule consistent_update [OF cons, where docID = "hd_ID doc"])
    have "references (file_blobs x (hashedVersionFiles doc hv)) (sview s (hd_ID doc))"
      using consistentD(2) [OF cons, of "hd_ID doc"] ok(2) references_no_blobs by simp
    then have "references (file_blobs x (hashedVersionFiles doc hv)) ((sview s (hd_ID doc))(ms_trunc v \<mapsto> as_stored info))"
      by (rule references_put) (simp add: files restored_files_in_blobs [OF doc hv])
    then show "references (sblobs s' (hd_ID doc)) (sview s' (hd_ID doc))"
      using info(2) blobs by simp
  qed (use info(2) blobs in simp_all)
  then show "restore_step doc v s s'"
    using ok(1,3,9) r info(2) blobs by (auto simp: restore_step_def)
  show "sblobs s (hd_ID doc) = Map.empty" using ok(2) by simp
qed

lemma restore_merge:
  assumes meta: "ms_CreateDocumentVersion ms cx (restore_input doc hv v prev prevHashes) (snd s) = (Inr info, m1)"
    and blob: "ds_CreateDocumentVersion ds (hd_ID doc) v (hashedVersionFiles doc hv) (fst s) = (r, d1)"
    and inv: "sinv s" "\<not> VersionsExist cx" and hv: "version_at doc v = Some hv" and doc: "hash_sound x doc"
  shows "sinv (d1, m1)" "restores doc (sview s) [v] (sview (d1, m1))"
    "docID \<noteq> hd_ID doc \<Longrightarrow> sblobs (d1, m1) docID = sblobs s docID"
    "mcalm (snd s) \<Longrightarrow> mcalm m1"
    "sconsistent s \<Longrightarrow> sound_blobs x (sblobs (d1, m1) (hd_ID doc)) \<and> references (sblobs (d1, m1) (hd_ID doc)) (sview s (hd_ID doc))"
    "sconsistent s \<Longrightarrow> r = Inr infos \<Longrightarrow> sconsistent (d1, m1)"
proof -
  have minv: "minv (snd s)" and dinv: "dinv (fst s)" using inv(1) by (auto simp: sinv_def)
  let ?inp = "restore_input doc hv v prev prevHashes"
  have files: "input_files (view (snd s)) ?inp = put_all fst (restore_info doc) (FileHashes hv) []"
    by (rule input_files_given) (simp add: restore_input_def)
  have wf: "wf_files (input_files (view (snd s)) ?inp)"
    unfolding files by (rule in_Files_restore(2) [OF doc hv])
  have sel: "in_DocID ?inp = hd_ID doc" "in_NewVersion ?inp = v" by (simp_all add: restore_input_def)
  note m1 = m.create_Inr [OF minv inv(2) wf meta, unfolded sel files]
  note d1 = d.create_frame [OF dinv blob] d.create_keeps [OF dinv blob]
  show sinv1: "sinv (d1, m1)" using m1 d1(1) by (simp add: sinv_def)
  have fi: "map_of (Files info) = restored_files doc hv"
    using m1 in_Files_restore(1) [OF doc hv] by simp
  have r: "restored doc v (as_stored info)"
    using m1 hv fi by (simp add: restored_def input_info_def restore_input_def)
  show view: "restores doc (sview s) [v] (sview (d1, m1))"
    using m1 r by (auto simp: sview_def)
  show others: "docID \<noteq> hd_ID doc \<Longrightarrow> sblobs (d1, m1) docID = sblobs s docID" for docID
    using d1(2) by (simp add: sblobs_def)
  show "mcalm (snd s) \<Longrightarrow> mcalm m1" using m.create_calm [OF minv _ inv(2) meta] by blast
  show half: "sound_blobs x (sblobs (d1, m1) (hd_ID doc)) \<and> references (sblobs (d1, m1) (hd_ID doc)) (sview s (hd_ID doc))"
    if cons: "sconsistent s"
    using d1(3,4) consistentD [OF cons, of "hd_ID doc"] references_mono [OF _ _ map_le_refl]
    by (auto simp: sblobs_def)
  show "sconsistent (d1, m1)" if cons: "sconsistent s" and "r = Inr infos"
  proof (rule consistent_update [OF cons, where docID = "hd_ID doc"])
    have d': "blobs d1 = (blobs (fst s))(hd_ID doc := blobs (fst s) (hd_ID doc) ++ file_blobs x (hashedVersionFiles doc hv))"
      using d.create_Inr [OF dinv, of "hd_ID doc" v "hashedVersionFiles doc hv" infos d1] blob that(2) by simp
    have "references (sblobs (d1, m1) (hd_ID doc)) ((sview s (hd_ID doc))(ms_trunc v \<mapsto> as_stored info))"
      using half [OF cons] fi restored_files_in_blobs [OF doc hv] d'
      by (intro references_put) (auto simp: sblobs_def)
    then show "references (sblobs (d1, m1) (hd_ID doc)) (sview (d1, m1) (hd_ID doc))"
      using m1 by (simp add: sview_def)
    show "sound_blobs x (sblobs (d1, m1) (hd_ID doc))" using half [OF cons] by blast
  qed (use others restores_other [OF view] in blast)
qed

section \<open>The loop\<close>

lemma restore_loop_Ret:
  assumes run: "restore_loop cx ds ms doc recreate existing prev vs rp s = (Ret u, rp', s')"
    and inv: "sinv s" "\<not> VersionsExist cx" and doc: "hash_sound x doc"
  shows "sinv s'" "restores doc (sview s) (filter (\<lambda>v. recreate \<or> \<not> versionTimeIn existing v) vs) (sview s')"
    "\<forall>docID. docID \<noteq> hd_ID doc \<longrightarrow> sblobs s' docID = sblobs s docID" "sconsistent s \<longrightarrow> sconsistent s'"
    "mcalm (snd s) \<longrightarrow> mcalm (snd s')"
proof -
  have "sinv s' \<and> restores doc (sview s) (filter (\<lambda>v. recreate \<or> \<not> versionTimeIn existing v) vs) (sview s')
    \<and> (\<forall>docID. docID \<noteq> hd_ID doc \<longrightarrow> sblobs s' docID = sblobs s docID) \<and> (sconsistent s \<longrightarrow> sconsistent s')
    \<and> (mcalm (snd s) \<longrightarrow> mcalm (snd s'))"
    using run inv(1)
  proof (induction vs arbitrary: prev rp s)
    case (Cons v vs)
    show ?case
    proof (cases "\<not> recreate \<and> versionTimeIn existing v")
      case True
      with Cons.prems(1) have "restore_loop cx ds ms doc recreate existing (Some v) vs rp s = (Ret u, rp', s')" by simp
      from Cons.IH [OF this Cons.prems(2)] True show ?thesis by simp
    next
      case False
      with Cons.prems(1) obtain hv where hv: "version_at doc v = Some hv" by (auto split: option.splits)
      have "\<exists>s1 rp1. restore_step doc v s s1
        \<and> restore_loop cx ds ms doc recreate existing (Some v) vs rp1 s1 = (Ret u, rp', s')"
      proof (cases "rp_docExists rp")
        case exists: False
        obtain r1 s1 where c: "sc_CreateDocument cx ds ms (hd_CompanyID doc) (hd_ID doc) (hv_CommitUserID hv) (hv_CommitReason hv) v
            (hashedVersionFiles doc hv) (Some (\<lambda>_. Ret ())) s = (r1, s1)" by (metis prod.collapse)
        with Cons.prems(1) False hv exists obtain w where r1: "r1 = Ret w"
          and "restore_loop cx ds ms doc recreate existing (Some v) vs (rp\<lparr>rp_docExists := True, rp_createdDoc := True\<rparr>) s1 = (Ret u, rp', s')"
          by (auto simp: Let_def split: outcome.splits)
        with restore_genesis(1) [OF c [unfolded r1] Cons.prems(2) inv(2) hv doc] show ?thesis by blast
      next
        case exists: True
        with Cons.prems(1) False hv obtain prevHashes where
          ph: "(case prev of None \<Rightarrow> Some [] | Some p \<Rightarrow> map_option FileHashes (version_at doc p)) = Some prevHashes"
          by (auto simp: Let_def split: option.splits)
        obtain rm m1 where meta: "ms_CreateDocumentVersion ms cx (restore_input doc hv v prev prevHashes) (snd s) = (rm, m1)" by fastforce
        obtain rb d1 where blob: "ds_CreateDocumentVersion ds (hd_ID doc) v (hashedVersionFiles doc hv) (fst s) = (rb, d1)" by fastforce
        from Cons.prems(1) False hv exists ph meta blob obtain info infos rp1 where rm: "rm = Inr info" and rb: "rb = Inr infos"
          and rest: "restore_loop cx ds ms doc recreate existing (Some v) vs rp1 (d1, m1) = (Ret u, rp', s')"
          by (auto simp: Let_def split: sum.splits)
        note mg = restore_merge [OF meta [unfolded rm] blob Cons.prems(2) inv(2) hv doc]
        have "restore_step doc v s (d1, m1)"
          using mg(1-4) mg(6) [OF _ rb] unfolding restore_step_def by simp
        with rest show ?thesis by blast
      qed
      then obtain s1 rp1 where step: "restore_step doc v s s1"
        and rest: "restore_loop cx ds ms doc recreate existing (Some v) vs rp1 s1 = (Ret u, rp', s')" by blast
      from Cons.IH [OF rest] step False show ?thesis by (auto simp: restore_step_def)
    qed
  qed simp
  then show "sinv s'" "restores doc (sview s) (filter (\<lambda>v. recreate \<or> \<not> versionTimeIn existing v) vs) (sview s')"
    "\<forall>docID. docID \<noteq> hd_ID doc \<longrightarrow> sblobs s' docID = sblobs s docID" "sconsistent s \<longrightarrow> sconsistent s'"
    "mcalm (snd s) \<longrightarrow> mcalm (snd s')" by blast+
qed

section \<open>RestoreDocument without error\<close>

text \<open>The versions a restore starts from: none of the document if it is replaced.\<close>

definition restore_base :: "hashed_document \<Rightarrow> bool \<Rightarrow> ('d, 'm) store_state \<Rightarrow> meta_view" where
  "restore_base doc recreate s =
     (if recreate \<and> sblobs s (hd_ID doc) \<noteq> Map.empty then (sview s)(hd_ID doc := Map.empty) else sview s)"

lemma versionTimeIn_view:
  assumes "minv m" "ms_DocumentVersions ms docID m = Inr existing"
  shows "versionTimeIn existing v \<longleftrightarrow> view m docID (ms_trunc v) \<noteq> None"
proof -
  have ex: "set existing = dom (view m docID)" using m.versions_Inr [OF assms] by blast
  have "ms_trunc e = e" if "e \<in> dom (view m docID)" for e using that m.view_Version [OF assms(1)] by blast
  then show ?thesis
    unfolding versionTimeIn_def list_ex_iff ex Equal_iff_ms_trunc by (metis domI domIff not_None_eq)
qed

lemma restore_existing_skip:
  assumes "restore_existing ms doc merge s = Inr existing" "sinv s" "versionTimeIn existing v"
  shows "sview s (hd_ID doc) (ms_trunc v) \<noteq> None"
  using assms versionTimeIn_view [of "snd s" "hd_ID doc" existing v]
  by (auto simp: restore_existing_def sc_DocumentVersions_def sinv_def sview_def versionTimeIn_def
      split: if_splits sum.splits)

lemma restore_document_Ret:
  assumes run: "sc_RestoreDocument cx x ds ms (Some doc) recreate s = (Ret u, s')"
    and inv: "sinv s" "\<not> VersionsExist cx" and doc: "hash_sound x doc"
  shows "sinv s'" "restored_view doc (restore_base doc recreate s) (sview s')"
    "\<forall>docID. docID \<noteq> hd_ID doc \<longrightarrow> sblobs s' docID = sblobs s docID"
    "sconsistent s \<Longrightarrow> sconsistent s'"
proof -
  from run obtain found s1 existing rp' where
    found: "sc_DocumentExists ds (hd_ID doc) s = Inr found"
    and del: "(if recreate \<and> found then sc_DeleteDocument cx ds ms (hd_ID doc) s else (None, s)) = (None, s1)"
    and ex: "restore_existing ms doc (found \<and> \<not> recreate) s1 = Inr existing"
    and loop: "restore_loop cx ds ms doc recreate existing None (VersionTimes doc)
       \<lparr>rp_docExists = found \<and> \<not> recreate, rp_createdDoc = False, rp_createdVersions = []\<rparr> s1 = (Ret u, rp', s')"
    by (auto simp: sc_RestoreDocument_def Let_def restore_rollback_def
        split: option.splits sum.splits prod.splits outcome.splits if_splits)
  have found': "found \<longleftrightarrow> sblobs s (hd_ID doc) \<noteq> Map.empty"
    using d.exists_Inr [of "fst s" "hd_ID doc" found] found inv(1) by (simp add: sc_DocumentExists_def sinv_def sblobs_def)
  have s1: "sinv s1" "sview s1 = restore_base doc recreate s"
    "\<forall>docID. docID \<noteq> hd_ID doc \<longrightarrow> sblobs s1 docID = sblobs s docID" "sconsistent s \<longrightarrow> sconsistent s1"
  proof -
    have "sinv s1 \<and> sview s1 = restore_base doc recreate s
      \<and> (\<forall>docID. docID \<noteq> hd_ID doc \<longrightarrow> sblobs s1 docID = sblobs s docID) \<and> (sconsistent s \<longrightarrow> sconsistent s1)"
    proof (cases "recreate \<and> found")
      case True
      with del have d: "sc_DeleteDocument cx ds ms (hd_ID doc) s = (None, s1)" by simp
      note dd = delete_document(1) [OF d inv] delete_document(3) [OF d inv refl]
      have "sconsistent s \<longrightarrow> sconsistent s1" using removes_consistent [OF dd(1)] dd(2) by simp
      then show ?thesis using dd True found' by (simp add: removes_def restore_base_def)
    next
      case False
      with del inv found' show ?thesis by (auto simp: restore_base_def)
    qed
    then show "sinv s1" "sview s1 = restore_base doc recreate s"
      "\<forall>docID. docID \<noteq> hd_ID doc \<longrightarrow> sblobs s1 docID = sblobs s docID" "sconsistent s \<longrightarrow> sconsistent s1" by blast+
  qed
  note L = restore_loop_Ret [OF loop s1(1) inv(2) doc]
  show "sinv s'" by (rule L(1))
  show "\<forall>docID. docID \<noteq> hd_ID doc \<longrightarrow> sblobs s' docID = sblobs s docID" using L(3) s1(3) by simp
  show "sconsistent s \<Longrightarrow> sconsistent s'" using L(4) s1(4) by blast
  have "restored_view doc (sview s1) (sview s')"
    by (rule restored_viewI [where had = "\<lambda>v. \<not> (recreate \<or> \<not> versionTimeIn existing v)"])
      (use L(2) restore_existing_skip [OF ex s1(1)] in auto)
  then show "restored_view doc (restore_base doc recreate s) (sview s')" using s1(2) by simp
qed

section \<open>A restore that fails\<close>

text \<open>
  The loop on its way from the state \<open>s0\<close>: taking out the versions it has added gives back
  those of \<open>s0\<close>, unless it created the document, which then has a version.
\<close>

definition undoable :: "hashed_document \<Rightarrow> ('d, 'm) store_state \<Rightarrow> restore_progress \<Rightarrow> ('d, 'm) store_state \<Rightarrow> bool" where
  "undoable doc s0 rp s \<longleftrightarrow> sinv s \<and> mcalm (snd s)
     \<and> (\<forall>docID. docID \<noteq> hd_ID doc \<longrightarrow> sblobs s docID = sblobs s0 docID \<and> sview s docID = sview s0 docID)
     \<and> sound_blobs x (sblobs s (hd_ID doc))
     \<and> (\<forall>v\<in>set (rp_createdVersions rp). Time v \<noteq> 0)
     \<and> (if rp_createdDoc rp then sview s (hd_ID doc) \<noteq> Map.empty
        else drops (sview s) (map (Pair (hd_ID doc)) (rev (rp_createdVersions rp))) = sview s0
          \<and> (case rev (rp_createdVersions rp) of
               [] \<Rightarrow> references (sblobs s (hd_ID doc)) (sview s (hd_ID doc))
             | v # vs \<Rightarrow> references (sblobs s (hd_ID doc)) (drop_version (sview s) (hd_ID doc) v (hd_ID doc))))"

definition restoring :: "hashed_document \<Rightarrow> ('d, 'm) store_state \<Rightarrow> restore_progress \<Rightarrow> ('d, 'm) store_state \<Rightarrow> bool" where
  "restoring doc s0 rp s \<longleftrightarrow> undoable doc s0 rp s \<and> sconsistent s
     \<and> (\<not> rp_docExists rp \<longrightarrow> rp_createdVersions rp = [] \<and> \<not> rp_createdDoc rp)"

lemma restoring_start:
  assumes "sinv s" "mcalm (snd s)" "sconsistent s"
  shows "restoring doc s \<lparr>rp_docExists = ex, rp_createdDoc = False, rp_createdVersions = []\<rparr> s"
  using assms consistentD [OF assms(3), of "hd_ID doc"] by (simp add: restoring_def undoable_def)

lemma restore_genesis_step:
  assumes c: "sc_CreateDocument cx ds ms (hd_CompanyID doc) (hd_ID doc) (hv_CommitUserID hv) (hv_CommitReason hv) v
      (hashedVersionFiles doc hv) (Some (\<lambda>_. Ret ())) s = (r, s1)"
    and cx: "\<not> VersionsExist cx" and hv: "version_at doc v = Some hv" and doc: "hash_sound x doc"
    and rp: "restoring doc s0 rp s" "\<not> rp_docExists rp"
  shows "r = Ret () \<and> restoring doc s0 (rp\<lparr>rp_docExists := True, rp_createdDoc := True\<rparr>) s1
    \<or> (\<exists>e. r = Fail e) \<and> undoable doc s0 rp s1"
proof -
  have s: "sinv s" "mcalm (snd s)" "sconsistent s" "rp_createdVersions rp = []" "\<not> rp_createdDoc rp"
    and view: "sview s = sview s0" and blobs: "\<forall>docID. docID \<noteq> hd_ID doc \<longrightarrow> sblobs s docID = sblobs s0 docID"
    using rp by (auto simp: restoring_def undoable_def)
  show ?thesis
  proof (cases r)
    case (Ret u)
    note st = restore_genesis(1) [OF c [unfolded Ret] s(1) cx hv doc]
    have "sconsistent s1" using st s(3) by (simp add: restore_step_def)
    with st s view blobs consistentD(1) [of x "sblobs s1" "sview s1" "hd_ID doc"]
    have "restoring doc s0 (rp\<lparr>rp_docExists := True, rp_createdDoc := True\<rparr>) s1"
      by (auto simp: restoring_def undoable_def restore_step_def)
    with Ret show ?thesis by simp
  next
    case (Fail e)
    note f = create_document_failed [OF c [unfolded Fail] s(1) cx]
    have "sview s1 = sview s" "sconsistent s1" "mcalm (snd s1)" using f(4,5) s(2,3) by blast+
    with f(1,2) s view blobs consistentD [of x "sblobs s1" "sview s1" "hd_ID doc"]
    have "undoable doc s0 rp s1" by (simp add: undoable_def)
    with Fail show ?thesis by simp
  next
    case (Panic msg)
    then have "r = Ret () \<or> (\<exists>msg. r = Panic msg)" by simp
    from create_document_Ret(7) [OF c this s(1) cx] Panic show ?thesis by auto
  qed
qed

lemma restore_merge_step:
  assumes meta: "ms_CreateDocumentVersion ms cx (restore_input doc hv v prev prevHashes) (snd s) = (rm, m1)"
    and blob: "ds_CreateDocumentVersion ds (hd_ID doc) v (hashedVersionFiles doc hv) (fst s) = (rb, d1)"
    and cx: "\<not> VersionsExist cx" and hv: "version_at doc v = Some hv" "Time v \<noteq> 0" and doc: "hash_sound x doc"
    and rp: "restoring doc s0 rp s" "rp_docExists rp"
  shows "rm = Inl e \<Longrightarrow> undoable doc s0 rp (fst s, m1)"
    "rm = Inr info \<Longrightarrow> undoable doc s0 (rp\<lparr>rp_createdVersions := rp_createdVersions rp @ [v]\<rparr>) (d1, m1)"
    "rm = Inr info \<Longrightarrow> rb = Inr infos \<Longrightarrow> restoring doc s0 (rp\<lparr>rp_createdVersions := rp_createdVersions rp @ [v]\<rparr>) (d1, m1)"
proof -
  have s: "sinv s" "mcalm (snd s)" "sconsistent s" and un: "undoable doc s0 rp s"
    using rp by (auto simp: restoring_def undoable_def)
  have minv: "minv (snd s)" using s(1) by (simp add: sinv_def)
  show "undoable doc s0 rp (fst s, m1)" if "rm = Inl e"
  proof -
    have "minv m1 \<and> view m1 = view (snd s)" using m.create_Inl [OF minv cx] meta that by blast
    moreover have "mcalm m1" using m.create_calm [OF minv s(2) cx meta] by blast
    moreover have "sview (fst s, m1) = sview s" "sblobs (fst s, m1) = sblobs s" "sinv (fst s, m1)"
      using calculation(1) s(1) by (simp_all add: s_defs)
    ultimately show ?thesis using un unfolding undoable_def by (simp only: snd_conv) blast
  qed
  show new: "undoable doc s0 (rp\<lparr>rp_createdVersions := rp_createdVersions rp @ [v]\<rparr>) (d1, m1)" if "rm = Inr info" for info
  proof -
    note mg = restore_merge [OF meta [unfolded that] blob s(1) cx hv(1) doc]
    obtain i where absent: "sview s (hd_ID doc) (ms_trunc v) = None"
      and view: "sview (d1, m1) = put_version (sview s) (hd_ID doc) v i" using mg(2) by auto
    have drop: "drop_version (sview (d1, m1)) (hd_ID doc) v = sview s"
      unfolding view by (rule drop_put_version [where mv = "sview s", OF absent])
    have "sview (d1, m1) (hd_ID doc) \<noteq> Map.empty" by (simp add: view)
    with un mg(1,3) mg(4) [OF s(2)] mg(5) [OF s(3)] hv(2) drop show ?thesis
      by (simp add: undoable_def view)
  qed
  show "restoring doc s0 (rp\<lparr>rp_createdVersions := rp_createdVersions rp @ [v]\<rparr>) (d1, m1)"
    if "rm = Inr info" "rb = Inr infos"
    using new [OF that(1)] restore_merge(6) [OF meta [unfolded that(1)] blob s(1) cx hv(1) doc s(3) that(2)] rp(2)
    by (simp add: restoring_def)
qed

lemma restoring_undoable: "restoring doc s0 rp s \<Longrightarrow> undoable doc s0 rp s"
  by (simp add: restoring_def)

lemma restore_loop_failed:
  assumes "restore_loop cx ds ms doc recreate existing prev vs rp s = (r, rp', s')" "r \<noteq> Ret ()"
    and "\<not> VersionsExist cx" "hash_sound x doc" "restoring doc s0 rp s"
    and "\<forall>v\<in>set vs \<union> set_option prev. Time v \<noteq> 0 \<and> version_at doc v \<noteq> None"
  shows "(\<exists>e. r = Fail e) \<and> undoable doc s0 rp' s'"
  using assms
proof (induction vs arbitrary: prev rp s)
  case (Cons v vs)
  from Cons.prems(6) obtain hv where hv: "version_at doc v = Some hv" "Time v \<noteq> 0" by auto
  have next_ok: "\<forall>u\<in>set vs \<union> set_option (Some v). Time u \<noteq> 0 \<and> version_at doc u \<noteq> None" using Cons.prems(6) by simp
  note IH = Cons.IH [OF _ Cons.prems(2-4) _ next_ok]
  show ?case
  proof (cases "\<not> recreate \<and> versionTimeIn existing v")
    case True
    with Cons.prems(1) have "restore_loop cx ds ms doc recreate existing (Some v) vs rp s = (r, rp', s')" by simp
    from IH [OF this Cons.prems(5)] show ?thesis .
  next
    case False
    show ?thesis
    proof (cases "rp_docExists rp")
      case exists: False
      obtain rc s1 where c: "sc_CreateDocument cx ds ms (hd_CompanyID doc) (hd_ID doc) (hv_CommitUserID hv) (hv_CommitReason hv) v
          (hashedVersionFiles doc hv) (Some (\<lambda>_. Ret ())) s = (rc, s1)" by (metis prod.collapse)
      from restore_genesis_step [OF c Cons.prems(3) hv(1) Cons.prems(4,5) exists] show ?thesis
      proof
        assume ok: "rc = Ret () \<and> restoring doc s0 (rp\<lparr>rp_docExists := True, rp_createdDoc := True\<rparr>) s1"
        with Cons.prems(1) False exists hv c have "restore_loop cx ds ms doc recreate existing (Some v) vs
            (rp\<lparr>rp_docExists := True, rp_createdDoc := True\<rparr>) s1 = (r, rp', s')" by simp
        from IH [OF this] ok show ?thesis by blast
      next
        assume no: "(\<exists>e. rc = Fail e) \<and> undoable doc s0 rp s1"
        with Cons.prems(1) False exists hv c show ?thesis by auto
      qed
    next
      case exists: True
      obtain prevHashes where ph:
        "(case prev of None \<Rightarrow> Some [] | Some p \<Rightarrow> map_option FileHashes (version_at doc p)) = Some prevHashes"
        using Cons.prems(6) by (cases prev) auto
      obtain rm m1 where meta: "ms_CreateDocumentVersion ms cx (restore_input doc hv v prev prevHashes) (snd s) = (rm, m1)" by fastforce
      obtain rb d1 where blob: "ds_CreateDocumentVersion ds (hd_ID doc) v (hashedVersionFiles doc hv) (fst s) = (rb, d1)" by fastforce
      note step = restore_merge_step [OF meta blob Cons.prems(3) hv Cons.prems(4,5) exists]
      show ?thesis
      proof (cases rm)
        case (Inl e)
        with Cons.prems(1) False exists hv ph meta step(1) show ?thesis by auto
      next
        case (Inr info)
        show ?thesis
        proof (cases rb)
          case (Inl e)
          with Cons.prems(1) False exists hv ph meta blob Inr step(2) show ?thesis by auto
        next
          case (Inr infos)
          with Cons.prems(1) False exists hv ph meta blob \<open>rm = Inr info\<close>
          have "restore_loop cx ds ms doc recreate existing (Some v) vs
            (rp\<lparr>rp_createdVersions := rp_createdVersions rp @ [v]\<rparr>) (d1, m1) = (r, rp', s')" by simp
          from IH [OF this step(3) [OF \<open>rm = Inr info\<close> Inr]] show ?thesis .
        qed
      qed
    qed
  qed
qed simp

lemma restore_loop_createdDoc:
  "restore_loop cx ds ms doc recreate existing prev vs rp s = (r, rp', s') \<Longrightarrow> rp_docExists rp \<Longrightarrow>
     rp_createdDoc rp' = rp_createdDoc rp"
proof (induction vs arbitrary: prev rp s)
  case (Cons v vs)
  then show ?case by (auto simp: Let_def split: if_splits option.splits sum.splits prod.splits) 
qed simp

text \<open>Deleting versions from a consistent state.\<close>

lemma rollback_versions_consistent:
  assumes "rollback_versions cx ds ms docID vs err s = (e, s')" "\<not> VersionsExist cx"
    and "sinv s" "mcalm (snd s)" "sconsistent s" "\<forall>v\<in>set vs. Time v \<noteq> 0"
  shows "sinv s' \<and> mcalm (snd s') \<and> sconsistent s' \<and> sview s' = drops (sview s) (map (Pair docID) vs)
    \<and> (\<forall>docID'. docID' \<noteq> docID \<longrightarrow> sblobs s' docID' = sblobs s docID')"
  using assms
proof (induction vs arbitrary: s err)
  case (Cons v vs)
  obtain r s1 where del: "sc_DeleteDocumentVersion cx ds ms docID v s = (r, s1)" by (metis prod.collapse)
  from Cons.prems(1) del obtain err1 where rest: "rollback_versions cx ds ms docID vs err1 s1 = (e, s')"
    by (auto split: sum.splits)
  note d = delete_document_version [OF del Cons.prems(3,2)]
  have s1: "mcalm (snd s1)" "sview s1 = drop_version (sview s) docID v" using d(4) Cons.prems(4,6) by auto
  have "sview s1 docID \<subseteq>\<^sub>m sview s docID" unfolding s1(2) by (rule drop_version_le)
  from removes_consistent [OF d(1) Cons.prems(5) this] have "sconsistent s1" .
  note IH = Cons.IH [OF rest Cons.prems(2) _ s1(1) this]
  have d1: "sinv s1" "\<forall>docID'. docID' \<noteq> docID \<longrightarrow> sblobs s1 docID' = sblobs s docID'"
    using d(1) unfolding removes_def by blast+
  have ts: "\<forall>v\<in>set vs. Time v \<noteq> 0" using Cons.prems(6) by simp
  show ?case
  proof (intro conjI)
    show "sview s' = drops (sview s) (map (Pair docID) (v # vs))" using IH [OF d1(1) ts] s1(2) by simp
    show "\<forall>docID'. docID' \<noteq> docID \<longrightarrow> sblobs s' docID' = sblobs s docID'" using IH [OF d1(1) ts] d1(2) by simp
  qed (use IH [OF d1(1) ts] in blast)+
qed simp

lemma restore_rollback_undone:
  assumes run: "restore_rollback cx ds ms (hd_ID doc) rp err s = (r, s')"
    and cx: "\<not> VersionsExist cx" and un: "undoable doc s0 rp s" and cons: "sconsistent s0"
  shows "(\<exists>e. r = Fail e) \<and> sinv s' \<and> sconsistent s'
    \<and> sview s' = (if rp_createdDoc rp then (sview s0)(hd_ID doc := Map.empty) else sview s0)"
proof -
  let ?d = "hd_ID doc"
  have s: "sinv s" "mcalm (snd s)" "sound_blobs x (sblobs s ?d)" "\<forall>v\<in>set (rp_createdVersions rp). Time v \<noteq> 0"
    and others: "\<forall>docID. docID \<noteq> ?d \<longrightarrow> sblobs s docID = sblobs s0 docID \<and> sview s docID = sview s0 docID"
    using un by (simp_all add: undoable_def)
  show ?thesis
  proof (cases "rp_createdDoc rp")
    case True
    obtain de t where del: "sc_DeleteDocument cx ds ms ?d s = (de, t)" by (metis prod.collapse)
    have t: "t = s'" "\<exists>e. r = Fail e" using run del True by (auto simp: restore_rollback_def)
    note d = delete_document(1,2) [OF del s(1) cx]
    have minv: "minv (snd s)" using s(1) by (simp add: sinv_def)
    obtain me m1 where md: "ms_DeleteDocument ms cx ?d (snd s) = (me, m1)" by fastforce
    have "view (snd s) ?d \<noteq> Map.empty" using un True by (simp add: undoable_def sview_def)
    with m.delete_calm [OF minv s(2) cx md] have "me = None" by blast
    with m.delete_None [OF minv cx, of ?d m1] md have "view m1 = (view (snd s))(?d := Map.empty)" by simp
    with del md \<open>me = None\<close> have view: "sview t = (sview s)(?d := Map.empty)"
      by (auto simp: sc_DeleteDocument_def sview_def split: prod.splits)
    then have view0: "sview t = (sview s0)(?d := Map.empty)" using others by (auto simp: fun_eq_iff)
    have "sconsistent t"
      by (rule consistent_update [OF cons, where docID = ?d])
        (use d(1) others view0 s(3) in \<open>simp_all add: removes_def\<close>)
    with view0 d(1) t True show ?thesis by (simp add: removes_def)
  next
    case False
    have dr: "drops (sview s) (map (Pair ?d) (rev (rp_createdVersions rp))) = sview s0"
      using un False by (simp add: undoable_def)
    obtain e where roll: "rollback_versions cx ds ms ?d (rev (rp_createdVersions rp)) err s = (e, s')"
      and r: "r = Fail e" using run False by (auto simp: restore_rollback_def split: prod.splits)
    have consI: "sconsistent t" if "sblobs t = sblobs s \<or> removes ?d s t" "references (sblobs t ?d) (sview t ?d)"
      "\<forall>docID. docID \<noteq> ?d \<longrightarrow> sview t docID = sview s docID" for t
      by (rule consistent_update [OF cons, where docID = ?d]) (use that others s(3) in \<open>auto simp: removes_def\<close>)
    show ?thesis
    proof (cases "rev (rp_createdVersions rp)")
      case Nil
      then have "references (sblobs s ?d) (sview s ?d)"
        using un False unfolding undoable_def by (simp only: if_False list.case)
      then have "sconsistent s" using consI by blast
      with roll Nil dr s(1) r False show ?thesis by simp
    next
      case (Cons v vs)
      then have set: "set (rp_createdVersions rp) = set (v # vs)" using set_rev [of "rp_createdVersions rp"] by simp
      obtain rd s1 where del: "sc_DeleteDocumentVersion cx ds ms ?d v s = (rd, s1)" by (metis prod.collapse)
      from roll Cons del obtain err1 where rest: "rollback_versions cx ds ms ?d vs err1 s1 = (e, s')"
        by (auto split: sum.splits)
      note d = delete_document_version [OF del s(1) cx]
      have s1: "mcalm (snd s1)" "sview s1 = drop_version (sview s) ?d v" using d(4) s(2,4) set by auto
      have "references (sblobs s ?d) (sview s1 ?d)" using un False Cons s1(2) by (simp add: undoable_def)
      then have "references (sblobs s1 ?d) (sview s1 ?d)" using d(1) unfolding removes_def by blast
      moreover have "\<forall>docID. docID \<noteq> ?d \<longrightarrow> sview s1 docID = sview s docID" by (simp add: s1(2))
      ultimately have c1: "sconsistent s1" using consI [of s1] d(1) by blast
      have "sinv s1" using d(1) by (simp add: removes_def)
      moreover have "\<forall>u\<in>set vs. Time u \<noteq> 0" using s(4) set by simp
      ultimately have fin: "sinv s' \<and> sconsistent s' \<and> sview s' = drops (sview s1) (map (Pair ?d) vs)"
        using rollback_versions_consistent [OF rest cx _ s1(1) c1] by blast
      moreover have "drops (sview s1) (map (Pair ?d) vs) = sview s0" using dr Cons s1(2) by simp
      ultimately have "sview s' = sview s0" by simp
      with fin r show ?thesis unfolding if_not_P [OF False] by blast
    qed
  qed
qed

lemma restore_document_failed:
  assumes run: "sc_RestoreDocument cx x ds ms docp recreate s = (r, s')" "r \<noteq> Ret ()"
    and inv: "sinv s" "\<not> VersionsExist cx" "mcalm (snd s)" "sconsistent s"
    and doc: "\<And>doc. docp = Some doc \<Longrightarrow> hash_sound x doc"
    and files: "\<And>doc. docp = Some doc \<Longrightarrow> sblobs s (hd_ID doc) = Map.empty \<Longrightarrow> sview s (hd_ID doc) = Map.empty"
  shows "(\<exists>e. r = Fail e) \<and> sinv s' \<and> sconsistent s'
    \<and> (sview s' = sview s \<or> recreate \<and> (\<exists>doc. docp = Some doc \<and> sview s' = (sview s)(hd_ID doc := Map.empty)))"
proof (cases "ctx_Err cx = None \<and> HashedDocument_Validate x docp = None")
  case False
  with run inv show ?thesis by (auto simp: sc_RestoreDocument_def split: option.splits)
next
  case True
  then obtain doc where docp: "docp = Some doc" by (cases docp) (simp_all add: HashedDocument_Validate_def)
  have valid: "\<forall>(v, hv)\<in>set (Versions doc). Time v \<noteq> 0 \<and> (\<exists>w. hv = Some w \<and> (\<forall>(n, h)\<in>set (FileHashes w). map_of (HashedFiles doc) h \<noteq> None))"
    using True docp by (simp add: HashedDocument_Validate_None_iff)
  have versions: "\<forall>v\<in>set (VersionTimes doc) \<union> set_option None. Time v \<noteq> 0 \<and> version_at doc v \<noteq> None"
  proof -
    have "Time v \<noteq> 0 \<and> version_at doc v \<noteq> None" if "v \<in> fst ` set (Versions doc)" for v
    proof -
      from that have "v \<in> dom (map_of (Versions doc))" by (simp add: dom_map_of_conv_image_fst)
      then obtain hv where "map_of (Versions doc) v = Some hv" by blast
      moreover from map_of_SomeD [OF this] valid obtain w where "hv = Some w" "Time v \<noteq> 0" by fastforce
      ultimately show ?thesis by (simp add: version_at_def)
    qed
    then show ?thesis by simp
  qed
  show ?thesis
  proof (cases "sc_DocumentExists ds (hd_ID doc) s")
    case (Inl e)
    with run True docp inv show ?thesis by (auto simp: sc_RestoreDocument_def)
  next
    case (Inr found)
    obtain de s1 where del: "(if recreate \<and> found then sc_DeleteDocument cx ds ms (hd_ID doc) s else (None, s)) = (de, s1)"
      by (metis prod.collapse)
    have found: "found \<longleftrightarrow> sblobs s (hd_ID doc) \<noteq> Map.empty"
      using d.exists_Inr [of "fst s" "hd_ID doc" found] Inr inv(1) by (simp add: sc_DocumentExists_def sinv_def sblobs_def)
    have s1: "sinv s1 \<and> sconsistent s1 \<and> mcalm (snd s1)
      \<and> (sview s1 = sview s \<or> recreate \<and> sview s1 = (sview s)(hd_ID doc := Map.empty))"
    proof (cases "recreate \<and> found")
      case True
      with del have d: "sc_DeleteDocument cx ds ms (hd_ID doc) s = (de, s1)" by simp
      note dd = delete_document(1,2) [OF d inv(1,2)]
      have "sview s1 (hd_ID doc) \<subseteq>\<^sub>m sview s (hd_ID doc)" using dd(2) by auto
      from removes_consistent [OF dd(1) inv(4) this] have "sconsistent s1" .
      moreover obtain me m1 where md: "ms_DeleteDocument ms cx (hd_ID doc) (snd s) = (me, m1)" by fastforce
      moreover have "mcalm m1" using m.delete_calm [OF _ inv(3,2) md] inv(1) by (simp add: sinv_def)
      moreover have "snd s1 = m1" using d md by (auto simp: sc_DeleteDocument_def split: option.splits prod.splits)
      ultimately show ?thesis using dd True by (auto simp: removes_def)
    qed (use del inv in auto)
    have gone: "sview s1 (hd_ID doc) = Map.empty" if "de = None" "\<not> (found \<and> \<not> recreate)"
    proof (cases "recreate \<and> found")
      case True
      with del that have d: "sc_DeleteDocument cx ds ms (hd_ID doc) s = (None, s1)" by simp
      from delete_document(3) [OF d inv(1,2) refl] show ?thesis by simp
    next
      case False
      with that(2) have "\<not> found" by blast
      with found have "sblobs s (hd_ID doc) = Map.empty" by blast
      from files [OF docp this] del that(1) False show ?thesis by auto
    qed
    let ?merge = "found \<and> \<not> recreate"
    let ?rp = "\<lparr>rp_docExists = ?merge, rp_createdDoc = False, rp_createdVersions = []\<rparr>"
    show ?thesis
    proof (cases "de = None \<and> (\<exists>existing. restore_existing ms doc ?merge s1 = Inr existing)")
      case False
      with run True docp Inr del s1 show ?thesis
        by (auto simp: sc_RestoreDocument_def Let_def split: option.splits sum.splits)
    next
      case ok: True
      then obtain existing where ex: "restore_existing ms doc ?merge s1 = Inr existing" by blast
      obtain rl rp2 s2 where loop: "restore_loop cx ds ms doc recreate existing None (VersionTimes doc) ?rp s1 = (rl, rp2, s2)"
        by (metis prod.collapse)
      have rl: "rl \<noteq> Ret ()" using run True docp Inr del ok ex loop by (auto simp: sc_RestoreDocument_def Let_def)
      have fail: "(\<exists>e. rl = Fail e) \<and> undoable doc s1 rp2 s2"
        by (rule restore_loop_failed [OF loop rl inv(2) doc [OF docp] _ versions]) (use s1 restoring_start in blast)
      then obtain e where e: "rl = Fail e" by blast
      have roll: "restore_rollback cx ds ms (hd_ID doc) rp2 e s2 = (r, s')"
        using run True docp Inr del ok ex loop e by (simp add: sc_RestoreDocument_def Let_def)
      have "sconsistent s1" using s1 by blast
      note undone = restore_rollback_undone [OF roll inv(2) fail [THEN conjunct2] this]
      have "sview s' = sview s1"
      proof (cases "rp_createdDoc rp2")
        case True
        then have "\<not> ?merge" using restore_loop_createdDoc [OF loop] by auto
        then have "sview s1 (hd_ID doc) = Map.empty" using gone ok by blast
        with undone True show ?thesis by (simp add: fun_upd_idem)
      qed (use undone in simp)
      with undone s1 docp show ?thesis by auto
    qed
  qed
qed

end

end
