(* ===== verification/S3Store.thy ===== *)
theory S3Store
  imports DocumentStore
begin

text \<open>
  \<open>storeconn/s3store\<close>: the \<open>DocumentStore\<close> over an S3 bucket. The S3 client of the AWS
  SDK, bound to the store's bucket, is a parameter \<open>cl\<close>: a record of the calls the
  code makes, over a state \<open>'s\<close>. \<open>ListPages\<close> is what the paginator of the SDK yields
  from a prefix, page by page, up to its first error; \<open>GetObject\<close> yields the error of
  the request or what reading the body returns.
\<close>

record s3_error =
  s3_Key :: string
  s3_Code :: string
  s3_Message :: string

record 's s3_client =
  ListObjectsV2 :: "string \<Rightarrow> nat \<Rightarrow> 's \<Rightarrow> err + string option list"
  ListPages :: "string \<Rightarrow> 's \<Rightarrow> (err + string option list) list"
  PutObject :: "string \<Rightarrow> bytes \<Rightarrow> 's \<Rightarrow> err option \<times> 's"
  GetObject :: "string \<Rightarrow> 's \<Rightarrow> err + (err + bytes)"
  DeleteObjects :: "string option list \<Rightarrow> 's \<Rightarrow> (err + s3_error list option) \<times> 's"

section \<open>Keys\<close>

text \<open>\<open>strings.Split\<close> and \<open>strings.Join\<close> with a one-character separator.\<close>

fun split_on :: "char \<Rightarrow> string \<Rightarrow> string list" where
  "split_on c [] = [[]]"
| "split_on c (a # as) =
     (if a = c then [] # split_on c as
      else case split_on c as of [] \<Rightarrow> [[a]] | p # ps \<Rightarrow> (a # p) # ps)"

fun join_on :: "char \<Rightarrow> string list \<Rightarrow> string" where
  "join_on c [] = []"
| "join_on c [p] = p"
| "join_on c (p # q # ps) = p @ c # join_on c (q # ps)"

definition Key :: "ext \<Rightarrow> uuid \<Rightarrow> string \<Rightarrow> string \<Rightarrow> string" where
  "Key x docID filename hash = join_on (CHR ''/'') [ID_String x docID, filename, hash]"

definition doc_prefix :: "ext \<Rightarrow> uuid \<Rightarrow> string" where
  "doc_prefix x docID = ID_String x docID @ ''/''"

definition hashFromKey :: "string \<Rightarrow> string" where
  "hashFromKey key = (let parts = split_on (CHR ''/'') key in if length parts \<noteq> 3 then [] else parts ! 2)"

definition filenameFromKey :: "string \<Rightarrow> string" where
  "filenameFromKey key = (let parts = split_on (CHR ''/'') key in if length parts \<noteq> 3 then [] else parts ! 1)"

definition filterKeysByHash :: "string list \<Rightarrow> string list \<Rightarrow> string list" where
  "filterKeysByHash keys hashes = filter (\<lambda>key. hashFromKey key \<in> set hashes) keys"

section \<open>The file providers\<close>

fun is_NoSuchKey :: "err \<Rightarrow> bool" where
  "is_NoSuchKey NoSuchKey = True"
| "is_NoSuchKey _ = False"

definition findKey :: "string list \<Rightarrow> string \<Rightarrow> string" where
  "findKey keys filename =
     (case find (\<lambda>key. filenameFromKey key = filename) keys of None \<Rightarrow> [] | Some key \<Rightarrow> key)"

definition get_document_file :: "'s s3_client \<Rightarrow> uuid \<Rightarrow> string \<Rightarrow> string \<Rightarrow> 's \<Rightarrow> err + bytes" where
  "get_document_file cl docID filename key s =
     (case GetObject cl key s of
        Inl e \<Rightarrow> if errors_As is_NoSuchKey e then Inl (ErrDocumentFileNotFound docID filename) else Inl e
      | Inr body \<Rightarrow> body)"

definition FileProviderFromKeys :: "'s s3_client \<Rightarrow> uuid \<Rightarrow> string list \<Rightarrow> 's \<Rightarrow> file_provider" where
  "FileProviderFromKeys cl docID keys s =
     \<lparr>HasFile = (\<lambda>filename. Inr (list_ex (\<lambda>key. filenameFromKey key = filename) keys)),
      ListFiles = Inr (filter (\<lambda>filename. filename \<noteq> []) (map filenameFromKey keys)),
      ReadFile = (\<lambda>filename.
        let key = findKey keys filename
        in if key = [] then Inl (ErrDocumentFileNotFound docID filename)
           else get_document_file cl docID filename key s)\<rparr>"

definition emptyFileProvider :: "uuid \<Rightarrow> file_provider" where
  "emptyFileProvider docID =
     \<lparr>HasFile = (\<lambda>filename. Inr False), ListFiles = Inr [],
      ReadFile = (\<lambda>filename. Inl (ErrDocumentFileNotFound docID filename))\<rparr>"

section \<open>The store\<close>

definition s3_DocumentExists :: "'s s3_client \<Rightarrow> ext \<Rightarrow> uuid \<Rightarrow> 's \<Rightarrow> err + bool" where
  "s3_DocumentExists cl x docID s =
     (case ListObjectsV2 cl (doc_prefix x docID) 1 s of
        Inl e \<Rightarrow> Inl e
      | Inr contents \<Rightarrow> Inr (contents \<noteq> []))"

fun s3_put_files ::
  "'s s3_client \<Rightarrow> ext \<Rightarrow> uuid \<Rightarrow> file_reader list \<Rightarrow> file_info list \<Rightarrow> 's \<Rightarrow> (err + file_info list) \<times> 's" where
  "s3_put_files cl x docID [] fileInfos s = (Inr fileInfos, s)"
| "s3_put_files cl x docID (file # files) fileInfos s =
     (if CHR ''/'' \<in> set (FileName file) then (Inl (Errorf ''filename contains slash'' []), s)
      else case FileData file of
        Inl e \<Rightarrow> (Inl e, s)
      | Inr data \<Rightarrow>
         (let hash = ContentHash x data
          in case PutObject cl (Key x docID (FileName file) hash) data s of
               (Some e, s') \<Rightarrow> (Inl e, s')
             | (None, s') \<Rightarrow>
                 s3_put_files cl x docID files
                   (fileInfos @ [\<lparr>Name = FileName file, Size = FileSize file, Hash = hash\<rparr>]) s'))"

definition s3_CreateDocumentVersion ::
  "'s s3_client \<Rightarrow> ext \<Rightarrow> uuid \<Rightarrow> version_time \<Rightarrow> file_reader list \<Rightarrow> 's \<Rightarrow> (err + file_info list) \<times> 's" where
  "s3_CreateDocumentVersion cl x docID version files s = s3_put_files cl x docID files [] s"

text \<open>\<open>listObjectKeys\<close>: all keys of all pages, skipping nil keys.\<close>

fun collect_pages :: "(err + string option list) list \<Rightarrow> string list \<Rightarrow> err + string list" where
  "collect_pages [] keys = Inr keys"
| "collect_pages (Inl e # pages) keys = Inl e"
| "collect_pages (Inr contents # pages) keys = collect_pages pages (keys @ List.map_filter id contents)"

definition listObjectKeys :: "'s s3_client \<Rightarrow> string \<Rightarrow> 's \<Rightarrow> err + string list" where
  "listObjectKeys cl keyPrefix s = collect_pages (ListPages cl keyPrefix s) []"

definition s3_DocumentHashFileProvider ::
  "'s s3_client \<Rightarrow> ext \<Rightarrow> uuid \<Rightarrow> string list \<Rightarrow> 's \<Rightarrow> err + file_provider" where
  "s3_DocumentHashFileProvider cl x docID hashes s =
     (if hashes = [] then Inr (emptyFileProvider docID)
      else case listObjectKeys cl (doc_prefix x docID) s of
        Inl e \<Rightarrow> Inl e
      | Inr allKeys \<Rightarrow> Inr (FileProviderFromKeys cl docID (filterKeysByHash allKeys hashes) s))"

definition s3_ReadDocumentHashFile ::
  "'s s3_client \<Rightarrow> ext \<Rightarrow> uuid \<Rightarrow> string \<Rightarrow> string \<Rightarrow> 's \<Rightarrow> err + bytes" where
  "s3_ReadDocumentHashFile cl x docID filename hash s =
     get_document_file cl docID filename (Key x docID filename hash) s"

text \<open>A nil response and one without per-object failures are fine.\<close>

definition DeleteObjectsErr :: "s3_error list option \<Rightarrow> err option" where
  "DeleteObjectsErr out =
     (case out of
        None \<Rightarrow> None
      | Some [] \<Rightarrow> None
      | Some (first # _) \<Rightarrow> Some (Errorf (''DeleteObjects reported per-object failures; first: '' @ s3_Key first) []))"

definition deleteObjectBatch :: "'s s3_client \<Rightarrow> string option list \<Rightarrow> 's \<Rightarrow> err option \<times> 's" where
  "deleteObjectBatch cl objects s =
     (case DeleteObjects cl objects s of
        (Inl e, s') \<Rightarrow> (Some e, s')
      | (Inr out, s') \<Rightarrow> (DeleteObjectsErr out, s'))"

definition maxDeleteObjectsPerRequest :: nat where "maxDeleteObjectsPerRequest = 1000"

function deleteObjectKeys :: "'s s3_client \<Rightarrow> string list \<Rightarrow> 's \<Rightarrow> err option \<times> 's" where
  "deleteObjectKeys cl keys s =
     (if keys = [] then (None, s)
      else case deleteObjectBatch cl (map Some (take maxDeleteObjectsPerRequest keys)) s of
        (Some e, s') \<Rightarrow> (Some e, s')
      | (None, s') \<Rightarrow> deleteObjectKeys cl (drop maxDeleteObjectsPerRequest keys) s')"
  by pat_completeness auto

termination
  by (relation "measure (\<lambda>(cl, keys, s). length keys)") (auto simp: maxDeleteObjectsPerRequest_def)

declare deleteObjectKeys.simps [simp del]

fun delete_pages ::
  "'s s3_client \<Rightarrow> (err + string option list) list \<Rightarrow> nat \<Rightarrow> 's \<Rightarrow> (err + nat) \<times> 's" where
  "delete_pages cl [] deleted s = (Inr deleted, s)"
| "delete_pages cl (Inl e # pages) deleted s = (Inl e, s)"
| "delete_pages cl (Inr contents # pages) deleted s =
     (if contents = [] then delete_pages cl pages deleted s
      else case deleteObjectBatch cl contents s of
        (Some e, s') \<Rightarrow> (Inl e, s')
      | (None, s') \<Rightarrow> delete_pages cl pages (deleted + length contents) s')"

definition deletePrefix :: "'s s3_client \<Rightarrow> string \<Rightarrow> 's \<Rightarrow> (err + nat) \<times> 's" where
  "deletePrefix cl keyPrefix s = delete_pages cl (ListPages cl keyPrefix s) 0 s"

definition s3_DeleteDocument :: "'s s3_client \<Rightarrow> ext \<Rightarrow> uuid \<Rightarrow> 's \<Rightarrow> err option \<times> 's" where
  "s3_DeleteDocument cl x docID s =
     (case deletePrefix cl (doc_prefix x docID) s of
        (Inl e, s') \<Rightarrow> (Some e, s')
      | (Inr deleted, s') \<Rightarrow> (if deleted = 0 then Some (ErrDocumentNotFound docID) else None, s'))"

definition s3_DeleteDocumentHashes ::
  "'s s3_client \<Rightarrow> ext \<Rightarrow> uuid \<Rightarrow> string list \<Rightarrow> 's \<Rightarrow> err option \<times> 's" where
  "s3_DeleteDocumentHashes cl x docID hashes s =
     (case listObjectKeys cl (doc_prefix x docID) s of
        Inl e \<Rightarrow> (Some e, s)
      | Inr keys \<Rightarrow>
         if keys = [] then (Some (ErrDocumentNotFound docID), s)
         else if filterKeysByHash keys hashes = [] then (None, s)
         else deleteObjectKeys cl (filterKeysByHash keys hashes) s)"

definition s3_store :: "'s s3_client \<Rightarrow> ext \<Rightarrow> 's document_store" where
  "s3_store cl x =
     \<lparr>ds_CreateDocumentVersion = s3_CreateDocumentVersion cl x,
      ds_DocumentExists = s3_DocumentExists cl x,
      ds_DocumentHashFileProvider = s3_DocumentHashFileProvider cl x,
      ds_ReadDocumentHashFile = s3_ReadDocumentHashFile cl x,
      ds_DeleteDocument = s3_DeleteDocument cl x,
      ds_DeleteDocumentHashes = s3_DeleteDocumentHashes cl x\<rparr>"

end
