(* ===== verification/S3Laws.thy ===== *)
theory S3Laws
  imports S3Store
begin

text \<open>
  The documented behaviour of S3 that the store relies on, and the proof that the S3
  store meets the contract of a \<open>DocumentStore\<close> under it.
\<close>

section \<open>Keys\<close>

lemma split_on_not_Nil [simp]: "split_on c s \<noteq> []"
  by (induction c s rule: split_on.induct) (auto split: list.splits)

lemma split_on_atom: "c \<notin> set p \<Longrightarrow> split_on c p = [p]"
  by (induction c p rule: split_on.induct) auto

lemma split_on_append: "c \<notin> set p \<Longrightarrow> split_on c (p @ c # s) = p # split_on c s"
  by (induction p) auto

definition id_text_ok :: "ext \<Rightarrow> bool" where
  "id_text_ok x \<longleftrightarrow> inj (ID_String x) \<and> (\<forall>docID. CHR ''/'' \<notin> set (ID_String x docID))
     \<and> (\<forall>b. CHR ''/'' \<notin> set (ContentHash x b))"

lemma Key_append: "Key x docID n h = ID_String x docID @ CHR ''/'' # n @ CHR ''/'' # h"
  by (simp add: Key_def)

lemma split_Key:
  assumes "id_text_ok x"
  shows "split_on (CHR ''/'') (Key x docID n h) = ID_String x docID # split_on (CHR ''/'') (n @ CHR ''/'' # h)"
  using assms by (simp add: Key_append split_on_append id_text_ok_def)

lemma split_Key_parts:
  assumes "id_text_ok x" "CHR ''/'' \<notin> set n" "CHR ''/'' \<notin> set h"
  shows "split_on (CHR ''/'') (Key x docID n h) = [ID_String x docID, n, h]"
  using assms by (simp add: split_Key split_on_append split_on_atom)

lemma hash_of_Key:
  assumes "id_text_ok x" "CHR ''/'' \<notin> set n" "CHR ''/'' \<notin> set h"
  shows "hashFromKey (Key x docID n h) = h" "filenameFromKey (Key x docID n h) = n"
  by (simp_all add: hashFromKey_def filenameFromKey_def split_Key_parts [OF assms])

lemma length_split_on: "length (split_on c s) = Suc (length (filter (\<lambda>a. a = c) s))"
  by (induction c s rule: split_on.induct) (auto split: list.splits)

lemma Key_inj:
  assumes x: "id_text_ok x" and n: "CHR ''/'' \<notin> set n" "CHR ''/'' \<notin> set h"
    and eq: "Key x docID' n' h' = Key x docID n h"
  shows "docID' = docID \<and> n' = n \<and> h' = h"
proof -
  have parts: "split_on (CHR ''/'') (Key x docID' n' h') = [ID_String x docID, n, h]"
    unfolding eq by (rule split_Key_parts [OF x n])
  then have "length (filter (\<lambda>a. a = CHR ''/'') (n' @ CHR ''/'' # h')) = 1"
    using split_Key [OF x, of docID' n' h'] length_split_on [of "CHR ''/''" "n' @ CHR ''/'' # h'"] by auto
  then have "CHR ''/'' \<notin> set n'" "CHR ''/'' \<notin> set h'" by (auto simp: filter_empty_conv)
  with parts split_Key_parts [OF x this] x show ?thesis
    by (auto simp: id_text_ok_def inj_eq)
qed

lemma prefix_Key:
  assumes "id_text_ok x"
  shows "prefix (doc_prefix x docID) (Key x docID' n h) \<longleftrightarrow> docID' = docID"
proof -
  have "ID_String x docID' = ID_String x docID"
    if "prefix (ID_String x docID @ ''/'') (ID_String x docID' @ CHR ''/'' # rest)" for rest
  proof -
    from that obtain zs where eq: "ID_String x docID' @ CHR ''/'' # rest = ID_String x docID @ CHR ''/'' # zs"
      by (auto simp: prefix_def)
    have "split_on (CHR ''/'') (ID_String x docID' @ CHR ''/'' # rest) =
        split_on (CHR ''/'') (ID_String x docID @ CHR ''/'' # zs)" by (simp only: eq)
    then show ?thesis using assms by (simp add: split_on_append id_text_ok_def)
  qed
  with assms show ?thesis
    by (auto simp: doc_prefix_def Key_append id_text_ok_def inj_eq)
qed

section \<open>The client's documented behaviour\<close>

definition del_reported :: "err + s3_error list option \<Rightarrow> bool" where
  "del_reported r \<longleftrightarrow> (case r of Inl _ \<Rightarrow> False | Inr out \<Rightarrow> DeleteObjectsErr out = None)"

definition put_spec :: "'s s3_client \<Rightarrow> ('s \<Rightarrow> string \<rightharpoonup> bytes) \<Rightarrow> ('s \<Rightarrow> bool) \<Rightarrow> bool" where
  "put_spec cl objs calm \<longleftrightarrow> (\<forall>k b s r s'. PutObject cl k b s = (r, s') \<longrightarrow>
     (objs s' = (objs s)(k \<mapsto> b) \<or> r \<noteq> None \<and> objs s' = objs s) \<and> (calm s \<longrightarrow> r = None \<and> calm s'))"

definition get_spec :: "'s s3_client \<Rightarrow> ('s \<Rightarrow> string \<rightharpoonup> bytes) \<Rightarrow> ('s \<Rightarrow> bool) \<Rightarrow> bool" where
  "get_spec cl objs calm \<longleftrightarrow> (\<forall>k s.
     (\<forall>b. GetObject cl k s = Inr (Inr b) \<longrightarrow> objs s k = Some b) \<and>
     (calm s \<longrightarrow> (\<forall>b. objs s k = Some b \<longrightarrow> GetObject cl k s = Inr (Inr b)) \<and>
        (objs s k = None \<longrightarrow> (\<exists>e. GetObject cl k s = Inl e \<and> errors_As is_NoSuchKey e))))"

definition list_spec :: "'s s3_client \<Rightarrow> ('s \<Rightarrow> string \<rightharpoonup> bytes) \<Rightarrow> ('s \<Rightarrow> bool) \<Rightarrow> bool" where
  "list_spec cl objs calm \<longleftrightarrow> (\<forall>p s.
     (\<forall>ks. ListObjectsV2 cl p 1 s = Inr ks \<longrightarrow> (ks \<noteq> [] \<longleftrightarrow> (\<exists>k\<in>dom (objs s). prefix p k))) \<and>
     (calm s \<longrightarrow> (\<exists>ks. ListObjectsV2 cl p 1 s = Inr ks)))"

definition pages_spec :: "'s s3_client \<Rightarrow> ('s \<Rightarrow> string \<rightharpoonup> bytes) \<Rightarrow> ('s \<Rightarrow> bool) \<Rightarrow> bool" where
  "pages_spec cl objs calm \<longleftrightarrow> (\<forall>p s.
     (\<forall>ks. Inr ks \<in> set (ListPages cl p s) \<longrightarrow>
        set ks \<subseteq> Some ` {k \<in> dom (objs s). prefix p k} \<and> length ks \<le> 1000) \<and>
     ((\<forall>e. Inl e \<notin> set (ListPages cl p s)) \<longrightarrow>
        (\<forall>k\<in>dom (objs s). prefix p k \<longrightarrow> (\<exists>ks. Inr ks \<in> set (ListPages cl p s) \<and> Some k \<in> set ks))) \<and>
     (\<forall>e. calm s \<longrightarrow> Inl e \<notin> set (ListPages cl p s)))"

definition del_spec :: "'s s3_client \<Rightarrow> ('s \<Rightarrow> string \<rightharpoonup> bytes) \<Rightarrow> ('s \<Rightarrow> bool) \<Rightarrow> bool" where
  "del_spec cl objs calm \<longleftrightarrow> (\<forall>ks s r s'. DeleteObjects cl ks s = (r, s') \<longrightarrow>
     (\<forall>k. objs s' k = objs s k \<or> objs s' k = None \<and> Some k \<in> set ks) \<and>
     (del_reported r \<longrightarrow> (\<forall>k. Some k \<in> set ks \<longrightarrow> objs s' k = None)) \<and>
     (calm s \<and> ks \<noteq> [] \<and> length ks \<le> 1000 \<longrightarrow> del_reported r \<and> calm s'))"

definition s3_client_spec :: "'s s3_client \<Rightarrow> ('s \<Rightarrow> string \<rightharpoonup> bytes) \<Rightarrow> ('s \<Rightarrow> bool) \<Rightarrow> bool" where
  "s3_client_spec cl objs calm \<longleftrightarrow> put_spec cl objs calm \<and> get_spec cl objs calm \<and> list_spec cl objs calm
     \<and> pages_spec cl objs calm \<and> del_spec cl objs calm"

lemma s3_put:
  assumes "s3_client_spec cl objs calm" "PutObject cl k b s = (r, s')"
  shows "objs s' = (objs s)(k \<mapsto> b) \<or> r \<noteq> None \<and> objs s' = objs s" "calm s \<Longrightarrow> r = None \<and> calm s'"
proof -
  have "put_spec cl objs calm" using assms(1) by (simp add: s3_client_spec_def)
  then show "objs s' = (objs s)(k \<mapsto> b) \<or> r \<noteq> None \<and> objs s' = objs s" "calm s \<Longrightarrow> r = None \<and> calm s'"
    using assms(2) unfolding put_spec_def by blast+
qed

lemma s3_get:
  assumes "s3_client_spec cl objs calm"
  shows "GetObject cl k s = Inr (Inr b) \<Longrightarrow> objs s k = Some b"
    "calm s \<Longrightarrow> objs s k = Some b \<Longrightarrow> GetObject cl k s = Inr (Inr b)"
    "calm s \<Longrightarrow> objs s k = None \<Longrightarrow> \<exists>e. GetObject cl k s = Inl e \<and> errors_As is_NoSuchKey e"
proof -
  have "get_spec cl objs calm" using assms(1) by (simp add: s3_client_spec_def)
  then show "GetObject cl k s = Inr (Inr b) \<Longrightarrow> objs s k = Some b"
    "calm s \<Longrightarrow> objs s k = Some b \<Longrightarrow> GetObject cl k s = Inr (Inr b)"
    "calm s \<Longrightarrow> objs s k = None \<Longrightarrow> \<exists>e. GetObject cl k s = Inl e \<and> errors_As is_NoSuchKey e"
    unfolding get_spec_def by blast+
qed

lemma s3_list1:
  assumes "s3_client_spec cl objs calm"
  shows "ListObjectsV2 cl p 1 s = Inr ks \<Longrightarrow> ks \<noteq> [] \<longleftrightarrow> (\<exists>k\<in>dom (objs s). prefix p k)"
    "calm s \<Longrightarrow> \<exists>ks. ListObjectsV2 cl p 1 s = Inr ks"
proof -
  have "list_spec cl objs calm" using assms(1) by (simp add: s3_client_spec_def)
  then show "ListObjectsV2 cl p 1 s = Inr ks \<Longrightarrow> ks \<noteq> [] \<longleftrightarrow> (\<exists>k\<in>dom (objs s). prefix p k)"
    "calm s \<Longrightarrow> \<exists>ks. ListObjectsV2 cl p 1 s = Inr ks"
    unfolding list_spec_def by blast+
qed

lemma s3_pages:
  assumes "s3_client_spec cl objs calm"
  shows "Inr ks \<in> set (ListPages cl p s) \<Longrightarrow> set ks \<subseteq> Some ` {k \<in> dom (objs s). prefix p k}"
    "Inr ks \<in> set (ListPages cl p s) \<Longrightarrow> length ks \<le> 1000"
    "\<forall>e. Inl e \<notin> set (ListPages cl p s) \<Longrightarrow> k \<in> dom (objs s) \<Longrightarrow> prefix p k \<Longrightarrow>
       \<exists>ks. Inr ks \<in> set (ListPages cl p s) \<and> Some k \<in> set ks"
    "calm s \<Longrightarrow> Inl e \<notin> set (ListPages cl p s)"
proof -
  have "pages_spec cl objs calm" using assms(1) by (simp add: s3_client_spec_def)
  then show "Inr ks \<in> set (ListPages cl p s) \<Longrightarrow> set ks \<subseteq> Some ` {k \<in> dom (objs s). prefix p k}"
    "Inr ks \<in> set (ListPages cl p s) \<Longrightarrow> length ks \<le> 1000"
    "\<forall>e. Inl e \<notin> set (ListPages cl p s) \<Longrightarrow> k \<in> dom (objs s) \<Longrightarrow> prefix p k \<Longrightarrow>
       \<exists>ks. Inr ks \<in> set (ListPages cl p s) \<and> Some k \<in> set ks"
    "calm s \<Longrightarrow> Inl e \<notin> set (ListPages cl p s)"
    unfolding pages_spec_def by blast+
qed

lemma s3_delete:
  assumes "s3_client_spec cl objs calm" "DeleteObjects cl ks s = (r, s')"
  shows "objs s' k = objs s k \<or> objs s' k = None \<and> Some k \<in> set ks"
    "del_reported r \<Longrightarrow> Some k \<in> set ks \<Longrightarrow> objs s' k = None"
    "calm s \<Longrightarrow> ks \<noteq> [] \<Longrightarrow> length ks \<le> 1000 \<Longrightarrow> del_reported r \<and> calm s'"
proof -
  have "del_spec cl objs calm" using assms(1) by (simp add: s3_client_spec_def)
  then show "objs s' k = objs s k \<or> objs s' k = None \<and> Some k \<in> set ks"
    "del_reported r \<Longrightarrow> Some k \<in> set ks \<Longrightarrow> objs s' k = None"
    "calm s \<Longrightarrow> ks \<noteq> [] \<Longrightarrow> length ks \<le> 1000 \<Longrightarrow> del_reported r \<and> calm s'"
    using assms(2) unfolding del_spec_def by blast+
qed

section \<open>The loops\<close>

text \<open>What a run of deletions leaves: only listed keys may go.\<close>

definition shrinks :: "('s \<Rightarrow> string \<rightharpoonup> bytes) \<Rightarrow> string set \<Rightarrow> 's \<Rightarrow> 's \<Rightarrow> bool" where
  "shrinks objs K s s' \<longleftrightarrow> (\<forall>k. objs s' k = objs s k \<or> objs s' k = None \<and> k \<in> K)"

lemma shrinks_refl [simp]: "shrinks objs K s s"
  by (simp add: shrinks_def)

lemma shrinks_trans: "shrinks objs A s s' \<Longrightarrow> shrinks objs B s' s'' \<Longrightarrow> A \<union> B \<subseteq> K \<Longrightarrow> shrinks objs K s s''"
  unfolding shrinks_def by (metis Un_iff subsetD)

lemma shrinks_None: "shrinks objs K s s' \<Longrightarrow> objs s k = None \<Longrightarrow> objs s' k = None"
  unfolding shrinks_def by metis

lemma deleteObjectBatch:
  assumes "s3_client_spec cl objs calm" "deleteObjectBatch cl ks s = (r, s')"
  shows "shrinks objs {k. Some k \<in> set ks} s s'"
    "r = None \<Longrightarrow> Some k \<in> set ks \<Longrightarrow> objs s' k = None"
    "calm s \<Longrightarrow> ks \<noteq> [] \<Longrightarrow> length ks \<le> 1000 \<Longrightarrow> r = None \<and> calm s'"
proof -
  obtain q where q: "DeleteObjects cl ks s = (q, s')" "r = None \<longleftrightarrow> del_reported q"
    using assms(2) by (auto simp: deleteObjectBatch_def del_reported_def split: sum.splits prod.splits)
  show "shrinks objs {k. Some k \<in> set ks} s s'" "r = None \<Longrightarrow> Some k \<in> set ks \<Longrightarrow> objs s' k = None"
    "calm s \<Longrightarrow> ks \<noteq> [] \<Longrightarrow> length ks \<le> 1000 \<Longrightarrow> r = None \<and> calm s'"
    using s3_delete [OF assms(1) q(1)] q(2) by (auto simp: shrinks_def)
qed

lemma deleteObjectKeys:
  assumes "s3_client_spec cl objs calm" "deleteObjectKeys cl keys s = (r, s')"
  shows "shrinks objs (set keys) s s' \<and> (r = None \<longrightarrow> (\<forall>k\<in>set keys. objs s' k = None))
    \<and> (calm s \<longrightarrow> r = None \<and> calm s')"
  using assms
proof (induction cl keys s rule: deleteObjectKeys.induct)
  case (1 cl keys s)
  let ?n = maxDeleteObjectsPerRequest
  show ?case
  proof (cases "keys = []")
    case True
    with "1.prems" show ?thesis by (simp add: deleteObjectKeys.simps [of cl "[]" s])
  next
    case False
    obtain r1 s1 where b: "deleteObjectBatch cl (map Some (take ?n keys)) s = (r1, s1)" by fastforce
    have n: "map Some (take ?n keys) \<noteq> []" "length (map Some (take ?n keys)) \<le> 1000"
      using False by (auto simp: maxDeleteObjectsPerRequest_def)
    have parts: "set keys = set (take ?n keys) \<union> set (drop ?n keys)"
      by (metis append_take_drop_id set_append)
    have s1: "shrinks objs (set (take ?n keys)) s s1" "r1 = None \<Longrightarrow> k \<in> set (take ?n keys) \<Longrightarrow> objs s1 k = None"
      "calm s \<Longrightarrow> r1 = None \<and> calm s1" for k
      using deleteObjectBatch [OF "1.prems"(1) b] n by (auto simp: image_iff Collect_mem_eq)
    show ?thesis
    proof (cases r1)
      case (Some e)
      with "1.prems"(2) b False have "r = Some e" "s' = s1" by (simp_all add: deleteObjectKeys.simps [of cl keys s])
      with s1 Some parts show ?thesis by (auto simp: shrinks_def)
    next
      case None
      with "1.prems"(2) b False have rest: "deleteObjectKeys cl (drop ?n keys) s1 = (r, s')"
        by (simp add: deleteObjectKeys.simps [of cl keys s])
      from "1.IH" [OF False b [symmetric] None "1.prems"(1) rest]
      have IH: "shrinks objs (set (drop ?n keys)) s1 s'" "r = None \<Longrightarrow> k \<in> set (drop ?n keys) \<Longrightarrow> objs s' k = None"
        "calm s1 \<Longrightarrow> r = None \<and> calm s'" for k by blast+
      have "shrinks objs (set keys) s s'"
        using shrinks_trans [OF s1(1) IH(1)] parts by simp
      moreover have "objs s' k = None" if "r = None" "k \<in> set keys" for k
        using that parts s1(2) [OF None] IH(2) shrinks_None [OF IH(1)] by blast
      ultimately show ?thesis using s1(3) IH(3) by blast
    qed
  qed
qed

lemma delete_pages:
  assumes "s3_client_spec cl objs calm" "delete_pages cl pages n s = (r, s')"
    "\<forall>ks. Inr ks \<in> set pages \<longrightarrow> set ks \<subseteq> Some ` K \<and> length ks \<le> 1000"
  shows "shrinks objs K s s'
    \<and> (\<forall>m. r = Inr m \<longrightarrow> (\<forall>e. Inl e \<notin> set pages) \<and> (\<forall>ks k. Inr ks \<in> set pages \<longrightarrow> Some k \<in> set ks \<longrightarrow> objs s' k = None)
         \<and> (m = n \<longleftrightarrow> (\<forall>ks. Inr ks \<in> set pages \<longrightarrow> ks = [])) \<and> n \<le> m)
    \<and> (calm s \<and> (\<forall>e. Inl e \<notin> set pages) \<longrightarrow> (\<exists>m. r = Inr m) \<and> calm s')"
  using assms
proof (induction cl pages n s rule: delete_pages.induct)
  case (3 cl ks pages n s)
  show ?case
  proof (cases "ks = []")
    case True
    with "3.IH"(1) "3.prems" show ?thesis by auto
  next
    case False
    obtain r1 s1 where b: "deleteObjectBatch cl ks s = (r1, s1)" by fastforce
    have ks: "set ks \<subseteq> Some ` K" "length ks \<le> 1000" using "3.prems"(3) by auto
    have s1: "shrinks objs K s s1" "r1 = None \<Longrightarrow> Some k \<in> set ks \<Longrightarrow> objs s1 k = None"
      "calm s \<Longrightarrow> r1 = None \<and> calm s1" for k
      using deleteObjectBatch [OF "3.prems"(1) b] ks False by (auto simp: shrinks_def)
    show ?thesis
    proof (cases r1)
      case (Some e)
      with "3.prems"(2) b False have "r = Inl e" "s' = s1" by simp_all
      with s1 Some show ?thesis by auto
    next
      case None
      with "3.prems"(2) b False have rest: "delete_pages cl pages (n + length ks) s1 = (r, s')" by simp
      from "3.IH"(2) [OF False b [symmetric] None "3.prems"(1) rest] "3.prems"(3)
      have IH: "shrinks objs K s1 s'"
        "\<And>m. r = Inr m \<Longrightarrow> (\<forall>e. Inl e \<notin> set pages) \<and> (\<forall>ks k. Inr ks \<in> set pages \<longrightarrow> Some k \<in> set ks \<longrightarrow> objs s' k = None) \<and> n + length ks \<le> m"
        "calm s1 \<Longrightarrow> \<forall>e. Inl e \<notin> set pages \<Longrightarrow> (\<exists>m. r = Inr m) \<and> calm s'" by auto
      have "shrinks objs K s s'" using shrinks_trans [OF s1(1) IH(1)] by simp
      moreover have "objs s' k = None" if "r = Inr m" "Inr ks' \<in> set (Inr ks # pages)" "Some k \<in> set ks'" for m ks' k
        using that s1(2) [OF None] IH(2) shrinks_None [OF IH(1)] by auto
      moreover have "m \<noteq> n \<and> n \<le> m" if "r = Inr m" for m
        using IH(2) [OF that] False by (cases ks) auto
      ultimately show ?thesis using s1(3) IH(2,3) False by auto
    qed
  qed
qed auto

lemma set_map_filter_id: "set (List.map_filter id xs) = {k. Some k \<in> set xs}"
  by (induction xs) (auto simp: List.map_filter_simps split: option.splits)

lemma collect_pages_Inr:
  "collect_pages pages acc = Inr keys \<Longrightarrow> (\<forall>e. Inl e \<notin> set pages)
     \<and> set keys = set acc \<union> {k. \<exists>ks. Inr ks \<in> set pages \<and> Some k \<in> set ks}"
  by (induction pages acc rule: collect_pages.induct) (auto simp: set_map_filter_id)

lemma collect_pages_ok: "\<forall>e. Inl e \<notin> set pages \<Longrightarrow> \<exists>keys. collect_pages pages acc = Inr keys"
  by (induction pages acc rule: collect_pages.induct) auto

lemma listObjectKeys:
  assumes "s3_client_spec cl objs calm"
  shows "listObjectKeys cl p s = Inr keys \<Longrightarrow> set keys = {k \<in> dom (objs s). prefix p k}"
    "calm s \<Longrightarrow> \<exists>keys. listObjectKeys cl p s = Inr keys"
proof -
  show "set keys = {k \<in> dom (objs s). prefix p k}" if "listObjectKeys cl p s = Inr keys"
  proof -
    from collect_pages_Inr [OF that [unfolded listObjectKeys_def]]
    have no: "\<forall>e. Inl e \<notin> set (ListPages cl p s)"
      and keys: "set keys = {k. \<exists>ks. Inr ks \<in> set (ListPages cl p s) \<and> Some k \<in> set ks}" by auto
    show ?thesis
      unfolding keys using s3_pages(1,3) [OF assms, where p = p and s = s] no by blast
  qed
  show "calm s \<Longrightarrow> \<exists>keys. listObjectKeys cl p s = Inr keys"
    unfolding listObjectKeys_def using s3_pages(4) [OF assms, where p = p and s = s] by (intro collect_pages_ok) blast
qed

lemma deletePrefix:
  assumes "s3_client_spec cl objs calm" "deletePrefix cl p s = (r, s')"
  shows "shrinks objs {k \<in> dom (objs s). prefix p k} s s'"
    "r = Inr m \<Longrightarrow> k \<in> dom (objs s) \<Longrightarrow> prefix p k \<Longrightarrow> objs s' k = None"
    "r = Inr m \<Longrightarrow> m = 0 \<longleftrightarrow> (\<forall>k\<in>dom (objs s). \<not> prefix p k)"
    "calm s \<Longrightarrow> (\<exists>m. r = Inr m) \<and> calm s'"
proof -
  note pg = s3_pages [OF assms(1), where p = p and s = s]
  have run: "delete_pages cl (ListPages cl p s) 0 s = (r, s')" using assms(2) by (simp add: deletePrefix_def)
  have "\<forall>ks. Inr ks \<in> set (ListPages cl p s) \<longrightarrow> set ks \<subseteq> Some ` {k \<in> dom (objs s). prefix p k} \<and> length ks \<le> 1000"
    using pg(1,2) by blast
  note dp = delete_pages [OF assms(1) run this]
  show "shrinks objs {k \<in> dom (objs s). prefix p k} s s'" using dp by (rule conjunct1)
  have ok: "\<forall>e. Inl e \<notin> set (ListPages cl p s)"
      "\<forall>ks k. Inr ks \<in> set (ListPages cl p s) \<longrightarrow> Some k \<in> set ks \<longrightarrow> objs s' k = None"
      "m = 0 \<longleftrightarrow> (\<forall>ks. Inr ks \<in> set (ListPages cl p s) \<longrightarrow> ks = [])" if "r = Inr m" for m
    using dp [THEN conjunct2, THEN conjunct1] that by simp_all
  show "objs s' k = None" if "r = Inr m" "k \<in> dom (objs s)" "prefix p k"
    using pg(3) [OF ok(1) that(2,3)] that(1) ok(2) by blast
  show "m = 0 \<longleftrightarrow> (\<forall>k\<in>dom (objs s). \<not> prefix p k)" if "r = Inr m"
  proof -
    have no: "\<forall>e. Inl e \<notin> set (ListPages cl p s)" and m: "m = 0 \<longleftrightarrow> (\<forall>ks. Inr ks \<in> set (ListPages cl p s) \<longrightarrow> ks = [])"
      using ok that by simp_all
    have "(\<forall>ks. Inr ks \<in> set (ListPages cl p s) \<longrightarrow> ks = []) \<longleftrightarrow> (\<forall>k\<in>dom (objs s). \<not> prefix p k)"
    proof
      assume "\<forall>ks. Inr ks \<in> set (ListPages cl p s) \<longrightarrow> ks = []"
      then show "\<forall>k\<in>dom (objs s). \<not> prefix p k" using pg(3) [OF no] by fastforce
    next
      assume none: "\<forall>k\<in>dom (objs s). \<not> prefix p k"
      show "\<forall>ks. Inr ks \<in> set (ListPages cl p s) \<longrightarrow> ks = []"
      proof (intro allI impI)
        fix ks :: "string option list" assume "Inr ks \<in> set (ListPages cl p s)"
        from pg(1) [OF this] have "set ks \<subseteq> Some ` {k \<in> dom (objs s). prefix p k}" .
        moreover have "{k \<in> dom (objs s). prefix p k} = {}" using none by blast
        ultimately show "ks = []" by simp
      qed
    qed
    with m show ?thesis by simp
  qed
  show "calm s \<Longrightarrow> (\<exists>m. r = Inr m) \<and> calm s'" 
    using dp [THEN conjunct2, THEN conjunct2] s3_pages(4) [OF assms(1), where p = p and s = s] by simp
qed

section \<open>The contract\<close>

definition s3_blobs :: "ext \<Rightarrow> ('s \<Rightarrow> string \<rightharpoonup> bytes) \<Rightarrow> 's \<Rightarrow> uuid \<Rightarrow> blob_map" where
  "s3_blobs x objs s docID = (\<lambda>(n, h). objs s (Key x docID n h))"

text \<open>The bucket holds nothing but objects of this store.\<close>

definition s3_inv :: "'s s3_client \<Rightarrow> ext \<Rightarrow> ('s \<Rightarrow> string \<rightharpoonup> bytes) \<Rightarrow> ('s \<Rightarrow> bool) \<Rightarrow> 's \<Rightarrow> bool" where
  "s3_inv cl x objs calm s \<longleftrightarrow> s3_client_spec cl objs calm \<and> id_text_ok x \<and>
     (\<forall>k\<in>dom (objs s). \<exists>docID n h. CHR ''/'' \<notin> set n \<and> CHR ''/'' \<notin> set h \<and> k = Key x docID n h)"

lemma s3_invD:
  assumes "s3_inv cl x objs calm s"
  shows "s3_client_spec cl objs calm" "id_text_ok x"
    "objs s k = Some b \<Longrightarrow> \<exists>docID n h. CHR ''/'' \<notin> set n \<and> CHR ''/'' \<notin> set h \<and> k = Key x docID n h"
  using assms by (auto simp: s3_inv_def dom_def)

lemma s3_inv_put:
  assumes "s3_inv cl x objs calm s" "objs s' = (objs s)(Key x docID n h \<mapsto> b)" "CHR ''/'' \<notin> set n" "CHR ''/'' \<notin> set h"
  shows "s3_inv cl x objs calm s'"
  using assms unfolding s3_inv_def by (auto simp: dom_def)

lemma s3_inv_same: "s3_inv cl x objs calm s \<Longrightarrow> objs s' = objs s \<Longrightarrow> s3_inv cl x objs calm s'"
  by (simp add: s3_inv_def)

lemma s3_blobs_same: "objs s' = objs s \<Longrightarrow> s3_blobs x objs s' = s3_blobs x objs s"
  by (simp add: s3_blobs_def fun_eq_iff)

lemma s3_inv_shrinks: "s3_inv cl x objs calm s \<Longrightarrow> shrinks objs K s s' \<Longrightarrow> s3_inv cl x objs calm s'"
  unfolding s3_inv_def shrinks_def dom_def by (auto, metis option.distinct(1))

lemma s3_blobs_put:
  assumes "s3_inv cl x objs calm s" "objs s' = (objs s)(Key x docID n h \<mapsto> b)" "CHR ''/'' \<notin> set n" "CHR ''/'' \<notin> set h"
  shows "s3_blobs x objs s' = (s3_blobs x objs s)(docID := (s3_blobs x objs s docID)((n, h) \<mapsto> b))"
proof -
  have "Key x docID' n' h' = Key x docID n h \<longleftrightarrow> docID' = docID \<and> n' = n \<and> h' = h" for docID' n' h'
    using Key_inj [OF s3_invD(2) [OF assms(1)] assms(3,4)] by blast
  with assms(2) show ?thesis by (auto simp: s3_blobs_def fun_eq_iff)
qed

lemma s3_prefix:
  assumes "s3_inv cl x objs calm s" "objs s k = Some b"
  shows "prefix (doc_prefix x docID) k \<longleftrightarrow> (\<exists>n h. CHR ''/'' \<notin> set n \<and> CHR ''/'' \<notin> set h \<and> k = Key x docID n h)"
proof -
  obtain docID' n h where k: "CHR ''/'' \<notin> set n" "CHR ''/'' \<notin> set h" "k = Key x docID' n h"
    using s3_invD(3) [OF assms] by blast
  then show ?thesis unfolding k(3) prefix_Key [OF s3_invD(2) [OF assms(1)]]
    using Key_inj [OF s3_invD(2) [OF assms(1)]] by metis
qed

lemma s3_blob_parts:
  assumes "s3_inv cl x objs calm s" "objs s (Key x docID n h) = Some b"
  shows "CHR ''/'' \<notin> set n" "CHR ''/'' \<notin> set h" "hashFromKey (Key x docID n h) = h" "filenameFromKey (Key x docID n h) = n"
proof -
  from s3_invD(3) [OF assms] obtain docID' n' h' where
    "CHR ''/'' \<notin> set n'" "CHR ''/'' \<notin> set h'" "Key x docID n h = Key x docID' n' h'" by blast
  with Key_inj [OF s3_invD(2) [OF assms(1)]] have "n = n'" "h = h'" by blast+
  then show "CHR ''/'' \<notin> set n" "CHR ''/'' \<notin> set h" using \<open>CHR ''/'' \<notin> set n'\<close> \<open>CHR ''/'' \<notin> set h'\<close> by auto
  then show "hashFromKey (Key x docID n h) = h" "filenameFromKey (Key x docID n h) = n"
    using hash_of_Key [OF s3_invD(2) [OF assms(1)]] by auto
qed

lemma s3_no_prefix:
  assumes "s3_inv cl x objs calm s"
  shows "(\<forall>k\<in>dom (objs s). \<not> prefix (doc_prefix x docID) k) \<longleftrightarrow> s3_blobs x objs s docID = Map.empty"
proof
  assume no: "\<forall>k\<in>dom (objs s). \<not> prefix (doc_prefix x docID) k"
  have "objs s (Key x docID n h) = None" for n h
    using no prefix_Key [OF s3_invD(2) [OF assms]] by (metis domI not_None_eq)
  then show "s3_blobs x objs s docID = Map.empty" by (auto simp: s3_blobs_def fun_eq_iff)
next
  assume none: "s3_blobs x objs s docID = Map.empty"
  show "\<forall>k\<in>dom (objs s). \<not> prefix (doc_prefix x docID) k"
  proof
    fix k assume "k \<in> dom (objs s)"
    then obtain b where b: "objs s k = Some b" by blast
    have "objs s (Key x docID n h) = None" for n h
      using fun_cong [OF none, of "(n, h)"] by (simp add: s3_blobs_def)
    with b show "\<not> prefix (doc_prefix x docID) k" unfolding s3_prefix [OF assms b] by auto
  qed
qed

text \<open>Deletions under a document's prefix.\<close>

lemma s3_blobs_shrink:
  assumes "s3_inv cl x objs calm s" "shrinks objs K s s'" "\<And>k. k \<in> K \<Longrightarrow> prefix (doc_prefix x docID) k"
  shows "s3_blobs x objs s' = (s3_blobs x objs s)(docID := s3_blobs x objs s' docID)"
    "partly_removed (s3_blobs x objs s docID) {(n, h). Key x docID n h \<in> K} (s3_blobs x objs s' docID)"
proof -
  have "objs s' (Key x docID' n h) = objs s (Key x docID' n h)" if "docID' \<noteq> docID" for docID' n h
    using assms(2,3) that prefix_Key [OF s3_invD(2) [OF assms(1)]] unfolding shrinks_def by metis
  then show "s3_blobs x objs s' = (s3_blobs x objs s)(docID := s3_blobs x objs s' docID)"
    by (auto simp: s3_blobs_def fun_eq_iff)
  show "partly_removed (s3_blobs x objs s docID) {(n, h). Key x docID n h \<in> K} (s3_blobs x objs s' docID)"
    using assms(2) by (auto simp: partly_removed_def s3_blobs_def shrinks_def)
qed

lemma partly_removed_mono: "partly_removed old A now \<Longrightarrow> A \<subseteq> B \<Longrightarrow> partly_removed old B now"
  unfolding partly_removed_def by blast

lemma s3_put_files:
  assumes "s3_inv cl x objs calm s" "s3_put_files cl x docID files acc s = (r, s')"
  shows "s3_inv cl x objs calm s' \<and> (\<exists>files'. set files' \<subseteq> set files \<and> (\<forall>f\<in>set files'. readable f)
      \<and> s3_blobs x objs s' = (s3_blobs x objs s)(docID := s3_blobs x objs s docID ++ file_blobs x files')
      \<and> (\<forall>infos. r = Inr infos \<longrightarrow> files' = files \<and> infos = acc @ map (stored_info x) files))
    \<and> (calm s \<longrightarrow> calm s' \<and> ((\<forall>f\<in>set files. readable f \<and> CHR ''/'' \<notin> set (FileName f)) \<longrightarrow> (\<exists>infos. r = Inr infos)))"
  using assms
proof (induction cl x docID files acc s rule: s3_put_files.induct)
  case (1 cl x docID acc s)
  then show ?case by (intro conjI exI [of _ "[]"]) (auto simp: file_blobs_def)
next
  case (2 cl x docID f files acc s)
  have nil: "file_blobs x [] = Map.empty" by (simp add: file_blobs_def)
  show ?case
  proof (cases "CHR ''/'' \<in> set (FileName f) \<or> (\<exists>e. FileData f = Inl e)")
    case True
    with "2.prems" have "s' = s" "\<exists>e. r = Inl e" by (auto split: sum.splits if_splits)
    with "2.prems"(1) True show ?thesis
      by (intro conjI exI [of _ "[]"]) (auto simp: nil readable_def)
  next
    case False
    then obtain b where b: "FileData f = Inr b" and n: "CHR ''/'' \<notin> set (FileName f)"
      by (cases "FileData f") auto
    let ?h = "ContentHash x b"
    obtain r1 s1 where put: "PutObject cl (Key x docID (FileName f) ?h) b s = (r1, s1)" by fastforce
    have x: "CHR ''/'' \<notin> set ?h" using s3_invD(2) [OF "2.prems"(1)] by (simp add: id_text_ok_def)
    have key: "FileName f = fst (FileName f, ?h)" by simp
    have one: "file_blobs x [f] = [(FileName f, ?h) \<mapsto> b]" by (simp add: file_blobs_def b)
    from s3_put [OF s3_invD(1) [OF "2.prems"(1)] put]
    consider (stored) "objs s1 = (objs s)(Key x docID (FileName f) ?h \<mapsto> b)" | (failed) "r1 \<noteq> None" "objs s1 = objs s" by blast
    then have s1: "s3_inv cl x objs calm s1 \<and> (s3_blobs x objs s1 = (s3_blobs x objs s)(docID := s3_blobs x objs s docID ++ file_blobs x [f])
        \<or> r1 \<noteq> None \<and> s3_blobs x objs s1 = s3_blobs x objs s)"
    proof cases
      case stored
      with s3_inv_put [OF "2.prems"(1) stored n x] s3_blobs_put [OF "2.prems"(1) stored n x] one show ?thesis by simp
    next
      case failed
      with s3_inv_same [OF "2.prems"(1)] s3_blobs_same [OF failed(2)] show ?thesis by simp
    qed
    have calm1: "calm s \<Longrightarrow> r1 = None \<and> calm s1" using s3_put(2) [OF s3_invD(1) [OF "2.prems"(1)] put] .
    have rd: "readable f" using b by (simp add: readable_def)
    show ?thesis
    proof (cases r1)
      case (Some e)
      with "2.prems"(2) put b n have r: "r = Inl e" "s' = s1" by (simp_all add: Let_def)
      have "\<exists>files'. set files' \<subseteq> set (f # files) \<and> (\<forall>f\<in>set files'. readable f)
          \<and> s3_blobs x objs s' = (s3_blobs x objs s)(docID := s3_blobs x objs s docID ++ file_blobs x files')"
        using s1
      proof (elim conjE disjE)
        assume "s3_blobs x objs s1 = (s3_blobs x objs s)(docID := s3_blobs x objs s docID ++ file_blobs x [f])"
        with rd show ?thesis by (intro exI [of _ "[f]"]) (simp add: r(2))
      next
        assume "s3_blobs x objs s1 = s3_blobs x objs s"
        then show ?thesis by (intro exI [of _ "[]"]) (simp add: nil r(2))
      qed
      then obtain files' where "set files' \<subseteq> set (f # files)" "\<forall>f\<in>set files'. readable f"
        "s3_blobs x objs s' = (s3_blobs x objs s)(docID := s3_blobs x objs s docID ++ file_blobs x files')" by blast
      with r conjunct1 [OF s1] calm1 Some show ?thesis by (intro conjI impI exI [of _ files']) auto
    next
      case None
      let ?acc = "acc @ [\<lparr>Name = FileName f, Size = FileSize f, Hash = ?h\<rparr>]"
      from None "2.prems"(2) put b n have rest: "s3_put_files cl x docID files ?acc s1 = (r, s')"
        by (simp add: Let_def)
      from s1 None have inv1: "s3_inv cl x objs calm s1"
        and b1: "s3_blobs x objs s1 = (s3_blobs x objs s)(docID := s3_blobs x objs s docID ++ file_blobs x [f])" by auto
      from "2.IH" [OF n b refl put [symmetric] None inv1 rest] obtain files' where
        IH: "s3_inv cl x objs calm s'" "set files' \<subseteq> set files" "\<forall>f\<in>set files'. readable f"
        "s3_blobs x objs s' = (s3_blobs x objs s1)(docID := s3_blobs x objs s1 docID ++ file_blobs x files')"
        "\<forall>infos. r = Inr infos \<longrightarrow> files' = files \<and> infos = ?acc @ map (stored_info x) files"
        "calm s1 \<longrightarrow> calm s' \<and> ((\<forall>f\<in>set files. readable f \<and> CHR ''/'' \<notin> set (FileName f)) \<longrightarrow> (\<exists>infos. r = Inr infos))"
        by blast
      have "file_blobs x (f # files') = file_blobs x [f] ++ file_blobs x files'"
        by (simp add: file_blobs_def)
      then have "s3_blobs x objs s' = (s3_blobs x objs s)(docID := s3_blobs x objs s docID ++ file_blobs x (f # files'))"
        using IH(4) b1 by (simp add: map_add_assoc)
      moreover have "stored_info x f = \<lparr>Name = FileName f, Size = FileSize f, Hash = ?h\<rparr>"
        by (simp add: stored_info_def b)
      ultimately show ?thesis
        using IH(1,2,3,5,6) rd calm1 by (intro conjI exI [of _ "f # files'"]) auto
    qed
  qed
qed

lemma partly_written_add: "partly_written old new (old ++ new)"
  by (auto simp: partly_written_def map_add_def split: option.splits)

lemma s3_delete_document:
  assumes inv: "s3_inv cl x objs calm s" and run: "s3_DeleteDocument cl x docID s = (r, s')"
  shows "s3_inv cl x objs calm s'" "s3_blobs x objs s' = (s3_blobs x objs s)(docID := s3_blobs x objs s' docID)"
    "partly_removed (s3_blobs x objs s docID) UNIV (s3_blobs x objs s' docID)"
    "r = None \<Longrightarrow> s3_blobs x objs s docID \<noteq> Map.empty \<and> s3_blobs x objs s' docID = Map.empty"
    "calm s \<Longrightarrow> calm s' \<and> s3_blobs x objs s' docID = Map.empty
       \<and> r = (if s3_blobs x objs s docID = Map.empty then Some (ErrDocumentNotFound docID) else None)"
proof -
  obtain q where q: "deletePrefix cl (doc_prefix x docID) s = (q, s')"
    and r: "r = (case q of Inl e \<Rightarrow> Some e | Inr n \<Rightarrow> if n = 0 then Some (ErrDocumentNotFound docID) else None)"
    using run by (auto simp: s3_DeleteDocument_def split: sum.splits prod.splits)
  note dp = deletePrefix [OF s3_invD(1) [OF inv] q]
  note sh = s3_blobs_shrink [OF inv dp(1), where docID = docID]
  show "s3_inv cl x objs calm s'" using inv dp(1) by (rule s3_inv_shrinks)
  show "s3_blobs x objs s' = (s3_blobs x objs s)(docID := s3_blobs x objs s' docID)" using sh(1) by simp
  show "partly_removed (s3_blobs x objs s docID) UNIV (s3_blobs x objs s' docID)"
    using sh(2) by (rule partly_removed_mono) auto
  have gone: "s3_blobs x objs s' docID = Map.empty" if "q = Inr n" for n
  proof -
    have "objs s' (Key x docID m h) = None" for m h
      using dp(2) [OF that] prefix_Key [OF s3_invD(2) [OF inv], of docID docID m h] shrinks_None [OF dp(1)]
      by (cases "objs s (Key x docID m h)") auto
    then show ?thesis by (auto simp: s3_blobs_def fun_eq_iff)
  qed
  have cnt: "n = 0 \<longleftrightarrow> s3_blobs x objs s docID = Map.empty" if "q = Inr n" for n
    using dp(3) [OF that] s3_no_prefix [OF inv] by simp
  show "r = None \<Longrightarrow> s3_blobs x objs s docID \<noteq> Map.empty \<and> s3_blobs x objs s' docID = Map.empty"
    using r gone cnt by (auto split: sum.splits if_splits)
  show "calm s \<Longrightarrow> calm s' \<and> s3_blobs x objs s' docID = Map.empty
       \<and> r = (if s3_blobs x objs s docID = Map.empty then Some (ErrDocumentNotFound docID) else None)"
    using dp(4) gone cnt r by auto
qed

lemma s3_listed:
  assumes inv: "s3_inv cl x objs calm s" and run: "listObjectKeys cl (doc_prefix x docID) s = Inr keys"
  shows "k \<in> set keys \<longleftrightarrow> (\<exists>n h. (n, h) \<in> dom (s3_blobs x objs s docID) \<and> k = Key x docID n h)"
proof -
  have "k \<in> set keys \<longleftrightarrow> k \<in> dom (objs s) \<and> prefix (doc_prefix x docID) k"
    using listObjectKeys(1) [OF s3_invD(1) [OF inv] run] by blast
  also have "\<dots> \<longleftrightarrow> (\<exists>n h. objs s (Key x docID n h) \<noteq> None \<and> k = Key x docID n h)"
    using s3_prefix [OF inv, of k] prefix_Key [OF s3_invD(2) [OF inv], of docID docID] by (metis domIff not_None_eq)
  finally show ?thesis by (simp add: s3_blobs_def domIff)
qed

lemma s3_listed_hash:
  assumes inv: "s3_inv cl x objs calm s" and run: "listObjectKeys cl (doc_prefix x docID) s = Inr keys"
  shows "k \<in> set (filterKeysByHash keys hs) \<longleftrightarrow>
    (\<exists>n h. (n, h) \<in> dom (s3_blobs x objs s docID) \<and> h \<in> set hs \<and> k = Key x docID n h)"
  unfolding filterKeysByHash_def set_filter mem_Collect_eq s3_listed [OF assms]
  using s3_blob_parts(3) [OF inv] by (fastforce simp: s3_blobs_def)

lemma s3_delete_hashes:
  assumes inv: "s3_inv cl x objs calm s" and run: "s3_DeleteDocumentHashes cl x docID hs s = (r, s')"
  shows "s3_inv cl x objs calm s'" "s3_blobs x objs s' = (s3_blobs x objs s)(docID := s3_blobs x objs s' docID)"
    "partly_removed (s3_blobs x objs s docID) {(n, h). h \<in> set hs} (s3_blobs x objs s' docID)"
    "r = None \<Longrightarrow> h \<in> set hs \<Longrightarrow> s3_blobs x objs s' docID (n, h) = None"
    "calm s \<Longrightarrow> calm s' \<and> r = (if s3_blobs x objs s docID = Map.empty then Some (ErrDocumentNotFound docID) else None)"
proof -
  let ?P = "s3_inv cl x objs calm s' \<and> s3_blobs x objs s' = (s3_blobs x objs s)(docID := s3_blobs x objs s' docID)
    \<and> partly_removed (s3_blobs x objs s docID) {(n, h). h \<in> set hs} (s3_blobs x objs s' docID)
    \<and> (r = None \<longrightarrow> (\<forall>n h. h \<in> set hs \<longrightarrow> s3_blobs x objs s' docID (n, h) = None))
    \<and> (calm s \<longrightarrow> calm s' \<and> r = (if s3_blobs x objs s docID = Map.empty then Some (ErrDocumentNotFound docID) else None))"
  have ?P
  proof (cases "listObjectKeys cl (doc_prefix x docID) s")
    case (Inl e)
    with run have "r = Some e" "s' = s" by (simp_all add: s3_DeleteDocumentHashes_def)
    moreover have "\<not> calm s" using Inl listObjectKeys(2) [OF s3_invD(1) [OF inv]] by (metis sum.distinct(1))
    ultimately show ?thesis using inv by (simp add: partly_removed_def)
  next
    case (Inr keys)
    note keys = s3_listed [OF inv Inr] and del = s3_listed_hash [OF inv Inr, of _ hs]
    have empty: "keys = [] \<longleftrightarrow> s3_blobs x objs s docID = Map.empty"
    proof -
      have "keys = [] \<longleftrightarrow> (\<forall>k. k \<notin> set keys)" by (cases keys) auto
      also have "\<dots> \<longleftrightarrow> (\<forall>n h. (n, h) \<notin> dom (s3_blobs x objs s docID))" unfolding keys by blast
      also have "\<dots> \<longleftrightarrow> s3_blobs x objs s docID = Map.empty" by (auto simp: fun_eq_iff dom_def)
      finally show ?thesis .
    qed
    let ?ks = "filterKeysByHash keys hs"
    have kept: "s3_blobs x objs s docID (n, h) = None" if "Key x docID n h \<notin> set ?ks" "h \<in> set hs" for n h
      using that del [of "Key x docID n h"] by blast
    show ?thesis
    proof (cases "keys = [] \<or> ?ks = []")
      case True
      with run Inr have s': "s' = s" and r: "r = (if keys = [] then Some (ErrDocumentNotFound docID) else None)"
        by (auto simp: s3_DeleteDocumentHashes_def split: if_splits)
      have "s3_blobs x objs s docID (n, h) = None" if "keys \<noteq> []" "h \<in> set hs" for n h
        using kept [of n h] that True by simp
      with s' r inv empty show ?thesis by (auto simp: partly_removed_def)
    next
      case False
      with run Inr have dk: "deleteObjectKeys cl ?ks s = (r, s')" by (simp add: s3_DeleteDocumentHashes_def)
      note dp = deleteObjectKeys [OF s3_invD(1) [OF inv] dk]
      have pre: "prefix (doc_prefix x docID) k" if "k \<in> set ?ks" for k
        using that unfolding del using prefix_Key [OF s3_invD(2) [OF inv]] by auto
      note sh = s3_blobs_shrink [OF inv conjunct1 [OF dp] pre]
      have "partly_removed (s3_blobs x objs s docID) {(n, h). h \<in> set hs} (s3_blobs x objs s' docID)"
        unfolding partly_removed_def
      proof (intro allI)
        fix k :: "string \<times> string"
        obtain n h where k: "k = (n, h)" by fastforce
        show "s3_blobs x objs s' docID k = s3_blobs x objs s docID k \<or>
            s3_blobs x objs s' docID k = None \<and> k \<in> {(n, h). h \<in> set hs}"
        proof (cases "objs s (Key x docID n h)")
          case None
          with shrinks_None [OF conjunct1 [OF dp]] k show ?thesis by (simp add: s3_blobs_def)
        next
          case (Some b)
          have "h \<in> set hs" if "Key x docID n h \<in> set ?ks"
            using that s3_blob_parts(3) [OF inv Some] by (simp add: filterKeysByHash_def)
          with k conjunct1 [OF dp] show ?thesis by (auto simp: s3_blobs_def shrinks_def)
        qed
      qed
      moreover have "s3_blobs x objs s' docID (n, h) = None" if "r = None" "h \<in> set hs" for n h
        using that dp kept [of n h] shrinks_None [OF conjunct1 [OF dp], of "Key x docID n h"]
        by (cases "Key x docID n h \<in> set ?ks") (auto simp: s3_blobs_def)
      ultimately show ?thesis
        using s3_inv_shrinks [OF inv conjunct1 [OF dp]] sh(1) dp empty False by auto
    qed
  qed
  then show "s3_inv cl x objs calm s'" "s3_blobs x objs s' = (s3_blobs x objs s)(docID := s3_blobs x objs s' docID)"
    "partly_removed (s3_blobs x objs s docID) {(n, h). h \<in> set hs} (s3_blobs x objs s' docID)"
    "r = None \<Longrightarrow> h \<in> set hs \<Longrightarrow> s3_blobs x objs s' docID (n, h) = None"
    "calm s \<Longrightarrow> calm s' \<and> r = (if s3_blobs x objs s docID = Map.empty then Some (ErrDocumentNotFound docID) else None)"
    by blast+
qed

lemma s3_exists:
  assumes inv: "s3_inv cl x objs calm s"
  shows "s3_DocumentExists cl x docID s = Inr found \<Longrightarrow> found \<longleftrightarrow> s3_blobs x objs s docID \<noteq> Map.empty"
    "calm s \<Longrightarrow> s3_DocumentExists cl x docID s = Inr (s3_blobs x objs s docID \<noteq> Map.empty)"
proof -
  note l = s3_list1 [OF s3_invD(1) [OF inv]] and none = s3_no_prefix [OF inv, of docID]
  show found: "found \<longleftrightarrow> s3_blobs x objs s docID \<noteq> Map.empty" if "s3_DocumentExists cl x docID s = Inr found" for found
    using that none l(1) [of "doc_prefix x docID" s] by (auto simp: s3_DocumentExists_def split: sum.splits)
  show "s3_DocumentExists cl x docID s = Inr (s3_blobs x objs s docID \<noteq> Map.empty)" if c: "calm s"
  proof -
    obtain ks where "ListObjectsV2 cl (doc_prefix x docID) 1 s = Inr ks" using l(2) [OF c] by blast
    then have "s3_DocumentExists cl x docID s = Inr (ks \<noteq> [])" by (simp add: s3_DocumentExists_def)
    with found show ?thesis by simp
  qed
qed

lemma s3_get_file:
  assumes inv: "s3_inv cl x objs calm s"
  shows "get_document_file cl docID n k s = Inr b \<Longrightarrow> objs s k = Some b"
    "calm s \<Longrightarrow> get_document_file cl docID n k s =
       (case objs s k of None \<Rightarrow> Inl (ErrDocumentFileNotFound docID n) | Some b \<Rightarrow> Inr b)"
proof -
  note g = s3_get [OF s3_invD(1) [OF inv]]
  show "get_document_file cl docID n k s = Inr b \<Longrightarrow> objs s k = Some b"
    using g(1) by (auto simp: get_document_file_def split: sum.splits if_splits)
  show "calm s \<Longrightarrow> get_document_file cl docID n k s =
       (case objs s k of None \<Rightarrow> Inl (ErrDocumentFileNotFound docID n) | Some b \<Rightarrow> Inr b)"
    using g(2,3) [of s k] by (auto simp: get_document_file_def split: option.splits)
qed

lemma s3_provider:
  assumes inv: "s3_inv cl x objs calm s" and run: "s3_DocumentHashFileProvider cl x docID hs s = Inr p"
  shows "provides_hashes (s3_blobs x objs s docID) hs p"
    "calm s \<Longrightarrow> \<exists>h\<in>set hs. (n, h) \<in> dom (s3_blobs x objs s docID) \<Longrightarrow> \<exists>b. ReadFile p n = Inr b"
proof -
  let ?bs = "s3_blobs x objs s docID"
  have "provides_hashes ?bs hs p \<and> (calm s \<longrightarrow> (\<forall>n. (\<exists>h\<in>set hs. (n, h) \<in> dom ?bs) \<longrightarrow> (\<exists>b. ReadFile p n = Inr b)))"
  proof (cases "hs = []")
    case True
    with run have "p = emptyFileProvider docID" by (simp add: s3_DocumentHashFileProvider_def)
    with True show ?thesis by (simp add: provides_hashes_def emptyFileProvider_def)
  next
    case False
    with run obtain keys where keys: "listObjectKeys cl (doc_prefix x docID) s = Inr keys"
      and p: "p = FileProviderFromKeys cl docID (filterKeysByHash keys hs) s"
      by (auto simp: s3_DocumentHashFileProvider_def split: sum.splits)
    let ?ks = "filterKeysByHash keys hs"
    note mem = s3_listed_hash [OF inv keys, of _ hs]
    have name: "filenameFromKey (Key x docID n h) = n" if "(n, h) \<in> dom ?bs" for n h
      using that s3_blob_parts(4) [OF inv] by (auto simp: s3_blobs_def)
    have has: "(\<exists>k\<in>set ?ks. filenameFromKey k = n) \<longleftrightarrow> (\<exists>h\<in>set hs. (n, h) \<in> dom ?bs)" for n
    proof
      assume "\<exists>k\<in>set ?ks. filenameFromKey k = n"
      then obtain k where "k \<in> set ?ks" and k: "filenameFromKey k = n" by blast
      with mem [of k] obtain m h where "(m, h) \<in> dom ?bs" "h \<in> set hs" "filenameFromKey (Key x docID m h) = n"
        by auto
      with name show "\<exists>h\<in>set hs. (n, h) \<in> dom ?bs" by metis
    next
      assume "\<exists>h\<in>set hs. (n, h) \<in> dom ?bs"
      then obtain h where h: "h \<in> set hs" "(n, h) \<in> dom ?bs" by blast
      then have "Key x docID n h \<in> set ?ks" unfolding mem by blast
      with name [OF h(2)] show "\<exists>k\<in>set ?ks. filenameFromKey k = n" by blast
    qed
    have list: "set (filter (\<lambda>n. n \<noteq> []) (map filenameFromKey ?ks)) = {n. n \<noteq> [] \<and> (\<exists>h\<in>set hs. (n, h) \<in> dom ?bs)}"
      unfolding has [symmetric] by auto
    have key: "\<exists>h\<in>set hs. (n, h) \<in> dom ?bs \<and> findKey ?ks n = Key x docID n h" if "findKey ?ks n \<noteq> []" for n
    proof -
      obtain k where k: "find (\<lambda>key. filenameFromKey key = n) ?ks = Some k" "findKey ?ks n = k"
        using \<open>findKey ?ks n \<noteq> []\<close> by (auto simp: findKey_def split: option.splits)
      have "k \<in> set ?ks" "filenameFromKey k = n" using find_SomeD [OF k(1)] by auto
      then obtain m h where "(m, h) \<in> dom ?bs" "h \<in> set hs" "k = Key x docID m h" unfolding mem by blast
      with name \<open>filenameFromKey k = n\<close> k(2) show ?thesis by metis
    qed
    have found: "findKey ?ks n \<noteq> []" if "\<exists>h\<in>set hs. (n, h) \<in> dom ?bs" for n
    proof -
      from that has obtain k where "k \<in> set ?ks" "filenameFromKey k = n" by blast
      then have "find (\<lambda>key. filenameFromKey key = n) ?ks \<noteq> None" by (auto simp: find_None_iff)
      then obtain k' where k': "find (\<lambda>key. filenameFromKey key = n) ?ks = Some k'" by blast
      with find_SomeD [OF k'] mem [of k'] have "\<exists>m h. k' = Key x docID m h" by blast
      then have "k' \<noteq> []" by (auto simp: Key_append)
      with k' show ?thesis by (simp add: findKey_def)
    qed
    have read: "ReadFile p n = (if findKey ?ks n = [] then Inl (ErrDocumentFileNotFound docID n)
        else get_document_file cl docID n (findKey ?ks n) s)" for n
      by (simp add: p FileProviderFromKeys_def Let_def)
    have "\<exists>h\<in>set hs. ?bs (n, h) = Some b" if "ReadFile p n = Inr b" for n b
    proof -
      from that have k: "findKey ?ks n \<noteq> []" and "get_document_file cl docID n (findKey ?ks n) s = Inr b"
        by (auto simp: read split: if_splits)
      with s3_get_file(1) [OF inv] key [OF k] show ?thesis by (fastforce simp: s3_blobs_def)
    qed
    moreover have "\<exists>b. ReadFile p n = Inr b" if "calm s" "\<exists>h\<in>set hs. (n, h) \<in> dom ?bs" for n
      using key [OF found [OF that(2)]] found [OF that(2)] s3_get_file(2) [OF inv that(1)]
      by (auto simp: read s3_blobs_def)
    moreover have "HasFile p n = Inr (\<exists>h\<in>set hs. (n, h) \<in> dom ?bs)" for n
      using has [of n] by (simp add: p FileProviderFromKeys_def list_ex_iff)
    moreover have "ListFiles p = Inr (filter (\<lambda>n. n \<noteq> []) (map filenameFromKey ?ks))"
      by (simp add: p FileProviderFromKeys_def)
    ultimately show ?thesis using list unfolding provides_hashes_def by blast
  qed
  then show "provides_hashes ?bs hs p"
    "calm s \<Longrightarrow> \<exists>h\<in>set hs. (n, h) \<in> dom ?bs \<Longrightarrow> \<exists>b. ReadFile p n = Inr b" by blast+
qed

lemma s3_provider_ok:
  assumes inv: "s3_inv cl x objs calm s" "calm s"
  shows "\<exists>p. s3_DocumentHashFileProvider cl x docID hs s = Inr p"
  using listObjectKeys(2) [OF s3_invD(1) [OF inv(1)] inv(2), of "doc_prefix x docID"]
  by (auto simp: s3_DocumentHashFileProvider_def)

lemma s3_store_ops [simp]:
  "ds_CreateDocumentVersion (s3_store cl x) = s3_CreateDocumentVersion cl x"
  "ds_DocumentExists (s3_store cl x) = s3_DocumentExists cl x"
  "ds_DocumentHashFileProvider (s3_store cl x) = s3_DocumentHashFileProvider cl x"
  "ds_ReadDocumentHashFile (s3_store cl x) = s3_ReadDocumentHashFile cl x"
  "ds_DeleteDocument (s3_store cl x) = s3_DeleteDocument cl x"
  "ds_DeleteDocumentHashes (s3_store cl x) = s3_DeleteDocumentHashes cl x"
  by (simp_all add: s3_store_def)

interpretation s3: document_store x "s3_store cl x" "s3_blobs x objs" "s3_inv cl x objs calm" calm
  for x cl objs calm
proof (unfold_locales, unfold s3_store_ops, goal_cases)
  case (1 d docID v files infos d')
  then show ?case using s3_put_files [OF 1(1), of docID files "[]" "Inr infos" d']
    by (auto simp: s3_CreateDocumentVersion_def)
next
  case (2 d docID v files e d')
  from s3_put_files [OF 2(1), of docID files "[]" "Inl e" d'] 2(2) obtain files' where
    "s3_inv cl x objs calm d'" "set files' \<subseteq> set files" "\<forall>f\<in>set files'. readable f"
    "s3_blobs x objs d' = (s3_blobs x objs d)(docID := s3_blobs x objs d docID ++ file_blobs x files')"
    by (auto simp: s3_CreateDocumentVersion_def)
  then show ?case using partly_written_add by blast
next
  case (3 d docID v files r d')
  then show ?case using s3_put_files [OF 3(1), of docID files "[]" r d']
    by (auto simp: s3_CreateDocumentVersion_def)
next
  case (4 d docID found)
  then show ?case by (rule s3_exists(1))
next
  case (5 d docID)
  then show ?case by (rule s3_exists(2))
next
  case (6 d docID hs p)
  then show ?case by (rule s3_provider(1))
next
  case (7 d docID hs)
  then show ?case using s3_provider_ok [OF 7] s3_provider(2) [OF 7(1) _ 7(2)] by metis
next
  case (8 d docID n h b)
  then show ?case using s3_get_file(1) [OF 8(1)] by (simp add: s3_ReadDocumentHashFile_def s3_blobs_def)
next
  case (9 d docID n h)
  then show ?case using s3_get_file(2) [OF 9] by (simp add: s3_ReadDocumentHashFile_def s3_blobs_def)
next
  case (10 d docID d')
  note dd = s3_delete_document [OF 10]
  have "s3_blobs x objs d' = (s3_blobs x objs d)(docID := Map.empty)"
    by (subst dd(2)) (simp only: dd(4) [OF refl])
  with dd(1) dd(4) [OF refl] show ?case by blast
next
  case (11 d docID e d')
  then show ?case using s3_delete_document(1-3) [OF 11] by blast
next
  case (12 d docID del d')
  note dd = s3_delete_document [OF 12(1,3)] and calm = s3_delete_document(5) [OF 12(1,3,2)]
  have "s3_blobs x objs d' = (s3_blobs x objs d)(docID := Map.empty)"
    by (subst dd(2)) (simp only: calm)
  with calm show ?case by blast
next
  case (13 d docID hs d')
  note dh = s3_delete_hashes [OF 13]
  have "s3_blobs x objs d' docID = (\<lambda>(n, h). if h \<in> set hs then None else s3_blobs x objs d docID (n, h))"
    using dh(3) dh(4) [OF refl] by (auto simp: fun_eq_iff partly_removed_def)
  then have "s3_blobs x objs d' = (s3_blobs x objs d)(docID := (\<lambda>(n, h). if h \<in> set hs then None else s3_blobs x objs d docID (n, h)))"
    by (subst dh(2)) (simp only:)
  with dh(1) show ?case by blast
next
  case (14 d docID hs e d')
  then show ?case using s3_delete_hashes(1-3) [OF 14] by blast
next
  case (15 d docID hs del d')
  then show ?case using s3_delete_hashes(5) [OF 15(1,3)] by simp
qed

end
