(* ===== verification/PgStore.thy ===== *)
theory PgStore
  imports MetadataStore
begin

text \<open>
  \<open>storeconn/pgstore\<close>: the \<open>MetadataStore\<close> over two PostgreSQL tables. A table is the
  list of its rows; the queries and the constraints of \<open>schema/document_version.sql\<close> and
  \<open>schema/document_version_file.sql\<close> are written out over them. What the database and
  the drivers add is a parameter \<open>env\<close>: the statement that fails, the ids \<open>uu.IDv7\<close>
  draws, the text of a \<open>timestamp\<close> and the order of \<open>array_agg(distinct ...)\<close>.
\<close>

record document_version =
  dv_ID :: uuid
  dv_DocumentID :: uuid
  dv_CompanyID :: uuid
  dv_Version :: version_time
  dv_PrevVersion :: "version_time option"
  dv_CommitUserID :: uuid
  dv_CommitReason :: string
  dv_AddedFiles :: "string list"
  dv_RemovedFiles :: "string list"
  dv_ModifiedFiles :: "string list"

record document_version_file =
  dvf_DocumentVersionID :: uuid
  dvf_Name :: string
  dvf_Size :: int
  dvf_Hash :: string

text \<open>\<open>tick\<close> counts the statements that write, so that ids and faults may differ between them.\<close>

record pgdb =
  dv_rows :: "document_version list"
  dvf_rows :: "document_version_file list"
  tick :: nat

datatype pg_stmt =
    Begin | Commit | InsertVersion | InsertFiles | SelectCompanyID | UpdateCompanyID | SelectVersions
  | SelectLatestVersion | SelectCompanyIDs | SelectCompanyDocumentIDs | SelectVersionInfo
  | SelectLatestVersionInfo | SelectExists | DeleteDoc | DeleteVersion

record pg_env =
  db_fault :: "pg_stmt \<Rightarrow> pgdb \<Rightarrow> err option"
  new_id :: "nat \<Rightarrow> uuid"
  version_text :: "version_time \<Rightarrow> string"
  agg_distinct :: "string list \<Rightarrow> string list"

section \<open>Statements\<close>

definition ticked :: "pgdb \<Rightarrow> pgdb" where
  "ticked db = db\<lparr>tick := Suc (tick db)\<rparr>"

text \<open>A query: it fails, or its result is scanned.\<close>

definition run_query :: "pg_env \<Rightarrow> pg_stmt \<Rightarrow> pgdb \<Rightarrow> (err + 'a) \<Rightarrow> err + 'a" where
  "run_query env stmt db res = (case db_fault env stmt db of Some e \<Rightarrow> Inl e | None \<Rightarrow> res)"

text \<open>A \<open>version_time\<close> column is scanned with \<open>VersionTime.Scan\<close> of a \<open>time.Time\<close>.\<close>

definition scan_version :: "version_time \<Rightarrow> version_time" where
  "scan_version v = VersionTimeFrom (Time v)"

text \<open>\<open>db.TransactionResult\<close>: an error of the function or of a statement rolls back.\<close>

definition transaction_result :: "pg_env \<Rightarrow> (pgdb \<Rightarrow> (err + 'a) \<times> pgdb) \<Rightarrow> pgdb \<Rightarrow> (err + 'a) \<times> pgdb" where
  "transaction_result env f db =
     (case db_fault env Begin db of
        Some e \<Rightarrow> (Inl e, db)
      | None \<Rightarrow>
     (case f db of
        (Inl e, db') \<Rightarrow> (Inl e, db\<lparr>tick := tick db'\<rparr>)
      | (Inr res, db') \<Rightarrow>
         (case db_fault env Commit db' of
            Some e \<Rightarrow> (Inl e, db\<lparr>tick := tick db'\<rparr>)
          | None \<Rightarrow> (Inr res, db'))))"

text \<open>The unique constraints of \<open>document_version\<close>: id, document and version, one genesis.\<close>

definition violates_unique :: "document_version list \<Rightarrow> document_version \<Rightarrow> bool" where
  "violates_unique rows row \<longleftrightarrow> list_ex (\<lambda>r. dv_ID r = dv_ID row
     \<or> dv_DocumentID r = dv_DocumentID row \<and> dv_Version r = dv_Version row
     \<or> dv_DocumentID r = dv_DocumentID row \<and> dv_PrevVersion r = None \<and> dv_PrevVersion row = None) rows"

text \<open>The values bound to a statement: \<open>VersionTime.Value\<close> truncates and refuses the zero time.\<close>

definition bind_version_opt :: "version_time option \<Rightarrow> err + version_time option" where
  "bind_version_opt v =
     (case v of
        None \<Rightarrow> Inr None
      | Some w \<Rightarrow> (case VersionTime_Value w of Inl e \<Rightarrow> Inl e | Inr u \<Rightarrow> Inr (Some u)))"

definition insert_version :: "pg_env \<Rightarrow> document_version \<Rightarrow> pgdb \<Rightarrow> (err + unit) \<times> pgdb" where
  "insert_version env row db =
     (case VersionTime_Value (dv_Version row) of
        Inl e \<Rightarrow> (Inl e, db)
      | Inr v \<Rightarrow>
     (case bind_version_opt (dv_PrevVersion row) of
        Inl e \<Rightarrow> (Inl e, db)
      | Inr p \<Rightarrow>
     (case db_fault env InsertVersion db of
        Some e \<Rightarrow> (Inl e, db)
      | None \<Rightarrow>
         (let row' = row\<lparr>dv_Version := v, dv_PrevVersion := p\<rparr>
          in if violates_unique (dv_rows db) row' then (Inl ErrUniqueViolation, db)
             else (Inr (), db\<lparr>dv_rows := dv_rows db @ [row']\<rparr>)))))"

text \<open>The constraints of \<open>document_version_file\<close>, row by row.\<close>

definition check_file :: "document_version_file list \<Rightarrow> document_version_file \<Rightarrow> err option" where
  "check_file rows f =
     (if dvf_Name f = [] \<or> dvf_Size f < 0 \<or> length (dvf_Hash f) \<noteq> 64 then Some (OtherErr ''check constraint violated'')
      else if list_ex (\<lambda>g. dvf_DocumentVersionID g = dvf_DocumentVersionID f \<and> dvf_Name g = dvf_Name f) rows
      then Some ErrUniqueViolation else None)"

fun insert_file_rows :: "document_version_file list \<Rightarrow> document_version_file list \<Rightarrow> err + document_version_file list" where
  "insert_file_rows rows [] = Inr rows"
| "insert_file_rows rows (f # fs) =
     (case check_file rows f of Some e \<Rightarrow> Inl e | None \<Rightarrow> insert_file_rows (rows @ [f]) fs)"

definition insert_files :: "pg_env \<Rightarrow> document_version_file list \<Rightarrow> pgdb \<Rightarrow> (err + unit) \<times> pgdb" where
  "insert_files env fs db =
     (case db_fault env InsertFiles db of
        Some e \<Rightarrow> (Inl e, db)
      | None \<Rightarrow>
         (case insert_file_rows (dvf_rows db) fs of
            Inl e \<Rightarrow> (Inl e, db)
          | Inr rows \<Rightarrow> (Inr (), db\<lparr>dvf_rows := rows\<rparr>)))"

section \<open>Queries\<close>

text \<open>The left join of the two tables.\<close>

definition version_files :: "pgdb \<Rightarrow> document_version \<Rightarrow> document_version_file list" where
  "version_files db r = filter (\<lambda>f. dvf_DocumentVersionID f = dv_ID r) (dvf_rows db)"

definition join_records ::
  "pgdb \<Rightarrow> document_version list \<Rightarrow> (document_version \<times> document_version_file option) list" where
  "join_records db rows = concat (map (\<lambda>r.
     if version_files db r = [] then [(r, None)] else map (\<lambda>f. (r, Some f)) (version_files db r)) rows)"

definition rec_info :: "document_version_file \<Rightarrow> file_info" where
  "rec_info f = \<lparr>Name = dvf_Name f, Size = dvf_Size f, Hash = dvf_Hash f\<rparr>"

text \<open>The result of \<open>DocumentVersionInfo\<close> and \<open>LatestDocumentVersionInfo\<close> from their records.\<close>

definition info_from_records ::
  "uuid \<Rightarrow> (document_version \<times> document_version_file option) list \<Rightarrow> err + version_info" where
  "info_from_records docID records =
     (case records of
        [] \<Rightarrow> Inl (ErrDocumentNotFound docID)
      | (firstRec, _) # _ \<Rightarrow>
         Inr \<lparr>CompanyID = dv_CompanyID firstRec, DocID = dv_DocumentID firstRec,
              Version = scan_version (dv_Version firstRec),
              PrevVersion = map_option scan_version (dv_PrevVersion firstRec),
              CommitUserID = dv_CommitUserID firstRec, CommitReason = dv_CommitReason firstRec,
              Files = put_all dvf_Name rec_info (List.map_filter snd records) [],
              AddedFiles = dv_AddedFiles firstRec, RemovedFiles = dv_RemovedFiles firstRec,
              ModifiedFiles = dv_ModifiedFiles firstRec\<rparr>)"

definition pg_DocumentVersionInfo :: "pg_env \<Rightarrow> uuid \<Rightarrow> version_time \<Rightarrow> pgdb \<Rightarrow> err + version_info" where
  "pg_DocumentVersionInfo env docID version db =
     (case VersionTime_Value version of
        Inl e \<Rightarrow> Inl e
      | Inr v \<Rightarrow>
         run_query env SelectVersionInfo db
           (info_from_records docID
             (join_records db (filter (\<lambda>r. dv_DocumentID r = docID \<and> dv_Version r = v) (dv_rows db)))))"

text \<open>\<open>order by version\<close> over the rows of a document.\<close>

definition doc_rows :: "uuid \<Rightarrow> pgdb \<Rightarrow> document_version list" where
  "doc_rows docID db = sort_key dv_Version (filter (\<lambda>r. dv_DocumentID r = docID) (dv_rows db))"

definition pg_LatestDocumentVersionInfo :: "pg_env \<Rightarrow> uuid \<Rightarrow> pgdb \<Rightarrow> err + version_info" where
  "pg_LatestDocumentVersionInfo env docID db =
     run_query env SelectLatestVersionInfo db
       (info_from_records docID
         (if doc_rows docID db = [] then []
          else join_records db (filter (\<lambda>r. dv_DocumentID r = docID
                 \<and> dv_Version r = dv_Version (last (doc_rows docID db))) (dv_rows db))))"

text \<open>\<open>db.QueryRowAs\<close> with no row is \<open>sql.ErrNoRows\<close>.\<close>

definition pg_DocumentCompanyID :: "pg_env \<Rightarrow> uuid \<Rightarrow> pgdb \<Rightarrow> err + uuid" where
  "pg_DocumentCompanyID env docID db =
     run_query env SelectCompanyID db
       (if doc_rows docID db = [] then Inl SqlErrNoRows else Inr (dv_CompanyID (last (doc_rows docID db))))"

definition pg_LatestDocumentVersion :: "pg_env \<Rightarrow> uuid \<Rightarrow> pgdb \<Rightarrow> err + version_time" where
  "pg_LatestDocumentVersion env docID db =
     run_query env SelectLatestVersion db
       (if doc_rows docID db = [] then Inl SqlErrNoRows
        else Inr (scan_version (dv_Version (last (doc_rows docID db)))))"

definition pg_DocumentVersions :: "pg_env \<Rightarrow> uuid \<Rightarrow> pgdb \<Rightarrow> err + version_time list" where
  "pg_DocumentVersions env docID db =
     run_query env SelectVersions db
       (if doc_rows docID db = [] then Inl (ErrDocumentNotFound docID)
        else Inr (map (scan_version \<circ> dv_Version) (doc_rows docID db)))"

definition pg_CompanyIDs :: "pg_env \<Rightarrow> pgdb \<Rightarrow> err + uuid list" where
  "pg_CompanyIDs env db =
     run_query env SelectCompanyIDs db (Inr (sort (remdups (map dv_CompanyID (dv_rows db)))))"

definition pg_CompanyDocumentIDs :: "pg_env \<Rightarrow> uuid \<Rightarrow> pgdb \<Rightarrow> err + uuid list" where
  "pg_CompanyDocumentIDs env companyID db =
     run_query env SelectCompanyDocumentIDs db
       (Inr (sort (remdups (map dv_DocumentID (filter (\<lambda>r. dv_CompanyID r = companyID) (dv_rows db))))))"

section \<open>Writes\<close>

definition pg_SetDocumentCompanyID :: "pg_env \<Rightarrow> uuid \<Rightarrow> uuid \<Rightarrow> pgdb \<Rightarrow> err option \<times> pgdb" where
  "pg_SetDocumentCompanyID env docID companyID db =
     (case db_fault env UpdateCompanyID db of
        Some e \<Rightarrow> (Some e, ticked db)
      | None \<Rightarrow>
         (if filter (\<lambda>r. dv_DocumentID r = docID) (dv_rows db) = [] then Some (ErrDocumentNotFound docID) else None,
          ticked (db\<lparr>dv_rows := map (\<lambda>r. if dv_DocumentID r = docID then r\<lparr>dv_CompanyID := companyID\<rparr> else r)
                     (dv_rows db)\<rparr>)))"

text \<open>Deleting versions cascades to their files.\<close>

definition delete_rows :: "(document_version \<Rightarrow> bool) \<Rightarrow> pgdb \<Rightarrow> pgdb" where
  "delete_rows P db =
     db\<lparr>dv_rows := filter (\<lambda>r. \<not> P r) (dv_rows db),
        dvf_rows := filter (\<lambda>f. \<not> list_ex (\<lambda>r. P r \<and> dv_ID r = dvf_DocumentVersionID f) (dv_rows db)) (dvf_rows db)\<rparr>"

definition pg_DeleteDocument :: "pg_env \<Rightarrow> ctx \<Rightarrow> uuid \<Rightarrow> pgdb \<Rightarrow> err option \<times> pgdb" where
  "pg_DeleteDocument env cx docID db =
     (if VersionsExist cx then
        (case db_fault env SelectExists db of
           Some e \<Rightarrow> (Some e, db)
         | None \<Rightarrow>
            (if \<not> list_ex (\<lambda>r. dv_DocumentID r = docID) (dv_rows db) then Some (ErrDocumentNotFound docID) else None, db))
      else
        (case db_fault env DeleteDoc db of
           Some e \<Rightarrow> (Some e, ticked db)
         | None \<Rightarrow>
            (if filter (\<lambda>r. dv_DocumentID r = docID) (dv_rows db) = [] then Some SqlErrNoRows else None,
             ticked (delete_rows (\<lambda>r. dv_DocumentID r = docID) db))))"

definition left_versions :: "uuid \<Rightarrow> version_time \<Rightarrow> pgdb \<Rightarrow> version_time list" where
  "left_versions docID v db = filter (\<lambda>u. u \<noteq> v) (map dv_Version (doc_rows docID db))"

text \<open>Hashes referenced by the version and by no other version of the document.\<close>

definition version_hashes :: "(document_version \<Rightarrow> bool) \<Rightarrow> pgdb \<Rightarrow> string list" where
  "version_hashes P db = concat (map (map dvf_Hash \<circ> version_files db) (filter P (dv_rows db)))"

definition hashes_to_delete :: "uuid \<Rightarrow> version_time \<Rightarrow> pgdb \<Rightarrow> string list" where
  "hashes_to_delete docID v db =
     sort (filter (\<lambda>h. h \<notin> set (version_hashes (\<lambda>r. dv_DocumentID r = docID \<and> dv_Version r \<noteq> v) db))
       (version_hashes (\<lambda>r. dv_DocumentID r = docID \<and> dv_Version r = v) db))"

fun parse_versions :: "string list \<Rightarrow> version_time list \<Rightarrow> err + version_time list" where
  "parse_versions [] acc = Inr acc"
| "parse_versions (s # ss) acc =
     (case VersionTimeFromString s of Inl e \<Rightarrow> Inl e | Inr v \<Rightarrow> parse_versions ss (acc @ [v]))"

text \<open>
  One statement computes the three results on the same snapshot and, unless the versions
  are assumed to exist, deletes; the texts of the remaining versions are parsed after it.
\<close>

definition pg_DeleteDocumentVersion ::
  "pg_env \<Rightarrow> ctx \<Rightarrow> uuid \<Rightarrow> version_time \<Rightarrow> pgdb \<Rightarrow> (err + version_time list \<times> string list) \<times> pgdb" where
  "pg_DeleteDocumentVersion env cx docID version db =
     (case VersionTime_Value version of
        Inl e \<Rightarrow> (Inl e, db)
      | Inr v \<Rightarrow>
     (case db_fault env DeleteVersion db of
        Some e \<Rightarrow> (Inl e, if VersionsExist cx then db else ticked db)
      | None \<Rightarrow>
     (let target = (\<lambda>r. dv_DocumentID r = docID \<and> dv_Version r = v);
          db' = (if VersionsExist cx then db else ticked (delete_rows target db))
      in if length (filter target (dv_rows db)) = 0 then (Inl (ErrDocumentNotFound docID), db')
         else (case parse_versions (agg_distinct env (map (version_text env) (left_versions docID v db))) [] of
                 Inl e \<Rightarrow> (Inl e, db')
               | Inr leftVersions \<Rightarrow> (Inr (leftVersions, agg_distinct env (hashes_to_delete docID v db)), db')))))"

section \<open>CreateDocumentVersion\<close>

definition assertStoredVersionEquals :: "pg_env \<Rightarrow> version_info \<Rightarrow> pgdb \<Rightarrow> err option" where
  "assertStoredVersionEquals env expected db =
     (case pg_DocumentVersionInfo env (DocID expected) (Version expected) db of
        Inl e \<Rightarrow> Some (Errorf ''assumed document version to exist in the MetadataStore'' [e])
      | Inr stored \<Rightarrow>
         if \<not> VersionInfo_Equal (Some stored) (Some expected) then
           Some (Errorf ''stored document version does not match what would have been inserted'' [])
         else None)"

definition namesFromFileInfos :: "file_info list \<Rightarrow> string list" where
  "namesFromFileInfos files = map Name files"

text \<open>The full file set of the new version.\<close>

definition new_version_files :: "pg_env \<Rightarrow> create_document_version_input \<Rightarrow> pgdb \<Rightarrow> err + (string, file_info) gomap" where
  "new_version_files env inp db =
     (case in_Files inp of
        Some files \<Rightarrow> Inr files
      | None \<Rightarrow>
         (case (case in_PreviousVersion inp of
                  None \<Rightarrow> Inr []
                | Some p \<Rightarrow>
                   (case pg_DocumentVersionInfo env (in_DocID inp) p db of
                      Inl e \<Rightarrow> Inl (Errorf ''cannot carry files forward into document version'' [e])
                    | Inr prevInfo \<Rightarrow> Inr (Files prevInfo))) of
            Inl e \<Rightarrow> Inl e
          | Inr carried \<Rightarrow>
             Inr (put_all Name id (in_ModifiedFiles inp)
                   (put_all Name id (in_AddedFiles inp) (del_all (in_RemovedFiles inp) carried)))))"

definition create_version_tx ::
  "pg_env \<Rightarrow> ctx \<Rightarrow> create_document_version_input \<Rightarrow> pgdb \<Rightarrow> (err + version_info) \<times> pgdb" where
  "create_version_tx env cx inp db =
     (case new_version_files env inp db of
        Inl e \<Rightarrow> (Inl e, db)
      | Inr files \<Rightarrow>
     (let addedFilenames = namesFromFileInfos (in_AddedFiles inp);
          modifiedFilenames = namesFromFileInfos (in_ModifiedFiles inp);
          info = \<lparr>CompanyID = in_CompanyID inp, DocID = in_DocID inp, Version = in_NewVersion inp,
                  PrevVersion = in_PreviousVersion inp, CommitUserID = in_UserID inp,
                  CommitReason = in_Reason inp, Files = files, AddedFiles = addedFilenames,
                  RemovedFiles = in_RemovedFiles inp, ModifiedFiles = modifiedFilenames\<rparr>
      in if VersionsExist cx then
           (case assertStoredVersionEquals env info db of Some e \<Rightarrow> (Inl e, db) | None \<Rightarrow> (Inr info, db))
         else
     (let versionID = new_id env (tick db)
      in case insert_version env
           \<lparr>dv_ID = versionID, dv_DocumentID = in_DocID inp, dv_CompanyID = in_CompanyID inp,
            dv_Version = in_NewVersion inp, dv_PrevVersion = in_PreviousVersion inp,
            dv_CommitUserID = in_UserID inp, dv_CommitReason = in_Reason inp,
            dv_AddedFiles = addedFilenames, dv_RemovedFiles = in_RemovedFiles inp,
            dv_ModifiedFiles = modifiedFilenames\<rparr> (ticked db) of
        (Inl e, db1) \<Rightarrow>
          (if errors_As is_UniqueViolation e then
             (if in_PreviousVersion inp = None then Inl (ErrDocumentAlreadyExists (in_DocID inp))
              else Inl (ErrVersionAlreadyExists (in_DocID inp) (in_NewVersion inp)))
           else Inl e, db1)
      | (Inr _, db1) \<Rightarrow>
     (case insert_files env
             (map (\<lambda>fi. \<lparr>dvf_DocumentVersionID = versionID, dvf_Name = Name fi, dvf_Size = Size fi,
                         dvf_Hash = Hash fi\<rparr>) (map snd files)) db1 of
        (Inl e, db2) \<Rightarrow> (Inl e, db2)
      | (Inr _, db2) \<Rightarrow> (Inr info, db2)))))"

definition pg_CreateDocumentVersion ::
  "pg_env \<Rightarrow> ctx \<Rightarrow> create_document_version_input \<Rightarrow> pgdb \<Rightarrow> (err + version_info) \<times> pgdb" where
  "pg_CreateDocumentVersion env cx inp db = transaction_result env (create_version_tx env cx inp) db"

definition pg_store :: "pg_env \<Rightarrow> pgdb metadata_store" where
  "pg_store env =
     \<lparr>ms_CreateDocumentVersion = pg_CreateDocumentVersion env,
      ms_DocumentCompanyID = pg_DocumentCompanyID env,
      ms_SetDocumentCompanyID = pg_SetDocumentCompanyID env,
      ms_DocumentVersions = pg_DocumentVersions env,
      ms_LatestDocumentVersion = pg_LatestDocumentVersion env,
      ms_CompanyIDs = pg_CompanyIDs env,
      ms_CompanyDocumentIDs = pg_CompanyDocumentIDs env,
      ms_DocumentVersionInfo = pg_DocumentVersionInfo env,
      ms_LatestDocumentVersionInfo = pg_LatestDocumentVersionInfo env,
      ms_DeleteDocument = pg_DeleteDocument env,
      ms_DeleteDocumentVersion = pg_DeleteDocumentVersion env\<rparr>"

end
