(* ===== verification/PgLaws.thy ===== *)
theory PgLaws
  imports PgStore
begin

text \<open>
  The invariant of the two tables, the versions they represent, and the proof that
  pgstore meets the contract of a \<open>MetadataStore\<close> outside of its versions-exist mode.
\<close>

section \<open>The invariant and the view\<close>

definition version_key :: "document_version \<Rightarrow> uuid \<times> version_time" where
  "version_key r = (dv_DocumentID r, dv_Version r)"

definition file_key :: "document_version_file \<Rightarrow> uuid \<times> string" where
  "file_key f = (dvf_DocumentVersionID f, dvf_Name f)"

definition stored_time :: "version_time \<Rightarrow> bool" where
  "stored_time v \<longleftrightarrow> ms_trunc v = v"

definition pg_ok :: "pgdb \<Rightarrow> bool" where
  "pg_ok db \<longleftrightarrow>
     distinct (map dv_ID (dv_rows db)) \<and> distinct (map version_key (dv_rows db)) \<and>
     (\<forall>r\<in>set (dv_rows db). stored_time (dv_Version r) \<and> (\<forall>p. dv_PrevVersion r = Some p \<longrightarrow> stored_time p)) \<and>
     (\<forall>r\<in>set (dv_rows db). \<forall>q\<in>set (dv_rows db).
        dv_DocumentID r = dv_DocumentID q \<longrightarrow> dv_PrevVersion r = None \<longrightarrow> dv_PrevVersion q = None \<longrightarrow> r = q) \<and>
     distinct (map file_key (dvf_rows db)) \<and>
     (\<forall>f\<in>set (dvf_rows db). dvf_DocumentVersionID f \<in> dv_ID ` set (dv_rows db) \<and> storable_file (rec_info f))"

definition row_info :: "pgdb \<Rightarrow> document_version \<Rightarrow> version_info" where
  "row_info db r =
     \<lparr>CompanyID = dv_CompanyID r, DocID = dv_DocumentID r, Version = dv_Version r,
      PrevVersion = dv_PrevVersion r, CommitUserID = dv_CommitUserID r, CommitReason = dv_CommitReason r,
      Files = map (\<lambda>f. (dvf_Name f, rec_info f)) (version_files db r), AddedFiles = dv_AddedFiles r,
      RemovedFiles = dv_RemovedFiles r, ModifiedFiles = dv_ModifiedFiles r\<rparr>"

definition pg_view :: "pgdb \<Rightarrow> meta_view" where
  "pg_view db docID v = map_option (row_info db) (find (\<lambda>r. version_key r = (docID, v)) (dv_rows db))"

definition pg_env_spec :: "pg_env \<Rightarrow> bool" where
  "pg_env_spec env \<longleftrightarrow>
     (\<forall>ss. set (agg_distinct env ss) = set ss) \<and>
     (\<forall>stmt db e. db_fault env stmt db = Some e \<longrightarrow> foreign_err e)"

definition pg_inv :: "pg_env \<Rightarrow> pgdb \<Rightarrow> bool" where
  "pg_inv env db \<longleftrightarrow> pg_env_spec env \<and> pg_ok db"

definition pg_calm :: "pg_env \<Rightarrow> pgdb \<Rightarrow> bool" where
  "pg_calm env db \<longleftrightarrow> (\<forall>stmt db. db_fault env stmt db = None)"

text \<open>The id the next version row gets is not in use.\<close>

definition pg_room :: "pg_env \<Rightarrow> pgdb \<Rightarrow> bool" where
  "pg_room env db \<longleftrightarrow> new_id env (tick db) \<notin> dv_ID ` set (dv_rows db)"

lemma pg_okD:
  assumes "pg_ok db"
  shows "distinct (map dv_ID (dv_rows db))" "distinct (map version_key (dv_rows db))"
    "r \<in> set (dv_rows db) \<Longrightarrow> stored_time (dv_Version r)"
    "r \<in> set (dv_rows db) \<Longrightarrow> dv_PrevVersion r = Some p \<Longrightarrow> stored_time p"
    "distinct (map file_key (dvf_rows db))"
    "f \<in> set (dvf_rows db) \<Longrightarrow> dvf_DocumentVersionID f \<in> dv_ID ` set (dv_rows db)"
    "f \<in> set (dvf_rows db) \<Longrightarrow> storable_file (rec_info f)"
  using assms unfolding pg_ok_def by blast+

lemma version_key_inj:
  "pg_ok db \<Longrightarrow> r \<in> set (dv_rows db) \<Longrightarrow> q \<in> set (dv_rows db) \<Longrightarrow> version_key r = version_key q \<Longrightarrow> r = q"
  using pg_okD(2) [of db] by (auto simp: distinct_map dest: inj_onD)

lemma pg_ok_genesis:
  "pg_ok db \<Longrightarrow> r \<in> set (dv_rows db) \<Longrightarrow> q \<in> set (dv_rows db) \<Longrightarrow> dv_DocumentID r = dv_DocumentID q \<Longrightarrow>
     dv_PrevVersion r = None \<Longrightarrow> dv_PrevVersion q = None \<Longrightarrow> r = q"
  unfolding pg_ok_def by blast

lemma scan_stored [simp]: "stored_time v \<Longrightarrow> scan_version v = v"
  by (cases v) (simp add: stored_time_def scan_version_def VersionTimeFrom_def)

lemma Value_cases:
  obtains (zero) e where "Time v = 0" "VersionTime_Value v = Inl e"
  | (nonzero) "Time v \<noteq> 0" "VersionTime_Value v = Inr (ms_trunc v)"
  by (cases "Time v = 0") (auto simp: VersionTime_Value_def VersionTime_Validate_def IsZero_def)

lemma pg_ok_cong:
  "dv_rows db' = dv_rows db \<Longrightarrow> dvf_rows db' = dvf_rows db \<Longrightarrow> pg_ok db' \<longleftrightarrow> pg_ok db"
  by (simp add: pg_ok_def)

lemma pg_view_cong:
  assumes "dv_rows db' = dv_rows db" "dvf_rows db' = dvf_rows db"
  shows "pg_view db' = pg_view db"
proof -
  have "row_info db' = row_info db" using assms by (simp add: row_info_def version_files_def fun_eq_iff)
  with assms show ?thesis by (intro ext) (simp only: pg_view_def)
qed

lemma ticked_rows [simp]:
  "dv_rows (ticked db) = dv_rows db" "dvf_rows (ticked db) = dvf_rows db" "tick (ticked db) = Suc (tick db)"
  by (simp_all add: ticked_def)

lemma pg_ticked [simp]: "pg_ok (ticked db) \<longleftrightarrow> pg_ok db" "pg_view (ticked db) = pg_view db"
  by (simp add: pg_ok_def) (rule pg_view_cong; simp)

lemma pg_view_row: "pg_ok db \<Longrightarrow> r \<in> set (dv_rows db) \<Longrightarrow> pg_view db (dv_DocumentID r) (dv_Version r) = Some (row_info db r)"
  using find_unique [of version_key "dv_rows db" r] by (simp add: pg_view_def pg_okD version_key_def)

lemma pg_view_Some:
  "pg_view db docID v = Some info \<longleftrightarrow> (\<exists>r. find (\<lambda>r. version_key r = (docID, v)) (dv_rows db) = Some r \<and> info = row_info db r)"
  by (auto simp: pg_view_def)

lemma pg_view_SomeD:
  "pg_view db docID v = Some info \<Longrightarrow>
     \<exists>r\<in>set (dv_rows db). dv_DocumentID r = docID \<and> dv_Version r = v \<and> info = row_info db r"
  by (auto simp: pg_view_Some version_key_def dest!: find_SomeD)

lemma pg_view_None: "pg_view db docID v = None \<longleftrightarrow> (\<forall>r\<in>set (dv_rows db). \<not> (dv_DocumentID r = docID \<and> dv_Version r = v))"
  by (auto simp: pg_view_def find_None_iff version_key_def)

lemma dom_pg_view: "dom (pg_view db docID) = dv_Version ` {r \<in> set (dv_rows db). dv_DocumentID r = docID}"
proof -
  have "v \<in> dom (pg_view db docID) \<longleftrightarrow> v \<in> dv_Version ` {r \<in> set (dv_rows db). dv_DocumentID r = docID}" for v
    unfolding domIff pg_view_None by blast
  then show ?thesis by blast
qed

lemma pg_filter_version:
  "pg_ok db \<Longrightarrow> r \<in> set (dv_rows db) \<Longrightarrow>
     filter (\<lambda>q. dv_DocumentID q = dv_DocumentID r \<and> dv_Version q = dv_Version r) (dv_rows db) = [r]"
  using filter_unique [of version_key "dv_rows db" r] by (simp add: pg_okD version_key_def)

lemma version_files_distinct: "pg_ok db \<Longrightarrow> distinct (map dvf_Name (version_files db r))"
proof -
  assume "pg_ok db"
  then have "distinct (map file_key (version_files db r))"
    unfolding version_files_def by (intro distinct_map_filter pg_okD)
  then show ?thesis
    by (auto simp: distinct_map inj_on_def version_files_def file_key_def)
qed

lemma row_info_sel [simp]:
  "Version (row_info db r) = dv_Version r" "DocID (row_info db r) = dv_DocumentID r"
  "CompanyID (row_info db r) = dv_CompanyID r" "PrevVersion (row_info db r) = dv_PrevVersion r"
  "Files (row_info db r) = map (\<lambda>f. (dvf_Name f, rec_info f)) (version_files db r)"
  by (simp_all add: row_info_def)

lemma row_info_wf: "pg_ok db \<Longrightarrow> wf_files (Files (row_info db r))"
  using version_files_distinct [of db r] by (auto simp: wf_files_def rec_info_def o_def)

lemma pg_view_wf: "pg_ok db \<Longrightarrow> wf_view (pg_view db)"
  unfolding wf_view_def using row_info_wf pg_okD(3)
  by (auto dest!: pg_view_SomeD simp: stored_time_def)

lemma pg_view_finite: "finite (dom (pg_view db docID))"
  by (simp add: dom_pg_view)

section \<open>Queries\<close>

lemma map_filter_snd_Some: "List.map_filter snd (map (\<lambda>f. (r, Some f)) fs) = fs"
  by (induction fs) (auto simp: List.map_filter_simps)

lemma info_from_row:
  assumes "pg_ok db" "r \<in> set (dv_rows db)"
  shows "info_from_records docID (join_records db [r]) = Inr (row_info db r)"
proof -
  have "map_option scan_version (dv_PrevVersion r) = dv_PrevVersion r"
    using pg_okD(4) [OF assms] by (cases "dv_PrevVersion r") auto
  moreover have "put_all dvf_Name rec_info (version_files db r) [] = map (\<lambda>f. (dvf_Name f, rec_info f)) (version_files db r)"
    by (rule put_all_distinct) (rule version_files_distinct [OF assms(1)])
  ultimately show ?thesis
    using pg_okD(3) [OF assms] map_filter_snd_Some [of r "version_files db r"]
    by (cases "version_files db r")
      (auto simp: join_records_def info_from_records_def row_info_def List.map_filter_simps)
qed

lemma pg_DocumentVersionInfo:
  assumes "pg_ok db"
  shows "pg_DocumentVersionInfo env docID v db = Inr info \<Longrightarrow> pg_view db docID (ms_trunc v) = Some info"
    "db_fault env SelectVersionInfo db = None \<Longrightarrow> Time v \<noteq> 0 \<Longrightarrow> pg_view db docID (ms_trunc v) = Some info \<Longrightarrow>
       pg_DocumentVersionInfo env docID v db = Inr info"
    "db_fault env SelectVersionInfo db = None \<Longrightarrow> Time v \<noteq> 0 \<Longrightarrow> pg_view db docID (ms_trunc v) = None \<Longrightarrow>
       pg_DocumentVersionInfo env docID v db = Inl (ErrDocumentNotFound docID)"
proof -
  let ?rows = "filter (\<lambda>r. dv_DocumentID r = docID \<and> dv_Version r = ms_trunc v) (dv_rows db)"
  have none: "?rows = [] \<longleftrightarrow> pg_view db docID (ms_trunc v) = None"
    by (simp add: pg_view_None filter_empty_conv)
  have some: "info_from_records docID (join_records db ?rows) = Inr i" if hyp: "pg_view db docID (ms_trunc v) = Some i" for i
  proof -
    obtain r where r: "r \<in> set (dv_rows db)" "dv_DocumentID r = docID" "dv_Version r = ms_trunc v" "i = row_info db r"
      using pg_view_SomeD [OF hyp] by blast
    with pg_filter_version [OF assms r(1)] have "?rows = [r]" by simp
    with info_from_row [OF assms r(1)] r(4) show ?thesis by simp
  qed
  show "pg_view db docID (ms_trunc v) = Some info" if "pg_DocumentVersionInfo env docID v db = Inr info"
  proof (cases "pg_view db docID (ms_trunc v)")
    case None
    with that none show ?thesis
      by (cases v rule: Value_cases) (auto simp: pg_DocumentVersionInfo_def run_query_def info_from_records_def
          join_records_def split: option.splits)
  next
    case (Some i)
    with that some [OF Some] show ?thesis
      by (cases v rule: Value_cases) (auto simp: pg_DocumentVersionInfo_def run_query_def split: option.splits)
  qed
  show "pg_DocumentVersionInfo env docID v db = Inr info"
    if "db_fault env SelectVersionInfo db = None" "Time v \<noteq> 0" "pg_view db docID (ms_trunc v) = Some info"
    using that some [OF that(3)]
    by (cases v rule: Value_cases) (auto simp: pg_DocumentVersionInfo_def run_query_def)
  show "pg_DocumentVersionInfo env docID v db = Inl (ErrDocumentNotFound docID)"
    if "db_fault env SelectVersionInfo db = None" "Time v \<noteq> 0" "pg_view db docID (ms_trunc v) = None"
    using that none
    by (cases v rule: Value_cases) (auto simp: pg_DocumentVersionInfo_def run_query_def info_from_records_def join_records_def)
qed

lemma set_doc_rows [simp]: "set (doc_rows docID db) = {r \<in> set (dv_rows db). dv_DocumentID r = docID}"
  by (auto simp: doc_rows_def)

lemma doc_rows_Nil: "doc_rows docID db = [] \<longleftrightarrow> pg_view db docID = Map.empty"
proof -
  have "doc_rows docID db = [] \<longleftrightarrow> set (doc_rows docID db) = {}" by (simp only: set_empty)
  also have "\<dots> \<longleftrightarrow> dom (pg_view db docID) = {}" unfolding dom_pg_view set_doc_rows by blast
  finally show ?thesis by simp
qed

lemma doc_rows_sorted: "sorted (map dv_Version (doc_rows docID db))"
  by (simp add: doc_rows_def)

lemma doc_rows_distinct: "pg_ok db \<Longrightarrow> distinct (map dv_Version (doc_rows docID db))"
proof -
  assume "pg_ok db"
  then have "distinct (map version_key (filter (\<lambda>r. dv_DocumentID r = docID) (dv_rows db)))"
    by (intro distinct_map_filter pg_okD)
  then have "distinct (map dv_Version (filter (\<lambda>r. dv_DocumentID r = docID) (dv_rows db)))"
    by (auto simp: distinct_map inj_on_def version_key_def)
  then show ?thesis by (simp add: doc_rows_def distinct_map)
qed

lemma doc_rows_last:
  assumes "pg_ok db" "doc_rows docID db \<noteq> []"
  defines "r \<equiv> last (doc_rows docID db)"
  shows "r \<in> set (dv_rows db)" "dv_DocumentID r = docID" "latest (pg_view db docID) (dv_Version r)"
    "pg_view db docID (dv_Version r) = Some (row_info db r)"
proof -
  have "r \<in> set (doc_rows docID db)" unfolding r_def using assms(2) by (rule last_in_set)
  then show r: "r \<in> set (dv_rows db)" "dv_DocumentID r = docID" unfolding set_doc_rows by blast+
  then show view: "pg_view db docID (dv_Version r) = Some (row_info db r)"
    using pg_view_row [OF assms(1)] by blast
  have "v \<le> dv_Version r" if "v \<in> dom (pg_view db docID)" for v
  proof -
    have "v \<in> set (map dv_Version (doc_rows docID db))" using that by (auto simp: dom_pg_view)
    then have "v \<le> last (map dv_Version (doc_rows docID db))" by (rule sorted_le_last [OF doc_rows_sorted])
    then show ?thesis using assms(2) by (simp add: r_def last_map)
  qed
  with view show "latest (pg_view db docID) (dv_Version r)" by (auto simp: latest_def)
qed

lemma pg_LatestDocumentVersionInfo:
  assumes "pg_ok db"
  shows "pg_LatestDocumentVersionInfo env docID db = Inr info \<Longrightarrow>
      latest (pg_view db docID) (Version info) \<and> pg_view db docID (Version info) = Some info"
    "db_fault env SelectLatestVersionInfo db = None \<Longrightarrow> pg_view db docID \<noteq> Map.empty \<Longrightarrow>
       \<exists>info. pg_LatestDocumentVersionInfo env docID db = Inr info"
proof -
  let ?r = "last (doc_rows docID db)"
  have one: "info_from_records docID (join_records db (filter (\<lambda>r. dv_DocumentID r = docID \<and> dv_Version r = dv_Version ?r)
      (dv_rows db))) = Inr (row_info db ?r)" if "doc_rows docID db \<noteq> []"
    using pg_filter_version [OF assms doc_rows_last(1) [OF assms that]] doc_rows_last(2) [OF assms that]
      info_from_row [OF assms doc_rows_last(1) [OF assms that]] by simp
  show "latest (pg_view db docID) (Version info) \<and> pg_view db docID (Version info) = Some info"
    if "pg_LatestDocumentVersionInfo env docID db = Inr info"
    using that one doc_rows_last [OF assms, of docID]
    by (auto simp: pg_LatestDocumentVersionInfo_def run_query_def info_from_records_def
        split: option.splits if_splits)
  show "\<exists>info. pg_LatestDocumentVersionInfo env docID db = Inr info"
    if "db_fault env SelectLatestVersionInfo db = None" "pg_view db docID \<noteq> Map.empty"
    using that one by (auto simp: pg_LatestDocumentVersionInfo_def run_query_def doc_rows_Nil)
qed

lemma pg_DocumentVersions:
  assumes "pg_ok db"
  shows "pg_DocumentVersions env docID db = Inr vs \<Longrightarrow>
      sorted vs \<and> distinct vs \<and> set vs = dom (pg_view db docID) \<and> vs \<noteq> []"
    "db_fault env SelectVersions db = None \<Longrightarrow> pg_view db docID \<noteq> Map.empty \<Longrightarrow> \<exists>vs. pg_DocumentVersions env docID db = Inr vs"
proof -
  have scan: "map (scan_version \<circ> dv_Version) (doc_rows docID db) = map dv_Version (doc_rows docID db)"
    using pg_okD(3) [OF assms] by (intro map_cong) auto
  have "set (map dv_Version (doc_rows docID db)) = dom (pg_view db docID)" by (auto simp: dom_pg_view)
  then show "pg_DocumentVersions env docID db = Inr vs \<Longrightarrow>
      sorted vs \<and> distinct vs \<and> set vs = dom (pg_view db docID) \<and> vs \<noteq> []"
    using doc_rows_sorted [of docID db] doc_rows_distinct [OF assms, of docID]
    by (auto simp: pg_DocumentVersions_def run_query_def scan split: option.splits if_splits)
  show "db_fault env SelectVersions db = None \<Longrightarrow> pg_view db docID \<noteq> Map.empty \<Longrightarrow> \<exists>vs. pg_DocumentVersions env docID db = Inr vs"
    by (simp add: pg_DocumentVersions_def run_query_def doc_rows_Nil)
qed

lemma pg_LatestDocumentVersion:
  assumes "pg_ok db" "pg_LatestDocumentVersion env docID db = Inr v"
  shows "latest (pg_view db docID) v"
  using assms doc_rows_last [OF assms(1), of docID] pg_okD(3) [OF assms(1)]
  by (auto simp: pg_LatestDocumentVersion_def run_query_def split: option.splits if_splits)

lemma pg_DocumentCompanyID:
  assumes "pg_ok db"
  shows "pg_DocumentCompanyID env docID db = Inr c \<Longrightarrow>
      \<exists>v info. latest (pg_view db docID) v \<and> pg_view db docID v = Some info \<and> CompanyID info = c"
    "db_fault env SelectCompanyID db = None \<Longrightarrow> pg_view db docID \<noteq> Map.empty \<Longrightarrow> \<exists>c. pg_DocumentCompanyID env docID db = Inr c"
proof -
  show "\<exists>v info. latest (pg_view db docID) v \<and> pg_view db docID v = Some info \<and> CompanyID info = c"
    if "pg_DocumentCompanyID env docID db = Inr c"
  proof -
    have "doc_rows docID db \<noteq> []" "c = dv_CompanyID (last (doc_rows docID db))"
      using that by (auto simp: pg_DocumentCompanyID_def run_query_def split: option.splits if_splits)
    then show ?thesis using doc_rows_last(3,4) [OF assms] by (metis row_info_sel(3))
  qed
  show "db_fault env SelectCompanyID db = None \<Longrightarrow> pg_view db docID \<noteq> Map.empty \<Longrightarrow> \<exists>c. pg_DocumentCompanyID env docID db = Inr c"
    by (simp add: pg_DocumentCompanyID_def run_query_def doc_rows_Nil)
qed

lemma pg_view_ex:
  assumes "pg_ok db"
  shows "(\<exists>docID v info. pg_view db docID v = Some info \<and> P docID info) \<longleftrightarrow>
    (\<exists>r\<in>set (dv_rows db). P (dv_DocumentID r) (row_info db r))"
proof
  assume "\<exists>docID v info. pg_view db docID v = Some info \<and> P docID info"
  then obtain docID v info where i: "pg_view db docID v = Some info" "P docID info" by blast
  from pg_view_SomeD [OF i(1)] i(2) show "\<exists>r\<in>set (dv_rows db). P (dv_DocumentID r) (row_info db r)" by blast
next
  assume "\<exists>r\<in>set (dv_rows db). P (dv_DocumentID r) (row_info db r)"
  then obtain r where "r \<in> set (dv_rows db)" "P (dv_DocumentID r) (row_info db r)" by blast
  with pg_view_row [OF assms this(1)] show "\<exists>docID v info. pg_view db docID v = Some info \<and> P docID info" by blast
qed

lemma pg_CompanyIDs:
  assumes "pg_ok db" "pg_CompanyIDs env db = Inr cs"
  shows "sorted cs \<and> distinct cs \<and> set cs = {CompanyID info | docID v info. pg_view db docID v = Some info}"
proof -
  have "cs = sort (remdups (map dv_CompanyID (dv_rows db)))"
    using assms(2) by (auto simp: pg_CompanyIDs_def run_query_def split: option.splits)
  moreover have "c \<in> {CompanyID info | docID v info. pg_view db docID v = Some info} \<longleftrightarrow> c \<in> dv_CompanyID ` set (dv_rows db)" for c
    using pg_view_ex [OF assms(1), of "\<lambda>_ info. c = CompanyID info"] by auto
  ultimately show ?thesis by auto
qed

lemma pg_CompanyDocumentIDs:
  assumes "pg_ok db" "pg_CompanyDocumentIDs env c db = Inr ids"
  shows "sorted ids \<and> distinct ids \<and> set ids = {docID. \<exists>v info. pg_view db docID v = Some info \<and> CompanyID info = c}"
proof -
  have "ids = sort (remdups (map dv_DocumentID (filter (\<lambda>r. dv_CompanyID r = c) (dv_rows db))))"
    using assms(2) by (auto simp: pg_CompanyDocumentIDs_def run_query_def split: option.splits)
  moreover have "(\<exists>v info. pg_view db docID v = Some info \<and> CompanyID info = c) \<longleftrightarrow>
      docID \<in> dv_DocumentID ` {r \<in> set (dv_rows db). dv_CompanyID r = c}" for docID
    using pg_view_ex [OF assms(1), of "\<lambda>d info. d = docID \<and> CompanyID info = c"] by auto
  ultimately show ?thesis by auto
qed

section \<open>Writes\<close>

lemma pg_SetDocumentCompanyID:
  assumes "pg_ok db" "pg_SetDocumentCompanyID env docID c db = (r, db')"
  shows "pg_ok db'"
    "r = None \<Longrightarrow> pg_view db docID \<noteq> Map.empty
       \<and> pg_view db' = (pg_view db)(docID := (\<lambda>v. map_option (CompanyID_update (\<lambda>_. c)) (pg_view db docID v)))"
    "r \<noteq> None \<Longrightarrow> pg_view db' = pg_view db"
    "tick db' = Suc (tick db)" "dv_ID ` set (dv_rows db') = dv_ID ` set (dv_rows db)"
proof -
  define f where "f q = (if dv_DocumentID q = docID then q\<lparr>dv_CompanyID := c\<rparr> else q)" for q :: document_version
  let ?db = "db\<lparr>dv_rows := map f (dv_rows db)\<rparr>"
  have f [simp]: "dv_ID (f q) = dv_ID q" "version_key (f q) = version_key q" "dv_Version (f q) = dv_Version q"
    "dv_PrevVersion (f q) = dv_PrevVersion q" "dv_DocumentID (f q) = dv_DocumentID q" for q :: document_version
    by (simp_all add: f_def version_key_def)
  have maps: "map dv_ID (map f (dv_rows db)) = map dv_ID (dv_rows db)"
    "map version_key (map f (dv_rows db)) = map version_key (dv_rows db)"
    "dv_ID ` set (map f (dv_rows db)) = dv_ID ` set (dv_rows db)"
    by (simp_all add: o_def image_image)
  have ok: "pg_ok ?db"
    unfolding pg_ok_def
    using assms(1) [unfolded pg_ok_def] by (auto simp: o_def image_image)
  have info: "row_info ?db (f q) = (if dv_DocumentID q = docID then CompanyID_update (\<lambda>_. c) (row_info db q) else row_info db q)" for q
    by (simp add: row_info_def version_files_def) (simp add: f_def)
  have view: "pg_view ?db d v = (if d = docID then map_option (CompanyID_update (\<lambda>_. c)) (pg_view db d v) else pg_view db d v)" for d v
  proof -
    have "find (\<lambda>q. version_key q = (d, v)) (map f xs) = map_option f (find (\<lambda>q. version_key q = (d, v)) xs)" for xs
      by (induction xs) auto
    then have view: "pg_view ?db d v = map_option (row_info ?db) (map_option f (find (\<lambda>q. version_key q = (d, v)) (dv_rows db)))"
      by (simp add: pg_view_def)
    show ?thesis
    proof (cases "find (\<lambda>q. version_key q = (d, v)) (dv_rows db)")
      case (Some q)
      then have "dv_DocumentID q = d" using find_SomeD [OF Some] by (simp add: version_key_def)
      with Some view info [of q] show ?thesis by (cases "d = docID") (simp_all add: pg_view_def)
    next
      case None
      with view show ?thesis by (cases "d = docID") (simp_all add: pg_view_def)
    qed
  qed
  have none: "filter (\<lambda>q. dv_DocumentID q = docID) (dv_rows db) = [] \<longleftrightarrow> pg_view db docID = Map.empty"
    using dom_pg_view [of db docID] by (auto simp: filter_empty_conv)
  have same: "pg_view ?db = pg_view db" if "pg_view db docID = Map.empty"
    using that by (auto simp: fun_eq_iff view)
  have run: "r = (case db_fault env UpdateCompanyID db of Some e \<Rightarrow> Some e
      | None \<Rightarrow> if pg_view db docID = Map.empty then Some (ErrDocumentNotFound docID) else None)"
    "db' = ticked (if db_fault env UpdateCompanyID db = None then ?db else db)"
    using assms(2) by (auto simp: pg_SetDocumentCompanyID_def none f_def cong: map_cong split: option.splits)
  show "pg_ok db'" "tick db' = Suc (tick db)" "dv_ID ` set (dv_rows db') = dv_ID ` set (dv_rows db)"
    using run(2) ok assms(1) maps(3) by auto
  show "r = None \<Longrightarrow> pg_view db docID \<noteq> Map.empty
       \<and> pg_view db' = (pg_view db)(docID := (\<lambda>v. map_option (CompanyID_update (\<lambda>_. c)) (pg_view db docID v)))"
    using run view by (auto simp: fun_eq_iff split: option.splits if_splits)
  show "r \<noteq> None \<Longrightarrow> pg_view db' = pg_view db"
    using run same by (auto split: option.splits if_splits)
qed

text \<open>Deleting rows with their files.\<close>

lemma delete_rows:
  assumes "pg_ok db"
  shows "pg_ok (delete_rows P db)"
    "pg_view (delete_rows P db) docID v =
      (case find (\<lambda>r. version_key r = (docID, v)) (dv_rows db) of
         None \<Rightarrow> None | Some r \<Rightarrow> if P r then None else Some (row_info db r))"
proof -
  let ?db = "delete_rows P db"
  have ids: "r = q" if "r \<in> set (dv_rows db)" "q \<in> set (dv_rows db)" "dv_ID r = dv_ID q" for r q
    using pg_okD(1) [OF assms] that by (auto simp: distinct_map inj_on_def)
  have gone: "list_ex (\<lambda>r. P r \<and> dv_ID r = dvf_DocumentVersionID f) (dv_rows db) \<longleftrightarrow> P r"
    if "r \<in> set (dv_rows db)" "dv_ID r = dvf_DocumentVersionID f" for r f
    using that ids by (auto simp: list_ex_iff) metis+
  have rows: "dv_rows ?db = filter (\<lambda>r. \<not> P r) (dv_rows db)"
    "set (dvf_rows ?db) \<subseteq> set (dvf_rows db)" by (auto simp: delete_rows_def)
  have fk: "dvf_DocumentVersionID f \<in> dv_ID ` set (dv_rows ?db)" if "f \<in> set (dvf_rows ?db)" for f
  proof -
    have "f \<in> set (dvf_rows db)" using that rows(2) by blast
    from pg_okD(6) [OF assms this] obtain r where r: "r \<in> set (dv_rows db)" "dv_ID r = dvf_DocumentVersionID f"
      by auto
    moreover have "\<not> P r" using that gone [OF r] by (simp add: delete_rows_def)
    ultimately show ?thesis by (force simp: rows)
  qed
  have dist: "distinct (map dv_ID (dv_rows ?db))" "distinct (map version_key (dv_rows ?db))"
    "distinct (map file_key (dvf_rows ?db))"
    using pg_okD(1,2,5) [OF assms] by (auto simp: delete_rows_def intro: distinct_map_filter)
  show "pg_ok ?db"
    using assms dist fk rows unfolding pg_ok_def by auto
  have files: "version_files ?db r = version_files db r" if "r \<in> set (dv_rows db)" "\<not> P r" for r
  proof -
    have "(dvf_DocumentVersionID f = dv_ID r \<and> \<not> list_ex (\<lambda>r. P r \<and> dv_ID r = dvf_DocumentVersionID f) (dv_rows db))
        \<longleftrightarrow> dvf_DocumentVersionID f = dv_ID r" for f
      using gone [OF that(1), of f] that(2) by auto
    moreover have "dvf_rows ?db = filter (\<lambda>f. \<not> list_ex (\<lambda>r. P r \<and> dv_ID r = dvf_DocumentVersionID f) (dv_rows db)) (dvf_rows db)"
      by (simp add: delete_rows_def)
    ultimately show ?thesis
      unfolding version_files_def by (simp only: filter_filter) (intro filter_cong [OF refl], blast)
  qed
  have info: "row_info ?db r = row_info db r" if "r \<in> set (dv_rows db)" "\<not> P r" for r
    using files [OF that] by (simp add: row_info_def)
  show "pg_view ?db docID v =
      (case find (\<lambda>r. version_key r = (docID, v)) (dv_rows db) of
         None \<Rightarrow> None | Some r \<Rightarrow> if P r then None else Some (row_info db r))"
  proof (cases "find (\<lambda>r. version_key r = (docID, v)) (dv_rows db)")
    case None
    then have "find (\<lambda>r. version_key r = (docID, v)) (dv_rows ?db) = None" by (simp add: rows find_None_iff)
    with None show ?thesis by (simp add: pg_view_def)
  next
    case (Some r)
    from find_SomeD [OF Some] have r: "r \<in> set (dv_rows db)" "version_key r = (docID, v)" by auto
    show ?thesis
    proof (cases "P r")
      case True
      have "version_key q \<noteq> (docID, v)" if "q \<in> set (dv_rows db)" "\<not> P q" for q
        using that True r(2) version_key_inj [OF assms r(1) that(1)] by metis
      then have "find (\<lambda>r. version_key r = (docID, v)) (dv_rows ?db) = None"
        unfolding rows find_None_iff by auto
      with Some True show ?thesis by (simp add: pg_view_def)
    next
      case False
      have "find (\<lambda>r. version_key r = (docID, v)) (dv_rows ?db) = Some r"
        using find_unique [OF dist(2), of r] r False by (simp add: rows)
      with Some False info [OF r(1) False] show ?thesis by (simp add: pg_view_def)
    qed
  qed
qed

lemma delete_rows_ids: "dv_ID ` set (dv_rows (delete_rows P db)) \<subseteq> dv_ID ` set (dv_rows db)"
  "tick (delete_rows P db) = tick db"
  by (auto simp: delete_rows_def)

lemma delete_rows_doc:
  assumes "pg_ok db"
  shows "pg_view (delete_rows (\<lambda>r. dv_DocumentID r = docID) db) = (pg_view db)(docID := Map.empty)"
proof (intro ext)
  fix d v
  show "pg_view (delete_rows (\<lambda>r. dv_DocumentID r = docID) db) d v = ((pg_view db)(docID := Map.empty)) d v"
    by (subst delete_rows(2) [OF assms])
      (auto simp: pg_view_def version_key_def split: option.splits dest!: find_SomeD)
qed

lemma delete_rows_version:
  assumes "pg_ok db"
  shows "pg_view (delete_rows (\<lambda>r. dv_DocumentID r = docID \<and> dv_Version r = ms_trunc v) db) = drop_version (pg_view db) docID v"
proof (intro ext)
  fix d w
  show "pg_view (delete_rows (\<lambda>r. dv_DocumentID r = docID \<and> dv_Version r = ms_trunc v) db) d w
      = drop_version (pg_view db) docID v d w"
    by (subst delete_rows(2) [OF assms])
      (auto simp: pg_view_def version_key_def drop_version_def split: option.splits dest!: find_SomeD)
qed

lemma doc_filter_Nil: "filter (\<lambda>r. dv_DocumentID r = docID) (dv_rows db) = [] \<longleftrightarrow> pg_view db docID = Map.empty"
  using dom_pg_view [of db docID] by (auto simp: filter_empty_conv)

lemma pg_DeleteDocument:
  assumes "pg_ok db" "\<not> VersionsExist cx" "pg_DeleteDocument env cx docID db = (r, db')"
  shows "pg_ok db'" "r = None \<Longrightarrow> pg_view db docID \<noteq> Map.empty \<and> pg_view db' = (pg_view db)(docID := Map.empty)"
    "r \<noteq> None \<Longrightarrow> pg_view db' = pg_view db"
    "db_fault env DeleteDoc db = None \<Longrightarrow> pg_view db docID \<noteq> Map.empty \<Longrightarrow> r = None"
    "dv_ID ` set (dv_rows db') \<subseteq> dv_ID ` set (dv_rows db)" "tick db' = Suc (tick db)"
proof -
  let ?db = "delete_rows (\<lambda>r. dv_DocumentID r = docID) db"
  have run: "r = (case db_fault env DeleteDoc db of Some e \<Rightarrow> Some e
      | None \<Rightarrow> if pg_view db docID = Map.empty then Some SqlErrNoRows else None)"
    "db' = ticked (if db_fault env DeleteDoc db = None then ?db else db)"
    using assms(2,3) by (auto simp: pg_DeleteDocument_def doc_filter_Nil split: option.splits)
  have same: "pg_view ?db = pg_view db" if "pg_view db docID = Map.empty"
    using that by (auto simp: delete_rows_doc [OF assms(1)])
  show "pg_ok db'" using run(2) assms(1) delete_rows(1) by auto
  show "r = None \<Longrightarrow> pg_view db docID \<noteq> Map.empty \<and> pg_view db' = (pg_view db)(docID := Map.empty)"
    using run delete_rows_doc [OF assms(1)] by (auto split: option.splits if_splits)
  show "r \<noteq> None \<Longrightarrow> pg_view db' = pg_view db"
    using run same by (auto split: option.splits if_splits)
  show "db_fault env DeleteDoc db = None \<Longrightarrow> pg_view db docID \<noteq> Map.empty \<Longrightarrow> r = None" using run by simp
  show "dv_ID ` set (dv_rows db') \<subseteq> dv_ID ` set (dv_rows db)" "tick db' = Suc (tick db)"
    using run(2) delete_rows_ids [of "\<lambda>r. dv_DocumentID r = docID" db] by auto
qed

lemma set_version_hashes:
  assumes "pg_ok db"
  shows "set (version_hashes P db) = \<Union> ((\<lambda>r. hashes_of (row_info db r)) ` {r \<in> set (dv_rows db). P r})"
proof -
  have "hashes_of (row_info db r) = dvf_Hash ` set (version_files db r)" for r
  proof -
    have "ran (map_of (map (\<lambda>f. (dvf_Name f, rec_info f)) (version_files db r))) = rec_info ` set (version_files db r)"
      by (subst ran_distinct) (use version_files_distinct [OF assms, of r] in \<open>auto simp: o_def image_image\<close>)
    then show ?thesis by (simp add: hashes_of_def image_image rec_info_def)
  qed
  then show ?thesis by (auto simp: version_hashes_def)
qed

lemma ran_drop_version:
  assumes "pg_ok db"
  shows "ran (drop_version (pg_view db) docID v docID) =
    row_info db ` {r \<in> set (dv_rows db). dv_DocumentID r = docID \<and> dv_Version r \<noteq> ms_trunc v}"
proof (intro set_eqI iffI)
  fix i assume "i \<in> ran (drop_version (pg_view db) docID v docID)"
  then obtain w where "w \<noteq> ms_trunc v" "pg_view db docID w = Some i" by (auto simp: ran_def split: if_splits)
  with pg_view_SomeD [OF this(2)]
  show "i \<in> row_info db ` {r \<in> set (dv_rows db). dv_DocumentID r = docID \<and> dv_Version r \<noteq> ms_trunc v}" by blast
next
  fix i assume "i \<in> row_info db ` {r \<in> set (dv_rows db). dv_DocumentID r = docID \<and> dv_Version r \<noteq> ms_trunc v}"
  then obtain r where r: "r \<in> set (dv_rows db)" "dv_DocumentID r = docID" "dv_Version r \<noteq> ms_trunc v" "i = row_info db r"
    by blast
  with pg_view_row [OF assms r(1)] have "drop_version (pg_view db) docID v docID (dv_Version r) = Some i" by simp
  then show "i \<in> ran (drop_version (pg_view db) docID v docID)" by (rule ranI)
qed

lemma pg_hashes_to_delete:
  assumes "pg_ok db" "pg_view db docID (ms_trunc v) = Some info"
  shows "set (hashes_to_delete docID (ms_trunc v) db) =
    hashes_of info - \<Union> (hashes_of ` ran (drop_version (pg_view db) docID v docID))"
proof -
  obtain r where r: "r \<in> set (dv_rows db)" "dv_DocumentID r = docID" "dv_Version r = ms_trunc v" "info = row_info db r"
    using pg_view_SomeD [OF assms(2)] by blast
  have one: "{q \<in> set (dv_rows db). dv_DocumentID q = docID \<and> dv_Version q = ms_trunc v} = {r}"
  proof -
    have "q = r" if "q \<in> set (dv_rows db)" "dv_DocumentID q = docID" "dv_Version q = ms_trunc v" for q
      using version_key_inj [OF assms(1) that(1) r(1)] that r by (simp add: version_key_def)
    with r show ?thesis by blast
  qed
  have "set (hashes_to_delete docID (ms_trunc v) db) =
      set (version_hashes (\<lambda>r. dv_DocumentID r = docID \<and> dv_Version r = ms_trunc v) db) -
      set (version_hashes (\<lambda>r. dv_DocumentID r = docID \<and> dv_Version r \<noteq> ms_trunc v) db)"
    unfolding hashes_to_delete_def by (simp only: set_sort set_filter) blast
  then show ?thesis
    unfolding ran_drop_version [OF assms(1)] set_version_hashes [OF assms(1)] one r(4) image_image
    by simp
qed

text \<open>The results of \<open>DeleteDocumentVersion\<close>, in both modes.\<close>

lemma pg_DeleteDocumentVersion_reads:
  assumes "pg_ok db" "pg_env_spec env" "pg_DeleteDocumentVersion env cx docID v db = (r, db')"
  shows "VersionsExist cx \<Longrightarrow> db' = db"
    "r = Inr (left, hashes) \<Longrightarrow> \<exists>info. pg_view db docID (ms_trunc v) = Some info \<and>
       set hashes = hashes_of info - \<Union> (hashes_of ` ran (drop_version (pg_view db) docID v docID))"
    "r = Inr (left, hashes) \<Longrightarrow>
       parse_versions (agg_distinct env (map (version_text env) (left_versions docID (ms_trunc v) db))) [] = Inr left"
proof -
  show "VersionsExist cx \<Longrightarrow> db' = db"
    using assms(3) by (auto simp: pg_DeleteDocumentVersion_def Let_def split: sum.splits option.splits if_splits)
  assume r: "r = Inr (left, hashes)"
  have v: "VersionTime_Value v = Inr (ms_trunc v)"
    using assms(3) r by (cases v rule: Value_cases) (auto simp: pg_DeleteDocumentVersion_def)
  have rows: "filter (\<lambda>r. dv_DocumentID r = docID \<and> dv_Version r = ms_trunc v) (dv_rows db) \<noteq> []"
    and hs: "hashes = agg_distinct env (hashes_to_delete docID (ms_trunc v) db)"
    and left: "parse_versions (agg_distinct env (map (version_text env) (left_versions docID (ms_trunc v) db))) [] = Inr left"
    using assms(3) r v by (auto simp: pg_DeleteDocumentVersion_def Let_def split: option.splits if_splits sum.splits)
  show "parse_versions (agg_distinct env (map (version_text env) (left_versions docID (ms_trunc v) db))) [] = Inr left"
    by (rule left)
  have "pg_view db docID (ms_trunc v) \<noteq> None" using rows unfolding pg_view_None filter_empty_conv by blast
  then obtain info where info: "pg_view db docID (ms_trunc v) = Some info" by blast
  have "set hashes = set (hashes_to_delete docID (ms_trunc v) db)"
    using assms(2) hs by (simp add: pg_env_spec_def)
  with pg_hashes_to_delete [OF assms(1) info] info
  show "\<exists>info. pg_view db docID (ms_trunc v) = Some info \<and>
       set hashes = hashes_of info - \<Union> (hashes_of ` ran (drop_version (pg_view db) docID v docID))" by auto
qed

lemma pg_DeleteDocumentVersion:
  assumes "pg_ok db" "\<not> VersionsExist cx" "pg_env_spec env" "pg_DeleteDocumentVersion env cx docID v db = (r, db')"
  shows "pg_ok db'" "pg_view db' = pg_view db \<or> pg_view db' = drop_version (pg_view db) docID v"
    "r = Inr (left, hashes) \<Longrightarrow> pg_view db' = drop_version (pg_view db) docID v \<and>
       (\<exists>info. pg_view db docID (ms_trunc v) = Some info \<and>
          set hashes = hashes_of info - \<Union> (hashes_of ` ran (pg_view db' docID)))"
    "db_fault env DeleteVersion db = None \<Longrightarrow> Time v \<noteq> 0 \<Longrightarrow> pg_view db' = drop_version (pg_view db) docID v"
    "dv_ID ` set (dv_rows db') \<subseteq> dv_ID ` set (dv_rows db)" "tick db \<le> tick db'"
proof -
  let ?t = "\<lambda>r. dv_DocumentID r = docID \<and> dv_Version r = ms_trunc v"
  let ?P = "pg_ok db' \<and> (pg_view db' = pg_view db \<or> pg_view db' = drop_version (pg_view db) docID v)
    \<and> (\<forall>left hashes. r = Inr (left, hashes) \<longrightarrow> pg_view db' = drop_version (pg_view db) docID v \<and>
        (\<exists>info. pg_view db docID (ms_trunc v) = Some info \<and>
          set hashes = hashes_of info - \<Union> (hashes_of ` ran (pg_view db' docID))))
    \<and> (db_fault env DeleteVersion db = None \<longrightarrow> Time v \<noteq> 0 \<longrightarrow> pg_view db' = drop_version (pg_view db) docID v)
    \<and> dv_ID ` set (dv_rows db') \<subseteq> dv_ID ` set (dv_rows db) \<and> tick db \<le> tick db'"
  have view: "pg_view (delete_rows ?t db) = drop_version (pg_view db) docID v" by (rule delete_rows_version [OF assms(1)])
  have ?P
  proof (cases v rule: Value_cases)
    case (zero e)
    with assms(4) have "r = Inl e" "db' = db" by (auto simp: pg_DeleteDocumentVersion_def)
    with assms(1) zero show ?thesis by simp
  next
    case nonzero
    show ?thesis
    proof (cases "db_fault env DeleteVersion db")
      case (Some e)
      with assms(1,2,4) nonzero have "r = Inl e" "db' = ticked db" by (simp_all add: pg_DeleteDocumentVersion_def)
      with assms(1) Some show ?thesis by simp
    next
      case None
      have db': "db' = ticked (delete_rows ?t db)"
        using assms(2,4) nonzero None by (auto simp: pg_DeleteDocumentVersion_def Let_def split: if_splits sum.splits)
      have "\<exists>info. pg_view db docID (ms_trunc v) = Some info \<and>
          set hashes = hashes_of info - \<Union> (hashes_of ` ran (pg_view db' docID))" if "r = Inr (left, hashes)" for left hashes
        using pg_DeleteDocumentVersion_reads(2) [OF assms(1,3,4) that] db' view by simp
      then show ?thesis
        using db' view delete_rows(1) [OF assms(1)] delete_rows_ids [of ?t db] by auto
    qed
  qed
  then show "pg_ok db'" "pg_view db' = pg_view db \<or> pg_view db' = drop_version (pg_view db) docID v"
    "r = Inr (left, hashes) \<Longrightarrow> pg_view db' = drop_version (pg_view db) docID v \<and>
       (\<exists>info. pg_view db docID (ms_trunc v) = Some info \<and>
          set hashes = hashes_of info - \<Union> (hashes_of ` ran (pg_view db' docID)))"
    "db_fault env DeleteVersion db = None \<Longrightarrow> Time v \<noteq> 0 \<Longrightarrow> pg_view db' = drop_version (pg_view db) docID v"
    "dv_ID ` set (dv_rows db') \<subseteq> dv_ID ` set (dv_rows db)" "tick db \<le> tick db'" by blast+
qed


section \<open>CreateDocumentVersion\<close>

lemma bind_version_opt_Inr:
  "bind_version_opt v = Inr w \<longleftrightarrow> (\<forall>p. v = Some p \<longrightarrow> Time p \<noteq> 0) \<and> w = map_option ms_trunc v"
  by (cases v; auto simp: bind_version_opt_def Value_eq_Inr_iff split: sum.splits)
    (auto simp: VersionTime_Value_def VersionTime_Validate_def IsZero_def split: if_splits)

abbreviation stored_row :: "document_version \<Rightarrow> document_version" where
  "stored_row row \<equiv> row\<lparr>dv_Version := ms_trunc (dv_Version row),
     dv_PrevVersion := map_option ms_trunc (dv_PrevVersion row)\<rparr>"

lemma insert_version_cases:
  assumes "insert_version env row db = (r, db')"
  obtains (failed) e where "r = Inl e" "db' = db"
  | (inserted) "r = Inr ()" "Time (dv_Version row) \<noteq> 0" "\<forall>p. dv_PrevVersion row = Some p \<longrightarrow> Time p \<noteq> 0"
      "\<not> violates_unique (dv_rows db) (stored_row row)" "db' = db\<lparr>dv_rows := dv_rows db @ [stored_row row]\<rparr>"
proof (cases "VersionTime_Value (dv_Version row)")
  case (Inl e)
  with assms show thesis by (intro failed) (auto simp: insert_version_def)
next
  case v: (Inr v)
  show thesis
  proof (cases "bind_version_opt (dv_PrevVersion row)")
    case (Inl e)
    with assms v show thesis by (intro failed) (auto simp: insert_version_def)
  next
    case (Inr p)
    note vp = v Inr
    show thesis
    proof (cases "db_fault env InsertVersion db = None \<and> \<not> violates_unique (dv_rows db) (row\<lparr>dv_Version := v, dv_PrevVersion := p\<rparr>)")
      case True
      then have "r = Inr ()" "db' = db\<lparr>dv_rows := dv_rows db @ [row\<lparr>dv_Version := v, dv_PrevVersion := p\<rparr>]\<rparr>"
        using assms vp by (auto simp: insert_version_def Let_def)
      with True vp inserted show thesis by (simp add: Value_eq_Inr_iff bind_version_opt_Inr)
    next
      case False
      then have "(\<exists>e. r = Inl e) \<and> db' = db" using assms vp by (auto simp: insert_version_def Let_def split: option.splits if_splits)
      with failed show thesis by blast
    qed
  qed
qed

lemma insert_version_ok:
  assumes "db_fault env InsertVersion db = None" "Time (dv_Version row) \<noteq> 0"
    "\<forall>p. dv_PrevVersion row = Some p \<longrightarrow> Time p \<noteq> 0" "\<not> violates_unique (dv_rows db) (stored_row row)"
  shows "insert_version env row db = (Inr (), db\<lparr>dv_rows := dv_rows db @ [stored_row row]\<rparr>)"
proof -
  have "VersionTime_Value (dv_Version row) = Inr (ms_trunc (dv_Version row))"
    "bind_version_opt (dv_PrevVersion row) = Inr (map_option ms_trunc (dv_PrevVersion row))"
    using assms by (simp_all add: Value_eq_Inr_iff bind_version_opt_Inr)
  with assms show ?thesis by (simp add: insert_version_def Let_def)
qed

lemma insert_file_rows_Inr:
  "insert_file_rows rows fs = Inr rows' \<Longrightarrow>
     rows' = rows @ fs \<and> (\<forall>f\<in>set fs. storable_file (rec_info f)) \<and> (\<forall>f\<in>set fs. file_key f \<notin> file_key ` set rows)
     \<and> distinct (map file_key fs)"
proof (induction fs arbitrary: rows)
  case (Cons f fs)
  have ok: "check_file rows f = None" "insert_file_rows (rows @ [f]) fs = Inr rows'"
    using Cons.prems by (auto split: option.splits)
  from ok(1) have f: "storable_file (rec_info f)" "file_key f \<notin> file_key ` set rows"
    by (auto simp: check_file_def storable_file_def rec_info_def file_key_def list_ex_iff split: if_splits)
  from Cons.IH [OF ok(2)] f show ?case by (auto simp: image_iff)
qed simp

lemma insert_file_rows_ok:
  "(\<forall>f\<in>set fs. storable_file (rec_info f)) \<Longrightarrow> distinct (map file_key (rows @ fs)) \<Longrightarrow>
     insert_file_rows rows fs = Inr (rows @ fs)"
proof (induction fs arbitrary: rows)
  case (Cons f fs)
  then have "check_file rows f = None"
    by (auto simp: check_file_def storable_file_def rec_info_def file_key_def list_ex_iff image_iff)
  with Cons.IH [of "rows @ [f]"] Cons.prems show ?case by simp
qed simp

text \<open>A new version row with its file rows.\<close>

definition add_rows :: "document_version \<Rightarrow> document_version_file list \<Rightarrow> pgdb \<Rightarrow> pgdb" where
  "add_rows row fs db = db\<lparr>dv_rows := dv_rows db @ [row], dvf_rows := dvf_rows db @ fs\<rparr>"

definition fitting :: "pgdb \<Rightarrow> document_version \<Rightarrow> document_version_file list \<Rightarrow> bool" where
  "fitting db row fs \<longleftrightarrow> \<not> violates_unique (dv_rows db) row \<and> stored_time (dv_Version row) \<and>
     (\<forall>p. dv_PrevVersion row = Some p \<longrightarrow> stored_time p) \<and>
     (\<forall>f\<in>set fs. dvf_DocumentVersionID f = dv_ID row \<and> storable_file (rec_info f)) \<and> distinct (map dvf_Name fs)"

lemma fittingD:
  assumes "fitting db row fs"
  shows "q \<in> set (dv_rows db) \<Longrightarrow> dv_ID q \<noteq> dv_ID row"
    "q \<in> set (dv_rows db) \<Longrightarrow> version_key q \<noteq> version_key row"
    "q \<in> set (dv_rows db) \<Longrightarrow> dv_DocumentID q = dv_DocumentID row \<Longrightarrow> dv_PrevVersion q = None \<Longrightarrow>
       dv_PrevVersion row = None \<Longrightarrow> False"
    "f \<in> set fs \<Longrightarrow> dvf_DocumentVersionID f = dv_ID row" "f \<in> set fs \<Longrightarrow> storable_file (rec_info f)"
    "distinct (map dvf_Name fs)" "stored_time (dv_Version row)"
    "dv_PrevVersion row = Some p \<Longrightarrow> stored_time p"
  using assms by (auto simp: fitting_def violates_unique_def version_key_def list_ex_iff)

lemma add_rows_ok:
  assumes "pg_ok db" "fitting db row fs"
  shows "pg_ok (add_rows row fs db)"
proof -
  note new = fittingD [OF assms(2)]
  have "dvf_DocumentVersionID f \<noteq> dv_ID row" if "f \<in> set (dvf_rows db)" for f
    using pg_okD(6) [OF assms(1) that] new(1) by (metis imageE)
  then have keys: "file_key ` set (dvf_rows db) \<inter> file_key ` set fs = {}"
    using new(4) by (auto simp: file_key_def)
  have "distinct (map file_key fs)"
    using new(6) by (auto simp: distinct_map inj_on_def file_key_def)
  with keys pg_okD(5) [OF assms(1)] have "distinct (map file_key (dvf_rows db @ fs))" by simp
  moreover have "distinct (map dv_ID (dv_rows db @ [row]))" "distinct (map version_key (dv_rows db @ [row]))"
    using pg_okD(1,2) [OF assms(1)] new(1,2) by (auto simp: image_iff) metis+
  moreover have "r = q" if "r \<in> set (dv_rows db) \<union> {row}" "q \<in> set (dv_rows db) \<union> {row}"
      "dv_DocumentID r = dv_DocumentID q" "dv_PrevVersion r = None" "dv_PrevVersion q = None" for r q
    using that new(3) pg_ok_genesis [OF assms(1)] by (metis UnE singletonD)
  ultimately show ?thesis
    using assms(1) new(4,5,7,8) unfolding pg_ok_def add_rows_def by auto
qed

lemma add_rows_view:
  assumes "pg_ok db" "fitting db row fs"
  shows "pg_view (add_rows row fs db) = (pg_view db)(dv_DocumentID row := (pg_view db (dv_DocumentID row))(dv_Version row \<mapsto>
     \<lparr>CompanyID = dv_CompanyID row, DocID = dv_DocumentID row, Version = dv_Version row,
      PrevVersion = dv_PrevVersion row, CommitUserID = dv_CommitUserID row, CommitReason = dv_CommitReason row,
      Files = map (\<lambda>f. (dvf_Name f, rec_info f)) fs, AddedFiles = dv_AddedFiles row,
      RemovedFiles = dv_RemovedFiles row, ModifiedFiles = dv_ModifiedFiles row\<rparr>))"
    (is "?new = (pg_view db)(?d := (pg_view db ?d)(?v \<mapsto> ?info))")
proof (intro ext)
  fix d v
  let ?db = "add_rows row fs db"
  note new = fittingD [OF assms(2)] and ok' = add_rows_ok [OF assms]
  have rows: "set (dv_rows ?db) = insert row (set (dv_rows db))" by (auto simp: add_rows_def)
  have old: "row_info ?db r = row_info db r" if "r \<in> set (dv_rows db)" for r
  proof -
    have "filter (\<lambda>f. dvf_DocumentVersionID f = dv_ID r) fs = []"
      using new(4) new(1) [OF that] by (auto simp: filter_empty_conv)
    then show ?thesis by (simp add: row_info_def version_files_def add_rows_def)
  qed
  have "filter (\<lambda>f. dvf_DocumentVersionID f = dv_ID row) (dvf_rows db) = []"
    using pg_okD(6) [OF assms(1)] new(1) by (fastforce simp: filter_empty_conv)
  moreover have "filter (\<lambda>f. dvf_DocumentVersionID f = dv_ID row) fs = fs" using new(4) by simp
  ultimately have info: "row_info ?db row = ?info" by (simp add: row_info_def version_files_def add_rows_def)
  show "?new d v = ((pg_view db)(?d := (pg_view db ?d)(?v \<mapsto> ?info))) d v"
  proof (cases "?new d v")
    case None
    then have "\<not> (?d = d \<and> ?v = v)" "pg_view db d v = None" unfolding pg_view_None rows by auto
    with None show ?thesis by auto
  next
    case (Some i)
    from pg_view_SomeD [OF this] obtain r where r: "r \<in> set (dv_rows ?db)" "dv_DocumentID r = d" "dv_Version r = v"
      "i = row_info ?db r" by blast
    show ?thesis
    proof (cases "r = row")
      case True
      with r Some info show ?thesis by simp
    next
      case False
      with r rows have q: "r \<in> set (dv_rows db)" by blast
      with r new(2) [OF q] have "\<not> (d = ?d \<and> v = ?v)" by (auto simp: version_key_def)
      with r Some old [OF q] pg_view_row [OF assms(1) q] show ?thesis by auto
    qed
  qed
qed

definition input_row :: "pg_env \<Rightarrow> create_document_version_input \<Rightarrow> nat \<Rightarrow> document_version" where
  "input_row env inp k =
     \<lparr>dv_ID = new_id env k, dv_DocumentID = in_DocID inp, dv_CompanyID = in_CompanyID inp,
      dv_Version = in_NewVersion inp, dv_PrevVersion = in_PreviousVersion inp,
      dv_CommitUserID = in_UserID inp, dv_CommitReason = in_Reason inp,
      dv_AddedFiles = map Name (in_AddedFiles inp), dv_RemovedFiles = in_RemovedFiles inp,
      dv_ModifiedFiles = map Name (in_ModifiedFiles inp)\<rparr>"

definition input_file_rows :: "uuid \<Rightarrow> (string, file_info) gomap \<Rightarrow> document_version_file list" where
  "input_file_rows vid files = map (\<lambda>fi. \<lparr>dvf_DocumentVersionID = vid, dvf_Name = Name fi, dvf_Size = Size fi,
     dvf_Hash = Hash fi\<rparr>) (map snd files)"

lemma rec_info_input: "rec_info \<lparr>dvf_DocumentVersionID = vid, dvf_Name = Name fi, dvf_Size = Size fi, dvf_Hash = Hash fi\<rparr> = fi"
  by (simp add: rec_info_def)

lemma input_file_rows:
  "f \<in> set (input_file_rows vid files) \<Longrightarrow> dvf_DocumentVersionID f = vid"
  "map dvf_Name (input_file_rows vid files) = map Name (map snd files)"
  "wf_files files \<Longrightarrow> map (\<lambda>f. (dvf_Name f, rec_info f)) (input_file_rows vid files) = files"
  "rec_info ` set (input_file_rows vid files) = snd ` set files"
  using wf_files_conv_map [of files]
  by (auto simp: input_file_rows_def rec_info_input o_def image_image)

lemma create_version_tx:
  assumes "\<not> VersionsExist cx"
  shows "create_version_tx env cx inp db =
    (case new_version_files env inp db of
       Inl e \<Rightarrow> (Inl e, db)
     | Inr files \<Rightarrow>
        (case insert_version env (input_row env inp (tick db)) (ticked db) of
           (Inl e, db1) \<Rightarrow>
             (if errors_As is_UniqueViolation e then
                (if in_PreviousVersion inp = None then Inl (ErrDocumentAlreadyExists (in_DocID inp))
                 else Inl (ErrVersionAlreadyExists (in_DocID inp) (in_NewVersion inp)))
              else Inl e, db1)
         | (Inr _, db1) \<Rightarrow>
            (case insert_files env (input_file_rows (new_id env (tick db)) files) db1 of
               (Inl e, db2) \<Rightarrow> (Inl e, db2)
             | (Inr _, db2) \<Rightarrow> (Inr (input_info files inp), db2))))"
  using assms
  by (simp add: create_version_tx_def input_row_def input_file_rows_def input_info_def namesFromFileInfos_def Let_def
      cong: sum.case_cong)

lemma new_version_files_Inr:
  assumes "pg_ok db" "new_version_files env inp db = Inr files"
  shows "files = input_files (pg_view db) inp"
proof (cases "in_Files inp")
  case (Some fs)
  with assms show ?thesis by (simp add: new_version_files_def)
next
  case None
  show ?thesis
  proof (cases "in_PreviousVersion inp")
    case None
    with assms \<open>in_Files inp = None\<close> show ?thesis
      by (simp add: new_version_files_def input_files_def resulting_files_def)
  next
    case (Some p)
    with assms(2) None obtain i where i: "pg_DocumentVersionInfo env (in_DocID inp) p db = Inr i"
      "files = put_all Name id (in_ModifiedFiles inp)
         (put_all Name id (in_AddedFiles inp) (del_all (in_RemovedFiles inp) (Files i)))"
      by (auto simp: new_version_files_def split: sum.splits)
    with pg_DocumentVersionInfo(1) [OF assms(1) i(1)] Some None show ?thesis
      by (simp add: input_files_def resulting_files_def)
  qed
qed

lemma create_version_tx_Inr:
  assumes "pg_ok db" "\<not> VersionsExist cx" "create_version_tx env cx inp db = (Inr info, db')"
    "wf_files (input_files (pg_view db) inp)"
  defines "row \<equiv> stored_row (input_row env inp (tick db))"
    and "fs \<equiv> input_file_rows (new_id env (tick db)) (input_files (pg_view db) inp)"
  shows "info = input_info (input_files (pg_view db) inp) inp" "db' = add_rows row fs (ticked db)" "fitting db row fs"
proof -
  obtain files where files: "new_version_files env inp db = Inr files"
    using assms(3) by (auto simp: create_version_tx [OF assms(2)] split: sum.splits)
  note eq = new_version_files_Inr [OF assms(1) files]
  obtain r1 db1 where ins: "insert_version env (input_row env inp (tick db)) (ticked db) = (r1, db1)" by fastforce
  have r1: "\<exists>u. r1 = Inr u" using assms(3) files ins
    by (auto simp: create_version_tx [OF assms(2)] split: sum.splits if_splits)
  from ins have "info = input_info (input_files (pg_view db) inp) inp \<and> db' = add_rows row fs (ticked db) \<and> fitting db row fs"
  proof (cases rule: insert_version_cases)
    case (failed e)
    with r1 show ?thesis by auto
  next
    case inserted
    have run: "(case insert_files env fs db1 of (Inl e, db2) \<Rightarrow> (Inl e, db2) | (Inr _, db2) \<Rightarrow> (Inr (input_info files inp), db2))
        = (Inr info, db')"
      unfolding fs_def eq [symmetric]
      using assms(3) files ins inserted(1) by (simp add: create_version_tx [OF assms(2)])
    then have ok: "insert_file_rows (dvf_rows db1) fs = Inr (dvf_rows db1 @ fs)"
        "db' = db1\<lparr>dvf_rows := dvf_rows db1 @ fs\<rparr>" "info = input_info files inp"
      using insert_file_rows_Inr [of "dvf_rows db1" fs]
      by (auto simp: insert_files_def split: option.splits sum.splits)
    note rows = insert_file_rows_Inr [OF ok(1)]
    have db': "db' = add_rows row fs (ticked db)"
      using ok(2) inserted(5) by (simp add: add_rows_def row_def)
    have "distinct (map dvf_Name fs)"
      using wf_files_distinct_names [OF assms(4)] by (simp add: fs_def input_file_rows)
    moreover have "stored_time (ms_trunc t)" for t by (simp add: stored_time_def)
    ultimately have "fitting db row fs"
      using inserted(2-4) rows unfolding fitting_def row_def
      by (auto simp: fs_def input_file_rows input_row_def)
    with db' ok(3) eq show ?thesis by simp
  qed
  then show "info = input_info (input_files (pg_view db) inp) inp" "db' = add_rows row fs (ticked db)" "fitting db row fs"
    by blast+
qed

lemma transaction_result_cases:
  assumes "transaction_result env f db = (r, db')"
  obtains (not_begun) e where "r = Inl e" "db' = db"
  | (rolled_back) e r1 db1 where "r = Inl e" "f db = (r1, db1)" "db' = db\<lparr>tick := tick db1\<rparr>"
      "r1 = Inl e \<or> db_fault env Commit db1 = Some e"
  | (committed) res where "r = Inr res" "f db = (Inr res, db')"
  using assms
  by (cases "db_fault env Begin db"; cases "f db"; cases "fst (f db)"; cases "db_fault env Commit (snd (f db))")
    (auto simp: transaction_result_def)

lemma pg_CreateDocumentVersion_Inr:
  assumes "pg_ok db" "\<not> VersionsExist cx" "wf_files (input_files (pg_view db) inp)"
    "pg_CreateDocumentVersion env cx inp db = (Inr info, db')"
  shows "pg_ok db'" "info = input_info (input_files (pg_view db) inp) inp"
    "pg_view db (in_DocID inp) (ms_trunc (in_NewVersion inp)) = None"
    "pg_view db' = put_version (pg_view db) (in_DocID inp) (in_NewVersion inp) (as_stored info)"
    "dv_ID ` set (dv_rows db') = insert (new_id env (tick db)) (dv_ID ` set (dv_rows db))" "tick db' = Suc (tick db)"
proof -
  have tx: "create_version_tx env cx inp db = (Inr info, db')"
    using assms(4) unfolding pg_CreateDocumentVersion_def by (cases rule: transaction_result_cases) auto
  note c = create_version_tx_Inr [OF assms(1,2) tx assms(3)]
  let ?row = "stored_row (input_row env inp (tick db))"
  let ?fs = "input_file_rows (new_id env (tick db)) (input_files (pg_view db) inp)"
  have db': "db' = ticked (add_rows ?row ?fs db)" using c(2) by (simp add: ticked_def add_rows_def)
  show "info = input_info (input_files (pg_view db) inp) inp" by (rule c(1))
  show "pg_ok db'" using add_rows_ok [OF assms(1) c(3)] by (simp add: db')
  show "pg_view db (in_DocID inp) (ms_trunc (in_NewVersion inp)) = None"
    unfolding pg_view_None using fittingD(2) [OF c(3)] by (auto simp: version_key_def input_row_def)
  show "pg_view db' = put_version (pg_view db) (in_DocID inp) (in_NewVersion inp) (as_stored info)"
    using add_rows_view [OF assms(1) c(3)] input_file_rows(3) [OF assms(3), of "new_id env (tick db)"]
    by (simp add: db' put_version_def c(1) as_stored_def input_info_def input_row_def)
  show "dv_ID ` set (dv_rows db') = insert (new_id env (tick db)) (dv_ID ` set (dv_rows db))" "tick db' = Suc (tick db)"
    by (auto simp: db' add_rows_def input_row_def)
qed

lemma pg_CreateDocumentVersion_Inl:
  assumes "pg_CreateDocumentVersion env cx inp db = (Inl e, db')"
  shows "dv_rows db' = dv_rows db" "dvf_rows db' = dvf_rows db"
  using assms unfolding pg_CreateDocumentVersion_def by (cases rule: transaction_result_cases; simp)+

lemma storable_fitting:
  assumes "pg_ok db" "pg_room env db" "storable (pg_view db) inp" "wf_files (input_files (pg_view db) inp)"
  shows "fitting db (stored_row (input_row env inp (tick db)))
    (input_file_rows (new_id env (tick db)) (input_files (pg_view db) inp))"
proof -
  let ?row = "stored_row (input_row env inp (tick db))"
  have id: "dv_ID q \<noteq> new_id env (tick db)" if "q \<in> set (dv_rows db)" for q
    using assms(2) that unfolding pg_room_def by (metis imageI)
  have key: "\<not> (dv_DocumentID q = in_DocID inp \<and> dv_Version q = ms_trunc (in_NewVersion inp))"
    if "q \<in> set (dv_rows db)" for q
    using assms(3) that by (auto simp: storable_def pg_view_None)
  have genesis: "dv_PrevVersion q \<noteq> None"
    if "q \<in> set (dv_rows db)" "dv_DocumentID q = in_DocID inp" "in_PreviousVersion inp = None" for q
  proof -
    have "row_info db q \<in> ran (pg_view db (in_DocID inp))"
      using pg_view_row [OF assms(1) that(1)] that(2) by (auto intro: ranI)
    with assms(3) that(3) show ?thesis by (auto simp: storable_def)
  qed
  have "\<not> violates_unique (dv_rows db) ?row"
    using id key genesis by (auto simp: violates_unique_def list_ex_iff input_row_def)
  moreover have "storable_file (rec_info f)"
    if "f \<in> set (input_file_rows (new_id env (tick db)) (input_files (pg_view db) inp))" for f
  proof -
    have "rec_info f \<in> snd ` set (input_files (pg_view db) inp)" using that input_file_rows(4) by blast
    then have "rec_info f \<in> ran (map_of (input_files (pg_view db) inp))"
      using assms(4) by (auto simp: ran_distinct wf_files_def)
    with assms(3) show ?thesis by (auto simp: storable_def)
  qed
  ultimately show ?thesis
    using wf_files_distinct_names [OF assms(4)] unfolding fitting_def
    by (auto simp: stored_time_def input_file_rows input_row_def)
qed

lemma pg_CreateDocumentVersion_calm:
  assumes "pg_ok db" "pg_calm env db" "\<not> VersionsExist cx" "pg_room env db" "storable (pg_view db) inp"
    "wf_files (input_files (pg_view db) inp)"
  shows "\<exists>info db'. pg_CreateDocumentVersion env cx inp db = (Inr info, db')"
proof -
  have quiet: "db_fault env stmt m = None" for stmt m using assms(2) by (simp add: pg_calm_def)
  let ?row = "input_row env inp (tick db)"
  let ?fs = "input_file_rows (new_id env (tick db)) (input_files (pg_view db) inp)"
  note fit = storable_fitting [OF assms(1,4,5,6)]
  have files: "new_version_files env inp db = Inr (input_files (pg_view db) inp)"
  proof -
    have "\<exists>i. pg_DocumentVersionInfo env (in_DocID inp) p db = Inr i"
      if "in_PreviousVersion inp = Some p" "in_Files inp = None" for p
      using assms(5) that pg_DocumentVersionInfo(2) [OF assms(1) quiet, of p "in_DocID inp"]
      by (fastforce simp: storable_def)
    then have "\<exists>files. new_version_files env inp db = Inr files"
      by (fastforce simp: new_version_files_def split: option.splits sum.splits)
    then show ?thesis using new_version_files_Inr [OF assms(1)] by blast
  qed
  have row: "insert_version env ?row (ticked db) = (Inr (), (ticked db)\<lparr>dv_rows := dv_rows db @ [stored_row ?row]\<rparr>)"
    using insert_version_ok [OF quiet, of ?row "ticked db"] fit assms(5)
    by (simp add: fitting_def storable_def input_row_def)
  have "distinct (map file_key (dvf_rows db @ ?fs))"
    using add_rows_ok [OF assms(1) fit] pg_okD(5) by (fastforce simp: add_rows_def)
  then have "insert_file_rows (dvf_rows db) ?fs = Inr (dvf_rows db @ ?fs)"
    using fit by (intro insert_file_rows_ok) (auto simp: fitting_def)
  then have "\<exists>db'. create_version_tx env cx inp db = (Inr (input_info (input_files (pg_view db) inp) inp), db')"
    by (simp add: create_version_tx [OF assms(3)] files row insert_files_def quiet)
  then show ?thesis by (auto simp: pg_CreateDocumentVersion_def transaction_result_def quiet)
qed

section \<open>The contract\<close>

lemma pg_calmD: "pg_calm env db \<Longrightarrow> db_fault env stmt m = None"
  by (simp add: pg_calm_def)

lemma pg_calm_any: "pg_calm env db \<Longrightarrow> pg_calm env db'"
  by (simp add: pg_calm_def)

interpretation pg: metadata_store "pg_store env" pg_view "pg_inv env" "pg_calm env" "pg_room env" for env
proof (unfold_locales, goal_cases)
  case (1 m)
  then show ?case using pg_view_wf pg_view_finite by (simp add: pg_inv_def)
next
  case (2 m docID v info)
  then show ?case using pg_DocumentVersionInfo(1) by (simp add: pg_inv_def pg_store_def)
next
  case (3 m v docID info)
  then show ?case using pg_DocumentVersionInfo(2) by (simp add: pg_inv_def pg_store_def pg_calmD)
next
  case (4 m docID info)
  then show ?case using pg_LatestDocumentVersionInfo(1) by (simp add: pg_inv_def pg_store_def)
next
  case (5 m docID)
  then show ?case using pg_LatestDocumentVersionInfo(2) by (simp add: pg_inv_def pg_store_def pg_calmD)
next
  case (6 m docID vs)
  then show ?case using pg_DocumentVersions(1) [of m env docID vs] by (simp add: pg_inv_def pg_store_def)
next
  case (7 m docID)
  then show ?case using pg_DocumentVersions(2) by (simp add: pg_inv_def pg_store_def pg_calmD)
next
  case (8 m docID u)
  then show ?case using pg_LatestDocumentVersion by (simp add: pg_inv_def pg_store_def)
next
  case (9 m docID c)
  then show ?case using pg_DocumentCompanyID(1) by (simp add: pg_inv_def pg_store_def)
next
  case (10 m docID)
  then show ?case using pg_DocumentCompanyID(2) by (simp add: pg_inv_def pg_store_def pg_calmD)
next
  case (11 m docID c m')
  then show ?case using pg_SetDocumentCompanyID(1,2) [of m env docID c None m'] by (simp add: pg_inv_def pg_store_def)
next
  case (12 m docID c e m')
  then show ?case using pg_SetDocumentCompanyID(1,3) [of m env docID c "Some e" m'] by (simp add: pg_inv_def pg_store_def)
next
  case (13 m cs)
  then show ?case using pg_CompanyIDs [of m env cs] by (simp add: pg_inv_def pg_store_def)
next
  case (14 m c ids)
  then show ?case using pg_CompanyDocumentIDs [of m env c ids] by (simp add: pg_inv_def pg_store_def)
next
  case (15 m cx inp info m')
  then show ?case using pg_CreateDocumentVersion_Inr [of m cx inp env info m'] by (simp add: pg_inv_def pg_store_def)
next
  case (16 m cx inp e m')
  then have "dv_rows m' = dv_rows m" "dvf_rows m' = dvf_rows m"
    using pg_CreateDocumentVersion_Inl [of env cx inp m e m'] by (simp_all add: pg_store_def)
  with 16(1) pg_ok_cong [of m' m] pg_view_cong [of m' m] show ?case by (simp add: pg_inv_def)
next
  case (17 m cx inp r m')
  then have ok: "pg_ok m" and run: "pg_CreateDocumentVersion env cx inp m = (r, m')" by (simp_all add: pg_inv_def pg_store_def)
  have "pg_room env m \<Longrightarrow> storable (pg_view m) inp \<Longrightarrow> wf_files (input_files (pg_view m) inp) \<Longrightarrow> \<exists>info. r = Inr info"
    using pg_CreateDocumentVersion_calm [OF ok 17(2,3)] run by fastforce
  with pg_calm_any [OF 17(2)] show ?case by blast
next
  case (18 m cx docID m')
  then show ?case using pg_DeleteDocument(1,2) [of m cx env docID None m'] by (simp add: pg_inv_def pg_store_def)
next
  case (19 m cx docID e m')
  then show ?case using pg_DeleteDocument(1,3) [of m cx env docID "Some e" m'] by (simp add: pg_inv_def pg_store_def)
next
  case (20 m cx docID del m')
  then have run: "pg_ok m" "pg_DeleteDocument env cx docID m = (del, m')" by (simp_all add: pg_inv_def pg_store_def)
  note del = pg_DeleteDocument(4) [OF run(1) 20(3) run(2)]
  show ?case using del [OF pg_calmD [OF 20(2)]] pg_calm_any [OF 20(2)] by blast
next
  case (21 m cx docID v left hashes m')
  then have run: "pg_ok m" "pg_env_spec env" "pg_DeleteDocumentVersion env cx docID v m = (Inr (left, hashes), m')"
    by (simp_all add: pg_inv_def pg_store_def)
  show ?case
    using pg_DeleteDocumentVersion(1) [OF run(1) 21(2) run(2,3)]
      pg_DeleteDocumentVersion(3) [OF run(1) 21(2) run(2,3) refl] run(2) unfolding pg_inv_def by blast
next
  case (22 m cx docID v e m')
  then show ?case using pg_DeleteDocumentVersion(1,2) [of m cx env docID v "Inl e" m'] by (simp add: pg_inv_def pg_store_def)
next
  case (23 m cx docID v res m')
  then have run: "pg_ok m" "pg_env_spec env" "pg_DeleteDocumentVersion env cx docID v m = (res, m')"
    by (simp_all add: pg_inv_def pg_store_def)
  note del = pg_DeleteDocumentVersion(4) [OF run(1) 23(3) run(2,3)]
  show ?case using del [OF pg_calmD [OF 23(2)]] pg_calm_any [OF 23(2)] by blast
qed

end
