(* ===== verification/Instances.thy ===== *)
theory Instances
  imports S3Laws PgLaws
begin

text \<open>
  Concrete values of the parameters, at which the theorems are instantiated: a bucket in
  memory, a database that never fails and draws consecutive ids, and functions in the
  place of the content hash and of the text of an id. They show that the hypotheses on
  the parameters can be met.
\<close>

section \<open>The functions of other modules\<close>

definition mem_ext :: ext where
  "mem_ext =
     \<lparr>DropboxContentHash = (\<lambda>b. take 64 (map (\<lambda>w. digit_char (unat w mod 10)) b @ replicate 64 (CHR ''0''))),
      ID_String = (\<lambda>docID. replicate (unat docID) (CHR ''a'')),
      ID_Validate = (\<lambda>docID. if docID = 0 then Some (OtherErr ''invalid ID'') else None)\<rparr>"

lemma digit_char_not_slash: "k < 10 \<Longrightarrow> digit_char k \<noteq> CHR ''/''"
proof
  assume "k < 10" "digit_char k = CHR ''/''"
  then have "is_digit (CHR ''/'')" by (metis is_digit_digit_char)
  then show False by (simp add: is_digit_def)
qed

lemma mem_ext_ok [simp]: "id_text_ok mem_ext"
  unfolding id_text_ok_def
proof (intro conjI allI)
  show "inj (ID_String mem_ext)"
  proof (rule injI)
    fix a b assume "ID_String mem_ext a = ID_String mem_ext b"
    then have "length (ID_String mem_ext a) = length (ID_String mem_ext b)" by (rule arg_cong)
    then show "a = b" by (simp add: mem_ext_def word_unat_eq_iff)
  qed
  show "CHR ''/'' \<notin> set (ID_String mem_ext docID)" for docID by (simp add: mem_ext_def)
  show "CHR ''/'' \<notin> set (ContentHash mem_ext b)" for b
  proof
    assume "CHR ''/'' \<in> set (ContentHash mem_ext b)"
    then have "CHR ''/'' \<in> set (map (\<lambda>w. digit_char (unat w mod 10)) b @ replicate 64 (CHR ''0''))"
      unfolding ContentHash_def mem_ext_def ext.simps by (rule in_set_takeD)
    then obtain w where "CHR ''/'' = digit_char (unat (w :: 8 word) mod 10)" by auto
    with digit_char_not_slash [of "unat w mod 10"] show False by simp
  qed
qed

section \<open>A bucket in memory\<close>

definition mem_s3 :: "(string, bytes) gomap s3_client" where
  "mem_s3 =
     \<lparr>ListObjectsV2 = (\<lambda>p n s. Inr (map Some (take n (filter (prefix p) (map fst s))))),
      ListPages = (\<lambda>p s. map (\<lambda>k. Inr [Some k]) (filter (prefix p) (map fst s))),
      PutObject = (\<lambda>k b s. (None, AList.update k b s)),
      GetObject = (\<lambda>k s. case map_of s k of None \<Rightarrow> Inl NoSuchKey | Some b \<Rightarrow> Inr (Inr b)),
      DeleteObjects = (\<lambda>ks s. (Inr None, filter (\<lambda>(k, b). Some k \<notin> set ks) s))\<rparr>"

lemma map_of_filter_keys: "map_of (filter (\<lambda>(k, b). P k) s) k = (if P k then map_of s k else None)"
  by (induction s) auto

lemma mem_s3_spec [simp]: "s3_client_spec mem_s3 map_of (\<lambda>_. True)"
  unfolding s3_client_spec_def
proof (intro conjI)
  have dom: "dom (map_of s) = set (map fst s)" for s :: "(string, bytes) gomap" by (simp add: map_of_dom_keys)
  show "put_spec mem_s3 map_of (\<lambda>_. True)" by (simp add: put_spec_def mem_s3_def)
  show "get_spec mem_s3 map_of (\<lambda>_. True)" by (auto simp: get_spec_def mem_s3_def split: option.splits)
  show "list_spec mem_s3 map_of (\<lambda>_. True)"
    unfolding list_spec_def dom by (auto simp: mem_s3_def filter_empty_conv take_eq_Nil)
  show "pages_spec mem_s3 map_of (\<lambda>_. True)"
  proof -
    have pages: "Inr ks \<in> set (ListPages mem_s3 p s) \<longleftrightarrow> (\<exists>k\<in>dom (map_of s). prefix p k \<and> ks = [Some k])"
      "Inl e \<notin> set (ListPages mem_s3 p s)" for ks e p s
      unfolding dom by (auto simp: mem_s3_def)
    have "\<exists>ks. (\<exists>k'\<in>dom (map_of s). prefix p k' \<and> ks = [Some k']) \<and> Some k \<in> set ks"
      if "k \<in> dom (map_of s)" "prefix p k" for k p and s :: "(string, bytes) gomap"
      using that by (intro exI [of _ "[Some k]"]) auto
    then show ?thesis unfolding pages_spec_def pages using pages(2) by (intro allI conjI impI ballI) auto
  qed
  show "del_spec mem_s3 map_of (\<lambda>_. True)"
    by (simp add: del_spec_def mem_s3_def map_of_filter_keys del_reported_def DeleteObjectsErr_def)
qed

section \<open>A database that does not fail\<close>

definition mem_env :: pg_env where
  "mem_env =
     \<lparr>db_fault = (\<lambda>stmt db. None), new_id = of_nat,
      version_text = (\<lambda>v. if 0 \<le> Time v \<and> Time v < year_10000 then VersionTime_String v else []),
      agg_distinct = (\<lambda>ss. sort (remdups ss))\<rparr>"

lemma mem_env_ok [simp]: "pg_env_spec mem_env" "pg_calm mem_env db"
  by (simp_all add: mem_env_def pg_env_spec_def pg_calm_def)

text \<open>The empty stores and a content.\<close>

definition empty_db :: pgdb where
  "empty_db = \<lparr>dv_rows = [], dvf_rows = [], tick = 0\<rparr>"

lemma empty_db_ok [simp]: "pg_ok empty_db" "pg_view empty_db docID = Map.empty" "pg_room mem_env empty_db"
  by (simp_all add: pg_ok_def empty_db_def pg_view_def pg_room_def fun_eq_iff)

lemma empty_pg_inv [simp]: "pg_inv mem_env empty_db"
  by (simp add: pg_inv_def)

lemma empty_s3_inv [simp]: "s3_inv mem_s3 mem_ext map_of (\<lambda>_. True) []"
  by (simp add: s3_inv_def)

lemma empty_blobs [simp]: "s3_blobs mem_ext map_of [] docID = Map.empty"
  by (simp add: s3_blobs_def fun_eq_iff)

definition sample_file :: "string \<Rightarrow> nat \<Rightarrow> file_reader" where
  "sample_file n k = NewMemFile n (replicate k 7)"

definition calm_ctx :: ctx where
  "calm_ctx = \<lparr>ctx_Err = None, VersionsExist = False\<rparr>"

lemma calm_ctx_sel [simp]: "ctx_Err calm_ctx = None" "\<not> VersionsExist calm_ctx"
  by (simp_all add: calm_ctx_def)

end
