(* ===== verification/StoreProps.thy ===== *)
theory StoreProps
  imports Instances
begin

text \<open>
  Properties of the two stores: the object keys and the deletions of s3store, the tables
  of pgstore.
\<close>

section \<open>The S3 store\<close>

text \<open>The parts of an object key can be read back from it, and a key determines the
  document, the filename and the content hash, as long as the filename has no slash; every
  key of a document starts with the document's prefix and no key of another one does.\<close>

theorem s3_key_round_trip:
  assumes "id_text_ok x" "CHR ''/'' \<notin> set n" "CHR ''/'' \<notin> set h"
  shows "hashFromKey (Key x docID n h) = h \<and> filenameFromKey (Key x docID n h) = n
    \<and> (Key x docID' n' h' = Key x docID n h \<longrightarrow> docID' = docID \<and> n' = n \<and> h' = h)
    \<and> (prefix (doc_prefix x docID') (Key x docID n h) \<longleftrightarrow> docID' = docID)"
  using hash_of_Key [OF assms] Key_inj [OF assms, of docID' n' h' docID] prefix_Key [OF assms(1), of docID' docID]
  by auto

theorem s3_key_round_trip_witness:
  "hashFromKey (Key mem_ext 2 ''a.pdf'' ''00'') = ''00'' \<and> filenameFromKey (Key mem_ext 2 ''a.pdf'' ''00'') = ''a.pdf''"
  using s3_key_round_trip [OF mem_ext_ok, of "''a.pdf''" "''00''" 2 2 "''a.pdf''" "''00''"] by simp

text \<open>C27: \<open>deleteObjectKeys\<close> returns for any number of keys. It removes no object but the given
  ones, and when it reports no error all of them are gone; over a client that only refuses requests of
  more than 1000 objects it reports no error.\<close>

theorem s3_delete_keys_complete:
  assumes "s3_client_spec cl objs calm" "deleteObjectKeys cl keys s = (r, s')"
  shows "(\<forall>k. k \<notin> set keys \<longrightarrow> objs s' k = objs s k) \<and> (\<forall>k. objs s' k = objs s k \<or> objs s' k = None)
    \<and> (r = None \<longrightarrow> (\<forall>k\<in>set keys. objs s' k = None)) \<and> (calm s \<longrightarrow> r = None)"
proof -
  note del = deleteObjectKeys [OF assms]
  have gone: "objs s' k = objs s k \<or> objs s' k = None \<and> k \<in> set keys" for k
    using del [THEN conjunct1] by (simp add: shrinks_def)
  have "k \<notin> set keys \<longrightarrow> objs s' k = objs s k" "objs s' k = objs s k \<or> objs s' k = None" for k
    using gone [of k] by argo+
  moreover have "r = None \<longrightarrow> (\<forall>k\<in>set keys. objs s' k = None)" "calm s \<longrightarrow> r = None"
    using del by simp_all
  ultimately show ?thesis by (intro conjI allI)
qed

theorem s3_delete_keys_complete_witness:
  "map_of (snd (deleteObjectKeys mem_s3 (replicate 3 ''k'') [(''k'', [1]), (''m'', [2])])) ''k'' = None"
  using s3_delete_keys_complete [OF mem_s3_spec surjective_pairing, of "replicate 3 ''k''" "[(''k'', [1]), (''m'', [2])]",
      THEN conjunct2, THEN conjunct2]
  by (simp add: numeral_3_eq_3)

text \<open>C26: \<open>DeleteDocument\<close> of the S3 store touches the objects of its document only; when it reports
  no error the document had objects and has none left, and on a working bucket it fails exactly for a
  document without objects, with \<open>ErrDocumentNotFound\<close>.\<close>

theorem s3_delete_document_exact:
  assumes "s3_inv cl x objs calm s" "s3_DeleteDocument cl x docID s = (r, s')"
  shows "s3_inv cl x objs calm s' \<and> (\<forall>d. d \<noteq> docID \<longrightarrow> s3_blobs x objs s' d = s3_blobs x objs s d)
    \<and> (r = None \<longrightarrow> s3_blobs x objs s docID \<noteq> Map.empty \<and> s3_blobs x objs s' docID = Map.empty)
    \<and> (calm s \<longrightarrow> s3_blobs x objs s' docID = Map.empty
         \<and> r = (if s3_blobs x objs s docID = Map.empty then Some (ErrDocumentNotFound docID) else None))"
proof -
  note del = s3_delete_document [OF assms]
  have "s3_blobs x objs s' d = s3_blobs x objs s d" if "d \<noteq> docID" for d
    using that by (subst del(2)) simp
  with del(1,4,5) show ?thesis by (intro conjI allI impI) simp_all
qed

theorem s3_delete_document_exact_witness:
  "fst (s3_DeleteDocument mem_s3 mem_ext 5 []) = Some (ErrDocumentNotFound 5)"
  using s3_delete_document_exact [OF empty_s3_inv surjective_pairing, of 5,
      THEN conjunct2, THEN conjunct2, THEN conjunct2] by auto

text \<open>C25: What \<open>CreateDocumentVersion\<close> of the S3 store wrote can be read back: after a call without
  error every file of the version is returned by \<open>ReadDocumentHashFile\<close> under its name and hash with a
  content of that hash, objects of other documents are unchanged, and no object of the document is lost.\<close>

theorem s3_write_read:
  assumes "s3_inv cl x objs calm s" "calm s" "s3_CreateDocumentVersion cl x docID v files s = (Inr infos, s')"
  shows "(\<forall>f\<in>set files. \<exists>b. s3_ReadDocumentHashFile cl x docID (FileName f) (ContentHash x (projr (FileData f))) s' = Inr b
            \<and> ContentHash x b = ContentHash x (projr (FileData f)))
    \<and> infos = map (stored_info x) files
    \<and> (\<forall>d. d \<noteq> docID \<longrightarrow> s3_blobs x objs s' d = s3_blobs x objs s d)
    \<and> dom (s3_blobs x objs s docID) \<subseteq> dom (s3_blobs x objs s' docID)"
proof -
  have run: "ds_CreateDocumentVersion (s3_store cl x) docID v files s = (Inr infos, s')"
    using assms(3) by (simp add: s3_store_def)
  note c = s3.create_Inr [OF assms(1) run]
  have calm: "calm s'" using s3.create_calm [OF assms(1,2) run] by blast
  have "\<exists>b. s3_ReadDocumentHashFile cl x docID (FileName f) (ContentHash x (projr (FileData f))) s' = Inr b
      \<and> ContentHash x b = ContentHash x (projr (FileData f))" if "f \<in> set files" for f
  proof -
    have "(FileName f, ContentHash x (projr (FileData f))) \<in> dom (file_blobs x files)"
      using that by (auto simp: dom_file_blobs)
    then obtain b where b: "file_blobs x files (FileName f, ContentHash x (projr (FileData f))) = Some b" by blast
    with c have "s3_blobs x objs s' docID (FileName f, ContentHash x (projr (FileData f))) = Some b"
      by (simp add: map_add_find_right)
    with s3.read_calm [of cl x objs calm s' docID "FileName f"] c calm
    have "s3_ReadDocumentHashFile cl x docID (FileName f) (ContentHash x (projr (FileData f))) s' = Inr b"
      by (simp add: s3_store_def)
    with file_blobs_hash [OF b] show ?thesis by blast
  qed
  with c show ?thesis by auto
qed

theorem s3_write_read_witness:
  "\<exists>b. s3_ReadDocumentHashFile mem_s3 mem_ext 5 ''a'' (ContentHash mem_ext [7, 7])
     (snd (s3_CreateDocumentVersion mem_s3 mem_ext 5 (VersionTime 5000000) [sample_file ''a'' 2] [])) = Inr b"
proof -
  have "fst (s3_CreateDocumentVersion mem_s3 mem_ext 5 (VersionTime 5000000) [sample_file ''a'' 2] []) =
      Inr [stored_info mem_ext (sample_file ''a'' 2)]"
    by code_simp
  then obtain s' where s': "s3_CreateDocumentVersion mem_s3 mem_ext 5 (VersionTime 5000000) [sample_file ''a'' 2] [] =
      (Inr [stored_info mem_ext (sample_file ''a'' 2)], s')"
    by (metis prod.collapse)
  have f: "FileName (sample_file ''a'' 2) = ''a''" "projr (FileData (sample_file ''a'' 2)) = [7, 7]"
    by (simp_all add: sample_file_def NewMemFile_def numeral_2_eq_2)
  from s3_write_read [OF empty_s3_inv _ s'] show ?thesis by (simp add: s' f) blast
qed

section \<open>The PostgreSQL store\<close>

text \<open>C24: \<open>CreateDocumentVersion\<close> of pgstore is atomic and keeps the tables' constraints. If it
  returns the metadata, they are the input's with the files given or carried forward, there was no
  version at that time, and exactly this version was added; if it fails both tables are what they were.\<close>

theorem pg_create_version_atomic:
  assumes "pg_inv env db" "\<not> VersionsExist cx" "wf_files (input_files (pg_view db) inp)"
    "pg_CreateDocumentVersion env cx inp db = (r, db')"
  shows "pg_inv env db' \<and>
    (case r of
       Inl _ \<Rightarrow> dv_rows db' = dv_rows db \<and> dvf_rows db' = dvf_rows db
     | Inr info \<Rightarrow> info = input_info (input_files (pg_view db) inp) inp
         \<and> pg_view db (in_DocID inp) (ms_trunc (in_NewVersion inp)) = None
         \<and> pg_view db' = put_version (pg_view db) (in_DocID inp) (in_NewVersion inp) (as_stored info))"
proof (cases r)
  case (Inl e)
  with assms(1,4) pg_CreateDocumentVersion_Inl [of env cx inp db e db'] pg_ok_cong [of db' db] show ?thesis
    by (simp add: pg_inv_def)
next
  case (Inr info)
  with assms pg_CreateDocumentVersion_Inr [of db cx inp env info db'] show ?thesis by (simp add: pg_inv_def)
qed

definition sample_input :: "version_time \<Rightarrow> version_time option \<Rightarrow> create_document_version_input" where
  "sample_input v prev =
     \<lparr>in_DocID = 1, in_CompanyID = 3, in_UserID = 2, in_Reason = ''reason'', in_NewVersion = v,
      in_PreviousVersion = prev,
      in_AddedFiles = [\<lparr>Name = ''a'', Size = 1, Hash = replicate 64 (CHR ''0'')\<rparr>],
      in_ModifiedFiles = [], in_RemovedFiles = [], in_Files = None\<rparr>"

definition sample_db :: pgdb where
  "sample_db = snd (pg_CreateDocumentVersion mem_env calm_ctx (sample_input (VersionTime 5000000) None) empty_db)"

lemma sample_db_created:
  "isl (fst (pg_CreateDocumentVersion mem_env calm_ctx (sample_input (VersionTime 5000000) None) empty_db)) = False"
  by code_simp

lemma sample_input_wf: "wf_files (input_files (pg_view empty_db) (sample_input v None))"
  by (simp add: input_files_genesis sample_input_def wf_files_def)

lemma sample_db_run:
  obtains info where
    "pg_CreateDocumentVersion mem_env calm_ctx (sample_input (VersionTime 5000000) None) empty_db = (Inr info, sample_db)"
  using sample_db_created
  by (cases "pg_CreateDocumentVersion mem_env calm_ctx (sample_input (VersionTime 5000000) None) empty_db";
      cases "fst (pg_CreateDocumentVersion mem_env calm_ctx (sample_input (VersionTime 5000000) None) empty_db)")
    (auto simp: sample_db_def)

lemma sample_db_inv: "pg_inv mem_env sample_db"
proof -
  obtain info where
    "pg_CreateDocumentVersion mem_env calm_ctx (sample_input (VersionTime 5000000) None) empty_db = (Inr info, sample_db)"
    by (rule sample_db_run)
  from pg_CreateDocumentVersion_Inr(1) [OF empty_db_ok(1) calm_ctx_sel(2) sample_input_wf this] show ?thesis
    by (simp add: pg_inv_def)
qed

lemma sample_db_view: "\<exists>info. pg_view sample_db 1 (VersionTime 5000000) = Some info \<and> PrevVersion info = None"
proof -
  have "(case pg_view sample_db 1 (VersionTime 5000000) of None \<Rightarrow> False | Some info \<Rightarrow> PrevVersion info = None)"
    by code_simp
  then show ?thesis by (simp split: option.splits)
qed

theorem pg_create_version_atomic_witness:
  "pg_inv mem_env sample_db \<and> pg_view sample_db 1 (VersionTime 5000000) \<noteq> None"
proof -
  obtain info where info:
    "pg_CreateDocumentVersion mem_env calm_ctx (sample_input (VersionTime 5000000) None) empty_db = (Inr info, sample_db)"
    by (rule sample_db_run)
  have t: "ms_trunc (VersionTime 5000000) = VersionTime 5000000" by (simp add: truncate_ms_def millisecond_def)
  from pg_create_version_atomic [OF empty_pg_inv _ sample_input_wf info] show ?thesis
    by (simp add: put_version_def sample_input_def t [simplified])
qed

text \<open>A conflicting insert is reported as such. On a working database a second first version of a
  document is \<open>ErrDocumentAlreadyExists\<close>, and a version at a time that is taken is
  \<open>ErrVersionAlreadyExists\<close>; nothing is written.\<close>

theorem pg_create_version_conflict:
  assumes "pg_inv env db" "pg_calm env db" "\<not> VersionsExist cx" "Time (in_NewVersion inp) \<noteq> 0"
    "\<forall>p. in_PreviousVersion inp = Some p \<longrightarrow> Time p \<noteq> 0" "in_Files inp \<noteq> None"
    and "pg_CreateDocumentVersion env cx inp db = (r, db')"
  shows "(in_PreviousVersion inp = None \<and> (\<exists>i\<in>ran (pg_view db (in_DocID inp)). PrevVersion i = None) \<longrightarrow>
       r = Inl (ErrDocumentAlreadyExists (in_DocID inp)))
    \<and> (in_PreviousVersion inp \<noteq> None \<and> pg_view db (in_DocID inp) (ms_trunc (in_NewVersion inp)) \<noteq> None \<longrightarrow>
       r = Inl (ErrVersionAlreadyExists (in_DocID inp) (in_NewVersion inp)))
    \<and> (isl r \<longrightarrow> dv_rows db' = dv_rows db \<and> dvf_rows db' = dvf_rows db)"
proof -
  let ?row = "stored_row (input_row env inp (tick db))"
  have ok: "pg_ok db" using assms(1) by (simp add: pg_inv_def)
  note quiet = pg_calmD [OF assms(2)]
  obtain fs where fs: "new_version_files env inp db = Inr fs"
    using assms(6) by (auto simp: new_version_files_def)
  have conflict: "r = Inl (if in_PreviousVersion inp = None then ErrDocumentAlreadyExists (in_DocID inp)
      else ErrVersionAlreadyExists (in_DocID inp) (in_NewVersion inp))" if "violates_unique (dv_rows db) ?row"
  proof -
    have "VersionTime_Value (in_NewVersion inp) = Inr (ms_trunc (in_NewVersion inp))"
      "bind_version_opt (in_PreviousVersion inp) = Inr (map_option ms_trunc (in_PreviousVersion inp))"
      using assms(4,5) by (simp_all add: Value_eq_Inr_iff bind_version_opt_Inr)
    then have "insert_version env (input_row env inp (tick db)) (ticked db) = (Inl ErrUniqueViolation, ticked db)"
      using that quiet by (simp add: insert_version_def input_row_def Let_def)
    then show ?thesis
      using assms(7) fs quiet
      by (auto simp: pg_CreateDocumentVersion_def transaction_result_def create_version_tx [OF assms(3)])
  qed
  have "violates_unique (dv_rows db) ?row"
    if new: "in_PreviousVersion inp = None" "i \<in> ran (pg_view db (in_DocID inp))" "PrevVersion i = None" for i
  proof -
    obtain v where "pg_view db (in_DocID inp) v = Some i" using new(2) by (auto simp: ran_def)
    from pg_view_SomeD [OF this] new(1,3) show ?thesis
      by (auto simp: violates_unique_def list_ex_iff input_row_def)
  qed
  moreover have "violates_unique (dv_rows db) ?row"
    if "pg_view db (in_DocID inp) (ms_trunc (in_NewVersion inp)) \<noteq> None"
    using that by (auto simp: pg_view_None violates_unique_def list_ex_iff input_row_def)
  moreover have "isl r \<longrightarrow> dv_rows db' = dv_rows db \<and> dvf_rows db' = dvf_rows db"
    using pg_CreateDocumentVersion_Inl assms(7) by (cases r) auto
  ultimately show ?thesis using conflict by auto
qed

theorem pg_create_version_conflict_witness:
  "fst (pg_CreateDocumentVersion mem_env calm_ctx
      ((sample_input (VersionTime 7000000) None)\<lparr>in_Files := Some []\<rparr>) sample_db) = Inl (ErrDocumentAlreadyExists 1)"
proof -
  obtain info where info: "pg_view sample_db 1 (VersionTime 5000000) = Some info" "PrevVersion info = None"
    using sample_db_view by blast
  then have "\<exists>i\<in>ran (pg_view sample_db 1). PrevVersion i = None" by (auto intro: ranI)
  with pg_create_version_conflict [OF sample_db_inv _ _ _ _ _ surjective_pairing, of calm_ctx
      "(sample_input (VersionTime 7000000) None)\<lparr>in_Files := Some []\<rparr>"]
  show ?thesis by (simp add: sample_input_def)
qed

text \<open>In the versions-exist mode pgstore writes nothing: the three methods leave the tables as they
  are, \<open>CreateDocumentVersion\<close> returns only metadata that is \<open>Equal\<close> to a stored version, and
  \<open>DeleteDocumentVersion\<close> still reports the hashes only the version refers to.\<close>

theorem pg_versions_exist_read_only:
  assumes "VersionsExist cx" "pg_inv env db"
    and "pg_CreateDocumentVersion env cx inp db = (r, db1)" "pg_DeleteDocument env cx docID db = (del, db2)"
    and "pg_DeleteDocumentVersion env cx docID v db = (dv, db3)"
  shows "db1 = db \<and> db2 = db \<and> db3 = db
    \<and> (\<forall>info. r = Inr info \<longrightarrow> (\<exists>stored. pg_view db (DocID info) (ms_trunc (Version info)) = Some stored
         \<and> VersionInfo_Equal (Some stored) (Some info)))
    \<and> (\<forall>left hashes. dv = Inr (left, hashes) \<longrightarrow> (\<exists>info. pg_view db docID (ms_trunc v) = Some info \<and>
         set hashes = hashes_of info - \<Union> (hashes_of ` ran (drop_version (pg_view db) docID v docID))))"
proof -
  have ok: "pg_ok db" "pg_env_spec env" using assms(2) by (simp_all add: pg_inv_def)
  have tx: "db0 = db" "q = Inr info \<Longrightarrow> assertStoredVersionEquals env info db = None"
    if "create_version_tx env cx inp db = (q, db0)" for q info db0
    using that assms(1) by (auto simp: create_version_tx_def Let_def split: sum.splits option.splits)
  have "db1 = db" "\<And>info. r = Inr info \<Longrightarrow> assertStoredVersionEquals env info db = None"
    using assms(3) unfolding pg_CreateDocumentVersion_def
    by (cases rule: transaction_result_cases; use tx in fastforce)+
  moreover have "\<exists>stored. pg_view db (DocID info) (ms_trunc (Version info)) = Some stored
         \<and> VersionInfo_Equal (Some stored) (Some info)" if "assertStoredVersionEquals env info db = None" for info
    using that pg_DocumentVersionInfo(1) [OF ok(1)]
    by (fastforce simp: assertStoredVersionEquals_def split: sum.splits if_splits)
  moreover have "db2 = db" using assms(1,4) by (auto simp: pg_DeleteDocument_def split: option.splits)
  moreover have "db3 = db \<and> (\<forall>left hashes. dv = Inr (left, hashes) \<longrightarrow> (\<exists>info. pg_view db docID (ms_trunc v) = Some info \<and>
         set hashes = hashes_of info - \<Union> (hashes_of ` ran (drop_version (pg_view db) docID v docID))))"
    using pg_DeleteDocumentVersion_reads [OF ok assms(5)] assms(1) by auto
  ultimately show ?thesis by blast
qed

theorem pg_versions_exist_read_only_witness:
  "snd (pg_DeleteDocument mem_env \<lparr>ctx_Err = None, VersionsExist = True\<rparr> 1 sample_db) = sample_db"
  using pg_versions_exist_read_only [OF _ sample_db_inv surjective_pairing surjective_pairing surjective_pairing,
      where cx = "\<lparr>ctx_Err = None, VersionsExist = True\<rparr>" and docID = 1] by auto

end
