(* ===== verification/SplitStore.thy ===== *)
theory SplitStore
  imports RestoreLaws StoreProps
begin

text \<open>
  The split-store connection as it is deployed: blobs in S3, metadata in PostgreSQL. The
  contracts of the two stores are discharged by s3store and pgstore, so what the
  connection guarantees over any two stores holds of this one.
\<close>

interpretation sc: store_conn x "s3_store cl x" "s3_blobs x objs" "s3_inv cl x objs calm" calm
    "pg_store env" pg_view "pg_inv env" "pg_calm env" "pg_room env"
  for x cl objs calm env
  by unfold_locales

type_synonym 's split_state = "'s \<times> pgdb"

definition split_inv ::
  "'s s3_client \<Rightarrow> ext \<Rightarrow> ('s \<Rightarrow> string \<rightharpoonup> bytes) \<Rightarrow> ('s \<Rightarrow> bool) \<Rightarrow> pg_env \<Rightarrow> 's split_state \<Rightarrow> bool" where
  "split_inv cl x objs calm env s \<longleftrightarrow> s3_inv cl x objs calm (fst s) \<and> pg_inv env (snd s)"

text \<open>Every blob lies under its content hash; every file of every version has its blob.\<close>

definition split_consistent :: "ext \<Rightarrow> ('s \<Rightarrow> string \<rightharpoonup> bytes) \<Rightarrow> 's split_state \<Rightarrow> bool" where
  "split_consistent x objs s \<longleftrightarrow> consistent x (s3_blobs x objs (fst s)) (pg_view (snd s))"

lemma split_defs:
  "sc.sinv cl x objs calm env s \<longleftrightarrow> split_inv cl x objs calm env s"
  "consistent x (s3_blobs x objs (fst s)) (pg_view (snd s)) \<longleftrightarrow> split_consistent x objs s"
  "sc.sview s = pg_view (snd s)" "sc.sblobs x objs s = s3_blobs x objs (fst s)"
  by (simp_all add: sc.sinv_def sc.sblobs_def sc.sview_def split_inv_def split_consistent_def)

lemmas split_create_Ret = sc.create_document_Ret [unfolded split_defs]
lemmas split_create_failed = sc.create_document_failed [unfolded split_defs]
lemmas split_create_consistent = sc.create_document_consistent [unfolded split_defs]
lemmas split_add_Ret = sc.add_document_version_Ret [unfolded split_defs]
lemmas split_add_failed = sc.add_document_version_failed [unfolded split_defs]
lemmas split_delete_version = sc.delete_document_version [unfolded split_defs]
lemmas split_delete = sc.delete_document [unfolded split_defs]
lemmas split_removes_consistent = sc.removes_consistent [unfolded split_defs]
lemmas split_restore_Ret = sc.restore_document_Ret [unfolded sc.restore_base_def split_defs]
lemmas split_restore_failed = sc.restore_document_failed [unfolded split_defs]
lemmas split_read = sc.read_file [unfolded split_defs]

section \<open>A document in the two stores\<close>

text \<open>The stores after one and after two versions of document 1 of company 3.\<close>

abbreviation mem_ds :: "(string, bytes) gomap document_store" where
  "mem_ds \<equiv> s3_store mem_s3 mem_ext"

abbreviation mem_ms :: "pgdb metadata_store" where
  "mem_ms \<equiv> pg_store mem_env"

abbreviation mem_inv :: "(string, bytes) gomap split_state \<Rightarrow> bool" where
  "mem_inv \<equiv> split_inv mem_s3 mem_ext map_of (\<lambda>_. True) mem_env"

abbreviation mem_consistent :: "(string, bytes) gomap split_state \<Rightarrow> bool" where
  "mem_consistent \<equiv> split_consistent mem_ext map_of"

definition sample_create ::
  "on_new_version_func \<Rightarrow> unit outcome \<times> (string, bytes) gomap split_state" where
  "sample_create onNew =
     sc_CreateDocument calm_ctx mem_ds mem_ms 3 1 2 ''first'' (VersionTime 5000000)
       [sample_file ''a'' 3] (Some onNew) ([], empty_db)"

definition sample_state :: "(string, bytes) gomap split_state" where
  "sample_state = snd (sample_create (\<lambda>_. Ret ()))"

definition sample_add ::
  "on_new_version_func \<Rightarrow> version_info outcome \<times> (string, bytes) gomap split_state" where
  "sample_add onNew =
     sc_AddDocumentVersion calm_ctx mem_ext mem_ds mem_ms 1 2 ''second''
       (Some (CreateVersionWriteFiles 7000000 [Some (sample_file ''b'' 4)])) (Some onNew) sample_state"

lemma sample_create_Ret: "fst (sample_create (\<lambda>_. Ret ())) = Ret ()"
  by code_simp

lemma sample_add_Ret: "\<exists>info. fst (sample_add (\<lambda>_. Ret ())) = Ret info"
proof -
  have "(case fst (sample_add (\<lambda>_. Ret ())) of Ret _ \<Rightarrow> True | Fail _ \<Rightarrow> False | Panic _ \<Rightarrow> False)" by code_simp
  then show ?thesis by (simp split: outcome.splits)
qed

text \<open>
  A version that changes nothing is committed, with a list of modified files that has the file
  written again and a list of removed files that has a name no version had.
\<close>

lemma sample_add_changeless:
  "\<exists>info s'. sc_AddDocumentVersion calm_ctx mem_ext mem_ds mem_ms 1 2 ''again''
       (Some (\<lambda>_ _ _. Ret (Some \<lparr>cvr_Version = VersionTime 7000000, WriteFiles = [Some (sample_file ''a'' 3)],
          RemoveFiles = [''z''], NewCompanyID = None\<rparr>))) (Some (\<lambda>_. Ret ())) sample_state = (Ret info, s')
     \<and> ModifiedFiles info = [''a''] \<and> RemovedFiles info = [''z''] \<and> AddedFiles info = []
     \<and> (\<exists>prev. pg_view (snd sample_state) 1 (VersionTime 5000000) = Some prev \<and> map_of (Files info) = map_of (Files prev))"
proof -
  have "(case fst (sc_AddDocumentVersion calm_ctx mem_ext mem_ds mem_ms 1 2 ''again''
       (Some (\<lambda>_ _ _. Ret (Some \<lparr>cvr_Version = VersionTime 7000000, WriteFiles = [Some (sample_file ''a'' 3)],
          RemoveFiles = [''z''], NewCompanyID = None\<rparr>))) (Some (\<lambda>_. Ret ())) sample_state) of
      Ret info \<Rightarrow> ModifiedFiles info = [''a''] \<and> RemovedFiles info = [''z''] \<and> AddedFiles info = []
        \<and> (case pg_view (snd sample_state) 1 (VersionTime 5000000) of
             None \<Rightarrow> False | Some prev \<Rightarrow> Files info = Files prev)
    | _ \<Rightarrow> False)" by code_simp
  then show ?thesis
    by (cases "sc_AddDocumentVersion calm_ctx mem_ext mem_ds mem_ms 1 2 ''again''
       (Some (\<lambda>_ _ _. Ret (Some \<lparr>cvr_Version = VersionTime 7000000, WriteFiles = [Some (sample_file ''a'' 3)],
          RemoveFiles = [''z''], NewCompanyID = None\<rparr>))) (Some (\<lambda>_. Ret ())) sample_state")
      (auto split: outcome.splits option.splits)
qed

lemma sample_add_fails: "fst (sample_add (\<lambda>_. Panic ''callback'')) \<noteq> Ret info"
proof -
  have "(case fst (sample_add (\<lambda>_. Panic ''callback'')) of Ret _ \<Rightarrow> False | Fail _ \<Rightarrow> True | Panic _ \<Rightarrow> True)" by code_simp
  then show ?thesis by (auto split: outcome.splits)
qed

lemma sample_create_fails: "fst (sample_create (\<lambda>_. Fail (OtherErr ''callback''))) = Fail (OtherErr ''callback'')"
  by code_simp

lemma sample_create_panics: "fst (sample_create (\<lambda>_. Panic ''callback'')) = Panic ''callback''"
  by code_simp

lemma empty_state_inv: "mem_inv ([], empty_db)" "mem_consistent ([], empty_db)"
  by (simp_all add: split_inv_def split_consistent_def consistent_def sound_blobs_def references_def s3_blobs_def)

lemma sample_state_version: "\<exists>info. pg_view (snd sample_state) 1 (VersionTime 5000000) = Some info"
proof -
  have "(case pg_view (snd sample_state) 1 (VersionTime 5000000) of None \<Rightarrow> False | Some info \<Rightarrow> True)"
    by code_simp
  then show ?thesis by (simp split: option.splits)
qed

lemma sample_state_inv: "mem_inv sample_state" "mem_consistent sample_state"
proof -
  show "mem_inv sample_state" "mem_consistent sample_state"
    using split_create_consistent [OF surjective_pairing, where cx = calm_ctx and cl = mem_s3 and x = mem_ext
        and env = mem_env and companyID = 3 and docID = 1 and userID = 2 and reason = "''first''"
        and v = "VersionTime 5000000" and files = "[sample_file ''a'' 3]" and onNewVersion = "Some (\<lambda>_. Ret ())"
        and s = "([], empty_db)" and objs = map_of and calm = "\<lambda>_. True"]
      empty_state_inv
    by (simp_all add: sample_state_def sample_create_def)
qed

section \<open>Properties\<close>

text \<open>C1: A call of \<open>AddDocumentVersion\<close> that returns no error came through every guard; it commits
  exactly one version, whose predecessor is the latest version of the document, whose files are the
  latest version's files less the removed ones and overwritten by the written ones, and whose time had
  no version. The blobs of the written files are added, no blob goes, no other document changes, and
  a consistent store stays consistent. The change lists are what the code records and not what the comments of
  \<open>VersionInfo\<close> say: \<open>AddedFiles\<close> and \<open>ModifiedFiles\<close> are the written names the file provider lacks and has, also
  where the content is the same as before, and \<open>RemovedFiles\<close> are the names the callback asked to remove, also those
  no version had. Nor is there a check for a version without a change, which is committed as well where the interface
  promises \<open>ErrNoChanges\<close>: \<open>sample_add_changeless\<close> is such a call.\<close>

theorem split_add_version_commits:
  assumes "sc_AddDocumentVersion cx x (s3_store cl x) (pg_store env) docID userID reason createVersion onNewVersion s
      = (Ret info, s')"
    and "split_inv cl x objs calm env s" "\<not> VersionsExist cx"
  shows "split_inv cl x objs calm env s' \<and> (split_consistent x objs s \<longrightarrow> split_consistent x objs s') \<and>
    (\<exists>latestInfo p result onNew.
       add_accepted x (s3_store cl x) (pg_store env) cx docID userID createVersion onNewVersion s latestInfo p result onNew
       \<and> latest (pg_view (snd s) docID) (Version latestInfo)
       \<and> pg_view (snd s) docID (Version latestInfo) = Some latestInfo
       \<and> new_version x docID userID reason latestInfo p result info \<and> onNew info = Ret ()
       \<and> pg_view (snd s) docID (ms_trunc (cvr_Version result)) = None
       \<and> pg_view (snd s') = put_version (pg_view (snd s)) docID (cvr_Version result) (as_stored info)
       \<and> s3_blobs x objs (fst s') = (s3_blobs x objs (fst s))
           (docID := s3_blobs x objs (fst s) docID ++ file_blobs x (write_readers result)))"
  using split_add_Ret(1,4,5) [OF assms] by blast

theorem split_add_version_commits_witness:
  "mem_inv (snd (sample_add (\<lambda>_. Ret ()))) \<and> mem_consistent (snd (sample_add (\<lambda>_. Ret ())))"
proof -
  obtain info where "fst (sample_add (\<lambda>_. Ret ())) = Ret info" using sample_add_Ret by blast
  then have "sc_AddDocumentVersion calm_ctx mem_ext mem_ds mem_ms 1 2 ''second''
      (Some (CreateVersionWriteFiles 7000000 [Some (sample_file ''b'' 4)])) (Some (\<lambda>_. Ret ())) sample_state
      = (Ret info, snd (sample_add (\<lambda>_. Ret ())))"
    by (simp add: sample_add_def prod_eq_iff)
  from split_add_version_commits [OF this sample_state_inv(1)] sample_state_inv(2) show ?thesis by simp
qed

text \<open>C2: A call of \<open>AddDocumentVersion\<close> that does not succeed, be it refused, failed in a store or in a
  callback, or stopped by a panicking callback, leaves the versions of every document as they were when
  the database works, and loses no blob a version refers to: consistency is kept.\<close>

theorem split_add_version_rolls_back:
  assumes "sc_AddDocumentVersion cx x (s3_store cl x) (pg_store env) docID userID reason createVersion onNewVersion s
      = (r, s')" "\<forall>i. r \<noteq> Ret i"
    and "split_inv cl x objs calm env s" "\<not> VersionsExist cx" "pg_calm env (snd s)"
  shows "split_inv cl x objs calm env s' \<and> pg_view (snd s') = pg_view (snd s)
    \<and> (split_consistent x objs s \<longrightarrow> split_consistent x objs s')"
  using split_add_failed [OF assms(1-4)] assms(5) by blast

theorem split_add_version_rolls_back_witness:
  "mem_consistent (snd (sample_add (\<lambda>_. Panic ''callback'')))
   \<and> pg_view (snd (snd (sample_add (\<lambda>_. Panic ''callback'')))) = pg_view (snd sample_state)"
  using split_add_version_rolls_back [OF surjective_pairing _ sample_state_inv(1), of calm_ctx 1 2 "''second''"
      "Some (CreateVersionWriteFiles 7000000 [Some (sample_file ''b'' 4)])" "Some (\<lambda>_. Panic ''callback'')"]
    sample_add_fails sample_state_inv(2)
  by (simp add: sample_add_def)

text \<open>C3: A call of \<open>CreateDocument\<close> that returns no error found no blob of the document and no version
  at that time; it commits exactly one first version with exactly the given files, after the callback
  accepted its metadata, and leaves the other documents alone and the stores consistent.\<close>

theorem split_create_document_commits:
  assumes "sc_CreateDocument cx (s3_store cl x) (pg_store env) companyID docID userID reason v files onNewVersion s
      = (Ret (), s')"
    and "split_inv cl x objs calm env s" "\<not> VersionsExist cx" "pg_calm env (snd s)"
  shows "split_inv cl x objs calm env s' \<and> (split_consistent x objs s \<longrightarrow> split_consistent x objs s')
    \<and> s3_blobs x objs (fst s) docID = Map.empty \<and> pg_view (snd s) docID (ms_trunc v) = None
    \<and> (\<exists>info onNew. genesis_version x companyID docID userID reason v files info
         \<and> onNewVersion = Some onNew \<and> onNew info = Ret ()
         \<and> pg_view (snd s') = put_version (pg_view (snd s)) docID v (as_stored info))
    \<and> s3_blobs x objs (fst s') = (s3_blobs x objs (fst s))(docID := file_blobs x files)"
  using split_create_Ret(1,2,3,7,8) [OF assms(1) _ assms(2,3)] split_create_consistent [OF assms(1-3) _ assms(4)]
  by blast

theorem split_create_document_commits_witness:
  "mem_inv sample_state \<and> mem_consistent sample_state \<and> pg_view (snd sample_state) 1 \<noteq> Map.empty"
  using split_create_document_commits [OF _ empty_state_inv(1), of calm_ctx 3 1 2 "''first''" "VersionTime 5000000"
      "[sample_file ''a'' 3]" "Some (\<lambda>_. Ret ())" sample_state] sample_create_Ret empty_state_inv(2)
  by (auto simp: sample_state_def sample_create_def prod_eq_iff put_version_def)

text \<open>C4: A call of \<open>CreateDocument\<close> that ends in an error leaves no version behind when the database
  works, and keeps the stores consistent; when the bucket works too and the error is not that the document
  exists, no blob is left behind either.\<close>

theorem split_create_document_rolls_back:
  assumes "sc_CreateDocument cx (s3_store cl x) (pg_store env) companyID docID userID reason v files onNewVersion s
      = (Fail e, s')"
    and "split_inv cl x objs calm env s" "\<not> VersionsExist cx" "pg_calm env (snd s)"
  shows "split_inv cl x objs calm env s' \<and> pg_view (snd s') = pg_view (snd s)
    \<and> (\<forall>d. d \<noteq> docID \<longrightarrow> s3_blobs x objs (fst s') d = s3_blobs x objs (fst s) d)
    \<and> (split_consistent x objs s \<longrightarrow> split_consistent x objs s')
    \<and> (calm (fst s) \<and> \<not> errors_As is_DocumentAlreadyExists e \<longrightarrow>
         s3_blobs x objs (fst s') = s3_blobs x objs (fst s))"
  using split_create_failed [OF assms(1-3)] assms(4) by blast

theorem split_create_document_rolls_back_witness:
  "pg_view (snd (snd (sample_create (\<lambda>_. Fail (OtherErr ''callback''))))) = pg_view empty_db
   \<and> s3_blobs mem_ext map_of (fst (snd (sample_create (\<lambda>_. Fail (OtherErr ''callback''))))) 1 = Map.empty"
  using split_create_document_rolls_back [OF _ empty_state_inv(1), of calm_ctx 3 1 2 "''first''" "VersionTime 5000000"
      "[sample_file ''a'' 3]" "Some (\<lambda>_. Fail (OtherErr ''callback''))" "OtherErr ''callback''"
      "snd (sample_create (\<lambda>_. Fail (OtherErr ''callback'')))"] sample_create_fails
  by (simp add: sample_create_def prod_eq_iff)

text \<open>When \<open>onNewVersion\<close> panics, \<open>CreateDocument\<close> of the split-store connection does not roll back:
  the panic goes on to the caller and the document with its version and blobs stays in both stores,
  although the package promises that a panic rolls the creation back.\<close>

theorem split_create_document_panic_stays:
  assumes "sc_CreateDocument cx (s3_store cl x) (pg_store env) companyID docID userID reason v files onNewVersion s
      = (Panic msg, s')"
    and "split_inv cl x objs calm env s" "\<not> VersionsExist cx"
  shows "(\<exists>info onNew. genesis_version x companyID docID userID reason v files info
         \<and> onNewVersion = Some onNew \<and> onNew info = Panic msg
         \<and> pg_view (snd s') = put_version (pg_view (snd s)) docID v (as_stored info))
    \<and> s3_blobs x objs (fst s') = (s3_blobs x objs (fst s))(docID := file_blobs x files)"
  using split_create_Ret(7,8) [OF assms(1) _ assms(2,3)] by blast

theorem split_create_document_panic_stays_witness:
  "pg_view (snd (snd (sample_create (\<lambda>_. Panic ''callback'')))) 1 \<noteq> Map.empty"
  using split_create_document_panic_stays [OF _ empty_state_inv(1), of calm_ctx 3 1 2 "''first''" "VersionTime 5000000"
      "[sample_file ''a'' 3]" "Some (\<lambda>_. Panic ''callback'')" "''callback''"
      "snd (sample_create (\<lambda>_. Panic ''callback''))"] sample_create_panics
  by (auto simp: sample_create_def prod_eq_iff put_version_def)

text \<open>C6: \<open>DeleteDocument\<close> keeps consistency whatever it returns; without an error the document has
  neither a version nor a blob left, and other documents are never touched.\<close>

theorem split_delete_document:
  assumes "sc_DeleteDocument cx (s3_store cl x) (pg_store env) docID s = (r, s')"
    and "split_inv cl x objs calm env s" "\<not> VersionsExist cx" "split_consistent x objs s"
  shows "split_inv cl x objs calm env s' \<and> split_consistent x objs s'
    \<and> (r = None \<longrightarrow> pg_view (snd s') = (pg_view (snd s))(docID := Map.empty)
         \<and> s3_blobs x objs (fst s') = (s3_blobs x objs (fst s))(docID := Map.empty))
    \<and> (\<forall>d. d \<noteq> docID \<longrightarrow> s3_blobs x objs (fst s') d = s3_blobs x objs (fst s) d
         \<and> pg_view (snd s') d = pg_view (snd s) d)"
proof -
  note del = split_delete [OF assms(1-3)]
  have "pg_view (snd s') docID \<subseteq>\<^sub>m pg_view (snd s) docID" using del(2) by auto
  from split_removes_consistent [OF del(1) assms(4) this] del(1,3) show ?thesis
    by (simp add: sc.removes_def split_defs)
qed

theorem split_delete_document_witness:
  "mem_consistent (snd (sc_DeleteDocument calm_ctx mem_ds mem_ms 1 sample_state))"
  using split_delete_document [OF surjective_pairing sample_state_inv(1) _ sample_state_inv(2), of calm_ctx 1] by simp

text \<open>C5: \<open>DeleteDocumentVersion\<close> keeps consistency whatever it returns: it removes at most the one
  version, never a blob another version of the document refers to, and without an error the version existed
  and is gone.\<close>

theorem split_delete_document_version:
  assumes "sc_DeleteDocumentVersion cx (s3_store cl x) (pg_store env) docID v s = (r, s')"
    and "split_inv cl x objs calm env s" "\<not> VersionsExist cx" "split_consistent x objs s"
  shows "split_inv cl x objs calm env s' \<and> split_consistent x objs s'
    \<and> (pg_view (snd s') = pg_view (snd s) \<or> pg_view (snd s') = drop_version (pg_view (snd s)) docID v)
    \<and> (\<forall>left. r = Inr left \<longrightarrow> pg_view (snd s) docID (ms_trunc v) \<noteq> None
         \<and> pg_view (snd s') = drop_version (pg_view (snd s)) docID v)"
proof -
  note del = split_delete_version [OF assms(1-3)]
  have "pg_view (snd s') docID \<subseteq>\<^sub>m pg_view (snd s) docID" using del(2) sc.drop_version_le by auto
  from split_removes_consistent [OF del(1) assms(4) this] del(1-3) show ?thesis
    by (auto simp: sc.removes_def split_defs)
qed

theorem split_delete_document_version_witness:
  "mem_consistent (snd (sc_DeleteDocumentVersion calm_ctx mem_ds mem_ms 1 (VersionTime 5000000) sample_state))"
  using split_delete_document_version [OF surjective_pairing sample_state_inv(1) _ sample_state_inv(2),
      where cx = calm_ctx and docID = 1 and v = "VersionTime 5000000"] by simp

text \<open>C11: On consistent stores that work, every version reads back: its metadata are what was committed, a
  file of it is returned with the content of the recorded hash, and a name it does not have is
  \<open>ErrDocumentFileNotFound\<close>.\<close>

theorem split_read_back:
  assumes "split_inv cl x objs calm env s" "split_consistent x objs s" "calm (fst s)" "pg_calm env (snd s)"
    and "Time v \<noteq> 0" "pg_view (snd s) docID (ms_trunc v) = Some info"
  shows "sc_DocumentVersionInfo (pg_store env) docID v s = Inr info
    \<and> (case map_of (Files info) n of
         None \<Rightarrow> sc_ReadDocumentVersionFile (s3_store cl x) (pg_store env) docID v n s
           = Inl (ErrDocumentFileNotFound docID n)
       | Some fi \<Rightarrow> (\<exists>b. sc_ReadDocumentVersionFile (s3_store cl x) (pg_store env) docID v n s = Inr b
           \<and> ContentHash x b = Hash fi))"
  using split_read(1) [OF assms] split_read(2,3) [OF assms, where n = n] by (auto split: option.split)

theorem split_read_back_witness:
  "\<exists>info. sc_DocumentVersionInfo mem_ms 1 (VersionTime 5000000) sample_state = Inr info"
proof -
  have t: "ms_trunc (VersionTime 5000000) = VersionTime 5000000" by (simp add: truncate_ms_def millisecond_def)
  obtain info where "pg_view (snd sample_state) 1 (VersionTime 5000000) = Some info"
    using sample_state_version by blast
  with split_read_back [OF sample_state_inv, where v = "VersionTime 5000000" and docID = 1 and info = info] t show ?thesis by auto
qed

end
