(* ===== verification/SplitConn.thy ===== *)
theory SplitConn
  imports SplitStore AddMulti
begin

text \<open>
  The split-store connection as a \<open>Conn\<close>: \<open>storeconn.NewConn\<close>. It keeps the contract
  \<open>AddMultiDocumentVersionImpl\<close> needs, so adding a version to many documents is atomic.
\<close>

definition add_accepts :: "version_info outcome \<Rightarrow> unit outcome \<times> version_info list" where
  "add_accepts r =
     (case r of Ret info \<Rightarrow> (Ret (), [info]) | Fail e \<Rightarrow> (Fail e, []) | Panic msg \<Rightarrow> (Panic msg, []))"

definition sc_methods :: "ext \<Rightarrow> 'd document_store \<Rightarrow> 'm metadata_store \<Rightarrow> ('d, 'm) store_state conn" where
  "sc_methods x ds ms =
     \<lparr>conn_DocumentExists = (\<lambda>cx docID. read_op (sc_DocumentExists ds docID)),
      conn_CompanyIDs = (\<lambda>cx. read_op (sc_CompanyIDs ms)),
      conn_CompanyDocumentIDs = (\<lambda>cx companyID. read_op (sc_CompanyDocumentIDs ms companyID)),
      conn_DocumentCompanyID = (\<lambda>cx docID. read_op (sc_DocumentCompanyID ms docID)),
      conn_SetDocumentCompanyID = (\<lambda>cx docID companyID. write_op (sc_SetDocumentCompanyID ms docID companyID)),
      conn_DocumentVersions = (\<lambda>cx docID. read_op (sc_DocumentVersions ms docID)),
      conn_LatestDocumentVersion = (\<lambda>cx docID. read_op (sc_LatestDocumentVersion ms docID)),
      conn_DocumentVersionInfo = (\<lambda>cx docID v. read_op (sc_DocumentVersionInfo ms docID v)),
      conn_LatestDocumentVersionInfo = (\<lambda>cx docID. read_op (sc_LatestDocumentVersionInfo ms docID)),
      conn_DocumentVersionFileProvider = (\<lambda>cx docID v. read_op (sc_DocumentVersionFileProvider ds ms docID v)),
      conn_ReadDocumentVersionFile = (\<lambda>cx docID v n. read_op (sc_ReadDocumentVersionFile ds ms docID v n)),
      conn_DeleteDocument = (\<lambda>cx docID. write_op (sc_DeleteDocument cx ds ms docID)),
      conn_DeleteDocumentVersion = (\<lambda>cx docID v s.
        let (r, s') = sc_DeleteDocumentVersion cx ds ms docID v s in (to_outcome r, s')),
      conn_CreateDocument = (\<lambda>cx. sc_CreateDocument cx ds ms),
      conn_AddDocumentVersion = (\<lambda>cx docID userID reason createVersion onNewVersion s.
        let (r, s') = sc_AddDocumentVersion cx x ds ms docID userID reason createVersion onNewVersion s
        in (add_accepts r, s')),
      conn_AddMultiDocumentVersion = (\<lambda>cx docIDs userID reason createVersion onNewVersion. panic ''with_add_multi''),
      conn_RestoreDocument = (\<lambda>cx. sc_RestoreDocument cx x ds ms)\<rparr>"

definition sc_conn :: "ext \<Rightarrow> 'd document_store \<Rightarrow> 'm metadata_store \<Rightarrow> ('d, 'm) store_state conn" where
  "sc_conn x ds ms = with_add_multi (sc_methods x ds ms)"

lemma reads_only_sc_conn: "reads_only (sc_conn x ds ms)"
  unfolding reads_only_def
proof (intro allI impI)
  fix call and s :: "('a, 'b) store_state"
  assume "\<not> is_write call"
  then show "exec (sc_conn x ds ms) call s = s"
    by (cases call) (simp_all add: sc_conn_def with_add_multi_def sc_methods_def)
qed

lemma sc_conn_AddDocumentVersion:
  "conn_AddDocumentVersion (sc_conn x ds ms) cx docID userID reason createVersion onNewVersion s = ((r, infos), s') \<longleftrightarrow>
     (\<exists>ra. sc_AddDocumentVersion cx x ds ms docID userID reason createVersion onNewVersion s = (ra, s')
        \<and> (r, infos) = add_accepts ra)"
  by (auto simp: sc_conn_def sc_methods_def split: prod.splits)

lemma sc_conn_DeleteDocumentVersion:
  "conn_DeleteDocumentVersion (sc_conn x ds ms) cx docID v s = (r, s') \<longleftrightarrow>
     (\<exists>rd. sc_DeleteDocumentVersion cx ds ms docID v s = (rd, s') \<and> r = to_outcome rd)"
  by (auto simp: sc_conn_def sc_methods_def split: prod.splits)

lemma add_accepts_Ret: "(Ret u, infos) = add_accepts r \<longleftrightarrow> (\<exists>info. r = Ret info \<and> infos = [info])"
  by (auto simp: add_accepts_def split: outcome.splits)

lemma add_accepts_fails: "(r', infos) = add_accepts r \<Longrightarrow> r' \<noteq> Ret () \<Longrightarrow> infos = [] \<and> (\<forall>i. r \<noteq> Ret i)"
  by (auto simp: add_accepts_def split: outcome.splits)

section \<open>The contract\<close>

text \<open>
  The invariant holds the consistency of the two stores too, as long as the database works:
  a roll-back that fails in the database leaves a version whose blobs may be missing.
\<close>

definition split_sound ::
  "'s s3_client \<Rightarrow> ext \<Rightarrow> ('s \<Rightarrow> string \<rightharpoonup> bytes) \<Rightarrow> ('s \<Rightarrow> bool) \<Rightarrow> pg_env \<Rightarrow> 's split_state \<Rightarrow> bool" where
  "split_sound cl x objs calm env s \<longleftrightarrow> split_inv cl x objs calm env s
     \<and> (pg_calm env (snd s) \<longrightarrow> split_consistent x objs s)"

lemma split_delete_version_sound:
  assumes run: "sc_DeleteDocumentVersion cx (s3_store cl x) (pg_store env) docID v s = (r, s')"
    and s: "split_sound cl x objs calm env s" and cx: "\<not> VersionsExist cx"
  shows "split_sound cl x objs calm env s'"
proof -
  have inv: "split_inv cl x objs calm env s" using s by (simp add: split_sound_def)
  note del = split_delete_version [OF run inv cx]
  have "split_consistent x objs s'" if "pg_calm env (snd s')"
  proof (rule split_removes_consistent [OF del(1)])
    show "split_consistent x objs s" using s pg_calm_any [OF that] by (simp add: split_sound_def)
    show "pg_view (snd s') docID \<subseteq>\<^sub>m pg_view (snd s) docID" using del(2) sc.drop_version_le by auto
  qed
  with del(1) show ?thesis by (simp add: split_sound_def sc.removes_def split_defs)
qed

definition quiet_ctx :: "ctx \<Rightarrow> ctx" where
  "quiet_ctx cx = cx\<lparr>VersionsExist := False\<rparr>"

lemma quiet_ctx [simp]: "\<not> VersionsExist (quiet_ctx cx)" "\<not> VersionsExist cx \<Longrightarrow> quiet_ctx cx = cx"
  by (simp_all add: quiet_ctx_def)

interpretation multi: versioned_conn "sc_conn x (s3_store cl x) (pg_store env)" "quiet_ctx cx"
    "\<lambda>s. pg_view (snd s)" "split_sound cl x objs calm env" "\<lambda>s. pg_calm env (snd s)" "\<lambda>_. True" stored_version UNIV
  for x cl objs calm env cx
proof (unfold_locales, goal_cases)
  case (1 docID s createVersion userID reason onNewVersion u infos s')
  then obtain info where run: "sc_AddDocumentVersion (quiet_ctx cx) x (s3_store cl x) (pg_store env) docID userID
      reason createVersion onNewVersion s = (Ret info, s')" and infos: "infos = [info]"
    by (auto simp: sc_conn_AddDocumentVersion add_accepts_Ret)
  have inv: "split_inv cl x objs calm env s" using 1(2) by (simp add: split_sound_def)
  note ok = split_add_Ret [OF run inv quiet_ctx(1)]
  obtain latestInfo p result onNew where acc: "add_accepted x (s3_store cl x) (pg_store env) (quiet_ctx cx) docID userID
      createVersion onNewVersion s latestInfo p result onNew"
    and new: "new_version x docID userID reason latestInfo p result info" "onNew info = Ret ()"
      "pg_view (snd s) docID (ms_trunc (cvr_Version result)) = None"
      "pg_view (snd s') = put_version (pg_view (snd s)) docID (cvr_Version result) (as_stored info)"
    using ok(5) by blast
  have "Time (cvr_Version result) \<noteq> 0" "onNewVersion = Some onNew"
    using acc by (auto simp: add_accepted_def CreateVersionResult_Validate_None_iff)
  moreover have "Version info = cvr_Version result" "DocID info = docID"
    using new(1) by (simp_all add: new_version_def)
  moreover have "split_sound cl x objs calm env s'"
    using ok(1,4) 1(2) pg_calm_any [of env "snd s'" "snd s"] by (simp add: split_sound_def)
  ultimately show ?case using new(2-4) infos by (simp add: stored_version_def)
next
  case (2 docID s createVersion userID reason onNewVersion r infos s')
  then obtain ra where run: "sc_AddDocumentVersion (quiet_ctx cx) x (s3_store cl x) (pg_store env) docID userID
      reason createVersion onNewVersion s = (ra, s')" and ra: "(r, infos) = add_accepts ra"
    by (auto simp: sc_conn_AddDocumentVersion)
  note no = add_accepts_fails [OF ra 2(5)]
  have inv: "split_inv cl x objs calm env s" using 2(2) by (simp add: split_sound_def)
  note ok = split_add_failed [OF run no [THEN conjunct2] inv quiet_ctx(1)]
  show ?case
    using ok no 2(2) pg_calm_any [of env "snd s'" "snd s"] by (simp add: split_sound_def)
next
  case (3 docID s createVersion userID reason onNewVersion r infos s')
  then show ?case using pg_calm_any by blast
next
  case (4 docID s v rd s')
  then obtain r where run: "sc_DeleteDocumentVersion (quiet_ctx cx) (s3_store cl x) (pg_store env) docID v s = (r, s')"
    and rd: "rd = to_outcome r"
    by (auto simp: sc_conn_DeleteDocumentVersion)
  from split_delete_version_sound [OF run 4(2) quiet_ctx(1)] rd show ?case by (cases r) auto
next
  case (5 docID s info info' v rd s')
  then obtain r where run: "sc_DeleteDocumentVersion (quiet_ctx cx) (s3_store cl x) (pg_store env) docID v s = (r, s')"
    by (auto simp: sc_conn_DeleteDocumentVersion)
  from split_delete_version(4) [OF run _ quiet_ctx(1)] 5 show ?case by (auto simp: split_sound_def stored_version_def)
qed

section \<open>Properties\<close>

definition sample_multi :: "uuid list \<Rightarrow> unit outcome \<times> (string, bytes) gomap split_state" where
  "sample_multi docIDs =
     conn_AddMultiDocumentVersion (sc_conn mem_ext mem_ds mem_ms) calm_ctx docIDs 2 ''all''
       (Some (CreateVersionWriteFiles 7000000 [Some (sample_file ''b'' 4)])) (Some (\<lambda>_. Ret ())) sample_state"

text \<open>C34: \<open>AddMultiDocumentVersion\<close> of the split-store connection is all or nothing when the database works:
  without an error it added, one after another, at least one version, each accepted by the callback, each for
  another position of the given documents and each at a time the document had no version at; with an error,
  whatever failed and whether or not a callback panicked, the versions of every document are what they were.
  It never panics, and the two stores stay consistent.\<close>

theorem split_add_multi_atomic:
  assumes "conn_AddMultiDocumentVersion (sc_conn x (s3_store cl x) (pg_store env)) cx docIDs userID reason
      createVersion onNewVersion s = (r, s')"
    and "split_inv cl x objs calm env s" "split_consistent x objs s" "\<not> VersionsExist cx" "pg_calm env (snd s)"
  shows "split_inv cl x objs calm env s' \<and> split_consistent x objs s' \<and>
    (case r of
       Ret _ \<Rightarrow> \<exists>infos. infos \<noteq> [] \<and> accepted_by onNewVersion infos \<and> subseq (map DocID infos) docIDs
         \<and> adds stored_version (pg_view (snd s)) infos (pg_view (snd s'))
     | Fail e \<Rightarrow> pg_view (snd s') = pg_view (snd s)
     | Panic msg \<Rightarrow> False)"
proof -
  have run: "AddMultiDocumentVersionImpl (quiet_ctx cx) (sc_conn x (s3_store cl x) (pg_store env)) docIDs userID reason
      createVersion onNewVersion s = (r, s')"
    using assms(1,4) by (simp add: sc_conn_def AddMulti_with_self [symmetric])
  have s: "split_sound cl x objs calm env s" using assms(2,3) by (simp add: split_sound_def)
  show ?thesis
  proof (cases "r = Ret ()")
    case True
    from multi.add_multi_Ret [OF run [unfolded True] s subset_UNIV TrueI] assms(5) pg_calm_any [OF assms(5), of "snd s'"] True
    show ?thesis by (auto simp: split_sound_def)
  next
    case False
    from multi.add_multi_fails [OF run s subset_UNIV TrueI False] assms(5) pg_calm_any [OF assms(5), of "snd s'"]
    show ?thesis by (auto simp: split_sound_def)
  qed
qed

theorem split_add_multi_atomic_witness:
  "pg_view (snd (snd (sample_multi [1, 9]))) = pg_view (snd sample_state)
   \<and> mem_consistent (snd (sample_multi [1]))"
proof -
  have "(case fst (sample_multi [1, 9]) of Fail e \<Rightarrow> True | _ \<Rightarrow> False)" by code_simp
  moreover have "mem_consistent (snd (sample_multi docIDs)) \<and> (case fst (sample_multi docIDs) of
      Fail e \<Rightarrow> pg_view (snd (snd (sample_multi docIDs))) = pg_view (snd sample_state) | _ \<Rightarrow> True)" for docIDs
    using split_add_multi_atomic [OF surjective_pairing sample_state_inv, of calm_ctx docIDs 2 "''all''"
        "Some (CreateVersionWriteFiles 7000000 [Some (sample_file ''b'' 4)])" "Some (\<lambda>_. Ret ())"]
    by (auto simp: sample_multi_def split: outcome.splits)
  from this [of "[1, 9]"] this [of "[1]"] calculation show ?thesis by (auto split: outcome.splits)
qed

end
