(* ===== verification/ConnProps.thy ===== *)
theory ConnProps
  imports WrapperConns SplitConn
begin

text \<open>
  Properties of the wrapping connections, instantiated on the split-store connection: a
  read-only connection never writes, a logging one changes nothing, a router over
  several stores keeps multi-document updates atomic.
\<close>

section \<open>Read-only and failing connections\<close>

lemma exec_all_id:
  assumes "\<And>call s. exec c call s = s"
  shows "exec_all c calls s = s"
  by (induction calls arbitrary: s) (simp_all add: assms)

lemma ReadonlyConn_read:
  assumes "\<not> is_write call"
  shows "exec (ReadonlyConn c) call s = exec c call s" "call_result (ReadonlyConn c) call s = call_result c call s"
  using assms by (cases call; simp add: ReadonlyConn_def)+

lemma ReadonlyConn_write:
  assumes "is_write call"
  shows "exec (ReadonlyConn c) call s = s"
    "\<exists>e. call_result (ReadonlyConn c) call s = Fail e \<and> errors_Is e ErrReadonly"
  using assms by (cases call; simp add: ReadonlyConn_def readonly_err_def)+

text \<open>Over a connection whose reads do not change the state, no sequence of calls through \<open>ReadonlyConn\<close>
  changes it; each writing call fails with an error that is \<open>ErrReadonly\<close>, each reading call returns what the
  wrapped connection returns. A connection made from an error fails every call with it and changes nothing.\<close>

theorem readonly_conn_never_writes:
  fixes c :: "'s conn"
  assumes "reads_only c"
  shows "exec_all (ReadonlyConn c) calls s = s
    \<and> (is_write call \<longrightarrow> (\<exists>e. call_result (ReadonlyConn c) call s = Fail e \<and> errors_Is e ErrReadonly))
    \<and> (\<not> is_write call \<longrightarrow> call_result (ReadonlyConn c) call s = call_result c call s)
    \<and> exec_all (NewConnWithError e) calls s = s \<and> call_result (NewConnWithError e) call s = Fail e"
proof -
  have "exec (ReadonlyConn c) call s = s" for call and s :: 's
    using assms ReadonlyConn_read(1) [of call c s] ReadonlyConn_write(1) [of call c s] unfolding reads_only_def
    by (cases "is_write call") simp_all
  moreover have "exec (NewConnWithError e) call s = s \<and> call_result (NewConnWithError e) call s = Fail e" for call and s :: 's
    by (cases call) (simp_all add: NewConnWithError_def)
  ultimately show ?thesis
    by (simp add: exec_all_id ReadonlyConn_read(2) ReadonlyConn_write(2))
qed

theorem readonly_conn_never_writes_witness:
  "exec_all (ReadonlyConn (sc_conn mem_ext mem_ds mem_ms))
     [Call_DeleteDocument calm_ctx 1, Call_DocumentVersions calm_ctx 1] sample_state = sample_state"
  using readonly_conn_never_writes [OF reads_only_sc_conn] by blast

section \<open>The logging connection\<close>







text \<open>Connections whose \<open>AddMultiDocumentVersion\<close> is the shared implementation.\<close>

definition shared_add_multi :: "'s conn \<Rightarrow> bool" where
  "shared_add_multi c \<longleftrightarrow> (\<forall>cx docIDs userID reason createVersion onNewVersion s.
     conn_AddMultiDocumentVersion c cx docIDs userID reason createVersion onNewVersion s
       = AddMultiDocumentVersionImpl cx c docIDs userID reason createVersion onNewVersion s)"

lemma shared_add_multi_with [simp]: "shared_add_multi (with_add_multi c)"
  by (simp add: shared_add_multi_def AddMulti_with_self)




text \<open>
  Over a connection with another \<open>AddMultiDocumentVersion\<close>, such as \<open>ReadonlyConn\<close>, the logging
  connection returns something else.
\<close>

lemma logConn_ReadonlyConn:
  "call_result (ReadonlyConn c) (Call_AddMultiDocumentVersion cx [] userID reason createVersion onNewVersion) s
     = Fail (readonly_err ''cannot add version to documents'')"
  "call_result (logConn (ReadonlyConn c)) (Call_AddMultiDocumentVersion cx [] userID reason createVersion onNewVersion) (s, l)
     = Fail ErrNoChanges"
  by (simp_all add: ReadonlyConn_def logConn_def with_add_multi_def AddMultiDocumentVersionImpl_def)



section \<open>The router\<close>

text \<open>\<open>CompanyIDs\<close> of the router returns, without error, only when every backend does, and then the ids that
  some backend reports, sorted and each once.\<close>

theorem router_company_ids_union:
  assumes "conn_CompanyIDs (routerConn forCompany forDoc allConns) cx s = (Ret ids, s')"
    and "\<forall>c\<in>set allConns. reads_only c"
  shows "s' = s \<and> sorted ids \<and> distinct ids \<and> set ids = (\<Union>c\<in>set allConns. reported_companies cx s c)
    \<and> (\<forall>c\<in>set allConns. \<exists>xs. conn_CompanyIDs c cx s = (Ret xs, s))"
proof -
  from assms(1) obtain xs t where run: "collect_company_ids cx allConns [] s = (Ret xs, t)"
    and ids: "ids = sort (remdups xs)" "s' = t"
    by (auto simp: routerConn_def with_add_multi_def router_methods_def router_CompanyIDs_def try_op_Ret_iff)
  have "snd (conn_CompanyIDs c cx t) = t" if "c \<in> set allConns" for c t
  proof -
    have "exec c (Call_CompanyIDs cx) t = t" using assms(2) that unfolding reads_only_def by (metis is_write.simps(9))
    then show ?thesis by simp
  qed
  with collect_company_ids_Ret [OF run] ids show ?thesis by simp
qed

theorem router_company_ids_union_witness:
  "fst (conn_CompanyIDs (routerConn (\<lambda>cx c. fail ErrReadonly) (\<lambda>cx d. fail ErrReadonly)
       [sc_conn mem_ext mem_ds mem_ms, sc_conn mem_ext mem_ds mem_ms]) calm_ctx sample_state) = Ret [3]
   \<and> reported_companies calm_ctx sample_state (sc_conn mem_ext mem_ds mem_ms) = {3}"
proof -
  have ret: "fst (conn_CompanyIDs (routerConn (\<lambda>cx c. fail ErrReadonly) (\<lambda>cx d. fail ErrReadonly)
       [sc_conn mem_ext mem_ds mem_ms, sc_conn mem_ext mem_ds mem_ms]) calm_ctx sample_state) = Ret [3]"
    by code_simp
  then have "conn_CompanyIDs (routerConn (\<lambda>cx c. fail ErrReadonly) (\<lambda>cx d. fail ErrReadonly)
       [sc_conn mem_ext mem_ds mem_ms, sc_conn mem_ext mem_ds mem_ms]) calm_ctx sample_state = (Ret [3],
     snd (conn_CompanyIDs (routerConn (\<lambda>cx c. fail ErrReadonly) (\<lambda>cx d. fail ErrReadonly)
       [sc_conn mem_ext mem_ds mem_ms, sc_conn mem_ext mem_ds mem_ms]) calm_ctx sample_state))"
    by (simp add: prod_eq_iff)
  from router_company_ids_union [OF this] ret show ?thesis by (simp add: reads_only_sc_conn)
qed

text \<open>
  Two split-store connections side by side, each with a bucket and a database of its own.
  \<open>Q\<close> says which one holds a document, the first for \<open>True\<close>, or refuses the document.
\<close>

type_synonym ('s, 't) two_stores = "'s split_state \<times> 't split_state"

definition first_conn :: "ext \<Rightarrow> 's s3_client \<Rightarrow> pg_env \<Rightarrow> ('s, 't) two_stores conn" where
  "first_conn x cl env = conn_via fst (\<lambda>s w. (s, snd w)) (sc_conn x (s3_store cl x) (pg_store env))"

definition second_conn :: "ext \<Rightarrow> 't s3_client \<Rightarrow> pg_env \<Rightarrow> ('s, 't) two_stores conn" where
  "second_conn x cl env = conn_via snd (\<lambda>s w. (fst w, s)) (sc_conn x (s3_store cl x) (pg_store env))"

definition two_route :: "(uuid \<Rightarrow> err + bool) \<Rightarrow> 'c \<Rightarrow> 'c \<Rightarrow> uuid \<Rightarrow> err + 'c" where
  "two_route Q c1 c2 docID = (case Q docID of Inl e \<Rightarrow> Inl e | Inr b \<Rightarrow> Inr (if b then c1 else c2))"

definition two_router ::
  "'s route \<Rightarrow> (uuid \<Rightarrow> err + bool) \<Rightarrow> 's conn \<Rightarrow> 's conn \<Rightarrow> 's conn" where
  "two_router forCompany Q c1 c2 = routerConn forCompany (\<lambda>cx docID s. (to_outcome (two_route Q c1 c2 docID), s)) [c1, c2]"

text \<open>The versions of each document on the backend that holds it.\<close>

definition two_view :: "(uuid \<Rightarrow> err + bool) \<Rightarrow> ('s, 't) two_stores \<Rightarrow> meta_view" where
  "two_view Q w docID = (case Q docID of Inl e \<Rightarrow> Map.empty
     | Inr b \<Rightarrow> if b then pg_view (snd (fst w)) docID else pg_view (snd (snd w)) docID)"

text \<open>
  A split-store connection on a working database, asked for the documents \<open>D\<close> only; \<open>V\<close> are
  the versions of the others, which stay.
\<close>

definition split_framed ::
  "'s s3_client \<Rightarrow> ext \<Rightarrow> ('s \<Rightarrow> string \<rightharpoonup> bytes) \<Rightarrow> ('s \<Rightarrow> bool) \<Rightarrow> pg_env \<Rightarrow> uuid set \<Rightarrow> meta_view \<Rightarrow> 's split_state \<Rightarrow> bool" where
  "split_framed cl x objs calm env D V s \<longleftrightarrow> split_sound cl x objs calm env s \<and> pg_calm env (snd s)
     \<and> (\<forall>d. d \<notin> D \<longrightarrow> pg_view (snd s) d = V d)"

interpretation framed: versioned_conn "sc_conn x (s3_store cl x) (pg_store env)" "quiet_ctx cx"
    "\<lambda>s. pg_view (snd s)" "split_framed cl x objs calm env D V" "\<lambda>s. pg_calm env (snd s)" "\<lambda>_. True" stored_version D
  for x cl objs calm env cx D V
proof (unfold_locales, goal_cases)
  case (1 docID s createVersion userID reason onNewVersion u infos s')
  have s: "split_sound cl x objs calm env s" using 1(2) by (simp add: split_framed_def)
  from multi.add_Ret [OF UNIV_I s TrueI 1(4)] 1(1,2) pg_calm_any [of env "snd s" "snd s'"]
  show ?case by (auto simp: split_framed_def put_version_def)
next
  case (2 docID s createVersion userID reason onNewVersion r infos s')
  have s: "split_sound cl x objs calm env s" using 2(2) by (simp add: split_framed_def)
  from multi.add_fails [OF UNIV_I s TrueI 2(4,5)] 2(2) pg_calm_any [of env "snd s" "snd s'"]
  show ?case by (auto simp: split_framed_def)
next
  case (3 docID s createVersion userID reason onNewVersion r infos s')
  then show ?case using pg_calm_any by blast
next
  case (4 docID s v rd s')
  have s: "split_sound cl x objs calm env s" using 4(2) by (simp add: split_framed_def)
  obtain r where run: "sc_DeleteDocumentVersion (quiet_ctx cx) (s3_store cl x) (pg_store env) docID v s = (r, s')"
    using 4(3) by (auto simp: sc_conn_DeleteDocumentVersion)
  have "split_inv cl x objs calm env s" using s by (simp add: split_sound_def)
  from split_delete_version(1) [OF run this quiet_ctx(1)]
  have "\<forall>d. d \<noteq> docID \<longrightarrow> pg_view (snd s') d = pg_view (snd s) d" by (simp add: sc.removes_def split_defs)
  with multi.delete_inv [OF UNIV_I s 4(3)] 4(1,2) pg_calm_any [of env "snd s" "snd s'"]
  show ?case by (auto simp: split_framed_def)
next
  case (5 docID s info info' v rd s')
  have s: "split_sound cl x objs calm env s" using 5(2) by (simp add: split_framed_def)
  from multi.delete_calm [OF UNIV_I s 5(3-6)] show ?case .
qed

interpretation duo: routed_conns forCompany
    "\<lambda>cx docID s. (to_outcome (two_route Q (first_conn x cl1 env1) (second_conn x cl2 env2) docID), s)" allConns "quiet_ctx cx"
    "two_route Q (first_conn x cl1 env1) (second_conn x cl2 env2)" "two_view Q"
    "\<lambda>w. split_framed cl1 x objs1 calm1 env1 {d. Q d = Inr True} V1 (fst w)
       \<and> split_framed cl2 x objs2 calm2 env2 {d. Q d = Inr False} V2 (snd w)"
    "\<lambda>w. pg_calm env1 (snd (fst w)) \<and> pg_calm env2 (snd (snd w))" "\<lambda>_. True" stored_version
  for forCompany Q x cl1 env1 cl2 env2 allConns cx objs1 calm1 objs2 calm2 V1 V2
proof (rule routed_conns.intro, goal_cases)
  case (2 docID c)
  show ?case
  proof (cases "Q docID")
    case (Inl e)
    with 2 show ?thesis by (simp add: two_route_def)
  next
    case (Inr b)
    show ?thesis
    proof (cases b)
      case True
      with 2 Inr have c: "c = first_conn x cl1 env1" by (simp add: two_route_def)
      show ?thesis unfolding c first_conn_def
        by (rule versioned_conn_via [OF framed.versioned_conn_axioms [where D = "{d. Q d = Inr True}" and V = V1 and objs = objs1 and calm = calm1],
              where P = "\<lambda>d. Q d = Inr True"
              and Irest = "\<lambda>w. split_framed cl2 x objs2 calm2 env2 {d. Q d = Inr False} V2 (snd w)" and calmrest = "\<lambda>w. pg_calm env2 (snd (snd w))"])
          (auto simp: two_view_def Inr True split: sum.split)
    next
      case False
      with 2 Inr have c: "c = second_conn x cl2 env2" by (simp add: two_route_def)
      show ?thesis unfolding c second_conn_def
        by (rule versioned_conn_via [OF framed.versioned_conn_axioms [where D = "{d. Q d = Inr False}" and V = V2 and objs = objs2 and calm = calm2],
              where P = "\<lambda>d. Q d = Inr False"
              and Irest = "\<lambda>w. split_framed cl1 x objs1 calm1 env1 {d. Q d = Inr True} V1 (fst w)" and calmrest = "\<lambda>w. pg_calm env1 (snd (fst w))"])
          (auto simp: two_view_def Inr False split: sum.split)
    qed
  qed
qed (auto simp: two_view_def two_route_def split: sum.splits)

text \<open>C36: \<open>AddMultiDocumentVersion\<close> of a router over two split-store connections, whose route depends on the id
  of the document only and may refuse it with an error, is all or nothing across the two, when both databases work:
  with an error no document of either backend has a version more or less, without one the new versions, at least one,
  were added in the order of the given documents, each on the backend that holds its document, and accepted by the
  callback. It never panics, neither backend changes a document it does not hold, and both stay consistent.\<close>

theorem router_add_multi_atomic:
  assumes "conn_AddMultiDocumentVersion (two_router forCompany Q (first_conn x cl1 env1) (second_conn x cl2 env2))
      cx docIDs userID reason createVersion onNewVersion w = (r, w')"
    and "split_inv cl1 x objs1 calm1 env1 (fst w)" "split_consistent x objs1 (fst w)" "pg_calm env1 (snd (fst w))"
    and "split_inv cl2 x objs2 calm2 env2 (snd w)" "split_consistent x objs2 (snd w)" "pg_calm env2 (snd (snd w))"
    and "\<not> VersionsExist cx"
  shows "split_consistent x objs1 (fst w') \<and> split_consistent x objs2 (snd w')
    \<and> (\<forall>d. Q d \<noteq> Inr True \<longrightarrow> pg_view (snd (fst w')) d = pg_view (snd (fst w)) d)
    \<and> (\<forall>d. Q d \<noteq> Inr False \<longrightarrow> pg_view (snd (snd w')) d = pg_view (snd (snd w)) d)
    \<and> (case r of
         Ret _ \<Rightarrow> \<exists>infos. infos \<noteq> [] \<and> accepted_by onNewVersion infos \<and> subseq (map DocID infos) docIDs
           \<and> adds stored_version (two_view Q w) infos (two_view Q w')
       | Fail e \<Rightarrow> pg_view (snd (fst w')) = pg_view (snd (fst w)) \<and> pg_view (snd (snd w')) = pg_view (snd (snd w))
       | Panic msg \<Rightarrow> False)"
proof -
  let ?V1 = "pg_view (snd (fst w))" and ?V2 = "pg_view (snd (snd w))"
  have run: "AddMultiDocumentVersionImpl (quiet_ctx cx) (routerConn forCompany
      (\<lambda>cx docID s. (to_outcome (two_route Q (first_conn x cl1 env1) (second_conn x cl2 env2) docID), s))
      [first_conn x cl1 env1, second_conn x cl2 env2]) docIDs userID reason createVersion onNewVersion w = (r, w')"
    using assms(1,8) by (simp add: two_router_def routerConn_def AddMulti_with_self [symmetric])
  have w: "split_framed cl1 x objs1 calm1 env1 {d. Q d = Inr True} ?V1 (fst w)
      \<and> split_framed cl2 x objs2 calm2 env2 {d. Q d = Inr False} ?V2 (snd w)"
    using assms(2-7) by (simp add: split_framed_def split_sound_def)
  have calm: "pg_calm env1 (snd (fst w)) \<and> pg_calm env2 (snd (snd w))" using assms(4,7) by simp
  show ?thesis
  proof (cases "r = Ret ()")
    case True
    from duo.add_multi_Ret [OF run [unfolded True] w subset_UNIV TrueI] calm True
    show ?thesis by (auto simp: split_framed_def split_sound_def)
  next
    case False
    note f = duo.add_multi_fails [OF run w subset_UNIV TrueI False]
    then have frame: "Q d \<noteq> Inr True \<Longrightarrow> pg_view (snd (fst w')) d = ?V1 d" "Q d \<noteq> Inr False \<Longrightarrow> pg_view (snd (snd w')) d = ?V2 d" for d
      by (simp_all add: split_framed_def)
    have view: "two_view Q w' d = two_view Q w d" for d using f calm by simp
    have "pg_view (snd (fst w')) d = ?V1 d" for d
      using view [of d] frame(1) [of d] by (cases "Q d = Inr True") (simp_all add: two_view_def)
    moreover have "pg_view (snd (snd w')) d = ?V2 d" for d
      using view [of d] frame(2) [of d] by (cases "Q d = Inr False") (simp_all add: two_view_def)
    ultimately
    have "pg_view (snd (fst w')) = ?V1" "pg_view (snd (snd w')) = ?V2" by (auto simp: fun_eq_iff)
    with f show ?thesis by (auto simp: split_framed_def split_sound_def)
  qed
qed

text \<open>
  The first of the two documents gets its version on the first backend, the second does not
  exist on the other one: the version that was added is taken back.
\<close>

definition sample_two :: "((string, bytes) gomap, (string, bytes) gomap) two_stores" where
  "sample_two = (sample_state, ([], empty_db))"

definition sample_route :: "uuid \<Rightarrow> err + bool" where
  "sample_route docID = (if docID = 1 then Inr True else if docID = 9 then Inr False else Inl (OtherErr ''no backend''))"

definition sample_router_multi ::
  "uuid list \<Rightarrow> unit outcome \<times> ((string, bytes) gomap, (string, bytes) gomap) two_stores" where
  "sample_router_multi docIDs =
     conn_AddMultiDocumentVersion (two_router (\<lambda>cx c. ret (first_conn mem_ext mem_s3 mem_env)) sample_route
         (first_conn mem_ext mem_s3 mem_env) (second_conn mem_ext mem_s3 mem_env))
       calm_ctx docIDs 2 ''all'' (Some (CreateVersionWriteFiles 7000000 [Some (sample_file ''b'' 4)])) (Some (\<lambda>_. Ret ()))
       sample_two"

lemma undo_created_not_Ret: "fst (undo_created cx c created e s) \<noteq> Ret ()"
proof (induction created arbitrary: e s)
  case (Cons dv created)
  then show ?case by (cases dv) (simp split: prod.split outcome.split)
qed simp

lemma add_multi_second_fails:
  assumes "conn_AddDocumentVersion c cx d1 userID reason createVersion (Some (multi_callback onNewVersion)) s = ((Ret (), infos), s1)"
    and "conn_AddDocumentVersion c cx d2 userID reason createVersion (Some (multi_callback onNewVersion)) s1 = ((Fail e, []), s2)"
    and "\<not> errors_Is e ErrNoChanges"
  shows "fst (AddMultiDocumentVersionImpl cx c [d1, d2] userID reason createVersion onNewVersion s) \<noteq> Ret ()"
  using assms undo_created_not_Ret by (simp add: AddMultiDocumentVersionImpl_def)

lemma sample_adds:
  "\<exists>info t. conn_AddDocumentVersion (sc_conn mem_ext mem_ds mem_ms) calm_ctx 1 2 ''all''
      (Some (CreateVersionWriteFiles 7000000 [Some (sample_file ''b'' 4)])) (Some (multi_callback (Some (\<lambda>_. Ret ()))))
      sample_state = ((Ret (), [info]), t)"
  "\<exists>e t. conn_AddDocumentVersion (sc_conn mem_ext mem_ds mem_ms) calm_ctx 9 2 ''all''
      (Some (CreateVersionWriteFiles 7000000 [Some (sample_file ''b'' 4)])) (Some (multi_callback (Some (\<lambda>_. Ret ()))))
      ([], empty_db) = ((Fail e, []), t) \<and> \<not> errors_Is e ErrNoChanges"
proof -
  have "(case fst (conn_AddDocumentVersion (sc_conn mem_ext mem_ds mem_ms) calm_ctx 1 2 ''all''
      (Some (CreateVersionWriteFiles 7000000 [Some (sample_file ''b'' 4)])) (Some (multi_callback (Some (\<lambda>_. Ret ()))))
      sample_state) of (Ret u, [info]) \<Rightarrow> True | _ \<Rightarrow> False)" by code_simp
  then show "\<exists>info t. conn_AddDocumentVersion (sc_conn mem_ext mem_ds mem_ms) calm_ctx 1 2 ''all''
      (Some (CreateVersionWriteFiles 7000000 [Some (sample_file ''b'' 4)])) (Some (multi_callback (Some (\<lambda>_. Ret ()))))
      sample_state = ((Ret (), [info]), t)"
    by (auto simp: prod_eq_iff split: prod.splits outcome.splits list.splits)
  have "(case fst (conn_AddDocumentVersion (sc_conn mem_ext mem_ds mem_ms) calm_ctx 9 2 ''all''
      (Some (CreateVersionWriteFiles 7000000 [Some (sample_file ''b'' 4)])) (Some (multi_callback (Some (\<lambda>_. Ret ()))))
      ([], empty_db)) of (Fail e, infos) \<Rightarrow> infos = [] \<and> \<not> errors_Is e ErrNoChanges | _ \<Rightarrow> False)"
    by code_simp
  then show "\<exists>e t. conn_AddDocumentVersion (sc_conn mem_ext mem_ds mem_ms) calm_ctx 9 2 ''all''
      (Some (CreateVersionWriteFiles 7000000 [Some (sample_file ''b'' 4)])) (Some (multi_callback (Some (\<lambda>_. Ret ()))))
      ([], empty_db) = ((Fail e, []), t) \<and> \<not> errors_Is e ErrNoChanges"
    by (auto simp: prod_eq_iff split: prod.splits outcome.splits)
qed

theorem router_add_multi_atomic_witness:
  "fst (sample_router_multi [1]) = Ret () \<and> (\<exists>e. fst (sample_router_multi [1, 9]) = Fail e)
   \<and> pg_view (snd (fst (snd (sample_router_multi [1, 9])))) = pg_view (snd sample_state)"
proof -
  obtain info t e t' where adds:
    "conn_AddDocumentVersion (sc_conn mem_ext mem_ds mem_ms) calm_ctx 1 2 ''all''
      (Some (CreateVersionWriteFiles 7000000 [Some (sample_file ''b'' 4)])) (Some (multi_callback (Some (\<lambda>_. Ret ()))))
      sample_state = ((Ret (), [info]), t)"
    "conn_AddDocumentVersion (sc_conn mem_ext mem_ds mem_ms) calm_ctx 9 2 ''all''
      (Some (CreateVersionWriteFiles 7000000 [Some (sample_file ''b'' 4)])) (Some (multi_callback (Some (\<lambda>_. Ret ()))))
      ([], empty_db) = ((Fail e, []), t')" "\<not> errors_Is e ErrNoChanges"
    using sample_adds by blast
  note defs = two_router_def routerConn_def AddMulti_with_self AddMultiDocumentVersionImpl_def with_add_multi_def
    router_methods_def router_AddDocumentVersion_def two_route_def sample_route_def sample_two_def
    first_conn_def second_conn_def conn_via_def via_def created_versions_def
  have one: "fst (sample_router_multi [1]) = Ret ()"
    using adds(1) by (simp add: sample_router_multi_def defs)
  have two: "fst (sample_router_multi [1, 9]) \<noteq> Ret ()"
    unfolding sample_router_multi_def two_router_def routerConn_def AddMulti_with_self
    by (rule add_multi_second_fails [where ?s1.0 = "(t, [], empty_db)" and ?s2.0 = "(t, t')", OF _ _ adds(3)]) (use adds(1,2) in \<open>simp_all add: with_add_multi_def
      router_methods_def router_AddDocumentVersion_def two_route_def sample_route_def sample_two_def
      first_conn_def second_conn_def conn_via_def via_def\<close>)
  have "case fst (sample_router_multi [1, 9]) of
      Fail e \<Rightarrow> pg_view (snd (fst (snd (sample_router_multi [1, 9])))) = pg_view (snd sample_state)
    | Ret u \<Rightarrow> True | Panic msg \<Rightarrow> False"
    using router_add_multi_atomic [OF surjective_pairing, where ?objs1.0 = map_of and ?calm1.0 = "\<lambda>_. True" and ?objs2.0 = map_of
      and ?calm2.0 = "\<lambda>_. True" and ?cl1.0 = mem_s3 and ?cl2.0 = mem_s3 and ?env1.0 = mem_env and ?env2.0 = mem_env
      and x = mem_ext and cx = calm_ctx and Q = sample_route and docIDs = "[1, 9]" and userID = 2 and reason = "''all''"
      and createVersion = "Some (CreateVersionWriteFiles 7000000 [Some (sample_file ''b'' 4)])"
      and onNewVersion = "Some (\<lambda>_. Ret ())" and w = sample_two
      and forCompany = "\<lambda>cx c. ret (first_conn mem_ext mem_s3 mem_env)", folded sample_router_multi_def]
    sample_state_inv empty_state_inv by (simp add: sample_two_def split: outcome.splits)
  with one two show ?thesis by (auto split: outcome.splits)
qed

end
