(* ===== verification/LocalFS.thy ===== *)
theory LocalFS
  imports Conn
begin

text \<open>
  What \<open>localfsdb\<close> uses of other modules: the file-system library \<open>go-fs\<close> with its
  sub-package \<open>uuiddir\<close>, the parser of \<open>uu.ID\<close> and the JSON codec. They are parameters
  of the model; their documented behaviour is stated by the predicates of \<open>FileTree\<close>.

  An \<open>fs.File\<close> is a path, here the list of its components; the library joins a path
  and a name. Each operation works on a state of the file system, and a failing one may
  leave a changed state behind.
\<close>

type_synonym fpath = "string list"

text \<open>The fields of \<open>fs.FileInfo\<close> the code reads.\<close>

record file_status =
  st_Exists :: bool
  st_IsDir :: bool
  st_IsRegular :: bool
  st_IsHidden :: bool
  st_Size :: int

record 'f fsys =
  fs_Join :: "fpath \<Rightarrow> string \<Rightarrow> fpath"
  fs_IsLocal :: "fpath \<Rightarrow> bool"
  fs_Info :: "fpath \<Rightarrow> 'f \<Rightarrow> file_status"
  fs_ListDir :: "ctx \<Rightarrow> fpath \<Rightarrow> 'f \<Rightarrow> err + string list"
  fs_ReadAll :: "ctx \<Rightarrow> fpath \<Rightarrow> 'f \<Rightarrow> err + bytes"
  fs_WriteAll :: "ctx \<Rightarrow> fpath \<Rightarrow> bytes \<Rightarrow> 'f \<Rightarrow> err option \<times> 'f"
  fs_CopyFile :: "ctx \<Rightarrow> file_reader \<Rightarrow> fpath \<Rightarrow> 'f \<Rightarrow> err option \<times> 'f"
  fs_MakeDir :: "fpath \<Rightarrow> 'f \<Rightarrow> err option \<times> 'f"
  fs_MakeAllDirs :: "fpath \<Rightarrow> 'f \<Rightarrow> err option \<times> 'f"
  fs_Remove :: "fpath \<Rightarrow> 'f \<Rightarrow> err option \<times> 'f"
  fs_RemoveRecursive :: "fpath \<Rightarrow> 'f \<Rightarrow> err option \<times> 'f"
  uuiddir_Join :: "fpath \<Rightarrow> uuid \<Rightarrow> fpath"
  uuiddir_Enum :: "ctx \<Rightarrow> fpath \<Rightarrow> 'f \<Rightarrow> err + uuid list"
  uuiddir_Remove :: "fpath \<Rightarrow> uuid \<Rightarrow> 'f \<Rightarrow> err option \<times> 'f"
  uuiddir_RemoveDir :: "fpath \<Rightarrow> fpath \<Rightarrow> 'f \<Rightarrow> err option \<times> 'f"

text \<open>
  \<open>json_Alias\<close> is what the decoder makes of a text for the type \<open>Alias\<close> that
  \<open>VersionInfo.UnmarshalJSON\<close> decodes into, with the \<open>PrevVersion\<close> text beside it;
  \<open>json_companyId\<close> is the field \<open>companyId\<close> of a \<open>doc.json\<close> file, the nil id if missing.
\<close>

record codec =
  IDFromString :: "string \<Rightarrow> err + uuid"
  json_VersionInfo :: "version_info \<Rightarrow> err + bytes"
  json_Alias :: "bytes \<Rightarrow> err + version_info \<times> string option"
  json_companyId :: "bytes \<Rightarrow> err + uuid"

text \<open>The functions that take no context run with \<open>context.Background()\<close>.\<close>

definition background :: ctx where
  "background = \<lparr>ctx_Err = None, VersionsExist = False\<rparr>"

definition Exists :: "'f fsys \<Rightarrow> fpath \<Rightarrow> 'f \<Rightarrow> bool" where
  "Exists fs p s = st_Exists (fs_Info fs p s)"

definition IsDir :: "'f fsys \<Rightarrow> fpath \<Rightarrow> 'f \<Rightarrow> bool" where
  "IsDir fs p s = st_IsDir (fs_Info fs p s)"

text \<open>Go converts between \<open>string\<close> and \<open>[]byte\<close> bytewise.\<close>

definition string_bytes :: "string \<Rightarrow> bytes" where
  "string_bytes = map of_char"

definition bytes_string :: "bytes \<Rightarrow> string" where
  "bytes_string = map (\<lambda>b. char_of (unat b))"

lemma char_byte [simp]: "char_of (unat (of_char c :: 8 word)) = c"
proof -
  have "unat (of_nat (of_char c) :: 8 word) = of_char c" by (simp add: unat_of_nat)
  then have "unat (of_char c :: 8 word) = of_char c" by (simp only: of_nat_of_char)
  then show ?thesis by simp
qed

lemma bytes_string_inverse [simp]: "bytes_string (map of_char x) = x"
  by (induction x) (simp_all add: bytes_string_def)

lemma bytes_of_string [simp]: "bytes_string (string_bytes x) = x"
  by (simp add: string_bytes_def)

text \<open>The base name of a path and its text.\<close>

definition file_name :: "fpath \<Rightarrow> string" where
  "file_name p = (if p = [] then [] else last p)"

definition path_string :: "fpath \<Rightarrow> string" where
  "path_string p = concat (map (\<lambda>n. ''/'' @ n) p)"

text \<open>A file of the file system as an \<open>fs.FileReader\<close>.\<close>

definition local_reader :: "'f fsys \<Rightarrow> ctx \<Rightarrow> fpath \<Rightarrow> 'f \<Rightarrow> file_reader" where
  "local_reader fs cx p s =
     \<lparr>FileName = file_name p, FileExists = Exists fs p s, FileSize = st_Size (fs_Info fs p s),
      FileData = fs_ReadAll fs cx p s\<rparr>"

section \<open>DirFileProvider of fileprovider.go\<close>

definition DirFileProvider :: "'f fsys \<Rightarrow> ctx \<Rightarrow> fpath \<Rightarrow> 'f \<Rightarrow> file_provider" where
  "DirFileProvider fs cx dir s =
     \<lparr>HasFile = (\<lambda>filename. Inr (Exists fs (fs_Join fs dir filename) s)),
      ListFiles =
        (case fs_ListDir fs cx dir s of
           Inl e \<Rightarrow> Inl e
         | Inr names \<Rightarrow> Inr (sort (map (\<lambda>n. file_name (fs_Join fs dir n)) names))),
      ReadFile = (\<lambda>filename. fs_ReadAll fs cx (fs_Join fs dir filename) s)\<rparr>"

section \<open>VersionInfo.WriteJSON of versioninfo.go\<close>

definition WriteJSON :: "'f fsys \<Rightarrow> codec \<Rightarrow> ctx \<Rightarrow> fpath \<Rightarrow> version_info \<Rightarrow> 'f \<Rightarrow> err option \<times> 'f" where
  "WriteJSON fs j cx p info s =
     (case json_VersionInfo j info of
        Inl e \<Rightarrow> (Some e, s)
      | Inr text \<Rightarrow> fs_WriteAll fs cx p text s)"

text \<open>\<open>file.ReadJSON\<close> into a \<open>VersionInfo\<close>, whose \<open>UnmarshalJSON\<close> the decoder calls.\<close>

definition Unmarshal_VersionInfo :: "codec \<Rightarrow> bytes \<Rightarrow> err + version_info" where
  "Unmarshal_VersionInfo j text =
     (case json_Alias j text of
        Inl e \<Rightarrow> Inl e
      | Inr (alias, auxPrevVersion) \<Rightarrow> VersionInfo_UnmarshalJSON alias auxPrevVersion)"

section \<open>Sequences of checks\<close>

text \<open>The first error of a sequence of early returns.\<close>

fun first_err :: "err option list \<Rightarrow> err option" where
  "first_err [] = None"
| "first_err (Some e # es) = Some e"
| "first_err (None # es) = first_err es"

lemma first_err_None [simp]: "first_err es = None \<longleftrightarrow> set es \<subseteq> {None}"
  by (induction es rule: first_err.induct) auto

end
