(* ===== verification/CopyFiles.thy ===== *)
theory CopyFiles
  imports LocalFS
begin

text \<open>
  \<open>CopyDocumentFiles\<close> and \<open>CopyAllCompanyDocumentFiles\<close> of \<open>docdb.go\<close>: the files of a
  document, read from a connection, written to a backup directory. The state is the
  connection's and the file system's beside it.
\<close>

definition on_conn :: "('s, 'a) op \<Rightarrow> ('s \<times> 'f, 'a) op" where
  "on_conn m t = (let (r, s) = m (fst t) in (r, (s, snd t)))"

definition on_fs :: "('f \<Rightarrow> err option \<times> 'f) \<Rightarrow> ('s \<times> 'f, unit) op" where
  "on_fs m t = (let (e, f) = m (snd t) in (err_outcome e, (fst t, f)))"

fun copy_version_files :: "'f fsys \<Rightarrow> ctx \<Rightarrow> file_provider \<Rightarrow> fpath \<Rightarrow> string list \<Rightarrow> ('s \<times> 'f, unit) op" where
  "copy_version_files fs cx provider versionDir [] = ret ()"
| "copy_version_files fs cx provider versionDir (filename # filenames) =
     (case ReadFile provider filename of
        Inl e \<Rightarrow> fail e
      | Inr data \<Rightarrow>
          try_op (on_fs (fs_WriteAll fs cx (fs_Join fs versionDir filename) data)) (\<lambda>_.
          copy_version_files fs cx provider versionDir filenames))"

definition copy_version ::
  "'f fsys \<Rightarrow> codec \<Rightarrow> ctx \<Rightarrow> 's conn \<Rightarrow> uuid \<Rightarrow> fpath \<Rightarrow> version_time \<Rightarrow> ('s \<times> 'f, unit) op" where
  "copy_version fs j cx c docID destDocDir version =
     (let versionDir = fs_Join fs destDocDir (VersionTime_String version)
      in try_op (on_conn (conn_DocumentVersionInfo c cx docID version)) (\<lambda>versionInfo.
         try_op (on_fs (WriteJSON fs j cx (fs_Join fs destDocDir (VersionTime_String version @ ''.json'')) versionInfo)) (\<lambda>_.
         try_op (on_conn (conn_DocumentVersionFileProvider c cx docID version)) (\<lambda>provider.
         try_op (on_fs (fs_MakeDir fs versionDir)) (\<lambda>_.
         case ListFiles provider of
           Inl e \<Rightarrow> fail e
         | Inr filenames \<Rightarrow> copy_version_files fs cx provider versionDir filenames)))))"

fun copy_versions ::
  "'f fsys \<Rightarrow> codec \<Rightarrow> ctx \<Rightarrow> 's conn \<Rightarrow> uuid \<Rightarrow> fpath \<Rightarrow> version_time list \<Rightarrow> ('s \<times> 'f, unit) op" where
  "copy_versions fs j cx c docID destDocDir [] = ret ()"
| "copy_versions fs j cx c docID destDocDir (v # vs) =
     try_op (copy_version fs j cx c docID destDocDir v) (\<lambda>_. copy_versions fs j cx c docID destDocDir vs)"

definition CopyDocumentFiles ::
  "'f fsys \<Rightarrow> codec \<Rightarrow> ext \<Rightarrow> ctx \<Rightarrow> 's conn \<Rightarrow> uuid \<Rightarrow> fpath \<Rightarrow> bool \<Rightarrow> ('s \<times> 'f, fpath) op" where
  "CopyDocumentFiles fs j x cx c docID backupDir overwrite t =
     (let destDocDir = uuiddir_Join fs backupDir docID
      in if \<not> overwrite \<and> Exists fs destDocDir (snd t) then
           (Fail (Errorf ''document directory for backup already exists'' []), t)
         else
           try_op (on_conn (conn_DocumentVersions c cx docID)) (\<lambda>versions.
           if versions = [] then fail (ErrDocumentNotFound docID)
           else
           try_op (\<lambda>u. if \<not> Exists fs destDocDir (snd u) then on_fs (fs_MakeAllDirs fs destDocDir) u else (Ret (), u)) (\<lambda>_.
           try_op (on_conn (conn_DocumentCompanyID c cx docID)) (\<lambda>companyID.
           try_op (on_fs (fs_WriteAll fs background (fs_Join fs destDocDir ''company.id'') (string_bytes (ID_String x companyID)))) (\<lambda>_.
           try_op (copy_versions fs j cx c docID destDocDir versions) (\<lambda>_.
           ret destDocDir))))) t)"

text \<open>What the function returns, and the calls of \<open>onProgress\<close>.\<close>

record copy_result =
  docDirs :: "fpath list"
  copy_err :: "err option"
  copy_progress :: "(uuid \<times> nat \<times> nat) list"

fun copy_documents ::
  "'f fsys \<Rightarrow> codec \<Rightarrow> ext \<Rightarrow> ctx \<Rightarrow> 's conn \<Rightarrow> fpath \<Rightarrow> bool \<Rightarrow> bool \<Rightarrow> nat \<Rightarrow> (nat \<times> uuid) list \<Rightarrow> copy_result
     \<Rightarrow> ('s \<times> 'f, copy_result) op" where
  "copy_documents fs j x cx c backupDir overwrite onProgress totalDocs [] res t = (Ret res, t)"
| "copy_documents fs j x cx c backupDir overwrite onProgress totalDocs ((index, docID) # docs) res t =
     (let res1 = (if onProgress then res\<lparr>copy_progress := copy_progress res @ [(docID, index, totalDocs)]\<rparr> else res)
      in case CopyDocumentFiles fs j x cx c docID backupDir overwrite t of
           (Ret docDir, t') \<Rightarrow>
             copy_documents fs j x cx c backupDir overwrite onProgress totalDocs docs
               (res1\<lparr>docDirs := docDirs res1 @ [docDir]\<rparr>) t'
         | (Fail e, t') \<Rightarrow> (Ret (res1\<lparr>copy_err := Some e\<rparr>), t')
         | (Panic msg, t') \<Rightarrow> (Panic msg, t'))"

definition CopyAllCompanyDocumentFiles ::
  "'f fsys \<Rightarrow> codec \<Rightarrow> ext \<Rightarrow> ctx \<Rightarrow> 's conn \<Rightarrow> uuid \<Rightarrow> fpath \<Rightarrow> bool \<Rightarrow> bool \<Rightarrow> ('s \<times> 'f, copy_result) op" where
  "CopyAllCompanyDocumentFiles fs j x cx c companyID backupDir overwrite onProgress t =
     (case on_conn (conn_CompanyDocumentIDs c cx companyID) t of
        (Fail e, t') \<Rightarrow> (Ret \<lparr>docDirs = [], copy_err = Some e, copy_progress = []\<rparr>, t')
      | (Panic msg, t') \<Rightarrow> (Panic msg, t')
      | (Ret docIDs, t') \<Rightarrow>
          copy_documents fs j x cx c backupDir overwrite onProgress (length docIDs) (enumerate 0 docIDs)
            \<lparr>docDirs = [], copy_err = None, copy_progress = []\<rparr> t')"

end
