(* ===== verification/CoreProps.thy ===== *)
theory CoreProps
  imports HashedDocument
begin

text \<open>
  Properties of the data types of the package: version times, the comparison of version
  metadata, the file providers and the documents held in memory.
\<close>

section \<open>Version times\<close>

text \<open>C30: A version time between the years 1 and 9999 survives its text form up to the
  millisecond: \<open>VersionTimeFromString\<close> accepts what \<open>String\<close> prints, the result is
  \<open>Equal\<close> to the original, it prints the same, and parsing and printing it again changes nothing.\<close>

theorem version_time_text_round_trip:
  assumes "0 \<le> Time v" "Time v < year_10000"
  shows "\<exists>w. VersionTimeFromString (VersionTime_String v) = Inr w \<and> VersionTime_Equal v w
    \<and> VersionTime_String w = VersionTime_String v
    \<and> VersionTimeFromString (VersionTime_String w) = Inr w"
  using parse_formatted [OF assms] VersionTime_String_ms_trunc [of v] by (simp add: VersionTime_Equal_def)

theorem version_time_text_round_trip_witness:
  "\<exists>w. VersionTimeFromString (VersionTime_String (VersionTime 63840000001234567)) = Inr w
    \<and> VersionTime_Equal (VersionTime 63840000001234567) w"
  using version_time_text_round_trip [of "VersionTime 63840000001234567"] by (auto simp: year_10000_def days_before_year_def ns_per_day_def)

text \<open>The text form is a key: two version times in the supported range print the same
  exactly when they are \<open>Equal\<close>, so a directory or a file named after a version stands for one version.\<close>

theorem version_time_text_injective:
  assumes "0 \<le> Time v" "Time v < year_10000" "0 \<le> Time w" "Time w < year_10000"
  shows "VersionTime_String v = VersionTime_String w \<longleftrightarrow> VersionTime_Equal v w"
  by (rule VersionTime_String_eq_iff [OF assms])

theorem version_time_text_injective_witness:
  "VersionTime_String (VersionTime 1000000) \<noteq> VersionTime_String (VersionTime 2000000)"
  using version_time_text_injective [of "VersionTime 1000000" "VersionTime 2000000"]
  by (simp add: year_10000_def days_before_year_def ns_per_day_def VersionTime_Equal_def truncate_ms_def millisecond_def)

text \<open>\<open>Compare\<close>, \<open>Before\<close>, \<open>After\<close> and \<open>Equal\<close> are one total preorder, by whole
  milliseconds: \<open>Compare\<close> is -1, 0 or 1, agrees with the three predicates, is antisymmetric in its
  arguments and transitive; a time and what \<open>Value\<close> stores of it are \<open>Equal\<close>, and \<open>Scan\<close> reads the
  stored value back unchanged.\<close>

theorem version_time_order:
  "Compare v w \<in> {-1, 0, 1} \<and> (Compare v w = -1 \<longleftrightarrow> Before v w) \<and> (Compare v w = 1 \<longleftrightarrow> After v w)
    \<and> (Compare v w = 0 \<longleftrightarrow> VersionTime_Equal v w) \<and> Compare w v = - Compare v w
    \<and> (Compare u v \<le> 0 \<and> Compare v w \<le> 0 \<longrightarrow> Compare u w \<le> 0)
    \<and> (case VersionTime_Value v of Inl _ \<Rightarrow> IsZero v
       | Inr stored \<Rightarrow> VersionTime_Equal v stored \<and> VersionTime_Scan (ScanTime (Time stored)) = Inr stored)"
proof -
  have "Compare v w \<in> {-1, 0, 1} \<and> (Compare v w = -1 \<longleftrightarrow> Before v w) \<and> (Compare v w = 1 \<longleftrightarrow> After v w)
    \<and> (Compare v w = 0 \<longleftrightarrow> VersionTime_Equal v w) \<and> Compare w v = - Compare v w
    \<and> (Compare u v \<le> 0 \<and> Compare v w \<le> 0 \<longrightarrow> Compare u w \<le> 0)"
    by (auto simp: Compare_def Let_def Before_def After_def VersionTime_Equal_def)
  moreover have "case VersionTime_Value v of Inl _ \<Rightarrow> IsZero v
       | Inr stored \<Rightarrow> VersionTime_Equal v stored \<and> VersionTime_Scan (ScanTime (Time stored)) = Inr stored"
  proof (cases "IsZero v")
    case True
    then show ?thesis by (simp add: VersionTime_Value_def VersionTime_Validate_def)
  next
    case False
    then have "VersionTime_Value v = Inr (ms_trunc v)" by (simp add: VersionTime_Value_def VersionTime_Validate_def)
    then show ?thesis by (simp add: VersionTime_Equal_def VersionTimeFrom_def)
  qed
  ultimately show ?thesis by blast
qed

theorem version_time_order_witness:
  "Compare (VersionTime 1) (VersionTime 5000000) = -1"
  using version_time_order [where v = "VersionTime 1" and w = "VersionTime 5000000" and u = "VersionTime 1"]
  by (simp add: Before_def truncate_ms_def millisecond_def)

section \<open>Version metadata\<close>

text \<open>C32: \<open>VersionInfo.Equal\<close> compares the metadata with the times rounded to milliseconds, the
  change lists as multisets and the files as maps; on non-nil metadata it is an equivalence relation,
  and it implies \<open>EqualFiles\<close>.\<close>

theorem version_info_equal_equivalence:
  assumes "wf_gomap (Files u)" "wf_gomap (Files v)" "wf_gomap (Files w)"
  shows "VersionInfo_Equal (Some u) (Some u)
    \<and> (VersionInfo_Equal (Some u) (Some v) \<longleftrightarrow> VersionInfo_Equal (Some v) (Some u))
    \<and> (VersionInfo_Equal (Some u) (Some v) \<and> VersionInfo_Equal (Some v) (Some w) \<longrightarrow> VersionInfo_Equal (Some u) (Some w))
    \<and> (VersionInfo_Equal (Some u) (Some v) \<longrightarrow> EqualFiles (Some u) (Some v))
    \<and> (VersionInfo_Equal (Some u) (Some v) \<longleftrightarrow>
         CompanyID u = CompanyID v \<and> DocID u = DocID v \<and> ms_trunc (Version u) = ms_trunc (Version v)
         \<and> map_option ms_trunc (PrevVersion u) = map_option ms_trunc (PrevVersion v)
         \<and> CommitUserID u = CommitUserID v \<and> CommitReason u = CommitReason v
         \<and> mset (AddedFiles u) = mset (AddedFiles v) \<and> mset (RemovedFiles u) = mset (RemovedFiles v)
         \<and> mset (ModifiedFiles u) = mset (ModifiedFiles v) \<and> map_of (Files u) = map_of (Files v))"
  by (auto simp: VersionInfo_Equal_key [OF assms(1,1)] VersionInfo_Equal_key [OF assms(1,2)]
      VersionInfo_Equal_key [OF assms(2,1)] VersionInfo_Equal_key [OF assms(2,3)]
      VersionInfo_Equal_key [OF assms(1,3)] EqualFiles_iff [OF assms(1,2)] info_key_def)

definition sample_info :: "int \<Rightarrow> string list \<Rightarrow> version_info" where
  "sample_info t added =
     \<lparr>CompanyID = 1, DocID = 2, Version = VersionTime t, PrevVersion = None, CommitUserID = 3,
      CommitReason = ''reason'', Files = [(''a'', \<lparr>Name = ''a'', Size = 0, Hash = ''h''\<rparr>)],
      AddedFiles = added, RemovedFiles = [], ModifiedFiles = []\<rparr>"

theorem version_info_equal_equivalence_witness:
  "VersionInfo_Equal (Some (sample_info 5000001 [''a'', ''b''])) (Some (sample_info 5000002 [''b'', ''a'']))"
proof -
  have "wf_gomap (Files (sample_info t added))" for t added by (simp add: sample_info_def)
  from version_info_equal_equivalence [OF this this this, of 5000001 "[''a'', ''b'']" 5000002 "[''b'', ''a'']" 0 "[]",
      THEN conjunct2, THEN conjunct2, THEN conjunct2, THEN conjunct2]
  show ?thesis by (simp add: sample_info_def truncate_ms_def millisecond_def)
qed

section \<open>File providers\<close>

text \<open>C33: The combined provider that extends a base by extra files and then hides some names shows
  exactly the combined files: extra files win over the base, hidden names are gone; \<open>HasFile\<close>,
  \<open>ListFiles\<close> and \<open>ReadFile\<close> agree on it.\<close>

theorem provider_overlay:
  assumes "\<forall>f\<in>set files. readable f" "\<forall>f\<in>set extra. readable f"
  shows "provides (RemoveFileProvider (ExtFileProvider (Some (NewFileProvider files)) extra) remove)
    ((reader_content files ++ reader_content extra) |` (- set remove))"
  by (intro RemoveFileProvider_provides ExtFileProvider_base_provides NewFileProvider_provides assms)

theorem provider_overlay_witness:
  "ReadFile (RemoveFileProvider (ExtFileProvider (Some (NewFileProvider
      [NewMemFile ''a'' [1], NewMemFile ''b'' [2]])) [NewMemFile ''a'' [3]]) [''b'']) ''a'' = Inr [3]"
  using provider_overlay [of "[NewMemFile ''a'' [1], NewMemFile ''b'' [2]]" "[NewMemFile ''a'' [3]]" "[''b'']"]
  by (simp add: provides_def readable_def NewMemFile_def reader_content_def map_add_def restrict_map_def)

section \<open>The result of a CreateVersionFunc\<close>

text \<open>\<open>CreateVersionResult.Validate\<close> accepts a result exactly when its version is not the zero
  time, every written file exists and is not also removed, and a new company ID, if any, is valid.\<close>

theorem create_version_result_validate:
  "CreateVersionResult_Validate x r = None \<longleftrightarrow>
     \<not> IsZero (cvr_Version r)
     \<and> (\<forall>w\<in>set (WriteFiles r). \<exists>f. w = Some f \<and> FileExists f \<and> FileName f \<notin> set (RemoveFiles r))
     \<and> (case NewCompanyID r of None \<Rightarrow> True | Some c \<Rightarrow> ID_Validate x c = None)"
  by (simp add: CreateVersionResult_Validate_None_iff IsZero_def split: option.split)

theorem create_version_result_validate_witness:
  "CreateVersionResult_Validate \<lparr>DropboxContentHash = (\<lambda>b. []), ID_String = (\<lambda>d. []), ID_Validate = (\<lambda>d. None)\<rparr>
     \<lparr>cvr_Version = VersionTime 1, WriteFiles = [Some (NewMemFile ''a'' [1])], RemoveFiles = [''b''], NewCompanyID = None\<rparr>
   = None"
  unfolding create_version_result_validate by (simp add: IsZero_def NewMemFile_def)

section \<open>Documents in memory\<close>

text \<open>C29: \<open>HashedDocument.Validate\<close> accepts a document exactly when its IDs are valid, it has a
  version, every version has a valid time, is not nil, has a file, refers to contents that are there,
  and differs from the version before it.\<close>

theorem hashed_document_validate:
  "HashedDocument_Validate x (Some doc) = None \<longleftrightarrow>
     ID_Validate x (hd_ID doc) = None \<and> ID_Validate x (hd_CompanyID doc) = None \<and> Versions doc \<noteq> []
     \<and> (\<forall>(v, hv)\<in>set (Versions doc). \<not> IsZero v \<and>
          (\<exists>w. hv = Some w \<and> (\<forall>(n, h)\<in>set (FileHashes w). map_of (HashedFiles doc) h \<noteq> None)))
     \<and> (\<forall>v hv. version_at doc v = Some hv \<longrightarrow> FileHashes hv \<noteq> [])
     \<and> successively (\<lambda>u v. \<forall>hu hv. version_at doc u = Some hu \<longrightarrow> version_at doc v = Some hv \<longrightarrow>
          \<not> maps_Equal (FileHashes hv) (FileHashes hu)) (VersionTimes doc)"
  unfolding HashedDocument_Validate_None_iff differs_def [abs_def] by (simp add: IsZero_def)

definition sample_doc :: hashed_document where
  "sample_doc = \<lparr>hd_ID = 1, hd_CompanyID = 2, HashedFiles = [(''h'', [1]), (''k'', [2, 3])],
     Versions = [(VersionTime 7000000, Some \<lparr>hv_CommitUserID = 3, hv_CommitReason = ''second'',
        FileHashes = [(''b'', ''k'')]\<rparr>),
      (VersionTime 5000000, Some \<lparr>hv_CommitUserID = 3, hv_CommitReason = ''first'', FileHashes = [(''a'', ''h'')]\<rparr>)]\<rparr>"

theorem hashed_document_validate_witness:
  "HashedDocument_Validate \<lparr>DropboxContentHash = (\<lambda>b. []), ID_String = (\<lambda>d. []), ID_Validate = (\<lambda>d. None)\<rparr>
     (Some sample_doc) = None"
  unfolding hashed_document_validate
  by (auto simp: sample_doc_def IsZero_def version_at_def VersionTimes_def maps_Equal_def truncate_ms_def
      millisecond_def less_eq_version_time_def split: if_splits)

text \<open>C28: \<open>HashedDocument.VersionInfo\<close> reconstructs, for a version whose contents are there, metadata
  whose predecessor is the greatest earlier version, whose files have the sizes of the contents, and whose
  sorted change lists are exactly the names added, modified and removed against the predecessor.\<close>

theorem hashed_document_version_info:
  assumes "wf_hashed_document doc" "version_at doc v = Some hv"
    and "\<forall>(n, h)\<in>set (FileHashes hv). map_of (HashedFiles doc) h \<noteq> None"
  shows "\<exists>info. HashedDocument_VersionInfo doc v = Inr info \<and> info_of doc v hv info"
  by (rule HashedDocument_VersionInfo_correct [OF assms(1,3,2)])

theorem hashed_document_version_info_witness:
  "\<exists>info. HashedDocument_VersionInfo sample_doc (VersionTime 7000000) = Inr info \<and> Version info = VersionTime 7000000"
proof -
  have v: "version_at sample_doc (VersionTime 7000000) =
      Some \<lparr>hv_CommitUserID = 3, hv_CommitReason = ''second'', FileHashes = [(''b'', ''k'')]\<rparr>"
    by (simp add: sample_doc_def version_at_def)
  have "wf_gomap (FileHashes hv)" if "version_at sample_doc v = Some hv" for v hv
    using that by (auto simp: sample_doc_def version_at_def split: if_splits)
  then have "wf_hashed_document sample_doc"
    by (simp add: wf_hashed_document_def) (simp add: sample_doc_def truncate_ms_def millisecond_def)
  from hashed_document_version_info [OF this v] show ?thesis
    by (force simp: sample_doc_def info_of_def Let_def)
qed

end
