(* ===== verification/FileTree.thy ===== *)
theory FileTree
  imports LocalFS
begin

text \<open>
  What \<open>localfsdb\<close> relies on when it calls \<open>go-fs\<close> and \<open>uuiddir\<close>, stated over the tree
  of directories and files a state of the file system stands for: which paths an
  operation may change, what it does when it returns no error, and what it may leave
  behind when it fails. \<open>finv\<close> is the invariant of the file system, \<open>calm\<close> says that no
  request fails by itself.
\<close>

datatype node = Dir | File bytes

type_synonym tree = "fpath \<rightharpoonup> node"

section \<open>Names and trees\<close>

text \<open>A name that a path is extended by as it is.\<close>

definition plain_name :: "string \<Rightarrow> bool" where
  "plain_name n \<longleftrightarrow> n \<noteq> [] \<and> CHR ''/'' \<notin> set n \<and> n \<noteq> ''.'' \<and> n \<noteq> ''..''"

definition local_name :: "string \<Rightarrow> bool" where
  "local_name n \<longleftrightarrow> n = [] \<or> plain_name n"

definition plain_path :: "fpath \<Rightarrow> bool" where
  "plain_path p \<longleftrightarrow> list_all plain_name p"

text \<open>Every entry lies in a directory and has a plain name.\<close>

definition tree_ok :: "tree \<Rightarrow> bool" where
  "tree_ok t \<longleftrightarrow> t [] = Some Dir \<and> (\<forall>p n. t (p @ [n]) \<noteq> None \<longrightarrow> t p = Some Dir \<and> plain_name n)"

lemma plain_path_append [simp]: "plain_path (p @ q) \<longleftrightarrow> plain_path p \<and> plain_path q"
  by (simp add: plain_path_def)

lemma plain_path_single [simp]: "plain_path [] " "plain_path [n] \<longleftrightarrow> plain_name n"
  by (simp_all add: plain_path_def)

lemma plain_local [simp]: "plain_name n \<Longrightarrow> local_name n"
  by (simp add: local_name_def)

lemma tree_okD:
  assumes "tree_ok t"
  shows "t [] = Some Dir" "t (p @ [n]) = Some x \<Longrightarrow> t p = Some Dir" "t (p @ [n]) = Some x \<Longrightarrow> plain_name n"
  using assms unfolding tree_ok_def by blast+

lemma tree_ok_above: "tree_ok t \<Longrightarrow> t (p @ q) \<noteq> None \<Longrightarrow> q \<noteq> [] \<Longrightarrow> t p = Some Dir"
proof (induction q rule: rev_induct)
  case (snoc n q)
  from snoc.prems have "t (p @ q) = Some Dir"
    by (metis append.assoc not_None_eq tree_okD(2))
  with snoc show ?case by (cases "q = []") auto
qed simp

lemma tree_ok_strict_prefix: "tree_ok t \<Longrightarrow> t q \<noteq> None \<Longrightarrow> strict_prefix p q \<Longrightarrow> t p = Some Dir"
  by (metis append_Nil2 prefixE prefix_order.less_le tree_ok_above)

lemma tree_ok_below_None: "tree_ok t \<Longrightarrow> t p \<noteq> Some Dir \<Longrightarrow> strict_prefix p q \<Longrightarrow> t q = None"
  by (metis tree_ok_strict_prefix)

section \<open>What an operation may do\<close>

text \<open>
  An operation that returns no error relates the trees before and after by \<open>Good\<close>, a
  failing one by \<open>Bad\<close>.
\<close>

definition effect ::
  "('f \<Rightarrow> tree) \<Rightarrow> ('f \<Rightarrow> bool) \<Rightarrow> ('f \<Rightarrow> bool) \<Rightarrow> ('f \<Rightarrow> err option \<times> 'f)
     \<Rightarrow> (tree \<Rightarrow> tree \<Rightarrow> bool) \<Rightarrow> (tree \<Rightarrow> tree \<Rightarrow> bool) \<Rightarrow> bool" where
  "effect tree finv calm m Good Bad \<longleftrightarrow>
     (\<forall>s e s'. m s = (e, s') \<longrightarrow> finv s \<longrightarrow>
        finv s' \<and> (calm s \<longrightarrow> calm s') \<and> (e = None \<longrightarrow> Good (tree s) (tree s'))
        \<and> (e \<noteq> None \<longrightarrow> Bad (tree s) (tree s')))"

lemma effectD:
  assumes "effect tree finv calm m Good Bad" "m s = (e, s')" "finv s"
  shows "finv s'" "calm s \<Longrightarrow> calm s'" "e = None \<Longrightarrow> Good (tree s) (tree s')" "e \<noteq> None \<Longrightarrow> Bad (tree s) (tree s')"
  using assms unfolding effect_def by blast+

lemma effectI:
  assumes "\<And>s e s'. m s = (e, s') \<Longrightarrow> finv s \<Longrightarrow> finv s'" "\<And>s e s'. m s = (e, s') \<Longrightarrow> finv s \<Longrightarrow> calm s \<Longrightarrow> calm s'"
    "\<And>s s'. m s = (None, s') \<Longrightarrow> finv s \<Longrightarrow> Good (tree s) (tree s')"
    "\<And>s e s'. m s = (Some e, s') \<Longrightarrow> finv s \<Longrightarrow> Bad (tree s) (tree s')"
  shows "effect tree finv calm m Good Bad"
  using assms unfolding effect_def by (metis not_None_eq)

definition put_file :: "fpath \<Rightarrow> bytes \<Rightarrow> tree \<Rightarrow> tree \<Rightarrow> bool" where
  "put_file p b t t' \<longleftrightarrow> t p \<noteq> Some Dir \<and> t' = t(p \<mapsto> File b)"

text \<open>A write that fails may have written a part.\<close>

definition part_file :: "fpath \<Rightarrow> bytes \<Rightarrow> tree \<Rightarrow> tree \<Rightarrow> bool" where
  "part_file p b t t' \<longleftrightarrow> t' = t \<or> t p \<noteq> Some Dir \<and> (\<exists>n. t' = t(p \<mapsto> File (take n b)))"

definition some_file :: "fpath \<Rightarrow> tree \<Rightarrow> tree \<Rightarrow> bool" where
  "some_file p t t' \<longleftrightarrow> t' = t \<or> t p \<noteq> Some Dir \<and> (\<exists>b. t' = t(p \<mapsto> File b))"

definition put_dir :: "fpath \<Rightarrow> tree \<Rightarrow> tree \<Rightarrow> bool" where
  "put_dir p t t' \<longleftrightarrow> (t p = None \<or> t p = Some Dir) \<and> t' = t(p \<mapsto> Dir)"

definition part_dir :: "fpath \<Rightarrow> tree \<Rightarrow> tree \<Rightarrow> bool" where
  "part_dir p t t' \<longleftrightarrow> t' = t \<or> t p = None \<and> t' = t(p \<mapsto> Dir)"

definition put_dirs :: "fpath \<Rightarrow> tree \<Rightarrow> tree \<Rightarrow> bool" where
  "put_dirs p t t' \<longleftrightarrow>
     (\<forall>q. t' q = (if prefix q p then Some Dir else t q)) \<and> (\<forall>q. prefix q p \<longrightarrow> t q = None \<or> t q = Some Dir)"

definition part_dirs :: "fpath \<Rightarrow> tree \<Rightarrow> tree \<Rightarrow> bool" where
  "part_dirs p t t' \<longleftrightarrow> (\<forall>q. t' q = t q \<or> prefix q p \<and> t q = None \<and> t' q = Some Dir)"

definition del_node :: "fpath \<Rightarrow> tree \<Rightarrow> tree \<Rightarrow> bool" where
  "del_node p t t' \<longleftrightarrow> t' = t(p := None)"

definition del_tree :: "fpath \<Rightarrow> tree \<Rightarrow> tree \<Rightarrow> bool" where
  "del_tree p t t' \<longleftrightarrow> (\<forall>q. t' q = (if prefix p q then None else t q))"

definition part_del_tree :: "fpath \<Rightarrow> tree \<Rightarrow> tree \<Rightarrow> bool" where
  "part_del_tree p t t' \<longleftrightarrow> (\<forall>q. t' q = t q \<or> prefix p q \<and> t' q = None)"

text \<open>\<open>uuiddir.RemoveDir\<close> also removes the directories between \<open>base\<close> and \<open>p\<close> that become empty.\<close>

definition del_id :: "fpath \<Rightarrow> fpath \<Rightarrow> tree \<Rightarrow> tree \<Rightarrow> bool" where
  "del_id base p t t' \<longleftrightarrow>
     (\<forall>q. if prefix p q then t' q = None
          else t' q = t q \<or> t' q = None \<and> t q = Some Dir \<and> strict_prefix base q \<and> prefix q p)"

definition part_del_id :: "fpath \<Rightarrow> fpath \<Rightarrow> tree \<Rightarrow> tree \<Rightarrow> bool" where
  "part_del_id base p t t' \<longleftrightarrow>
     (\<forall>q. t' q = t q \<or> t' q = None \<and> (prefix p q \<or> t q = Some Dir \<and> strict_prefix base q \<and> prefix q p))"

lemmas effects = put_file_def part_file_def some_file_def put_dir_def part_dir_def put_dirs_def part_dirs_def
  del_node_def del_tree_def part_del_tree_def del_id_def part_del_id_def

section \<open>The documented behaviour\<close>

abbreviation id_path :: "'f fsys \<Rightarrow> uuid \<Rightarrow> fpath" where
  "id_path fs d \<equiv> uuiddir_Join fs [] d"

definition names_spec :: "'f fsys \<Rightarrow> bool" where
  "names_spec fs \<longleftrightarrow>
     (\<forall>p n. plain_name n \<longrightarrow> fs_Join fs p n = p @ [n])
     \<and> (\<forall>p n. plain_path p \<longrightarrow> plain_path (fs_Join fs p n))
     \<and> (\<forall>p d. uuiddir_Join fs p d = p @ id_path fs d)
     \<and> (\<forall>d. id_path fs d \<noteq> [] \<and> plain_path (id_path fs d))
     \<and> (\<forall>d d'. prefix (id_path fs d) (id_path fs d') \<longrightarrow> d = d')"

definition info_spec :: "'f fsys \<Rightarrow> ('f \<Rightarrow> tree) \<Rightarrow> ('f \<Rightarrow> bool) \<Rightarrow> bool" where
  "info_spec fs tree finv \<longleftrightarrow>
     (\<forall>s p. finv s \<longrightarrow> tree_ok (tree s)
        \<and> (st_Exists (fs_Info fs p s) \<longleftrightarrow> tree s p \<noteq> None)
        \<and> (st_IsDir (fs_Info fs p s) \<longleftrightarrow> tree s p = Some Dir)
        \<and> (st_IsHidden (fs_Info fs p s) \<longleftrightarrow> p \<noteq> [] \<and> prefix ''.'' (last p)))"

definition read_spec :: "'f fsys \<Rightarrow> ('f \<Rightarrow> tree) \<Rightarrow> ('f \<Rightarrow> bool) \<Rightarrow> ('f \<Rightarrow> bool) \<Rightarrow> bool" where
  "read_spec fs tree finv calm \<longleftrightarrow>
     (\<forall>s cx p. finv s \<longrightarrow>
        (\<forall>ns. fs_ListDir fs cx p s = Inr ns \<longrightarrow>
           tree s p = Some Dir \<and> distinct ns \<and> set ns = {n. tree s (p @ [n]) \<noteq> None})
        \<and> (\<forall>b. fs_ReadAll fs cx p s = Inr b \<longrightarrow> tree s p = Some (File b))
        \<and> (\<forall>ids. uuiddir_Enum fs cx p s = Inr ids \<longrightarrow>
             distinct ids \<and> set ids = {d. tree s (uuiddir_Join fs p d) = Some Dir})
        \<and> (calm s \<and> ctx_Err cx = None \<longrightarrow>
             (tree s p = Some Dir \<longrightarrow> (\<exists>ns. fs_ListDir fs cx p s = Inr ns))
             \<and> (\<forall>b. tree s p = Some (File b) \<longrightarrow> fs_ReadAll fs cx p s = Inr b)))"

definition copy_good :: "file_reader \<Rightarrow> fpath \<Rightarrow> tree \<Rightarrow> tree \<Rightarrow> bool" where
  "copy_good r dir t t' \<longleftrightarrow>
     (\<forall>q. \<not> prefix dir q \<longrightarrow> t' q = t q)
     \<and> (t dir = Some Dir \<longrightarrow> (\<exists>b. FileData r = Inr b \<and> put_file (dir @ [FileName r]) b t t'))"

definition copy_bad :: "file_reader \<Rightarrow> fpath \<Rightarrow> tree \<Rightarrow> tree \<Rightarrow> bool" where
  "copy_bad r dir t t' \<longleftrightarrow>
     (\<forall>q. \<not> prefix dir q \<longrightarrow> t' q = t q)
     \<and> (t dir = Some Dir \<longrightarrow> some_file (dir @ [FileName r]) t t')"

definition write_spec :: "'f fsys \<Rightarrow> ('f \<Rightarrow> tree) \<Rightarrow> ('f \<Rightarrow> bool) \<Rightarrow> ('f \<Rightarrow> bool) \<Rightarrow> bool" where
  "write_spec fs tree finv calm \<longleftrightarrow>
     (\<forall>cx p b. effect tree finv calm (fs_WriteAll fs cx p b) (put_file p b) (part_file p b))
     \<and> (\<forall>cx r dir. local_name (FileName r) \<longrightarrow>
          effect tree finv calm (fs_CopyFile fs cx r dir) (copy_good r dir) (copy_bad r dir))
     \<and> (\<forall>p. effect tree finv calm (fs_MakeDir fs p) (put_dir p) (part_dir p))
     \<and> (\<forall>p. effect tree finv calm (fs_MakeAllDirs fs p) (put_dirs p) (part_dirs p))"

definition remove_spec :: "'f fsys \<Rightarrow> ('f \<Rightarrow> tree) \<Rightarrow> ('f \<Rightarrow> bool) \<Rightarrow> ('f \<Rightarrow> bool) \<Rightarrow> bool" where
  "remove_spec fs tree finv calm \<longleftrightarrow>
     (\<forall>p. effect tree finv calm (fs_Remove fs p) (del_node p) (=))
     \<and> (\<forall>p. p \<noteq> [] \<longrightarrow> effect tree finv calm (fs_RemoveRecursive fs p) (del_tree p) (part_del_tree p))
     \<and> (\<forall>base d. effect tree finv calm (uuiddir_RemoveDir fs base (uuiddir_Join fs base d))
          (del_id base (uuiddir_Join fs base d)) (part_del_id base (uuiddir_Join fs base d)))
     \<and> (\<forall>base d. effect tree finv calm (uuiddir_Remove fs base d)
          (del_id base (uuiddir_Join fs base d)) (part_del_id base (uuiddir_Join fs base d)))
     \<and> (\<forall>s p. finv s \<and> calm s \<longrightarrow>
          (\<forall>b. tree s p = Some (File b) \<longrightarrow> fst (fs_Remove fs p s) = None)
          \<and> (tree s p = Some Dir \<and> p \<noteq> [] \<longrightarrow> fst (fs_RemoveRecursive fs p s) = None))
     \<and> (\<forall>s base d. finv s \<and> calm s \<and> tree s (uuiddir_Join fs base d) = Some Dir \<longrightarrow>
          fst (uuiddir_RemoveDir fs base (uuiddir_Join fs base d) s) = None
          \<and> fst (uuiddir_Remove fs base d s) = None)"

definition fsys_spec :: "'f fsys \<Rightarrow> ('f \<Rightarrow> tree) \<Rightarrow> ('f \<Rightarrow> bool) \<Rightarrow> ('f \<Rightarrow> bool) \<Rightarrow> bool" where
  "fsys_spec fs tree finv calm \<longleftrightarrow>
     names_spec fs \<and> info_spec fs tree finv \<and> read_spec fs tree finv calm
     \<and> write_spec fs tree finv calm \<and> remove_spec fs tree finv calm"

end
