(* ===== verification/LocalDB.thy ===== *)
theory LocalDB
  imports LocalFS
begin

text \<open>
  \<open>localfsdb/conn.go\<close>: the connection that keeps documents in directories. The directory
  of a document holds its \<open>company.id\<close>, and for each version a directory with the
  files and a JSON file with the metadata; the directory of a company holds a marker
  directory for each of its documents.

  The per-document mutex orders the calls of concurrent goroutines; one call after the
  other is what is modelled. Log output is left out.
\<close>

record 'f local_conn =
  lib :: "'f fsys"
  lext :: ext
  lcodec :: codec
  documentsDir :: fpath
  companiesDir :: fpath

definition NewConn :: "'f fsys \<Rightarrow> ext \<Rightarrow> codec \<Rightarrow> fpath \<Rightarrow> fpath \<Rightarrow> 'f \<Rightarrow> 'f local_conn outcome" where
  "NewConn fs x j docsDir compsDir s =
     (if \<not> IsDir fs docsDir s then Panic ''documentsDir does not exist''
      else if \<not> fs_IsLocal fs docsDir then Panic ''documentsDir is not on local file-system''
      else if \<not> IsDir fs compsDir s then Panic ''companiesDir does not exist''
      else if \<not> fs_IsLocal fs compsDir then Panic ''companiesDir is not on local file-system''
      else Ret \<lparr>lib = fs, lext = x, lcodec = j, documentsDir = docsDir, companiesDir = compsDir\<rparr>)"

section \<open>Paths\<close>

definition documentDir :: "'f local_conn \<Rightarrow> uuid \<Rightarrow> fpath" where
  "documentDir c docID = uuiddir_Join (lib c) (documentsDir c) docID"

definition versionDirName :: "'f local_conn \<Rightarrow> uuid \<Rightarrow> version_time \<Rightarrow> fpath" where
  "versionDirName c docID version = fs_Join (lib c) (documentDir c docID) (VersionTime_String version)"

definition versionInfoFile :: "'f local_conn \<Rightarrow> uuid \<Rightarrow> version_time \<Rightarrow> fpath" where
  "versionInfoFile c docID version = fs_Join (lib c) (documentDir c docID) (VersionTime_String version @ ''.json'')"

definition companyIDFile :: "'f local_conn \<Rightarrow> uuid \<Rightarrow> fpath" where
  "companyIDFile c docID = fs_Join (lib c) (documentDir c docID) ''company.id''"

definition companyDir :: "'f local_conn \<Rightarrow> uuid \<Rightarrow> fpath" where
  "companyDir c companyID = fs_Join (lib c) (companiesDir c) (ID_String (lext c) companyID)"

definition companyDocumentDir :: "'f local_conn \<Rightarrow> uuid \<Rightarrow> uuid \<Rightarrow> fpath" where
  "companyDocumentDir c companyID docID = uuiddir_Join (lib c) (companyDir c companyID) docID"

definition documentAndVersionDir :: "'f local_conn \<Rightarrow> uuid \<Rightarrow> version_time \<Rightarrow> 'f \<Rightarrow> err + fpath \<times> fpath" where
  "documentAndVersionDir c docID version s =
     (let docDir = documentDir c docID; versionDir = versionDirName c docID version
      in if \<not> IsDir (lib c) docDir s then Inl (ErrDocumentNotFound docID)
         else if \<not> IsDir (lib c) versionDir s then Inl (ErrDocumentVersionNotFound docID version)
         else Inr (docDir, versionDir))"

section \<open>Reading\<close>

definition local_DocumentExists :: "'f local_conn \<Rightarrow> ctx \<Rightarrow> uuid \<Rightarrow> 'f \<Rightarrow> err + bool" where
  "local_DocumentExists c cx docID s =
     (case ctx_Err cx of Some e \<Rightarrow> Inl e | None \<Rightarrow> Inr (IsDir (lib c) (documentDir c docID) s))"

text \<open>Names that are hidden, no directories or no ids are skipped.\<close>

definition company_entry :: "'f local_conn \<Rightarrow> 'f \<Rightarrow> string \<Rightarrow> uuid option" where
  "company_entry c s name =
     (let info = fs_Info (lib c) (fs_Join (lib c) (companiesDir c) name) s
      in if \<not> st_IsDir info \<or> st_IsHidden info then None
         else case IDFromString (lcodec c) name of Inl _ \<Rightarrow> None | Inr companyID \<Rightarrow> Some companyID)"

definition local_CompanyIDs :: "'f local_conn \<Rightarrow> ctx \<Rightarrow> 'f \<Rightarrow> err + uuid list" where
  "local_CompanyIDs c cx s =
     (case fs_ListDir (lib c) cx (companiesDir c) s of
        Inl e \<Rightarrow> Inl e
      | Inr names \<Rightarrow> Inr (sort (List.map_filter (company_entry c s) names)))"

definition local_CompanyDocumentIDs :: "'f local_conn \<Rightarrow> ctx \<Rightarrow> uuid \<Rightarrow> 'f \<Rightarrow> err + uuid list" where
  "local_CompanyDocumentIDs c cx companyID s =
     (let dir = companyDir c companyID; info = fs_Info (lib c) dir s
      in if \<not> st_Exists info then Inr []
         else if \<not> st_IsDir info then Inl (Errorf ''company path exists but is not a directory'' [])
         else case uuiddir_Enum (lib c) cx dir s of Inl e \<Rightarrow> Inl e | Inr docIDs \<Rightarrow> Inr (sort docIDs))"

text \<open>One entry of a document directory: the version it names, if its metadata file exists.\<close>

definition version_entry :: "'f local_conn \<Rightarrow> fpath \<Rightarrow> 'f \<Rightarrow> string \<Rightarrow> (version_time \<times> fpath) option" where
  "version_entry c docDir s name =
     (let dir = fs_Join (lib c) docDir name; dirInfo = fs_Info (lib c) dir s
      in if \<not> st_IsDir dirInfo \<or> st_IsHidden dirInfo then None
         else case VersionTimeFromString name of
                Inl _ \<Rightarrow> None
              | Inr version \<Rightarrow>
                  if \<not> Exists (lib c) (fs_Join (lib c) docDir (VersionTime_String version @ ''.json'')) s then None
                  else Some (version, dir))"

definition enumVersionDirs :: "'f local_conn \<Rightarrow> fpath \<Rightarrow> 'f \<Rightarrow> err + (version_time \<times> fpath) list" where
  "enumVersionDirs c docDir s =
     (case fs_ListDir (lib c) background docDir s of
        Inl e \<Rightarrow> Inl e
      | Inr names \<Rightarrow> Inr (List.map_filter (version_entry c docDir s) names))"

definition documentVersions :: "'f local_conn \<Rightarrow> uuid \<Rightarrow> 'f \<Rightarrow> err + version_time list" where
  "documentVersions c docID s =
     (let docDir = documentDir c docID
      in if \<not> IsDir (lib c) docDir s then Inl (ErrDocumentNotFound docID)
         else case enumVersionDirs c docDir s of
                Inl e \<Rightarrow> Inl e
              | Inr dirs \<Rightarrow> Inr (sort_key ms_trunc (map fst dirs)))"

definition local_DocumentVersions :: "'f local_conn \<Rightarrow> ctx \<Rightarrow> uuid \<Rightarrow> 'f \<Rightarrow> err + version_time list" where
  "local_DocumentVersions c cx docID s =
     (case ctx_Err cx of Some e \<Rightarrow> Inl e | None \<Rightarrow> documentVersions c docID s)"

text \<open>
  \<open>readAndFixVersionInfoJSON\<close> decodes into a struct that embeds \<open>docdb.VersionInfo\<close> next
  to the misspelled field. The method \<open>UnmarshalJSON\<close> of the embedded type is promoted
  to that struct, so the decoder calls it and never fills \<open>ModidfiedFiles\<close>.
\<close>

definition decode_legacy :: "codec \<Rightarrow> bytes \<Rightarrow> err + version_info \<times> string list" where
  "decode_legacy j text =
     (case Unmarshal_VersionInfo j text of Inl e \<Rightarrow> Inl e | Inr info \<Rightarrow> Inr (info, []))"

definition readAndFixVersionInfoJSON ::
  "'f local_conn \<Rightarrow> ctx \<Rightarrow> fpath \<Rightarrow> bool \<Rightarrow> ('f, version_info) op" where
  "readAndFixVersionInfoJSON c cx p writeFixedVersion s =
     (case fs_ReadAll (lib c) cx p s of
        Inl e \<Rightarrow> (Fail e, s)
      | Inr text \<Rightarrow>
     (case decode_legacy (lcodec c) text of
        Inl e \<Rightarrow> (Fail e, s)
      | Inr (info, modidfiedFiles) \<Rightarrow>
          if modidfiedFiles \<noteq> [] \<and> ModifiedFiles info = [] then
            (let fixed = info\<lparr>ModifiedFiles := modidfiedFiles\<rparr>
             in if writeFixedVersion then
                  (case WriteJSON (lib c) (lcodec c) background p fixed s of
                     (Some e, s') \<Rightarrow> (Fail e, s')
                   | (None, s') \<Rightarrow> (Ret fixed, s'))
                else (Ret fixed, s))
          else (Ret info, s)))"

definition documentVersionInfo :: "'f local_conn \<Rightarrow> ctx \<Rightarrow> uuid \<Rightarrow> version_time \<Rightarrow> ('f, version_info) op" where
  "documentVersionInfo c cx docID version s =
     (case VersionTime_Validate version of Some e \<Rightarrow> (Fail e, s) | None \<Rightarrow>
      if \<not> IsDir (lib c) (documentDir c docID) s then (Fail (ErrDocumentNotFound docID), s)
      else case readAndFixVersionInfoJSON c cx (versionInfoFile c docID version) True s of
        (Fail e, s') \<Rightarrow>
          (Fail (if errors_Is e OsErrNotExist
             then Errorf ''version directory exists but version info JSON file is missing''
                    [ErrDocumentVersionNotFound docID version]
             else e), s')
      | (Panic msg, s') \<Rightarrow> (Panic msg, s')
      | (Ret info, s') \<Rightarrow>
          if CompanyID info = 0 then
            (case fs_ReadAll (lib c) background (companyIDFile c docID) s' of
               Inl e \<Rightarrow> (Fail (Errorf ''document cannot read company ID'' [e]), s')
             | Inr text \<Rightarrow>
            (case IDFromString (lcodec c) (bytes_string text) of
               Inl e \<Rightarrow> (Fail (Errorf ''document cannot read company ID'' [e]), s')
             | Inr companyID \<Rightarrow> (Ret (info\<lparr>CompanyID := companyID\<rparr>), s')))
          else (Ret info, s'))"

definition local_DocumentVersionInfo :: "'f local_conn \<Rightarrow> ctx \<Rightarrow> uuid \<Rightarrow> version_time \<Rightarrow> ('f, version_info) op" where
  "local_DocumentVersionInfo c cx docID version =
     (case ctx_Err cx of Some e \<Rightarrow> fail e | None \<Rightarrow> documentVersionInfo c cx docID version)"

text \<open>The directory with the latest time; the zero time stands for none.\<close>

fun latest_dir :: "version_time \<Rightarrow> fpath \<Rightarrow> (version_time \<times> fpath) list \<Rightarrow> version_time \<times> fpath" where
  "latest_dir latestVersion versionDir [] = (latestVersion, versionDir)"
| "latest_dir latestVersion versionDir ((version, dir) # dirs) =
     (if Time version > Time latestVersion then latest_dir version dir dirs
      else latest_dir latestVersion versionDir dirs)"

definition latestDocumentVersionInfo :: "'f local_conn \<Rightarrow> ctx \<Rightarrow> uuid \<Rightarrow> ('f, version_info \<times> fpath) op" where
  "latestDocumentVersionInfo c cx docID s =
     (let docDir = documentDir c docID
      in if \<not> IsDir (lib c) docDir s then (Fail (ErrDocumentNotFound docID), s)
         else case enumVersionDirs c docDir s of
           Inl e \<Rightarrow> (Fail e, s)
         | Inr dirs \<Rightarrow>
             (let (latestVersion, versionDir) = latest_dir (VersionTime 0) [] dirs
              in if IsZero latestVersion then
                   (Fail (Errorf ''document directory exists but has no version subdirectories'' [ErrDocumentNotFound docID]), s)
                 else try_op (documentVersionInfo c cx docID latestVersion)
                        (\<lambda>versionInfo. ret (versionInfo, versionDir)) s))"

definition local_LatestDocumentVersionInfo :: "'f local_conn \<Rightarrow> ctx \<Rightarrow> uuid \<Rightarrow> ('f, version_info) op" where
  "local_LatestDocumentVersionInfo c cx docID =
     (case ctx_Err cx of
        Some e \<Rightarrow> fail e
      | None \<Rightarrow> try_op (latestDocumentVersionInfo c cx docID) (\<lambda>(versionInfo, _). ret versionInfo))"

definition local_LatestDocumentVersion :: "'f local_conn \<Rightarrow> ctx \<Rightarrow> uuid \<Rightarrow> ('f, version_time) op" where
  "local_LatestDocumentVersion c cx docID =
     try_op (local_LatestDocumentVersionInfo c cx docID) (\<lambda>info. ret (Version info))"

definition documentCompanyID :: "'f local_conn \<Rightarrow> ctx \<Rightarrow> uuid \<Rightarrow> ('f, uuid) op" where
  "documentCompanyID c cx docID s =
     (let p = companyIDFile c docID
      in if Exists (lib c) p s then
           (case fs_ReadAll (lib c) background p s of
              Inl e \<Rightarrow> (Fail e, s)
            | Inr text \<Rightarrow> (to_outcome (IDFromString (lcodec c) (bytes_string text)), s))
         else try_op (latestDocumentVersionInfo c cx docID) (\<lambda>(version, versionDir) s'.
           case fs_ReadAll (lib c) cx (fs_Join (lib c) versionDir ''doc.json'') s' of
             Inl e \<Rightarrow> (Fail e, s')
           | Inr text \<Rightarrow>
          (case json_companyId (lcodec c) text of
             Inl e \<Rightarrow> (Fail e, s')
           | Inr companyID \<Rightarrow>
               if companyID = 0 then (Fail (Errorf ''doc.json has no companyId'' []), s')
               else (Ret companyID, s'))) s)"

definition local_DocumentCompanyID :: "'f local_conn \<Rightarrow> ctx \<Rightarrow> uuid \<Rightarrow> ('f, uuid) op" where
  "local_DocumentCompanyID c cx docID =
     (case ctx_Err cx of Some e \<Rightarrow> fail e | None \<Rightarrow> documentCompanyID c cx docID)"

definition local_ReadDocumentVersionFile ::
  "'f local_conn \<Rightarrow> ctx \<Rightarrow> uuid \<Rightarrow> version_time \<Rightarrow> string \<Rightarrow> 'f \<Rightarrow> err + bytes" where
  "local_ReadDocumentVersionFile c cx docID version filename s =
     (case ctx_Err cx of Some e \<Rightarrow> Inl e | None \<Rightarrow>
     (case documentAndVersionDir c docID version s of
        Inl e \<Rightarrow> Inl e
      | Inr (docDir, versionDir) \<Rightarrow>
          (let p = fs_Join (lib c) versionDir filename
           in if \<not> Exists (lib c) p s then Inl (ErrDocumentFileNotFound docID filename)
              else fs_ReadAll (lib c) cx p s)))"

definition local_DocumentVersionFileProvider ::
  "'f local_conn \<Rightarrow> ctx \<Rightarrow> uuid \<Rightarrow> version_time \<Rightarrow> 'f \<Rightarrow> err + file_provider" where
  "local_DocumentVersionFileProvider c cx docID version s =
     (case ctx_Err cx of Some e \<Rightarrow> Inl e | None \<Rightarrow>
     (case documentAndVersionDir c docID version s of
        Inl e \<Rightarrow> Inl e
      | Inr (docDir, versionDir) \<Rightarrow> Inr (DirFileProvider (lib c) cx versionDir s)))"

end
