(* ===== verification/LocalWrite.thy ===== *)
theory LocalWrite
  imports LocalDB
begin

text \<open>
  The operations of \<open>localfsdb/conn.go\<close> that write, each with its deferred clean-up, and
  the connection made of them.
\<close>

text \<open>\<open>errors.Join(err, e)\<close> for an error \<open>err\<close> and the result \<open>e\<close> of a clean-up.\<close>

definition also_err :: "err \<Rightarrow> err option \<Rightarrow> err" where
  "also_err err e = Join (err # (case e of None \<Rightarrow> [] | Some e' \<Rightarrow> [e']))"

section \<open>Company directories\<close>

definition makeCompanyDocumentDir :: "'f local_conn \<Rightarrow> uuid \<Rightarrow> uuid \<Rightarrow> 'f \<Rightarrow> err option \<times> 'f" where
  "makeCompanyDocumentDir c companyID docID = fs_MakeAllDirs (lib c) (companyDocumentDir c companyID docID)"

definition removeCompanyDocumentDirIfExists :: "'f local_conn \<Rightarrow> uuid \<Rightarrow> uuid \<Rightarrow> 'f \<Rightarrow> err option \<times> 'f" where
  "removeCompanyDocumentDirIfExists c companyID docID s =
     (let docDir = companyDocumentDir c companyID docID
      in if \<not> Exists (lib c) docDir s then (None, s)
         else uuiddir_RemoveDir (lib c) (companyDir c companyID) docDir s)"

definition setDocumentCompanyID :: "'f local_conn \<Rightarrow> ctx \<Rightarrow> uuid \<Rightarrow> uuid \<Rightarrow> ('f, unit) op" where
  "setDocumentCompanyID c cx docID companyID s =
     (case ID_Validate (lext c) companyID of Some e \<Rightarrow> (Fail e, s) | None \<Rightarrow>
      if \<not> Exists (lib c) (documentDir c docID) s then (Fail (ErrDocumentNotFound docID), s)
      else try_op (documentCompanyID c cx docID) (\<lambda>currCompanyID s1.
        let currDir = companyDocumentDir c currCompanyID docID;
            currDirExists = Exists (lib c) currDir s1
        in if currCompanyID = companyID then
             (if \<not> currDirExists then write_op (fs_MakeAllDirs (lib c) currDir) s1 else (Ret (), s1))
           else
             try_op (if currDirExists then write_op (uuiddir_RemoveDir (lib c) (companyDir c currCompanyID) currDir)
                     else ret ()) (\<lambda>_.
             try_op (write_op (fs_WriteAll (lib c) background (companyIDFile c docID)
                       (string_bytes (ID_String (lext c) companyID)))) (\<lambda>_.
             write_op (makeCompanyDocumentDir c companyID docID))) s1) s)"

definition local_SetDocumentCompanyID :: "'f local_conn \<Rightarrow> ctx \<Rightarrow> uuid \<Rightarrow> uuid \<Rightarrow> ('f, unit) op" where
  "local_SetDocumentCompanyID c cx docID companyID =
     (case ctx_Err cx of Some e \<Rightarrow> fail e | None \<Rightarrow> setDocumentCompanyID c cx docID companyID)"

section \<open>Deletion\<close>

text \<open>The company entry of a document, if its company can be read.\<close>

definition remove_company_entry :: "'f local_conn \<Rightarrow> ctx \<Rightarrow> uuid \<Rightarrow> ('f, unit) op" where
  "remove_company_entry c cx docID =
     try_op (documentCompanyID c cx docID) (\<lambda>companyID.
       write_op (uuiddir_Remove (lib c) (companyDir c companyID) docID))"

text \<open>\<open>errors.Join\<close> of the outcome of a call and the error of the next one.\<close>

fun join_outcome :: "unit outcome \<Rightarrow> err option \<Rightarrow> unit outcome" where
  "join_outcome (Ret _) e = err_outcome (errors_Join [None, e])"
| "join_outcome (Fail err) e = Fail (also_err err e)"
| "join_outcome (Panic msg) e = Panic msg"

definition remove_document :: "'f local_conn \<Rightarrow> ctx \<Rightarrow> uuid \<Rightarrow> ('f, unit) op" where
  "remove_document c cx docID s =
     (case remove_company_entry c cx docID s of
        (Panic msg, s1) \<Rightarrow> (Panic msg, s1)
      | (r, s1) \<Rightarrow>
          (let (e, s2) = uuiddir_RemoveDir (lib c) (documentsDir c) (documentDir c docID) s1
           in (join_outcome r e, s2)))"

definition local_DeleteDocument :: "'f local_conn \<Rightarrow> ctx \<Rightarrow> uuid \<Rightarrow> ('f, unit) op" where
  "local_DeleteDocument c cx docID s =
     (case ctx_Err cx of Some e \<Rightarrow> (Fail e, s) | None \<Rightarrow>
      if \<not> Exists (lib c) (documentDir c docID) s then (Fail (ErrDocumentNotFound docID), s)
      else remove_document c cx docID s)"

text \<open>
  \<open>DeleteDocumentVersion\<close> removes the rest of the document when no version is listed
  afterwards, also when the listing failed.
\<close>

definition local_DeleteDocumentVersion ::
  "'f local_conn \<Rightarrow> ctx \<Rightarrow> uuid \<Rightarrow> version_time \<Rightarrow> ('f, version_time list) op" where
  "local_DeleteDocumentVersion c cx docID version s =
     (case ctx_Err cx of Some e \<Rightarrow> (Fail e, s) | None \<Rightarrow>
     (case documentAndVersionDir c docID version s of
        Inl e \<Rightarrow> (Fail e, s)
      | Inr (docDir, versionDir) \<Rightarrow>
     (case fs_RemoveRecursive (lib c) versionDir s of
        (Some e, s1) \<Rightarrow> (Fail e, s1)
      | (None, s1) \<Rightarrow>
     (let infoFile = versionInfoFile c docID version;
          (err2, s2) = (if Exists (lib c) infoFile s1
             then (let (e, t) = fs_Remove (lib c) infoFile s1 in (errors_Join [None, e], t)) else (None, s1));
          (leftVersions, lErr) = (case documentVersions c docID s2 of Inl e \<Rightarrow> ([], Some e) | Inr vs \<Rightarrow> (vs, None));
          err3 = errors_Join [err2, lErr]
      in if leftVersions = [] then
           (case remove_company_entry c cx docID s2 of
              (Panic msg, s3) \<Rightarrow> (Panic msg, s3)
            | (r, s3) \<Rightarrow>
                (let err4 = errors_Join [err3, (case r of Fail e \<Rightarrow> Some e | _ \<Rightarrow> None)];
                     (e, s4) = uuiddir_RemoveDir (lib c) (documentsDir c) docDir s3
                 in case errors_Join [err4, e] of
                      None \<Rightarrow> (Ret [], s4)
                    | Some err \<Rightarrow> (Fail err, s4)))
         else case err3 of None \<Rightarrow> (Ret leftVersions, s2) | Some err \<Rightarrow> (Fail err, s2)))))"

section \<open>Path conflicts\<close>

text \<open>The walk from \<open>targetPath\<close> up to \<open>basePath\<close>.\<close>

function diagnosePathConflict ::
  "'f fsys \<Rightarrow> uuid \<Rightarrow> uuid \<Rightarrow> fpath \<Rightarrow> fpath \<Rightarrow> fpath \<Rightarrow> 'f \<Rightarrow> err option" where
  "diagnosePathConflict fs companyID docID basePath targetPath cur s =
     (if path_string cur = path_string basePath then None
      else let info = fs_Info fs cur s
        in if st_Exists info then
             (if st_IsDir info then None
              else Some (ErrPathConflict docID companyID (path_string targetPath) (path_string cur)))
           else if cur = [] then None
           else diagnosePathConflict fs companyID docID basePath targetPath (butlast cur) s)"
  by pat_completeness auto

termination
  by (relation "measure (\<lambda>(fs, companyID, docID, basePath, targetPath, cur, s). length cur)") auto

declare diagnosePathConflict.simps [simp del]

definition wrapMakeAllDirsErr :: "'f fsys \<Rightarrow> uuid \<Rightarrow> uuid \<Rightarrow> fpath \<Rightarrow> fpath \<Rightarrow> err option \<Rightarrow> 'f \<Rightarrow> err option" where
  "wrapMakeAllDirsErr fs companyID docID basePath targetPath origErr s =
     (case origErr of
        None \<Rightarrow> None
      | Some e \<Rightarrow>
         (case diagnosePathConflict fs companyID docID basePath targetPath targetPath s of
            Some conflict \<Rightarrow> Some (Join [e, conflict])
          | None \<Rightarrow> Some e))"

definition make_all_dirs :: "'f local_conn \<Rightarrow> uuid \<Rightarrow> uuid \<Rightarrow> fpath \<Rightarrow> fpath \<Rightarrow> 'f \<Rightarrow> err option \<times> 'f" where
  "make_all_dirs c companyID docID basePath targetPath s =
     (let (e, s') = fs_MakeAllDirs (lib c) targetPath s
      in (wrapMakeAllDirsErr (lib c) companyID docID basePath targetPath e s', s'))"

section \<open>Metadata of a written version\<close>

fun read_infos :: "ext \<Rightarrow> file_reader list \<Rightarrow> (string, file_info) gomap \<Rightarrow> err + (string, file_info) gomap" where
  "read_infos x [] infos = Inr infos"
| "read_infos x (f # fs) infos =
     (case ReadFileInfo x f of
        Inl e \<Rightarrow> Inl e
      | Inr info \<Rightarrow> read_infos x fs (AList.update (FileName f) info infos))"

definition dir_infos :: "'f local_conn \<Rightarrow> ctx \<Rightarrow> fpath \<Rightarrow> 'f \<Rightarrow> err + (string, file_info) gomap" where
  "dir_infos c cx dir s =
     (case fs_ListDir (lib c) background dir s of
        Inl e \<Rightarrow> Inl e
      | Inr names \<Rightarrow> read_infos (lext c) (map (\<lambda>n. local_reader (lib c) cx (fs_Join (lib c) dir n) s) names) [])"

text \<open>The empty \<open>prevVersionDir\<close> is \<open>None\<close>.\<close>

definition newVersionInfo ::
  "'f local_conn \<Rightarrow> ctx \<Rightarrow> uuid \<Rightarrow> uuid \<Rightarrow> version_time \<Rightarrow> version_time option \<Rightarrow> uuid \<Rightarrow> string
     \<Rightarrow> fpath \<Rightarrow> fpath option \<Rightarrow> 'f \<Rightarrow> err + version_info" where
  "newVersionInfo c cx companyID docID version prevVersion commitUserID commitReason versionDir prevVersionDir s =
     (if (prevVersion = None) \<noteq> (prevVersionDir = None) then
        Inl (OtherErr ''prevVersion and prevVersionDir must either both be set or both be empty'')
      else case dir_infos c cx versionDir s of
        Inl e \<Rightarrow> Inl e
      | Inr files \<Rightarrow>
     (let info = \<lparr>CompanyID = companyID, DocID = docID, Version = version, PrevVersion = prevVersion,
                  CommitUserID = commitUserID, CommitReason = commitReason, Files = files,
                  AddedFiles = [], RemovedFiles = [], ModifiedFiles = []\<rparr>
      in case prevVersionDir of
           None \<Rightarrow> Inr (info\<lparr>AddedFiles := sort (map fst files)\<rparr>)
         | Some prevDir \<Rightarrow>
        (case dir_infos c cx prevDir s of
           Inl e \<Rightarrow> Inl e
         | Inr prevFiles \<Rightarrow>
             Inr (info
               \<lparr>AddedFiles := sort (filter (\<lambda>n. map_of prevFiles n = None) (map fst files)),
                RemovedFiles := sort (filter (\<lambda>n. map_of files n = None) (map fst prevFiles)),
                ModifiedFiles := sort (map fst (filter (\<lambda>(n, fi).
                  case map_of prevFiles n of None \<Rightarrow> False | Some pf \<Rightarrow> Hash fi \<noteq> Hash pf) files))\<rparr>))))"

section \<open>CreateDocument\<close>

text \<open>\<open>fs.CopyFile\<close> of each file into a directory.\<close>

fun copy_files :: "'f fsys \<Rightarrow> ctx \<Rightarrow> file_reader list \<Rightarrow> fpath \<Rightarrow> 'f \<Rightarrow> err option \<times> 'f" where
  "copy_files fs cx [] dir s = (None, s)"
| "copy_files fs cx (f # files) dir s =
     (case fs_CopyFile fs cx f dir s of
        (Some e, s') \<Rightarrow> (Some e, s')
      | (None, s') \<Rightarrow> copy_files fs cx files dir s')"

definition create_rollback :: "'f local_conn \<Rightarrow> uuid \<Rightarrow> uuid \<Rightarrow> err \<Rightarrow> 'f \<Rightarrow> err \<times> 'f" where
  "create_rollback c companyID docID err s =
     (let (err1, s1) =
        (if Exists (lib c) (documentDir c docID) s then
           (let (e, t) = uuiddir_RemoveDir (lib c) (documentsDir c) (documentDir c docID) s in (also_err err e, t))
         else (err, s));
          (e, s2) = removeCompanyDocumentDirIfExists c companyID docID s1
      in (also_err err1 e, s2))"

definition create_body ::
  "'f local_conn \<Rightarrow> ctx \<Rightarrow> uuid \<Rightarrow> uuid \<Rightarrow> uuid \<Rightarrow> string \<Rightarrow> version_time \<Rightarrow> file_reader list
     \<Rightarrow> on_new_version_func \<Rightarrow> ('f, unit) op" where
  "create_body c cx companyID docID userID reason newVersion files onNew =
     (let newVersionDir = versionDirName c docID newVersion
      in try_op (write_op (make_all_dirs c companyID docID (documentsDir c) newVersionDir)) (\<lambda>_.
         try_op (write_op (fs_WriteAll (lib c) background (companyIDFile c docID)
                   (string_bytes (ID_String (lext c) companyID)))) (\<lambda>_.
         try_op (write_op (make_all_dirs c companyID docID (companyDir c companyID)
                   (companyDocumentDir c companyID docID))) (\<lambda>_.
         try_op (write_op (copy_files (lib c) cx files newVersionDir)) (\<lambda>_.
         try_op (read_op (newVersionInfo c cx companyID docID newVersion None userID reason newVersionDir None)) (\<lambda>versionInfo.
         try_op (write_op (WriteJSON (lib c) (lcodec c) background (versionInfoFile c docID newVersion) versionInfo)) (\<lambda>_.
         read_op (\<lambda>s. recovered (onNew versionInfo)))))))))"

definition local_CreateDocument ::
  "'f local_conn \<Rightarrow> ctx \<Rightarrow> uuid \<Rightarrow> uuid \<Rightarrow> uuid \<Rightarrow> string \<Rightarrow> version_time \<Rightarrow> file_reader list
     \<Rightarrow> on_new_version_func option \<Rightarrow> ('f, unit) op" where
  "local_CreateDocument c cx companyID docID userID reason newVersion files onNewVersion s =
     (case first_err [ctx_Err cx, ID_Validate (lext c) companyID, ID_Validate (lext c) docID,
                      ID_Validate (lext c) userID, VersionTime_Validate newVersion] of
        Some e \<Rightarrow> (Fail e, s)
      | None \<Rightarrow>
     (case onNewVersion of
        None \<Rightarrow> (Fail (OtherErr ''nil onNewVersion func passed to CreateDocument''), s)
      | Some onNew \<Rightarrow>
      if files = [] then (Fail (Errorf ''cannot create document without files'' []), s)
      else if IsDir (lib c) (documentDir c docID) s then (Fail (ErrDocumentAlreadyExists docID), s)
      else case create_body c cx companyID docID userID reason newVersion files onNew s of
        (Ret _, s1) \<Rightarrow> (Ret (), s1)
      | (Panic msg, s1) \<Rightarrow> (Panic msg, s1)
      | (Fail e, s1) \<Rightarrow> (let (err, s2) = create_rollback c companyID docID e s1 in (Fail err, s2))))"

section \<open>AddDocumentVersion\<close>

text \<open>The copies of the previous version's files; each file is read when it is copied.\<close>

fun copy_prev_files :: "'f fsys \<Rightarrow> ctx \<Rightarrow> fpath \<Rightarrow> string list \<Rightarrow> fpath \<Rightarrow> 'f \<Rightarrow> err option \<times> 'f" where
  "copy_prev_files fs cx prevDir [] dir s = (None, s)"
| "copy_prev_files fs cx prevDir (n # names) dir s =
     (case fs_CopyFile fs cx (local_reader fs cx (fs_Join fs prevDir n) s) dir s of
        (Some e, s') \<Rightarrow> (Some e, s')
      | (None, s') \<Rightarrow> copy_prev_files fs cx prevDir names dir s')"

definition kept_names :: "version_info \<Rightarrow> create_version_result \<Rightarrow> string list" where
  "kept_names prevVersionInfo result =
     filter (\<lambda>n. \<not> list_ex (\<lambda>f. FileName f = n) (write_readers result) \<and> n \<notin> set (RemoveFiles result))
       (map fst (Files prevVersionInfo))"

text \<open>The last step: the company is changed, and changed back if the callback fails.\<close>

definition commit_version ::
  "'f local_conn \<Rightarrow> ctx \<Rightarrow> uuid \<Rightarrow> uuid \<Rightarrow> uuid \<Rightarrow> version_info \<Rightarrow> on_new_version_func \<Rightarrow> ('f, unit) op" where
  "commit_version c cx docID prevCompanyID companyID versionInfo onNew =
     try_op (if companyID \<noteq> prevCompanyID then setDocumentCompanyID c cx docID companyID else ret ()) (\<lambda>_ s.
       case recovered (onNew versionInfo) of
         Inr _ \<Rightarrow> (Ret (), s)
       | Inl e \<Rightarrow>
           if companyID \<noteq> prevCompanyID then
             (case setDocumentCompanyID c cx docID prevCompanyID s of
                (Ret _, s') \<Rightarrow> (Fail (also_err e None), s')
              | (Fail e', s') \<Rightarrow> (Fail (also_err e (Some e')), s')
              | (Panic msg, s') \<Rightarrow> (Panic msg, s'))
           else (Fail e, s))"

definition local_write_version ::
  "'f local_conn \<Rightarrow> ctx \<Rightarrow> uuid \<Rightarrow> uuid \<Rightarrow> string \<Rightarrow> version_info \<Rightarrow> fpath \<Rightarrow> create_version_result
     \<Rightarrow> on_new_version_func \<Rightarrow> ('f, version_info) op" where
  "local_write_version c cx docID userID reason prevVersionInfo prevVersionDir result onNew s =
     (let newVersionDir = versionDirName c docID (cvr_Version result);
          companyID = (case NewCompanyID result of None \<Rightarrow> CompanyID prevVersionInfo | Some newCompany \<Rightarrow> newCompany)
      in if Exists (lib c) newVersionDir s then
           (Fail (Errorf ''new version directory already exists'' []), s)
         else
           try_op (write_op (fs_MakeDir (lib c) newVersionDir)) (\<lambda>_.
           try_op (write_op (copy_prev_files (lib c) cx prevVersionDir (kept_names prevVersionInfo result) newVersionDir)) (\<lambda>_.
           try_op (write_op (copy_files (lib c) cx (write_readers result) newVersionDir)) (\<lambda>_.
           try_op (read_op (newVersionInfo c cx companyID docID (cvr_Version result) (Some (Version prevVersionInfo))
                     userID reason newVersionDir (Some prevVersionDir))) (\<lambda>versionInfo.
           if Files versionInfo = [] then fail (Errorf ''cannot remove all files of document'' [])
           else if EqualFiles (Some versionInfo) (Some prevVersionInfo) then fail ErrNoChanges
           else
           try_op (write_op (WriteJSON (lib c) (lcodec c) background
                     (versionInfoFile c docID (cvr_Version result)) versionInfo)) (\<lambda>_.
           try_op (commit_version c cx docID (CompanyID prevVersionInfo) companyID versionInfo onNew) (\<lambda>_.
           ret versionInfo)))))) s)"

definition add_rollback :: "'f local_conn \<Rightarrow> uuid \<Rightarrow> version_time \<Rightarrow> err \<Rightarrow> 'f \<Rightarrow> err \<times> 'f" where
  "add_rollback c docID version err s =
     (let newVersionDir = versionDirName c docID version; infoFile = versionInfoFile c docID version;
          (err1, s1) =
            (if Exists (lib c) newVersionDir s then
               (let (e, t) = fs_RemoveRecursive (lib c) newVersionDir s in (also_err err e, t))
             else (err, s))
      in if Exists (lib c) infoFile s1 then
           (let (e, t) = fs_Remove (lib c) infoFile s1 in (also_err err1 e, t))
         else (err1, s1))"

definition local_AddDocumentVersion ::
  "'f local_conn \<Rightarrow> ctx \<Rightarrow> uuid \<Rightarrow> uuid \<Rightarrow> string \<Rightarrow> create_version_func option
     \<Rightarrow> on_new_version_func option \<Rightarrow> ('f, version_info) op" where
  "local_AddDocumentVersion c cx docID userID reason createVersion onNewVersion s =
     (case first_err [ctx_Err cx, ID_Validate (lext c) docID, ID_Validate (lext c) userID] of
        Some e \<Rightarrow> (Fail e, s)
      | None \<Rightarrow>
     (case createVersion of
        None \<Rightarrow> (Fail (OtherErr ''nil createVersion func passed to AddDocumentVersion''), s)
      | Some create \<Rightarrow>
     (case onNewVersion of
        None \<Rightarrow> (Fail (OtherErr ''nil onNewVersion func passed to AddDocumentVersion''), s)
      | Some onNew \<Rightarrow>
     (case latestDocumentVersionInfo c cx docID s of
        (Fail e, s1) \<Rightarrow> (Fail e, s1)
      | (Panic msg, s1) \<Rightarrow> (Panic msg, s1)
      | (Ret (prevVersionInfo, prevVersionDir), s1) \<Rightarrow>
     (case recovered (create docID (Version prevVersionInfo) (DirFileProvider (lib c) cx prevVersionDir s1)) of
        Inl e \<Rightarrow> (Fail e, s1)
      | Inr None \<Rightarrow> (Panic ''nil pointer dereference'', s1)
      | Inr (Some result) \<Rightarrow>
     (case CreateVersionResult_Validate (lext c) result of
        Some e \<Rightarrow> (Fail e, s1)
      | None \<Rightarrow>
      if \<not> After (cvr_Version result) (Version prevVersionInfo) then
        (Fail (Errorf ''version returned from CreateVersionFunc is not after previous version'' []), s1)
      else case local_write_version c cx docID userID reason prevVersionInfo prevVersionDir result onNew s1 of
        (Ret versionInfo, s2) \<Rightarrow> (Ret versionInfo, s2)
      | (Panic msg, s2) \<Rightarrow> (Panic msg, s2)
      | (Fail e, s2) \<Rightarrow> (let (err, s3) = add_rollback c docID (cvr_Version result) e s2 in (Fail err, s3))))))))"

section \<open>RestoreDocument\<close>

definition local_versionTimeIn :: "version_time list \<Rightarrow> version_time \<Rightarrow> bool" where
  "local_versionTimeIn versions v = list_ex (\<lambda>e. VersionTime_Equal e v) versions"

fun write_hashed_files ::
  "'f fsys \<Rightarrow> ctx \<Rightarrow> hashed_document \<Rightarrow> fpath \<Rightarrow> (string \<times> string) list \<Rightarrow> 'f \<Rightarrow> err option \<times> 'f" where
  "write_hashed_files fs cx doc dir [] s = (None, s)"
| "write_hashed_files fs cx doc dir ((filename, hash) # rest) s =
     (case fs_WriteAll fs cx (fs_Join fs dir filename)
             (case map_of (HashedFiles doc) hash of None \<Rightarrow> [] | Some b \<Rightarrow> b) s of
        (Some e, s') \<Rightarrow> (Some e, s')
      | (None, s') \<Rightarrow> write_hashed_files fs cx doc dir rest s')"

text \<open>\<open>createdVersionDirs\<close> and \<open>createdInfoFiles\<close>, which the deferred function reads.\<close>

type_synonym created_paths = "fpath list \<times> fpath list"

fun local_restore_loop ::
  "'f local_conn \<Rightarrow> ctx \<Rightarrow> hashed_document \<Rightarrow> bool \<Rightarrow> version_time list \<Rightarrow> version_time option
     \<Rightarrow> version_time list \<Rightarrow> created_paths \<Rightarrow> 'f \<Rightarrow> unit outcome \<times> created_paths \<times> 'f" where
  "local_restore_loop c cx doc recreate existing prev [] created s = (Ret (), created, s)"
| "local_restore_loop c cx doc recreate existing prev (v # vs) created s =
     (if \<not> recreate \<and> local_versionTimeIn existing v then
        local_restore_loop c cx doc recreate existing (Some v) vs created s
      else let versionDir = versionDirName c (hd_ID doc) v
        in case fs_MakeDir (lib c) versionDir s of
          (Some e, s1) \<Rightarrow> (Fail e, created, s1)
        | (None, s1) \<Rightarrow>
       (let created1 = (fst created @ [versionDir], snd created)
        in case version_at doc v of
          None \<Rightarrow> (Panic ''nil pointer dereference'', created1, s1)
        | Some hv \<Rightarrow>
       (case write_hashed_files (lib c) cx doc versionDir (FileHashes hv) s1 of
          (Some e, s2) \<Rightarrow> (Fail e, created1, s2)
        | (None, s2) \<Rightarrow>
       (case newVersionInfo c cx (hd_CompanyID doc) (hd_ID doc) v prev (hv_CommitUserID hv) (hv_CommitReason hv)
               versionDir (map_option (versionDirName c (hd_ID doc)) prev) s2 of
          Inl e \<Rightarrow> (Fail e, created1, s2)
        | Inr versionInfo \<Rightarrow>
       (let infoFile = versionInfoFile c (hd_ID doc) v
        in case WriteJSON (lib c) (lcodec c) background infoFile versionInfo s2 of
          (Some e, s3) \<Rightarrow> (Fail e, created1, s3)
        | (None, s3) \<Rightarrow>
            local_restore_loop c cx doc recreate existing (Some v) vs (fst created1, snd created1 @ [infoFile]) s3)))))"

fun remove_dirs :: "'f fsys \<Rightarrow> fpath list \<Rightarrow> err \<Rightarrow> 'f \<Rightarrow> err \<times> 'f" where
  "remove_dirs fs [] err s = (err, s)"
| "remove_dirs fs (d # ds) err s =
     (let (e, s') = fs_RemoveRecursive fs d s in remove_dirs fs ds (also_err err e) s')"

fun remove_files :: "'f fsys \<Rightarrow> fpath list \<Rightarrow> err \<Rightarrow> 'f \<Rightarrow> err \<times> 'f" where
  "remove_files fs [] err s = (err, s)"
| "remove_files fs (p # ps) err s =
     (if Exists fs p s then
        (let (e, s') = fs_Remove fs p s in remove_files fs ps (also_err err e) s')
      else remove_files fs ps err s)"

definition local_restore_rollback ::
  "'f local_conn \<Rightarrow> hashed_document \<Rightarrow> bool \<Rightarrow> created_paths \<Rightarrow> err \<Rightarrow> 'f \<Rightarrow> err \<times> 'f" where
  "local_restore_rollback c doc docExisted created err s =
     (let (err1, s1) = remove_dirs (lib c) (fst created) err s;
          (err2, s2) = remove_files (lib c) (snd created) err1 s1
      in if docExisted then (err2, s2)
         else let (e, s3) = removeCompanyDocumentDirIfExists c (hd_CompanyID doc) (hd_ID doc) s2;
                  err3 = also_err err2 e
              in if Exists (lib c) (documentDir c (hd_ID doc)) s3 then
                   (let (e', s4) = uuiddir_RemoveDir (lib c) (documentsDir c) (documentDir c (hd_ID doc)) s3
                    in (also_err err3 e', s4))
                 else (err3, s3))"

text \<open>The deletion that \<open>recreate\<close> asks for.\<close>

definition local_restore_delete :: "'f local_conn \<Rightarrow> ctx \<Rightarrow> uuid \<Rightarrow> ('f, unit) op" where
  "local_restore_delete c cx docID =
     try_op (documentCompanyID c cx docID) (\<lambda>currCompanyID.
     try_op (write_op (uuiddir_Remove (lib c) (companyDir c currCompanyID) docID)) (\<lambda>_.
     write_op (uuiddir_RemoveDir (lib c) (documentsDir c) (documentDir c docID))))"

text \<open>The versions of an existing document, or a fresh document directory.\<close>

definition local_restore_existing :: "'f local_conn \<Rightarrow> ctx \<Rightarrow> hashed_document \<Rightarrow> bool \<Rightarrow> ('f, version_time list) op" where
  "local_restore_existing c cx doc docExisted =
     (if docExisted then
        try_op (documentCompanyID c cx (hd_ID doc)) (\<lambda>currCompanyID.
        if currCompanyID \<noteq> hd_CompanyID doc then
          fail (Errorf ''cannot restore document into existing document with different companyID'' [])
        else read_op (documentVersions c (hd_ID doc)))
      else
        try_op (write_op (fs_MakeAllDirs (lib c) (documentDir c (hd_ID doc)))) (\<lambda>_.
        try_op (write_op (fs_WriteAll (lib c) background (companyIDFile c (hd_ID doc))
                  (string_bytes (ID_String (lext c) (hd_CompanyID doc))))) (\<lambda>_.
        try_op (write_op (makeCompanyDocumentDir c (hd_CompanyID doc) (hd_ID doc))) (\<lambda>_.
        ret []))))"

definition local_RestoreDocument :: "'f local_conn \<Rightarrow> ctx \<Rightarrow> hashed_document option \<Rightarrow> bool \<Rightarrow> ('f, unit) op" where
  "local_RestoreDocument c cx docp recreate s =
     (case first_err [ctx_Err cx, HashedDocument_Validate (lext c) docp] of
        Some e \<Rightarrow> (Fail e, s)
      | None \<Rightarrow>
     (case docp of None \<Rightarrow> (Panic ''nil pointer dereference'', s) | Some doc \<Rightarrow>
      try_op (if recreate \<and> Exists (lib c) (documentDir c (hd_ID doc)) s
              then local_restore_delete c cx (hd_ID doc) else ret ()) (\<lambda>_ s1.
      let docExisted = Exists (lib c) (documentDir c (hd_ID doc)) s1
      in try_op (local_restore_existing c cx doc docExisted) (\<lambda>existing s2.
           case local_restore_loop c cx doc recreate existing None (VersionTimes doc) ([], []) s2 of
             (Ret _, _, s3) \<Rightarrow> (Ret (), s3)
           | (Panic msg, _, s3) \<Rightarrow> (Panic msg, s3)
           | (Fail e, created, s3) \<Rightarrow>
               (let (err, s4) = local_restore_rollback c doc docExisted created e s3 in (Fail err, s4))) s1) s))"

section \<open>The connection\<close>

definition local_add_accepts :: "version_info outcome \<Rightarrow> unit outcome \<times> version_info list" where
  "local_add_accepts r =
     (case r of Ret info \<Rightarrow> (Ret (), [info]) | Fail e \<Rightarrow> (Fail e, []) | Panic msg \<Rightarrow> (Panic msg, []))"

definition local_methods :: "'f local_conn \<Rightarrow> 'f conn" where
  "local_methods c =
     \<lparr>conn_DocumentExists = (\<lambda>cx docID. read_op (local_DocumentExists c cx docID)),
      conn_CompanyIDs = (\<lambda>cx. read_op (local_CompanyIDs c cx)),
      conn_CompanyDocumentIDs = (\<lambda>cx companyID. read_op (local_CompanyDocumentIDs c cx companyID)),
      conn_DocumentCompanyID = local_DocumentCompanyID c,
      conn_SetDocumentCompanyID = local_SetDocumentCompanyID c,
      conn_DocumentVersions = (\<lambda>cx docID. read_op (local_DocumentVersions c cx docID)),
      conn_LatestDocumentVersion = local_LatestDocumentVersion c,
      conn_DocumentVersionInfo = local_DocumentVersionInfo c,
      conn_LatestDocumentVersionInfo = local_LatestDocumentVersionInfo c,
      conn_DocumentVersionFileProvider = (\<lambda>cx docID v. read_op (local_DocumentVersionFileProvider c cx docID v)),
      conn_ReadDocumentVersionFile = (\<lambda>cx docID v filename. read_op (local_ReadDocumentVersionFile c cx docID v filename)),
      conn_DeleteDocument = local_DeleteDocument c,
      conn_DeleteDocumentVersion = local_DeleteDocumentVersion c,
      conn_CreateDocument = local_CreateDocument c,
      conn_AddDocumentVersion = (\<lambda>cx docID userID reason createVersion onNewVersion s.
        let (r, s') = local_AddDocumentVersion c cx docID userID reason createVersion onNewVersion s
        in (local_add_accepts r, s')),
      conn_AddMultiDocumentVersion = (\<lambda>cx docIDs userID reason createVersion onNewVersion. panic ''with_add_multi''),
      conn_RestoreDocument = local_RestoreDocument c\<rparr>"

definition localConn :: "'f local_conn \<Rightarrow> 'f conn" where
  "localConn c = with_add_multi (local_methods c)"

end
