(* ===== verification/LocalSpec.thy ===== *)
theory LocalSpec
  imports FileTree LocalWrite
begin

text \<open>
  The hypotheses on the parameters of a file-system connection, and the paths that
  belong to a document.
\<close>

section \<open>Texts of version times\<close>

lemma set_dec: "set (dec n) \<subseteq> {c. is_digit c}"
  by (induction n rule: dec.induct) (subst dec.simps, auto)

lemma set_append_int: "set (append_int x w) \<subseteq> {c. is_digit c} \<union> {CHR ''-''}"
  using set_dec [of "nat \<bar>x\<bar>"] by (auto simp: append_int_def Let_def is_digit_def)

lemma length_append_int: "w \<le> length (append_int x w)"
  by (auto simp: append_int_def Let_def)

lemma VersionTime_String_chars:
  "set (VersionTime_String v) \<subseteq> {c. is_digit c} \<union> {CHR ''-'', CHR ''_'', CHR ''.''}" "4 < length (VersionTime_String v)"
proof -
  obtain y mo d where date: "date_of_day (Time v div ns_per_day) = (y, mo, d)" by (metis prod_cases3)
  show "set (VersionTime_String v) \<subseteq> {c. is_digit c} \<union> {CHR ''-'', CHR ''_'', CHR ''.''}"
    using set_append_int by (auto simp: VersionTime_String_def Let_def date)
  show "4 < length (VersionTime_String v)"
    using length_append_int [of 4 y] by (simp add: VersionTime_String_def Let_def date)
qed

lemma plain_nameI: "2 < length n \<Longrightarrow> CHR ''/'' \<notin> set n \<Longrightarrow> plain_name n"
  by (auto simp: plain_name_def)

lemma plain_version [simp]:
  "plain_name (VersionTime_String v)" "plain_name (VersionTime_String v @ ''.json'')" "plain_name ''company.id''"
  using VersionTime_String_chars [of v] by (auto simp: is_digit_def intro!: plain_nameI)

lemma version_not_json [simp]:
  "VersionTime_String v \<noteq> VersionTime_String w @ ''.json''" "VersionTime_String v \<noteq> ''company.id''"
  "VersionTime_String w @ ''.json'' \<noteq> VersionTime_String v" "''company.id'' \<noteq> VersionTime_String v"
  "VersionTime_String v @ ''.json'' \<noteq> ''company.id''" "''company.id'' \<noteq> VersionTime_String v @ ''.json''"
proof -
  have n: "CHR ''n'' \<notin> set (VersionTime_String v)" for v
    using VersionTime_String_chars(1) [of v] by (auto simp: is_digit_def)
  have "CHR ''n'' \<in> set (VersionTime_String w @ ''.json'')" "CHR ''n'' \<in> set ''company.id''" by simp_all
  with n show "VersionTime_String v \<noteq> VersionTime_String w @ ''.json''" "VersionTime_String v \<noteq> ''company.id''"
    "VersionTime_String w @ ''.json'' \<noteq> VersionTime_String v" "''company.id'' \<noteq> VersionTime_String v" by metis+
  have "last (VersionTime_String v @ ''.json'') \<noteq> last ''company.id''" by simp
  then show "VersionTime_String v @ ''.json'' \<noteq> ''company.id''" "''company.id'' \<noteq> VersionTime_String v @ ''.json''"
    by metis+
qed

section \<open>The parameters\<close>

text \<open>
  The decoder gets back what was encoded, times as the text form keeps them and the files
  in some order, and refuses a text that was cut off.
\<close>

definition codec_spec :: "codec \<Rightarrow> ext \<Rightarrow> bool" where
  "codec_spec j x \<longleftrightarrow>
     (\<forall>info b. json_VersionInfo j info = Inr b \<longrightarrow>
        (case VersionTimeFromString (VersionTime_String (Version info)) of
           Inl e \<Rightarrow> \<exists>e. json_Alias j b = Inl e
         | Inr v \<Rightarrow> \<exists>files. json_Alias j b =
             Inr (info\<lparr>Version := v, PrevVersion := None, Files := files\<rparr>, map_option VersionTime_String (PrevVersion info))
             \<and> map_of files = map_of (Files info) \<and> wf_gomap files)
        \<and> (\<forall>n < length b. \<exists>e. json_Alias j (take n b) = Inl e))
     \<and> (\<forall>companyID. IDFromString j (ID_String x companyID) = Inr companyID)"

definition local_layout :: "'f local_conn \<Rightarrow> bool" where
  "local_layout c \<longleftrightarrow> plain_path (documentsDir c) \<and> plain_path (companiesDir c)
     \<and> parallel (documentsDir c) (companiesDir c)
     \<and> inj (ID_String (lext c)) \<and> (\<forall>companyID. plain_name (ID_String (lext c) companyID))"

definition local_spec :: "'f local_conn \<Rightarrow> ('f \<Rightarrow> tree) \<Rightarrow> ('f \<Rightarrow> bool) \<Rightarrow> ('f \<Rightarrow> bool) \<Rightarrow> bool" where
  "local_spec c tree finv calm \<longleftrightarrow>
     fsys_spec (lib c) tree finv calm \<and> local_layout c \<and> codec_spec (lcodec c) (lext c)"

lemma local_specD:
  assumes "local_spec c tree finv calm"
  shows "names_spec (lib c)" "info_spec (lib c) tree finv" "read_spec (lib c) tree finv calm"
    "write_spec (lib c) tree finv calm" "remove_spec (lib c) tree finv calm" "local_layout c"
    "codec_spec (lcodec c) (lext c)"
  using assms by (simp_all add: local_spec_def fsys_spec_def)

section \<open>Paths\<close>

lemma names_specD:
  assumes "names_spec fs"
  shows "plain_name n \<Longrightarrow> fs_Join fs p n = p @ [n]" "plain_path p \<Longrightarrow> plain_path (fs_Join fs p n)"
    "uuiddir_Join fs p d = p @ id_path fs d" "id_path fs d \<noteq> []" "plain_path (id_path fs d)"
    "prefix (id_path fs d) (id_path fs d') \<longleftrightarrow> d = d'"
  using assms unfolding names_spec_def by blast+

lemma local_paths:
  assumes "local_spec c tree finv calm"
  shows "documentDir c d = documentsDir c @ id_path (lib c) d"
    "versionDirName c d v = documentDir c d @ [VersionTime_String v]"
    "versionInfoFile c d v = documentDir c d @ [VersionTime_String v @ ''.json'']"
    "companyIDFile c d = documentDir c d @ [''company.id'']"
    "companyDir c k = companiesDir c @ [ID_String (lext c) k]"
    "companyDocumentDir c k d = companiesDir c @ ID_String (lext c) k # id_path (lib c) d"
    "plain_path (documentDir c d)"
proof -
  note n = names_specD [OF local_specD(1) [OF assms]]
  have l: "plain_path (documentsDir c)" "\<And>k. plain_name (ID_String (lext c) k)"
    using local_specD(6) [OF assms] by (simp_all add: local_layout_def)
  show d: "documentDir c d = documentsDir c @ id_path (lib c) d" unfolding documentDir_def by (rule n(3))
  show "versionDirName c d v = documentDir c d @ [VersionTime_String v]"
    "versionInfoFile c d v = documentDir c d @ [VersionTime_String v @ ''.json'']"
    "companyIDFile c d = documentDir c d @ [''company.id'']"
    "companyDir c k = companiesDir c @ [ID_String (lext c) k]"
    using n(1) l by (simp_all add: versionDirName_def versionInfoFile_def companyIDFile_def companyDir_def)
  show "companyDocumentDir c k d = companiesDir c @ ID_String (lext c) k # id_path (lib c) d"
    unfolding companyDocumentDir_def companyDir_def n(3) [of "fs_Join (lib c) (companiesDir c) (ID_String (lext c) k)" d]
    using n(1) l by simp
  show "plain_path (documentDir c d)" using d l(1) n(5) by simp
qed

text \<open>What belongs to a document: its directory and its entries in the company directories.\<close>

definition document_area :: "'f local_conn \<Rightarrow> uuid \<Rightarrow> fpath set" where
  "document_area c d =
     {q. prefix (documentDir c d) q \<or> (\<exists>k. prefix (companyDocumentDir c k d) q)}"

text \<open>The directories above it.\<close>

definition document_parents :: "'f local_conn \<Rightarrow> uuid \<Rightarrow> fpath set" where
  "document_parents c d =
     {q. strict_prefix q (documentDir c d) \<or> (\<exists>k. strict_prefix q (companyDocumentDir c k d))}"

definition touched :: "'f local_conn \<Rightarrow> uuid \<Rightarrow> fpath set" where
  "touched c d = document_area c d \<union> document_parents c d"

lemma prefix_append_cancel: "prefix (p @ a) (p @ b) \<longleftrightarrow> prefix a b"
  by simp

lemma parallel_appendD: "parallel p q \<Longrightarrow> \<not> prefix (p @ a) (q @ b)"
  by (metis append_prefixD parallelE prefix_append prefix_same_cases)

lemma document_area_disjoint:
  assumes spec: "local_spec c tree finv calm" and "d \<noteq> d'"
  shows "document_area c d \<inter> touched c d' = {}"
proof -
  note p = local_paths(1,6) [OF spec]
  note idp = names_specD(6) [OF local_specD(1) [OF spec]]
  have par: "parallel (documentsDir c) (companiesDir c)" "inj (ID_String (lext c))"
    using local_specD(6) [OF spec] by (simp_all add: local_layout_def)
  have par': "parallel (companiesDir c) (documentsDir c)" using par(1) by (metis parallel_commute)
  have no: "\<not> prefix a b" if "a = documentDir c d \<or> (\<exists>k. a = companyDocumentDir c k d)"
    "b = documentDir c d' \<or> (\<exists>k. b = companyDocumentDir c k d')" for a b
    using that assms(2) idp [of d d'] parallel_appendD [OF par(1)] parallel_appendD [OF par'] par(2)
    by (auto simp: p inj_eq)
  have no': "\<not> prefix b a" if "a = documentDir c d \<or> (\<exists>k. a = companyDocumentDir c k d)"
    "b = documentDir c d' \<or> (\<exists>k. b = companyDocumentDir c k d')" for a b
    using that assms(2) idp [of d' d] parallel_appendD [OF par(1)] parallel_appendD [OF par'] par(2)
    by (auto simp: p inj_eq)
  show ?thesis
    unfolding document_area_def touched_def document_parents_def
    by (auto dest: prefix_same_cases prefix_order.trans prefix_order.less_imp_le simp: no no')
      (metis no no' prefix_same_cases prefix_order.trans prefix_order.less_imp_le)+
qed

end
