(* ===== verification/LocalFrame.thy ===== *)
theory LocalFrame
  imports LocalSpec
begin

text \<open>
  Relations between the states before and after an operation, such as: only some paths
  changed. The rules follow the structure of the definitions, so for an operation a
  reflexive and transitive relation is shown in a few steps over the calls it makes.
\<close>

section \<open>Steps\<close>

definition step_rel :: "('f \<Rightarrow> 'f \<Rightarrow> bool) \<Rightarrow> bool" where
  "step_rel S \<longleftrightarrow> reflp S \<and> transp S"

definition steps :: "('f \<Rightarrow> 'f \<Rightarrow> bool) \<Rightarrow> 'f \<Rightarrow> 'f \<Rightarrow> bool" where
  "steps S s s' \<longleftrightarrow> S s s'"

named_theorems step_rules \<open>rules that follow the structure of an operation\<close>

lemma steps_refl [step_rules]: "step_rel S \<Longrightarrow> steps S s s"
  by (simp add: steps_def step_rel_def reflpD)

lemma steps_trans: "step_rel S \<Longrightarrow> steps S s s' \<Longrightarrow> steps S s' s'' \<Longrightarrow> steps S s s''"
  unfolding steps_def step_rel_def by (blast dest: transpD)

lemma steps_pair [step_rules]: "steps S s s' \<Longrightarrow> steps S s (snd (r, s'))"
  by simp

lemma steps_case_prod [step_rules]:
  assumes "step_rel S" "steps S s (snd m)" "\<And>r s'. m = (r, s') \<Longrightarrow> steps S s' (snd (f r s'))"
  shows "steps S s (snd (case m of (r, s') \<Rightarrow> f r s'))"
  using assms(2,3) by (cases m) (auto intro: steps_trans [OF assms(1)])

lemma steps_branches [step_rules]:
  "(b \<Longrightarrow> steps S s (snd m)) \<Longrightarrow> (\<not> b \<Longrightarrow> steps S s (snd n)) \<Longrightarrow> steps S s (snd (if b then m else n))"
  "(e = None \<Longrightarrow> steps S s (snd m)) \<Longrightarrow> (\<And>x. e = Some x \<Longrightarrow> steps S s (snd (f x)))
     \<Longrightarrow> steps S s (snd (case e of None \<Rightarrow> m | Some x \<Rightarrow> f x))"
  "(\<And>x. r = Inl x \<Longrightarrow> steps S s (snd (f x))) \<Longrightarrow> (\<And>x. r = Inr x \<Longrightarrow> steps S s (snd (g x)))
     \<Longrightarrow> steps S s (snd (case r of Inl x \<Rightarrow> f x | Inr x \<Rightarrow> g x))"
  "(\<And>x. o' = Ret x \<Longrightarrow> steps S s (snd (f1 x))) \<Longrightarrow> (\<And>x. o' = Fail x \<Longrightarrow> steps S s (snd (f2 x)))
     \<Longrightarrow> (\<And>x. o' = Panic x \<Longrightarrow> steps S s (snd (f3 x)))
     \<Longrightarrow> steps S s (snd (case o' of Ret x \<Rightarrow> f1 x | Fail x \<Rightarrow> f2 x | Panic x \<Rightarrow> f3 x))"
  by (simp_all split: option.splits sum.splits outcome.splits)

lemma steps_monad [step_rules]:
  "step_rel S \<Longrightarrow> steps S s (snd (ret a s))" "step_rel S \<Longrightarrow> steps S s (snd (fail e s))"
  "step_rel S \<Longrightarrow> steps S s (snd (panic msg s))" "step_rel S \<Longrightarrow> steps S s (snd (read_op g s))"
  "steps S s (snd (w s)) \<Longrightarrow> steps S s (snd (write_op w s))"
  by (simp_all add: ret_def fail_def panic_def read_op_def write_op_def steps_refl split_def Let_def)

lemma steps_op_branches [step_rules]:
  "(b \<Longrightarrow> steps S s (snd (m s))) \<Longrightarrow> (\<not> b \<Longrightarrow> steps S s (snd (n s))) \<Longrightarrow> steps S s (snd ((if b then m else n) s))"
  "(e = None \<Longrightarrow> steps S s (snd (m s))) \<Longrightarrow> (\<And>x. e = Some x \<Longrightarrow> steps S s (snd (f x s)))
     \<Longrightarrow> steps S s (snd ((case e of None \<Rightarrow> m | Some x \<Rightarrow> f x) s))"
  by (simp_all split: option.splits)

lemma steps_try_op [step_rules]:
  assumes "step_rel S" "steps S s (snd (m s))" "\<And>a s'. m s = (Ret a, s') \<Longrightarrow> steps S s' (snd (k a s'))"
  shows "steps S s (snd (try_op m k s))"
proof (cases "m s")
  case (Pair r s')
  with assms(2,3) show ?thesis by (cases r) (auto simp: try_op_def intro: steps_trans [OF assms(1)])
qed

text \<open>A pair that holds no state.\<close>

lemma steps_pure_pair:
  "(\<And>a b. steps S s (snd (f a b))) \<Longrightarrow> steps S s (snd (case m of (a, b) \<Rightarrow> f a b))"
  by (simp add: split_def)

section \<open>Changing only some paths\<close>

definition stays :: "('f \<Rightarrow> tree) \<Rightarrow> ('f \<Rightarrow> bool) \<Rightarrow> ('f \<Rightarrow> bool) \<Rightarrow> fpath set \<Rightarrow> 'f \<Rightarrow> 'f \<Rightarrow> bool" where
  "stays tree finv calm T s s' \<longleftrightarrow>
     (finv s \<longrightarrow> finv s' \<and> (calm s \<longrightarrow> calm s') \<and> (\<forall>q. q \<notin> T \<longrightarrow> tree s' q = tree s q))"

lemma staysD:
  assumes "stays tree finv calm T s s'" "finv s"
  shows "finv s'" "calm s \<Longrightarrow> calm s'" "q \<notin> T \<Longrightarrow> tree s' q = tree s q"
  using assms by (simp_all add: stays_def)

lemma step_rel_stays [simp]: "step_rel (stays tree finv calm T)"
  unfolding step_rel_def stays_def by (auto intro!: reflpI transpI)

lemma stays_refl: "stays tree finv calm T s s"
  by (simp add: stays_def)

lemma stays_trans: "stays tree finv calm T s s' \<Longrightarrow> stays tree finv calm T s' s'' \<Longrightarrow> stays tree finv calm T s s''"
  by (simp add: stays_def)

lemma stays_mono: "stays tree finv calm T s s' \<Longrightarrow> T \<subseteq> T' \<Longrightarrow> stays tree finv calm T' s s'"
  by (auto simp: stays_def)

lemma stays_effect:
  assumes "effect tree finv calm m Good Bad"
    and "\<And>t t' q. Good t t' \<Longrightarrow> q \<notin> T \<Longrightarrow> t' q = t q" "\<And>t t' q. Bad t t' \<Longrightarrow> q \<notin> T \<Longrightarrow> t' q = t q"
  shows "stays tree finv calm T s (snd (m s))"
proof (cases "m s")
  case (Pair e s')
  with effectD [OF assms(1) Pair] assms(2,3) show ?thesis
    by (cases e) (auto simp: stays_def)
qed

section \<open>The calls of the file-system library\<close>

lemma write_specD:
  assumes "write_spec fs tree finv calm"
  shows "effect tree finv calm (fs_WriteAll fs cx p b) (put_file p b) (part_file p b)"
    "local_name (FileName r) \<Longrightarrow> effect tree finv calm (fs_CopyFile fs cx r dir) (copy_good r dir) (copy_bad r dir)"
    "effect tree finv calm (fs_MakeDir fs p) (put_dir p) (part_dir p)"
    "effect tree finv calm (fs_MakeAllDirs fs p) (put_dirs p) (part_dirs p)"
  using assms by (simp_all add: write_spec_def)

lemma remove_specD:
  assumes "remove_spec fs tree finv calm"
  shows "effect tree finv calm (fs_Remove fs p) (del_node p) (=)"
    "p \<noteq> [] \<Longrightarrow> effect tree finv calm (fs_RemoveRecursive fs p) (del_tree p) (part_del_tree p)"
    "effect tree finv calm (uuiddir_RemoveDir fs base (uuiddir_Join fs base d))
       (del_id base (uuiddir_Join fs base d)) (part_del_id base (uuiddir_Join fs base d))"
    "effect tree finv calm (uuiddir_Remove fs base d)
       (del_id base (uuiddir_Join fs base d)) (part_del_id base (uuiddir_Join fs base d))"
  using assms by (simp_all add: remove_spec_def)

lemma remove_spec_calmD:
  assumes "remove_spec fs tree finv calm" "finv s" "calm s"
  shows "tree s p = Some (File b) \<Longrightarrow> fst (fs_Remove fs p s) = None"
    "tree s p = Some Dir \<Longrightarrow> p \<noteq> [] \<Longrightarrow> fst (fs_RemoveRecursive fs p s) = None"
    "tree s (uuiddir_Join fs base d) = Some Dir \<Longrightarrow> fst (uuiddir_RemoveDir fs base (uuiddir_Join fs base d) s) = None"
    "tree s (uuiddir_Join fs base d) = Some Dir \<Longrightarrow> fst (uuiddir_Remove fs base d s) = None"
  using assms unfolding remove_spec_def by blast+

lemma info_specD:
  assumes "info_spec fs tree finv" "finv s"
  shows "tree_ok (tree s)" "Exists fs p s \<longleftrightarrow> tree s p \<noteq> None" "IsDir fs p s \<longleftrightarrow> tree s p = Some Dir"
    "st_Exists (fs_Info fs p s) \<longleftrightarrow> tree s p \<noteq> None" "st_IsDir (fs_Info fs p s) \<longleftrightarrow> tree s p = Some Dir"
    "st_IsHidden (fs_Info fs p s) \<longleftrightarrow> p \<noteq> [] \<and> prefix ''.'' (last p)"
  using assms by (simp_all add: info_spec_def Exists_def IsDir_def)

lemma read_specD:
  assumes "read_spec fs tree finv calm" "finv s"
  shows "fs_ListDir fs cx p s = Inr ns \<Longrightarrow> tree s p = Some Dir"
    "fs_ListDir fs cx p s = Inr ns \<Longrightarrow> distinct ns" "fs_ListDir fs cx p s = Inr ns \<Longrightarrow> set ns = {n. tree s (p @ [n]) \<noteq> None}"
    "fs_ReadAll fs cx p s = Inr b \<Longrightarrow> tree s p = Some (File b)"
    "uuiddir_Enum fs cx p s = Inr ids \<Longrightarrow> set ids = {d. tree s (uuiddir_Join fs p d) = Some Dir}"
    "uuiddir_Enum fs cx p s = Inr ids \<Longrightarrow> distinct ids"
    "calm s \<Longrightarrow> ctx_Err cx = None \<Longrightarrow> tree s p = Some Dir \<Longrightarrow> \<exists>ns. fs_ListDir fs cx p s = Inr ns"
    "calm s \<Longrightarrow> ctx_Err cx = None \<Longrightarrow> tree s p = Some (File b) \<Longrightarrow> fs_ReadAll fs cx p s = Inr b"
  using assms unfolding read_spec_def by blast+

lemma stays_WriteAll:
  "write_spec fs tree finv calm \<Longrightarrow> p \<in> T \<Longrightarrow> stays tree finv calm T s (snd (fs_WriteAll fs cx p b s))"
  by (rule stays_effect, erule write_specD(1)) (auto simp: effects)

lemma stays_CopyFile:
  "write_spec fs tree finv calm \<Longrightarrow> local_name (FileName r) \<Longrightarrow> \<forall>q. prefix dir q \<longrightarrow> q \<in> T
     \<Longrightarrow> stays tree finv calm T s (snd (fs_CopyFile fs cx r dir s))"
  by (rule stays_effect, erule (1) write_specD(2)) (auto simp: copy_good_def copy_bad_def)

lemma stays_MakeDir:
  "write_spec fs tree finv calm \<Longrightarrow> p \<in> T \<Longrightarrow> stays tree finv calm T s (snd (fs_MakeDir fs p s))"
  by (rule stays_effect, erule write_specD(3)) (auto simp: effects)

lemma stays_MakeAllDirs:
  "write_spec fs tree finv calm \<Longrightarrow> \<forall>q. prefix q p \<longrightarrow> q \<in> T \<Longrightarrow> stays tree finv calm T s (snd (fs_MakeAllDirs fs p s))"
  by (rule stays_effect, erule write_specD(4)) (auto simp: effects)

lemma stays_Remove:
  "remove_spec fs tree finv calm \<Longrightarrow> p \<in> T \<Longrightarrow> stays tree finv calm T s (snd (fs_Remove fs p s))"
  by (rule stays_effect, erule remove_specD(1)) (auto simp: effects)

lemma stays_RemoveRecursive:
  "remove_spec fs tree finv calm \<Longrightarrow> p \<noteq> [] \<Longrightarrow> \<forall>q. prefix p q \<longrightarrow> q \<in> T
     \<Longrightarrow> stays tree finv calm T s (snd (fs_RemoveRecursive fs p s))"
  by (rule stays_effect, erule (1) remove_specD(2)) (auto simp: effects)

lemma stays_RemoveDir:
  assumes "remove_spec fs tree finv calm" "\<forall>q. prefix (uuiddir_Join fs base d) q \<longrightarrow> q \<in> T"
    "\<forall>q. strict_prefix q (uuiddir_Join fs base d) \<longrightarrow> q \<in> T"
  shows "stays tree finv calm T s (snd (uuiddir_RemoveDir fs base (uuiddir_Join fs base d) s))"
    "stays tree finv calm T s (snd (uuiddir_Remove fs base d s))"
proof -
  have in_T: "q \<in> T" if "prefix q (uuiddir_Join fs base d)" for q
    using that assms(2,3) by (cases "q = uuiddir_Join fs base d") auto
  show "stays tree finv calm T s (snd (uuiddir_RemoveDir fs base (uuiddir_Join fs base d) s))"
    by (rule stays_effect [OF remove_specD(3) [OF assms(1)]]) (use assms(2) in_T in \<open>auto simp: effects split: if_splits\<close>)
  show "stays tree finv calm T s (snd (uuiddir_Remove fs base d s))"
    by (rule stays_effect [OF remove_specD(4) [OF assms(1)]]) (use assms(2) in_T in \<open>auto simp: effects split: if_splits\<close>)
qed

section \<open>Reading never writes\<close>

text \<open>
  The decoder never fills the field of the old format, so the metadata of a version is not
  rewritten when it is read.
\<close>

lemma readAndFix_state [simp]: "snd (readAndFixVersionInfoJSON c cx p w s) = s"
  by (auto simp: readAndFixVersionInfoJSON_def decode_legacy_def split: sum.splits)

lemma readAndFix_eq:
  "readAndFixVersionInfoJSON c cx p w s =
     ((case fs_ReadAll (lib c) cx p s of Inl e \<Rightarrow> Fail e | Inr text \<Rightarrow> to_outcome (Unmarshal_VersionInfo (lcodec c) text)), s)"
  by (auto simp: readAndFixVersionInfoJSON_def decode_legacy_def split: sum.splits)

lemma try_op_state: "(\<And>t. snd (m t) = t) \<Longrightarrow> (\<And>a t. snd (k a t) = t) \<Longrightarrow> snd (try_op m k s) = s"
  unfolding try_op_def by (cases "m s"; cases "fst (m s)") (auto, (metis snd_conv)+)

lemma documentVersionInfo_state [simp]: "snd (documentVersionInfo c cx docID v s) = s"
proof -
  obtain r t where m: "readAndFixVersionInfoJSON c cx (versionInfoFile c docID v) True s = (r, t)" by fastforce
  then have "t = s" by (metis readAndFix_state snd_conv)
  with m show ?thesis
    by (auto simp: documentVersionInfo_def split: option.splits outcome.splits sum.splits if_splits)
qed

lemma latestDocumentVersionInfo_state [simp]: "snd (latestDocumentVersionInfo c cx docID s) = s"
  by (auto simp: latestDocumentVersionInfo_def Let_def split_def try_op_state split: sum.splits)

lemma documentCompanyID_state [simp]: "snd (documentCompanyID c cx docID s) = s"
  unfolding documentCompanyID_def Let_def
  by (auto split: sum.splits intro!: try_op_state)

lemma local_reads_state [simp]:
  "snd (local_DocumentVersionInfo c cx docID v s) = s" "snd (local_LatestDocumentVersionInfo c cx docID s) = s"
  "snd (local_LatestDocumentVersion c cx docID s) = s" "snd (local_DocumentCompanyID c cx docID s) = s"
proof -
  show latest: "snd (local_LatestDocumentVersionInfo c cx docID s) = s" for s
    by (auto simp: local_LatestDocumentVersionInfo_def split: option.splits intro!: try_op_state)
  then show "snd (local_LatestDocumentVersion c cx docID s) = s"
    by (auto simp: local_LatestDocumentVersion_def intro!: try_op_state)
qed (simp_all add: local_DocumentVersionInfo_def local_DocumentCompanyID_def split: option.splits)

lemma reads_only_localConn: "reads_only (localConn c)"
  unfolding reads_only_def
proof (intro allI impI)
  fix call s assume "\<not> is_write call"
  then show "exec (localConn c) call s = s"
    by (cases call) (simp_all add: localConn_def with_add_multi_def local_methods_def)
qed

end
