(* ===== verification/LocalArea.thy ===== *)
theory LocalArea
  imports LocalFrame
begin

text \<open>
  Each operation of the file-system connection changes only the paths of the document it is
  called for, provided the file names it is given stay inside the version directory.
\<close>

section \<open>Paths of a document\<close>

lemma touchedI:
  "prefix (documentDir c d) q \<Longrightarrow> q \<in> touched c d" "prefix (companyDocumentDir c k d) q \<Longrightarrow> q \<in> touched c d"
  "strict_prefix q (documentDir c d) \<Longrightarrow> q \<in> touched c d" "strict_prefix q (companyDocumentDir c k d) \<Longrightarrow> q \<in> touched c d"
  by (auto simp: touched_def document_area_def document_parents_def)

lemma touched_above: "prefix q (documentDir c d) \<Longrightarrow> q \<in> touched c d" "prefix q (companyDocumentDir c k d) \<Longrightarrow> q \<in> touched c d"
  by (metis prefix_order.le_less prefix_order.refl touchedI)+

lemma touched_paths:
  assumes "local_spec c tree finv calm"
  shows "companyIDFile c d \<in> touched c d" "versionInfoFile c d v \<in> touched c d" "versionDirName c d v \<in> touched c d"
    "prefix (versionDirName c d v) q \<Longrightarrow> q \<in> touched c d" "prefix q (versionDirName c d v) \<Longrightarrow> q \<in> touched c d"
proof -
  note p = local_paths [OF assms]
  show "companyIDFile c d \<in> touched c d" "versionInfoFile c d v \<in> touched c d" "versionDirName c d v \<in> touched c d"
    by (rule touchedI(1), simp add: p(2-4))+
  show "prefix (versionDirName c d v) q \<Longrightarrow> q \<in> touched c d"
    by (rule touchedI(1)) (metis p(2) append_prefixD)
  show "prefix q (versionDirName c d v) \<Longrightarrow> q \<in> touched c d"
    using touched_above(1) touchedI(1) [of c d q] by (auto simp: p(2))
qed

lemma version_dirs_not_root:
  "local_spec c tree finv calm \<Longrightarrow> versionDirName c d v \<noteq> []"
  by (simp add: local_paths(2))

text \<open>The paths of one version, and those that record the company.\<close>

definition version_files_area :: "'f local_conn \<Rightarrow> uuid \<Rightarrow> version_time \<Rightarrow> fpath set" where
  "version_files_area c d v = {q. prefix (versionDirName c d v) q}"

definition version_area :: "'f local_conn \<Rightarrow> uuid \<Rightarrow> version_time \<Rightarrow> fpath set" where
  "version_area c d v = version_files_area c d v \<union> {versionInfoFile c d v}"

definition company_area :: "'f local_conn \<Rightarrow> uuid \<Rightarrow> fpath set" where
  "company_area c d = {companyIDFile c d}
     \<union> {q. \<exists>k. prefix (companyDocumentDir c k d) q \<or> prefix q (companyDocumentDir c k d)}"

lemma version_area_parts:
  "version_area c d v \<subseteq> T \<Longrightarrow> version_files_area c d v \<subseteq> T" "version_area c d v \<subseteq> T \<Longrightarrow> versionInfoFile c d v \<in> T"
  by (auto simp: version_area_def)

lemma area_touched:
  assumes "local_spec c tree finv calm" "touched c d \<subseteq> T"
  shows "company_area c d \<subseteq> T" "version_area c d v \<subseteq> T"
proof -
  have "company_area c d \<subseteq> touched c d"
    using touched_paths(1) [OF assms(1), of d] by (auto simp: company_area_def intro: touchedI(2) touched_above(2))
  with assms(2) show "company_area c d \<subseteq> T" by blast
  have "version_area c d v \<subseteq> touched c d"
    using touched_paths(2,4) [OF assms(1)] by (auto simp: version_area_def version_files_area_def)
  with assms(2) show "version_area c d v \<subseteq> T" by blast
qed

lemmas touched_parts = area_touched(1) version_area_parts [OF area_touched(2)]

section \<open>The calls on the paths of a document\<close>

text \<open>
  The calls an operation makes for document \<open>d\<close>, each a step of \<open>S\<close>: those that record its
  company, those on the files of a version, on the metadata of a version and on the
  directory of the document.
\<close>

definition company_calls :: "'f local_conn \<Rightarrow> uuid \<Rightarrow> ('f \<Rightarrow> 'f \<Rightarrow> bool) \<Rightarrow> bool" where
  "company_calls c d S \<longleftrightarrow> (\<forall>s b k.
     steps S s (snd (fs_WriteAll (lib c) background (companyIDFile c d) b s))
     \<and> steps S s (snd (fs_MakeAllDirs (lib c) (companyDocumentDir c k d) s))
     \<and> steps S s (snd (uuiddir_RemoveDir (lib c) (companyDir c k) (companyDocumentDir c k d) s))
     \<and> steps S s (snd (uuiddir_Remove (lib c) (companyDir c k) d s)))"

definition files_calls :: "'f local_conn \<Rightarrow> uuid \<Rightarrow> version_time \<Rightarrow> ('f \<Rightarrow> 'f \<Rightarrow> bool) \<Rightarrow> bool" where
  "files_calls c d v S \<longleftrightarrow> (\<forall>s cx f n b.
     steps S s (snd (fs_MakeDir (lib c) (versionDirName c d v) s))
     \<and> steps S s (snd (fs_RemoveRecursive (lib c) (versionDirName c d v) s))
     \<and> (local_name (FileName f) \<longrightarrow> steps S s (snd (fs_CopyFile (lib c) cx f (versionDirName c d v) s)))
     \<and> (plain_name n \<longrightarrow> steps S s (snd (fs_WriteAll (lib c) cx (fs_Join (lib c) (versionDirName c d v) n) b s))))"

definition info_calls :: "'f local_conn \<Rightarrow> uuid \<Rightarrow> version_time \<Rightarrow> ('f \<Rightarrow> 'f \<Rightarrow> bool) \<Rightarrow> bool" where
  "info_calls c d v S \<longleftrightarrow> (\<forall>s cx k prev user reason dir prevDir info.
     steps S s (snd (fs_Remove (lib c) (versionInfoFile c d v) s))
     \<and> (newVersionInfo c cx k d v prev user reason dir prevDir s = Inr info \<longrightarrow>
          steps S s (snd (WriteJSON (lib c) (lcodec c) background (versionInfoFile c d v) info s))))"

definition dir_calls :: "'f local_conn \<Rightarrow> uuid \<Rightarrow> ('f \<Rightarrow> 'f \<Rightarrow> bool) \<Rightarrow> bool" where
  "dir_calls c d S \<longleftrightarrow> (\<forall>s v.
     steps S s (snd (fs_MakeAllDirs (lib c) (versionDirName c d v) s))
     \<and> steps S s (snd (fs_MakeAllDirs (lib c) (documentDir c d) s))
     \<and> steps S s (snd (uuiddir_RemoveDir (lib c) (documentsDir c) (documentDir c d) s)))"

definition document_calls :: "'f local_conn \<Rightarrow> uuid \<Rightarrow> ('f \<Rightarrow> 'f \<Rightarrow> bool) \<Rightarrow> bool" where
  "document_calls c d S \<longleftrightarrow>
     company_calls c d S \<and> (\<forall>v. files_calls c d v S) \<and> (\<forall>v. info_calls c d v S) \<and> dir_calls c d S"

lemma document_callsD:
  assumes "document_calls c d S"
  shows "company_calls c d S" "files_calls c d v S" "info_calls c d v S" "dir_calls c d S"
  using assms by (simp_all add: document_calls_def)

lemma company_callsD [step_rules]:
  assumes "company_calls c d S"
  shows "steps S s (snd (fs_WriteAll (lib c) background (companyIDFile c d) b s))"
    "steps S s (snd (fs_MakeAllDirs (lib c) (companyDocumentDir c k d) s))"
    "steps S s (snd (uuiddir_RemoveDir (lib c) (companyDir c k) (companyDocumentDir c k d) s))"
    "steps S s (snd (uuiddir_Remove (lib c) (companyDir c k) d s))"
  using assms unfolding company_calls_def by blast+

lemma files_callsD [step_rules]:
  assumes "files_calls c d v S"
  shows "steps S s (snd (fs_MakeDir (lib c) (versionDirName c d v) s))"
    "steps S s (snd (fs_RemoveRecursive (lib c) (versionDirName c d v) s))"
    "local_name (FileName f) \<Longrightarrow> steps S s (snd (fs_CopyFile (lib c) cx f (versionDirName c d v) s))"
    "plain_name n \<Longrightarrow> steps S s (snd (fs_WriteAll (lib c) cx (fs_Join (lib c) (versionDirName c d v) n) b s))"
  using assms unfolding files_calls_def by blast+

lemma info_callsD [step_rules]:
  assumes "info_calls c d v S"
  shows "steps S s (snd (fs_Remove (lib c) (versionInfoFile c d v) s))"
    "newVersionInfo c cx k d v prev user reason dir prevDir s = Inr info \<Longrightarrow>
       steps S s (snd (WriteJSON (lib c) (lcodec c) background (versionInfoFile c d v) info s))"
  using assms unfolding info_calls_def by blast+

lemma dir_callsD [step_rules]:
  assumes "dir_calls c d S"
  shows "steps S s (snd (fs_MakeAllDirs (lib c) (versionDirName c d v) s))"
    "steps S s (snd (fs_MakeAllDirs (lib c) (documentDir c d) s))"
    "steps S s (snd (uuiddir_RemoveDir (lib c) (documentsDir c) (documentDir c d) s))"
  using assms unfolding dir_calls_def by blast+

lemma steps_reads [step_rules]:
  assumes "step_rel S"
  shows "steps S s (snd (documentCompanyID c cx d s))" "steps S s (snd (latestDocumentVersionInfo c cx d s))"
    "steps S s (snd (documentVersionInfo c cx d v s))"
  using assms by (simp_all add: steps_refl)

section \<open>The operations\<close>

lemma steps_makeCompanyDocumentDir [step_rules]:
  "company_calls c d S \<Longrightarrow> steps S s (snd (makeCompanyDocumentDir c k d s))"
  unfolding makeCompanyDocumentDir_def by (rule company_callsD)

lemma steps_removeCompanyDocumentDirIfExists [step_rules]:
  assumes S: "step_rel S" and ok: "company_calls c d S"
  shows "steps S s (snd (removeCompanyDocumentDirIfExists c k d s))"
  unfolding removeCompanyDocumentDirIfExists_def Let_def by (intro step_rules S ok)

lemma steps_setDocumentCompanyID [step_rules]:
  assumes S: "step_rel S" and ok: "company_calls c d S"
  shows "steps S s (snd (setDocumentCompanyID c cx d k s))"
  unfolding setDocumentCompanyID_def Let_def by (intro step_rules S ok)

lemma steps_remove_company_entry [step_rules]:
  assumes S: "step_rel S" and ok: "company_calls c d S"
  shows "steps S s (snd (remove_company_entry c cx d s))"
  unfolding remove_company_entry_def by (intro step_rules S ok)

lemma steps_remove_document [step_rules]:
  assumes S: "step_rel S" and ok: "document_calls c d S"
  shows "steps S s (snd (remove_document c cx d s))"
  unfolding remove_document_def Let_def by (intro step_rules S document_callsD [OF ok])

lemma steps_DeleteDocument [step_rules]:
  assumes S: "step_rel S" and ok: "document_calls c d S"
  shows "steps S s (snd (local_DeleteDocument c cx d s))"
  unfolding local_DeleteDocument_def by (intro step_rules S ok)

lemma documentAndVersionDir_Inr:
  "documentAndVersionDir c d v s = Inr dirs \<longleftrightarrow>
     dirs = (documentDir c d, versionDirName c d v) \<and> IsDir (lib c) (documentDir c d) s \<and> IsDir (lib c) (versionDirName c d v) s"
  by (auto simp: documentAndVersionDir_def Let_def)

lemma steps_DeleteDocumentVersion [step_rules]:
  assumes S: "step_rel S" and ok: "document_calls c d S"
  shows "steps S s (snd (local_DeleteDocumentVersion c cx d v s))"
  unfolding local_DeleteDocumentVersion_def Let_def
  by (intro step_rules S) (simp_all add: documentAndVersionDir_Inr,
    (intro step_rules steps_pure_pair S document_callsD [OF ok])+)

lemma steps_make_all_dirs [step_rules]:
  "step_rel S \<Longrightarrow> dir_calls c d S \<Longrightarrow> steps S s (snd (make_all_dirs c k d base (versionDirName c d v) s))"
  "step_rel S \<Longrightarrow> company_calls c d S \<Longrightarrow> steps S s (snd (make_all_dirs c k d base (companyDocumentDir c k d) s))"
  unfolding make_all_dirs_def Let_def by (intro step_rules; assumption)+

lemma steps_copy_files [step_rules]:
  assumes S: "step_rel S" and ok: "files_calls c d v S" and "\<forall>f\<in>set files. local_name (FileName f)"
  shows "steps S s (snd (copy_files (lib c) cx files (versionDirName c d v) s))"
  using assms(3)
proof (induction files arbitrary: s)
  case (Cons f files)
  then show ?case by (auto intro!: step_rules S ok)
qed (simp add: steps_refl S)

lemma steps_create_rollback [step_rules]:
  assumes S: "step_rel S" and ok: "document_calls c d S"
  shows "steps S s (snd (create_rollback c k d e s))"
  unfolding create_rollback_def Let_def by (intro step_rules S document_callsD [OF ok])

lemma steps_create_body [step_rules]:
  assumes S: "step_rel S" and ok: "document_calls c d S" and "\<forall>f\<in>set files. local_name (FileName f)"
  shows "steps S s (snd (create_body c cx k d userID reason v files onNew s))"
  unfolding create_body_def Let_def
  by (intro step_rules S document_callsD [OF ok] assms(3)) (auto intro: info_callsD [OF document_callsD(3) [OF ok]])

lemma steps_CreateDocument [step_rules]:
  assumes S: "step_rel S" and ok: "document_calls c d S" and "\<forall>f\<in>set files. local_name (FileName f)"
  shows "steps S s (snd (local_CreateDocument c cx k d userID reason v files onNew s))"
  unfolding local_CreateDocument_def Let_def by (intro step_rules S ok assms(3))

lemma local_reader_name:
  assumes "names_spec (lib c)" "plain_path p"
  shows "local_name (FileName (local_reader (lib c) cx (fs_Join (lib c) p n) s))"
  using names_specD(2) [OF assms, of n]
  by (auto simp: local_reader_def file_name_def local_name_def plain_path_def list_all_iff)

lemma steps_copy_prev_files [step_rules]:
  assumes S: "step_rel S" and ok: "files_calls c d v S" and names: "names_spec (lib c)" "plain_path prevDir"
  shows "steps S s (snd (copy_prev_files (lib c) cx prevDir files (versionDirName c d v) s))"
proof (induction files arbitrary: s)
  case (Cons n files)
  then show ?case by (auto intro!: step_rules S ok local_reader_name [OF names])
qed (simp add: steps_refl S)

lemma steps_commit_version [step_rules]:
  assumes S: "step_rel S" and ok: "company_calls c d S"
  shows "steps S s (snd (commit_version c cx d k k' info onNew s))"
  unfolding commit_version_def by (intro step_rules S ok)

lemma steps_local_write_version [step_rules]:
  assumes S: "step_rel S" and ok: "company_calls c d S" "files_calls c d (cvr_Version result) S" "info_calls c d (cvr_Version result) S"
    and names: "names_spec (lib c)" "plain_path prevDir" "\<forall>f\<in>set (write_readers result). local_name (FileName f)"
  shows "steps S s (snd (local_write_version c cx d userID reason prev prevDir result onNew s))"
  unfolding local_write_version_def Let_def
  by (intro step_rules S ok names) (auto intro: info_callsD [OF ok(3)])

lemma steps_add_rollback [step_rules]:
  assumes S: "step_rel S" and ok: "files_calls c d v S" "info_calls c d v S"
  shows "steps S s (snd (add_rollback c d v e s))"
  unfolding add_rollback_def Let_def by (intro step_rules S ok)

lemma latest_dir_cases:
  "latest_dir v0 d0 dirs = (v, dir) \<Longrightarrow> (v, dir) = (v0, d0) \<or> (v, dir) \<in> set dirs"
proof (induction dirs arbitrary: v0 d0)
  case (Cons vd dirs)
  then show ?case by (cases vd) (auto split: if_splits)
qed simp

lemma version_entry_Some:
  "version_entry c docDir s name = Some (v, dir) \<longleftrightarrow>
     dir = fs_Join (lib c) docDir name \<and> st_IsDir (fs_Info (lib c) dir s) \<and> \<not> st_IsHidden (fs_Info (lib c) dir s)
     \<and> VersionTimeFromString name = Inr v
     \<and> Exists (lib c) (fs_Join (lib c) docDir (VersionTime_String v @ ''.json'')) s"
  by (auto simp: version_entry_def Let_def split: sum.splits)

lemma set_map_filter: "y \<in> set (List.map_filter f xs) \<longleftrightarrow> (\<exists>x\<in>set xs. f x = Some y)"
  by (induction xs) (auto simp: List.map_filter_simps split: option.splits)

lemma enumVersionDirs_mem:
  "enumVersionDirs c docDir s = Inr dirs \<Longrightarrow> vd \<in> set dirs \<longleftrightarrow>
     (\<exists>names. fs_ListDir (lib c) background docDir s = Inr names \<and> (\<exists>n\<in>set names. version_entry c docDir s n = Some vd))"
  by (auto simp: enumVersionDirs_def set_map_filter split: sum.splits)

lemma latestDocumentVersionInfo_dir:
  assumes spec: "local_spec c tree finv calm" and "latestDocumentVersionInfo c cx d s = (Ret (info, dir), s')"
  shows "\<exists>dirs v. enumVersionDirs c (documentDir c d) s = Inr dirs \<and> latest_dir (VersionTime 0) [] dirs = (v, dir)
    \<and> Time v \<noteq> 0 \<and> (v, dir) \<in> set dirs \<and> documentVersionInfo c cx d v s = (Ret info, s) \<and> s' = s"
proof -
  have s': "s' = s" using latestDocumentVersionInfo_state [of c cx d s] assms(2) by simp
  obtain dirs v where d: "enumVersionDirs c (documentDir c d) s = Inr dirs" "latest_dir (VersionTime 0) [] dirs = (v, dir)"
    "\<not> IsZero v" "documentVersionInfo c cx d v s = (Ret info, s)"
    using assms(2) s' by (auto simp: latestDocumentVersionInfo_def Let_def try_op_Ret_iff split: if_splits sum.splits prod.splits)
  moreover have "(v, dir) \<in> set dirs" using latest_dir_cases [OF d(2)] d(3) by (auto simp: IsZero_def)
  ultimately show ?thesis using s' by (auto simp: IsZero_def)
qed

lemma plain_version_dir:
  assumes spec: "local_spec c tree finv calm" and "latestDocumentVersionInfo c cx d s = (Ret (info, dir), s')"
  shows "plain_path dir"
proof -
  obtain dirs v where d: "enumVersionDirs c (documentDir c d) s = Inr dirs" "(v, dir) \<in> set dirs"
    using latestDocumentVersionInfo_dir [OF assms] by blast
  then obtain n where "dir = fs_Join (lib c) (documentDir c d) n"
    by (auto simp: enumVersionDirs_mem version_entry_Some)
  then show ?thesis using names_specD(2) [OF local_specD(1) [OF spec] local_paths(7) [OF spec]] by simp
qed

text \<open>A callback whose results name only files inside the version directory.\<close>

definition local_results :: "create_version_func option \<Rightarrow> bool" where
  "local_results createVersion \<longleftrightarrow> (\<forall>create docID v p result. createVersion = Some create \<longrightarrow>
     create docID v p = Ret (Some result) \<longrightarrow> (\<forall>f\<in>set (write_readers result). local_name (FileName f)))"

text \<open>A call of \<open>AddDocumentVersion\<close> ends before it writes, or the version is written and maybe removed again.\<close>

definition add_reaches ::
  "'f local_conn \<Rightarrow> ctx \<Rightarrow> uuid \<Rightarrow> uuid \<Rightarrow> create_version_func option \<Rightarrow> on_new_version_func option \<Rightarrow> 'f
     \<Rightarrow> version_info \<Rightarrow> fpath \<Rightarrow> create_version_result \<Rightarrow> on_new_version_func \<Rightarrow> bool" where
  "add_reaches c cx d userID createVersion onNewVersion s prev prevDir result onNew \<longleftrightarrow>
     ctx_Err cx = None \<and> onNewVersion = Some onNew
     \<and> latestDocumentVersionInfo c cx d s = (Ret (prev, prevDir), s)
     \<and> (\<exists>create. createVersion = Some create
          \<and> create d (Version prev) (DirFileProvider (lib c) cx prevDir s) = Ret (Some result))
     \<and> CreateVersionResult_Validate (lext c) result = None \<and> After (cvr_Version result) (Version prev)"

lemma AddDocumentVersion_cases:
  assumes "local_AddDocumentVersion c cx d userID reason createVersion onNewVersion s = (r, s')"
  obtains "s' = s" "\<forall>info. r \<noteq> Ret info"
  | prev prevDir result onNew w t where "add_reaches c cx d userID createVersion onNewVersion s prev prevDir result onNew"
    "local_write_version c cx d userID reason prev prevDir result onNew s = (w, t)"
    "\<And>info. w = Ret info \<Longrightarrow> r = Ret info \<and> s' = t" "\<And>msg. w = Panic msg \<Longrightarrow> r = Panic msg \<and> s' = t"
    "\<And>e. w = Fail e \<Longrightarrow> \<exists>err. add_rollback c d (cvr_Version result) e t = (err, s') \<and> r = Fail err"
proof (cases "first_err [ctx_Err cx, ID_Validate (lext c) d, ID_Validate (lext c) userID] = None
    \<and> createVersion \<noteq> None \<and> onNewVersion \<noteq> None")
  case False
  then have "s' = s" "\<forall>info. r \<noteq> Ret info"
    using assms by (auto simp: local_AddDocumentVersion_def simp del: first_err_None split: option.splits)
  then show thesis by (rule that(1))
next
  case True
  then obtain create onNew where g: "ctx_Err cx = None" "ID_Validate (lext c) d = None" "ID_Validate (lext c) userID = None"
    "createVersion = Some create" "onNewVersion = Some onNew" by auto
  obtain l s1 where lat: "latestDocumentVersionInfo c cx d s = (l, s1)" by fastforce
  have s1: "s1 = s" using latestDocumentVersionInfo_state [of c cx d s] lat by simp
  note run = assms [unfolded local_AddDocumentVersion_def g first_err.simps option.case lat s1 prod.case]
  show thesis
  proof (cases "\<exists>prev prevDir. l = Ret (prev, prevDir)")
    case False
    then have "s' = s \<and> (\<forall>info. r \<noteq> Ret info)" using run by (cases l) auto
    then show thesis by (intro that(1)) simp_all
  next
    case True
    then obtain prev prevDir where l: "l = Ret (prev, prevDir)" by blast
    note run = run [unfolded l outcome.case prod.case]
    show thesis
    proof (cases "\<exists>result. create d (Version prev) (DirFileProvider (lib c) cx prevDir s) = Ret (Some result)
        \<and> CreateVersionResult_Validate (lext c) result = None \<and> After (cvr_Version result) (Version prev)")
      case False
      have "s' = s \<and> (\<forall>info. r \<noteq> Ret info)"
      proof (cases "create d (Version prev) (DirFileProvider (lib c) cx prevDir s)")
        case (Ret resultp)
        show ?thesis
        proof (cases resultp)
          case None
          with Ret run show ?thesis by auto
        next
          case (Some result)
          with False Ret have "CreateVersionResult_Validate (lext c) result \<noteq> None \<or> \<not> After (cvr_Version result) (Version prev)"
            by auto
          then show ?thesis using run Ret Some by (auto split: option.splits)
        qed
      qed (use run in auto)
      then show thesis by (intro that(1)) simp_all
    next
      case True
      then obtain result where res: "create d (Version prev) (DirFileProvider (lib c) cx prevDir s) = Ret (Some result)"
        "CreateVersionResult_Validate (lext c) result = None" "After (cvr_Version result) (Version prev)" by blast
      obtain w t where w: "local_write_version c cx d userID reason prev prevDir result onNew s = (w, t)" by fastforce
      have "add_reaches c cx d userID createVersion onNewVersion s prev prevDir result onNew"
        using g lat s1 l res by (simp add: add_reaches_def)
      moreover have "(case w of Ret info \<Rightarrow> r = Ret info \<and> s' = t | Panic msg \<Rightarrow> r = Panic msg \<and> s' = t
          | Fail e \<Rightarrow> \<exists>err. add_rollback c d (cvr_Version result) e t = (err, s') \<and> r = Fail err)"
        using run res w by (cases w) (auto split: prod.splits)
      ultimately show thesis
        by (intro that(2) [OF _ w]) simp_all
    qed
  qed
qed

lemma steps_AddDocumentVersion [step_rules]:
  assumes S: "step_rel S" and ok: "document_calls c d S" and spec: "local_spec c tree finv calm" and "local_results createVersion"
  shows "steps S s (snd (local_AddDocumentVersion c cx d userID reason createVersion onNewVersion s))"
proof -
  obtain r s' where run: "local_AddDocumentVersion c cx d userID reason createVersion onNewVersion s = (r, s')" by fastforce
  from run have "steps S s s'"
  proof (cases rule: AddDocumentVersion_cases)
    case 1
    then show ?thesis by (simp add: steps_refl S)
  next
    case (2 prev prevDir result onNew w t)
    have "plain_path prevDir" "\<forall>f\<in>set (write_readers result). local_name (FileName f)"
      using 2(1) assms(4) plain_version_dir [OF spec] by (fastforce simp: add_reaches_def local_results_def)+
    from steps_local_write_version [OF S document_callsD(1-3) [OF ok] local_specD(1) [OF spec] this, of s cx userID reason prev onNew] 2(2)
    have st: "steps S s t" by simp
    show ?thesis
    proof (cases w)
      case (Fail e)
      from 2(5) [OF this] obtain err where "add_rollback c d (cvr_Version result) e t = (err, s')" by blast
      with steps_add_rollback [OF S document_callsD(2,3) [OF ok], where v = "cvr_Version result" and e = e and s = t] show ?thesis
        by (auto intro: steps_trans [OF S st])
    next
      case (Ret info)
      from 2(3) [OF this] st show ?thesis by simp
    next
      case (Panic msg)
      from 2(4) [OF this] st show ?thesis by simp
    qed
  qed
  with run show ?thesis by simp
qed

section \<open>Restoring\<close>

definition plain_hashes :: "hashed_document \<Rightarrow> bool" where
  "plain_hashes doc \<longleftrightarrow> (\<forall>(v, hvp)\<in>set (Versions doc). \<forall>hv. hvp = Some hv \<longrightarrow> (\<forall>(n, h)\<in>set (FileHashes hv). plain_name n))"

lemma plain_hashesD: "plain_hashes doc \<Longrightarrow> version_at doc v = Some hv \<Longrightarrow> \<forall>(n, h)\<in>set (FileHashes hv). plain_name n"
  unfolding plain_hashes_def version_at_def by (fastforce dest: map_of_SomeD split: Option.bind_splits)

lemma steps_write_hashed_files [step_rules]:
  assumes S: "step_rel S" and ok: "files_calls c d v S" and "\<forall>(n, h)\<in>set hashes. plain_name n"
  shows "steps S s (snd (write_hashed_files (lib c) cx doc (versionDirName c d v) hashes s))"
  using assms(3)
proof (induction hashes arbitrary: s)
  case (Cons nh hashes)
  then show ?case by (cases nh) (auto intro!: step_rules S ok)
qed (simp add: steps_refl S)

text \<open>What the loop remembers for the clean-up are paths of the document.\<close>

definition created_ok :: "'f local_conn \<Rightarrow> uuid \<Rightarrow> created_paths \<Rightarrow> bool" where
  "created_ok c d created \<longleftrightarrow> set (fst created) \<subseteq> range (versionDirName c d) \<and> set (snd created) \<subseteq> range (versionInfoFile c d)"

text \<open>One version that is written: it fails on the way, or the loop goes on.\<close>

lemma restore_step:
  assumes S: "step_rel S" and calls: "document_calls c (hd_ID doc) S" and doc: "plain_hashes doc"
    and run: "local_restore_loop c cx doc recreate existing prev (v # vs) created s = (r, created', s')"
    and fresh: "\<not> (\<not> recreate \<and> local_versionTimeIn existing v)" and ok: "created_ok c (hd_ID doc) created"
  obtains "steps S s s'" "created_ok c (hd_ID doc) created'"
  | created1 t where "steps S s t" "created_ok c (hd_ID doc) created1"
    "local_restore_loop c cx doc recreate existing (Some v) vs created1 t = (r, created', s')"
proof -
  define versionDir where "versionDir = versionDirName c (hd_ID doc) v"
  define infoFile where "infoFile = versionInfoFile c (hd_ID doc) v"
  note F = document_callsD(2) [OF calls] and J = document_callsD(3) [OF calls]
  note run = run [unfolded local_restore_loop.simps if_not_P [OF fresh] Let_def, folded versionDir_def infoFile_def]
  obtain e1 s1 where mk: "fs_MakeDir (lib c) versionDir s = (e1, s1)" by fastforce
  have st1: "steps S s s1"
    using files_callsD(1) [OF F, of s v] mk by (simp add: versionDir_def)
  define created1 where "created1 = (fst created @ [versionDir], snd created)"
  have ok1: "created_ok c (hd_ID doc) created1" "created_ok c (hd_ID doc) (fst created1, snd created1 @ [infoFile])"
    using ok by (auto simp: created1_def created_ok_def versionDir_def infoFile_def)
  note run = run [unfolded mk prod.case, folded created1_def]
  show thesis
  proof (cases "e1 = None \<and> version_at doc v \<noteq> None")
    case False
    then show thesis using run st1 ok ok1 by (intro that(1)) (auto split: option.splits)
  next
    case True
    then obtain hv where hv: "e1 = None" "version_at doc v = Some hv" by auto
    obtain e2 s2 where w: "write_hashed_files (lib c) cx doc versionDir (FileHashes hv) s1 = (e2, s2)" by fastforce
    have st2: "steps S s s2"
      using steps_write_hashed_files [OF S F [where v = v] plain_hashesD [OF doc hv(2)], of s1 cx doc] w
      by (auto simp: versionDir_def intro: steps_trans [OF S st1])
    note run = run [unfolded hv option.case w prod.case]
    show thesis
    proof (cases "\<exists>info e3 s3. e2 = None \<and> newVersionInfo c cx (hd_CompanyID doc) (hd_ID doc) v prev (hv_CommitUserID hv)
        (hv_CommitReason hv) versionDir (map_option (versionDirName c (hd_ID doc)) prev) s2 = Inr info
        \<and> WriteJSON (lib c) (lcodec c) background infoFile info s2 = (e3, s3)")
      case False
      then have "s' = s2 \<and> created' = created1" using run by (auto split: option.splits sum.splits)
      with st2 ok1(1) show thesis by (intro that(1)) simp_all
    next
      case True
      then obtain info e3 s3 where info: "e2 = None" "newVersionInfo c cx (hd_CompanyID doc) (hd_ID doc) v prev (hv_CommitUserID hv)
          (hv_CommitReason hv) versionDir (map_option (versionDirName c (hd_ID doc)) prev) s2 = Inr info"
        and js: "WriteJSON (lib c) (lcodec c) background infoFile info s2 = (e3, s3)" by blast
      have st3: "steps S s s3"
        using info_callsD(2) [OF J info(2)] js
        by (auto simp: infoFile_def intro: steps_trans [OF S st2])
      note run = run [unfolded info js option.case sum.case prod.case]
      show thesis
      proof (cases e3)
        case None
        with run st3 ok1(2) show thesis by (intro that(2)) simp_all
      next
        case (Some e)
        with run have "s' = s3" "created' = created1" by simp_all
        with st3 ok1(1) show thesis by (intro that(1)) simp_all
      qed
    qed
  qed
qed

lemma steps_restore_loop:
  assumes S: "step_rel S" and calls: "document_calls c (hd_ID doc) S" and doc: "plain_hashes doc"
    and "local_restore_loop c cx doc recreate existing prev vs created s = (r, created', s')" "created_ok c (hd_ID doc) created"
  shows "steps S s s' \<and> created_ok c (hd_ID doc) created'"
  using assms(4,5)
proof (induction vs arbitrary: prev created s)
  case (Cons v vs)
  show ?case
  proof (cases "\<not> recreate \<and> local_versionTimeIn existing v")
    case True
    with Cons show ?thesis by simp
  next
    case False
    from restore_step [OF S calls doc Cons.prems(1) this Cons.prems(2)] show ?thesis
      by (metis Cons.IH steps_trans [OF S])
  qed
qed (simp add: steps_refl S)

lemma steps_remove_created [step_rules]:
  assumes S: "step_rel S" and calls: "document_calls c d S"
  shows "set ds \<subseteq> range (versionDirName c d) \<Longrightarrow> steps S s (snd (remove_dirs (lib c) ds e s))"
    "set ps \<subseteq> range (versionInfoFile c d) \<Longrightarrow> steps S s (snd (remove_files (lib c) ps e s))"
proof -
  show "set ds \<subseteq> range (versionDirName c d) \<Longrightarrow> steps S s (snd (remove_dirs (lib c) ds e s))"
  proof (induction ds arbitrary: e s)
    case (Cons p ds)
    then show ?case by (auto simp: Let_def intro!: step_rules S document_callsD [OF calls])
  qed (simp add: steps_refl S)
  show "set ps \<subseteq> range (versionInfoFile c d) \<Longrightarrow> steps S s (snd (remove_files (lib c) ps e s))"
  proof (induction ps arbitrary: e s)
    case (Cons p ps)
    then show ?case by (auto simp: Let_def intro!: step_rules S document_callsD [OF calls])
  qed (simp add: steps_refl S)
qed

lemma steps_restore_rollback [step_rules]:
  assumes S: "step_rel S" and calls: "document_calls c (hd_ID doc) S" and ok: "created_ok c (hd_ID doc) created"
  shows "steps S s (snd (local_restore_rollback c doc existed created e s))"
proof -
  have "set (fst created) \<subseteq> range (versionDirName c (hd_ID doc))" "set (snd created) \<subseteq> range (versionInfoFile c (hd_ID doc))"
    using ok by (simp_all add: created_ok_def)
  then show ?thesis
    unfolding local_restore_rollback_def Let_def
    by (intro step_rules S steps_remove_created [OF S calls] document_callsD [OF calls])
qed

lemma steps_restore_delete [step_rules]:
  assumes S: "step_rel S" and calls: "document_calls c d S"
  shows "steps S s (snd (local_restore_delete c cx d s))"
  unfolding local_restore_delete_def by (intro step_rules S document_callsD [OF calls])

lemma steps_restore_existing [step_rules]:
  assumes S: "step_rel S" and calls: "document_calls c (hd_ID doc) S"
  shows "steps S s (snd (local_restore_existing c cx doc existed s))"
  unfolding local_restore_existing_def by (intro step_rules S document_callsD [OF calls])

lemma steps_RestoreDocument:
  assumes S: "step_rel S" and calls: "document_calls c (hd_ID doc) S" and "plain_hashes doc"
  shows "steps S s (snd (local_RestoreDocument c cx (Some doc) recreate s))"
proof -
  have loop: "steps S s
      (snd (case local_restore_loop c cx doc recreate existing None (VersionTimes doc) ([], []) s of
         (Ret _, _, t) \<Rightarrow> (Ret (), t)
       | (Panic msg, _, t) \<Rightarrow> (Panic msg, t)
       | (Fail e, created, t) \<Rightarrow> (case local_restore_rollback c doc existed created e t of (err, u) \<Rightarrow> (Fail err, u))))"
    for existing existed s
  proof -
    obtain r created t where l: "local_restore_loop c cx doc recreate existing None (VersionTimes doc) ([], []) s = (r, created, t)"
      by (metis prod_cases3)
    have "created_ok c (hd_ID doc) ([], [])" by (simp add: created_ok_def)
    with steps_restore_loop [OF S calls assms(3) l] have st: "steps S s t" "created_ok c (hd_ID doc) created" by simp_all
    then show ?thesis
      using steps_restore_rollback [OF S calls st(2), where existed = existed and s = t]
      by (cases r) (auto simp: l split_def intro: steps_trans [OF S])
  qed
  show ?thesis
    unfolding local_RestoreDocument_def Let_def
    by (simp only: option.case) (intro step_rules S calls loop)
qed

section \<open>The frame of a document\<close>

lemma steps_stays: "steps (stays tree finv calm T) = stays tree finv calm T"
  by (simp add: fun_eq_iff steps_def)

lemma frame_company_calls:
  assumes spec: "local_spec c tree finv calm" and T: "company_area c d \<subseteq> T"
  shows "company_calls c d (stays tree finv calm T)"
proof -
  note w = local_specD(4) [OF spec] and r = local_specD(5) [OF spec]
  have t: "companyIDFile c d \<in> T" "\<forall>q. prefix q (companyDocumentDir c k d) \<longrightarrow> q \<in> T"
    "\<forall>q. prefix (companyDocumentDir c k d) q \<longrightarrow> q \<in> T" "\<forall>q. strict_prefix q (companyDocumentDir c k d) \<longrightarrow> q \<in> T" for k
    using T by (auto simp: company_area_def strict_prefix_def)
  show ?thesis
    unfolding company_calls_def steps_stays
    using stays_WriteAll [OF w t(1)] stays_MakeAllDirs [OF w t(2)] stays_RemoveDir [OF r t(3,4) [unfolded companyDocumentDir_def]]
    by (simp add: companyDocumentDir_def)
qed

lemma frame_files_calls:
  assumes spec: "local_spec c tree finv calm" and T: "version_files_area c d v \<subseteq> T"
  shows "files_calls c d v (stays tree finv calm T)"
proof -
  note w = local_specD(4) [OF spec] and r = local_specD(5) [OF spec]
  have t: "versionDirName c d v \<in> T" "\<forall>q. prefix (versionDirName c d v) q \<longrightarrow> q \<in> T"
    using T by (auto simp: version_files_area_def)
  have "fs_Join (lib c) (versionDirName c d v) n \<in> T" if "plain_name n" for n
    using names_specD(1) [OF local_specD(1) [OF spec] that] t(2) by auto
  then show ?thesis
    unfolding files_calls_def steps_stays
    using stays_MakeDir [OF w t(1)] stays_RemoveRecursive [OF r version_dirs_not_root [OF spec] t(2)]
      stays_CopyFile [OF w _ t(2)] stays_WriteAll [OF w] by blast
qed

lemma frame_info_calls:
  assumes spec: "local_spec c tree finv calm" and T: "versionInfoFile c d v \<in> T"
  shows "info_calls c d v (stays tree finv calm T)"
proof -
  have "stays tree finv calm T s (snd (WriteJSON (lib c) j cx (versionInfoFile c d v) info s))" for s j cx info
    unfolding WriteJSON_def using stays_WriteAll [OF local_specD(4) [OF spec] T] stays_refl by (auto split: sum.split)
  then show ?thesis
    unfolding info_calls_def steps_stays using stays_Remove [OF local_specD(5) [OF spec] T] by blast
qed

lemma frame_dir_calls:
  assumes spec: "local_spec c tree finv calm" and T: "touched c d \<subseteq> T"
  shows "dir_calls c d (stays tree finv calm T)"
proof -
  note w = local_specD(4) [OF spec] and r = local_specD(5) [OF spec]
  have t: "\<forall>q. prefix q (versionDirName c d v) \<longrightarrow> q \<in> T" "\<forall>q. prefix q (documentDir c d) \<longrightarrow> q \<in> T"
    "\<forall>q. prefix (documentDir c d) q \<longrightarrow> q \<in> T" "\<forall>q. strict_prefix q (documentDir c d) \<longrightarrow> q \<in> T" for v
    using T touched_paths(5) [OF spec] touchedI(1,3) touched_above(1) by blast+
  show ?thesis
    unfolding dir_calls_def steps_stays
    using stays_MakeAllDirs [OF w t(1)] stays_MakeAllDirs [OF w t(2)] stays_RemoveDir(1) [OF r t(3,4) [unfolded documentDir_def]]
    by (simp add: documentDir_def)
qed

lemma frame_document_calls:
  assumes spec: "local_spec c tree finv calm" and T: "touched c d \<subseteq> T"
  shows "document_calls c d (stays tree finv calm T)"
  unfolding document_calls_def
  by (intro conjI allI frame_company_calls [OF spec] frame_files_calls [OF spec] frame_info_calls [OF spec] frame_dir_calls [OF spec T]
      touched_parts [OF spec T])

end
