(* ===== verification/LocalCalls.thy ===== *)
theory LocalCalls
  imports LocalArea
begin

text \<open>
  Sequences of calls of a file-system connection: the documents a call names, and that it
  changes no path of any other.
\<close>

fun call_docs :: "conn_call \<Rightarrow> uuid list" where
  "call_docs (Call_SetDocumentCompanyID cx docID companyID) = [docID]"
| "call_docs (Call_DeleteDocument cx docID) = [docID]"
| "call_docs (Call_DeleteDocumentVersion cx docID v) = [docID]"
| "call_docs (Call_CreateDocument cx companyID docID userID reason v files onNewVersion) = [docID]"
| "call_docs (Call_AddDocumentVersion cx docID userID reason createVersion onNewVersion) = [docID]"
| "call_docs (Call_AddMultiDocumentVersion cx docIDs userID reason createVersion onNewVersion) = docIDs"
| "call_docs (Call_RestoreDocument cx docp recreate) = (case docp of None \<Rightarrow> [] | Some doc \<Rightarrow> [hd_ID doc])"
| "call_docs _ = []"

text \<open>A call whose file names stay inside the version directory they are written to.\<close>

fun local_call :: "conn_call \<Rightarrow> bool" where
  "local_call (Call_CreateDocument cx companyID docID userID reason v files onNewVersion) =
     (\<forall>f\<in>set files. local_name (FileName f))"
| "local_call (Call_AddDocumentVersion cx docID userID reason createVersion onNewVersion) = local_results createVersion"
| "local_call (Call_AddMultiDocumentVersion cx docIDs userID reason createVersion onNewVersion) = local_results createVersion"
| "local_call (Call_RestoreDocument cx docp recreate) = (case docp of None \<Rightarrow> True | Some doc \<Rightarrow> plain_hashes doc)"
| "local_call _ = True"

lemma newVersionInfo_DocID: "newVersionInfo c cx k d v prev u reason dir prevDir s = Inr info \<Longrightarrow> DocID info = d"
  by (auto simp: newVersionInfo_def Let_def split: if_splits sum.splits option.splits)

lemma local_write_version_DocID:
  "local_write_version c cx d userID reason prev prevDir result onNew s = (Ret info, s') \<Longrightarrow> DocID info = d"
  by (auto simp: local_write_version_def Let_def try_op_Ret_iff newVersionInfo_DocID split: if_splits)

lemma AddDocumentVersion_DocID:
  assumes "local_AddDocumentVersion c cx d userID reason createVersion onNewVersion s = (Ret info, s')"
  shows "DocID info = d"
  using assms
proof (cases rule: AddDocumentVersion_cases)
  case (2 prev prevDir result onNew w t)
  then show ?thesis by (cases w) (auto dest: local_write_version_DocID)
qed simp

text \<open>The shared implementation of \<open>AddMultiDocumentVersion\<close>.\<close>

lemma steps_add_multi_loop:
  assumes S: "step_rel S" and calls: "\<And>d. d \<in> D \<Longrightarrow> document_calls c d S"
    and spec: "local_spec c tree finv calm" and res: "local_results createVersion"
    and "add_multi_loop cx (local_methods c) userID reason createVersion onNewVersion docIDs created s = ((r, created'), s')"
    and "set docIDs \<subseteq> D" "fst ` set created \<subseteq> D"
  shows "steps S s s' \<and> fst ` set created' \<subseteq> D"
  using assms(5-7)
proof (induction docIDs arbitrary: created s)
  case (Cons d docIDs)
  obtain ra infos s1 where add: "conn_AddDocumentVersion (local_methods c) cx d userID reason createVersion
      (Some (multi_callback onNewVersion)) s = ((ra, infos), s1)" by (metis prod.collapse)
  obtain ro t where op: "local_AddDocumentVersion c cx d userID reason createVersion (Some (multi_callback onNewVersion)) s = (ro, t)"
    by fastforce
  have t: "s1 = t" "(ra, infos) = local_add_accepts ro" using add op by (simp_all add: local_methods_def)
  have st: "steps S s s1"
    using steps_AddDocumentVersion [OF S calls spec res, of d s cx userID reason "Some (multi_callback onNewVersion)"] op t(1) Cons.prems(2)
    by simp
  have docs: "\<forall>info\<in>set infos. DocID info = d"
    using t(2) op by (cases ro) (auto simp: local_add_accepts_def AddDocumentVersion_DocID)
  have created: "fst ` set (created @ created_versions infos) \<subseteq> D"
    using docs Cons.prems(2,3) by (auto simp: created_versions_def)
  show ?case
  proof (cases "ra = Ret () \<or> (\<exists>e. ra = Fail e \<and> errors_Is e ErrNoChanges)")
    case True
    then have run: "add_multi_loop cx (local_methods c) userID reason createVersion onNewVersion docIDs
        (created @ created_versions infos) s1 = ((r, created'), s')"
      using Cons.prems(1) add by auto
    from Cons.IH [OF run _ created] Cons.prems(2) show ?thesis by (auto intro: steps_trans [OF S st])
  next
    case False
    then have "created' = created @ created_versions infos \<and> s' = s1"
      using Cons.prems(1) add by (cases ra) auto
    with st created show ?thesis by simp
  qed
qed (auto simp: steps_refl S)

lemma steps_undo_created:
  assumes S: "step_rel S" and calls: "\<And>d. d \<in> D \<Longrightarrow> document_calls c d S" and "fst ` set created \<subseteq> D"
  shows "steps S s (snd (undo_created cx (local_methods c) created e s))"
  using assms(3)
proof (induction created arbitrary: e s)
  case (Cons dv created)
  obtain d v where dv: "dv = (d, v)" by fastforce
  obtain rd s1 where del: "local_DeleteDocumentVersion c cx d v s = (rd, s1)" by fastforce
  have st: "steps S s s1"
    using steps_DeleteDocumentVersion [OF S calls, of d s cx v] del Cons.prems dv by simp
  have "snd (undo_created cx (local_methods c) (dv # created) e s) = s1
      \<or> (\<exists>e'. snd (undo_created cx (local_methods c) (dv # created) e s) = snd (undo_created cx (local_methods c) created e' s1))"
    by (cases rd) (auto simp: dv del local_methods_def)
  with Cons st show ?case by (auto intro: steps_trans [OF S st])
qed (simp add: steps_refl S)

lemma steps_AddMulti:
  assumes S: "step_rel S" and calls: "\<And>d. d \<in> set docIDs \<Longrightarrow> document_calls c d S"
    and spec: "local_spec c tree finv calm" and res: "local_results createVersion"
  shows "steps S s (snd (AddMultiDocumentVersionImpl cx (local_methods c) docIDs userID reason createVersion onNewVersion s))"
proof -
  obtain r created s1 where l: "add_multi_loop cx (local_methods c) userID reason createVersion onNewVersion docIDs [] s
      = ((r, created), s1)" by (metis prod.collapse)
  have created: "fst ` set created \<subseteq> set docIDs" and s1: "steps S s s1"
    using steps_add_multi_loop [OF S calls spec res l subset_refl] by simp_all
  show ?thesis
  proof (cases r)
    case (Ret u)
    with s1 show ?thesis by (simp add: AddMultiDocumentVersionImpl_def l)
  qed (simp_all add: AddMultiDocumentVersionImpl_def l steps_trans [OF S s1 steps_undo_created [OF S calls created]])
qed

text \<open>One call, and a sequence of calls.\<close>

lemma steps_exec:
  assumes S: "step_rel S" and calls: "\<And>d. d \<in> set (call_docs call) \<Longrightarrow> document_calls c d S"
    and spec: "local_spec c tree finv calm" and loc: "local_call call"
  shows "steps S s (exec (localConn c) call s)"
proof (cases "is_write call")
  case False
  then have "exec (localConn c) call s = s"
    using reads_only_localConn [unfolded reads_only_def, rule_format, of call c s] by simp
  then show ?thesis by (simp add: steps_refl S)
next
  case True
  note ops = localConn_def with_add_multi_def local_methods_def
  show ?thesis
    using True calls loc
  proof (cases call)
    case (Call_RestoreDocument cx docp recreate)
    then show ?thesis
      using calls loc steps_RestoreDocument [OF S]
      by (cases docp) (auto simp: ops local_RestoreDocument_def steps_refl S split: option.splits)
  next
    case (Call_SetDocumentCompanyID cx d k)
    then show ?thesis
      using steps_setDocumentCompanyID [OF S document_callsD(1) [OF calls], of d]
      by (auto simp: ops local_SetDocumentCompanyID_def steps_refl S split: option.splits)
  next
    case (Call_AddDocumentVersion cx d userID reason createVersion onNewVersion)
    then show ?thesis
      using steps_AddDocumentVersion [OF S calls spec] loc
      by (auto simp: ops Let_def split_def)
  next
    case (Call_AddMultiDocumentVersion cx docIDs userID reason createVersion onNewVersion)
    then show ?thesis
      using steps_AddMulti [OF S calls spec] loc by (simp add: localConn_def with_add_multi_def)
  qed (simp_all add: ops steps_DeleteDocument [OF S] steps_DeleteDocumentVersion [OF S] steps_CreateDocument [OF S])
qed

lemma exec_all_steps:
  assumes "step_rel S" "\<And>call d. call \<in> set calls \<Longrightarrow> d \<in> set (call_docs call) \<Longrightarrow> document_calls c d S"
    and "local_spec c tree finv calm" "\<forall>call\<in>set calls. local_call call"
  shows "steps S s (exec_all (localConn c) calls s)"
  using assms(2,4)
proof (induction calls arbitrary: s)
  case (Cons call calls)
  have "steps S s (exec (localConn c) call s)"
    by (rule steps_exec [OF assms(1) _ assms(3)]) (use Cons.prems in auto)
  moreover have "steps S (exec (localConn c) call s) (exec_all (localConn c) calls (exec (localConn c) call s))"
    by (rule Cons.IH) (use Cons.prems in auto)
  ultimately show ?case by (auto intro: steps_trans [OF assms(1)])
qed (simp add: steps_refl assms(1))

text \<open>No path of a document that is not named changes.\<close>

lemma exec_all_frame:
  assumes spec: "local_spec c tree finv calm" and "finv s"
    and "\<forall>call\<in>set calls. local_call call \<and> d \<notin> set (call_docs call)"
  shows "finv (exec_all (localConn c) calls s)
    \<and> (\<forall>q\<in>document_area c d. tree (exec_all (localConn c) calls s) q = tree s q)"
proof -
  have "steps (stays tree finv calm (- document_area c d)) s (exec_all (localConn c) calls s)"
  proof (rule exec_all_steps [OF step_rel_stays _ spec])
    fix call d' assume "call \<in> set calls" "d' \<in> set (call_docs call)"
    then have "touched c d' \<subseteq> - document_area c d" using assms(3) document_area_disjoint [OF spec, of d d'] by auto
    then show "document_calls c d' (stays tree finv calm (- document_area c d))" by (rule frame_document_calls [OF spec])
  qed (use assms(3) in simp)
  then show ?thesis using assms(2) by (simp add: steps_stays stays_def)
qed

end
