(* ===== verification/VersionBounds.thy ===== *)
theory VersionBounds
  imports VersionTime
begin

text \<open>
  The range of the times \<open>VersionTimeFromString\<close> returns: the years 0 to 9999, which are the
  ones its layouts can hold. A year of five digits is printed but cannot be read back.
\<close>

section \<open>Numbers that are read\<close>

lemma digit_val_bounds: "is_digit c \<Longrightarrow> 0 \<le> digit_val c \<and> digit_val c \<le> 9"
  by (auto simp: is_digit_def digit_val_def)

lemma leadingInt_bounds:
  "leadingInt acc s = (x, []) \<Longrightarrow> 0 \<le> acc \<Longrightarrow> 0 \<le> x \<and> x < (acc + 1) * 10 ^ length s"
proof (induction acc s rule: leadingInt.induct)
  case (2 acc a s)
  then have d: "is_digit a" "leadingInt (10 * acc + digit_val a) s = (x, [])" by (auto split: if_splits)
  note dv = digit_val_bounds [OF d(1)]
  from 2(1) [OF d] dv 2(3) have x: "0 \<le> x" "x < (10 * acc + digit_val a + 1) * 10 ^ length s" by auto
  have "(10 * acc + digit_val a + 1) * 10 ^ length s \<le> (10 * acc + 10) * 10 ^ length s"
    using dv by (intro mult_right_mono) auto
  also have "\<dots> = (acc + 1) * 10 ^ length (a # s)" by (simp add: algebra_simps)
  finally show ?case using x by (auto intro: less_le_trans)
qed simp

lemma atoi_bounds:
  assumes "atoi s = Some x"
  shows "\<bar>x\<bar> < 10 ^ length s" "s \<noteq> [] \<Longrightarrow> is_digit (hd s) \<Longrightarrow> 0 \<le> x"
proof -
  define neg where "neg = (case s of a # r \<Rightarrow> a = CHR ''-'' | [] \<Rightarrow> False)"
  define s' where "s' = (case s of a # r \<Rightarrow> if a = CHR ''-'' \<or> a = CHR ''+'' then r else s | [] \<Rightarrow> [])"
  obtain y where y: "leadingInt 0 s' = (y, [])" "x = (if neg then - y else y)"
    using assms unfolding atoi_def neg_def s'_def by (auto split: list.splits if_splits prod.splits)
  have "length s' \<le> length s" by (simp add: s'_def split: list.splits)
  then have "(10::int) ^ length s' \<le> 10 ^ length s" by (intro power_increasing) simp_all
  then show "\<bar>x\<bar> < 10 ^ length s" using leadingInt_bounds [OF y(1)] y(2) by (auto intro: less_le_trans)
  have "\<not> is_digit CHR ''-''" by (simp add: is_digit_def)
  then show "s \<noteq> [] \<Longrightarrow> is_digit (hd s) \<Longrightarrow> 0 \<le> x"
    using leadingInt_bounds [OF y(1)] y(2) by (auto simp: neg_def split: list.splits)
qed

lemma getyear_bounds:
  assumes "getyear s = Some (y, r)"
  shows "0 \<le> y \<and> y < 10000"
proof -
  from assms have a: "4 \<le> length s" "is_digit (hd s)" "atoi (take 4 s) = Some y"
    by (auto simp: getyear_def split: if_splits)
  then have h: "take 4 s \<noteq> []" "is_digit (hd (take 4 s))" "length (take 4 s) = 4" by (auto simp: hd_take)
  show ?thesis using atoi_bounds(1) [OF a(3)] atoi_bounds(2) [OF a(3) h(1,2)] h(3) by simp
qed

lemma parseNanoseconds_bounds:
  assumes "parseNanoseconds s n = Some ns" "0 < n"
  shows "0 \<le> ns \<and> ns < 1000000000"
proof -
  define m where "m = min n 10"
  from assms(1) obtain k where k: "atoi (drop 1 (take m s)) = Some k" "0 \<le> k" "ns = k * 10 ^ (10 - m)"
    by (auto simp: parseNanoseconds_def Let_def m_def split: if_splits option.splits)
  have "length (drop 1 (take m s)) \<le> m - 1" by simp
  then have "(10::int) ^ length (drop 1 (take m s)) \<le> 10 ^ (m - 1)" by (intro power_increasing) simp_all
  then have "k < 10 ^ (m - 1)" using atoi_bounds(1) [OF k(1)] k(2) by linarith
  then have "k * 10 ^ (10 - m) < 10 ^ (m - 1) * 10 ^ (10 - m)" by (intro mult_strict_right_mono) simp_all
  also have "\<dots> = 10 ^ (m - 1 + (10 - m))" by (simp add: power_add)
  also have "m - 1 + (10 - m) = 9" using assms(2) by (simp add: m_def)
  finally show ?thesis using k(2,3) by simp
qed

lemma frac_bounds:
  "frac_000 s = Some (ns, r) \<Longrightarrow> 0 \<le> ns \<and> ns < 1000000000"
  "frac_999 s = Some (ns, r) \<Longrightarrow> 0 \<le> ns \<and> ns < 1000000000"
proof -
  show "frac_000 s = Some (ns, r) \<Longrightarrow> 0 \<le> ns \<and> ns < 1000000000"
    using parseNanoseconds_bounds [of s 4] by (auto simp: frac_000_def split: if_splits)
  show "frac_999 s = Some (ns, r) \<Longrightarrow> 0 \<le> ns \<and> ns < 1000000000"
    using parseNanoseconds_bounds [of s] by (auto simp: frac_999_def Let_def split: if_splits)
qed

section \<open>The range of a date\<close>

lemma sum_take_Suc: "i < length xs \<Longrightarrow> sum_list (take (Suc i) xs) = sum_list (take i xs) + (xs ! i :: int)"
  by (simp add: take_Suc_conv_app_nth)

lemma sum_take_le: "\<forall>x\<in>set xs. 0 \<le> x \<Longrightarrow> sum_list (take i xs) \<le> (sum_list xs :: int)"
  by (metis append_take_drop_id in_set_dropD le_add_same_cancel1 sum_list.append sum_list_nonneg)

lemma day_of_date_bounds:
  assumes "1 \<le> mo" "mo \<le> 12" "1 \<le> d" "d \<le> daysIn mo y"
  shows "days_before_year y \<le> day_of_date y mo d" "day_of_date y mo d < days_before_year (y + 1)"
proof -
  define i where "i = nat (mo - 1)"
  have i: "i < length (month_lengths y)" "daysIn mo y = month_lengths y ! i"
    using assms(1,2) by (auto simp: i_def month_lengths_def daysIn_def)
  have nonneg: "\<forall>x\<in>set (month_lengths y). 0 \<le> x" by (auto simp: month_lengths_def)
  have "0 \<le> sum_list (take i (month_lengths y))"
    using nonneg by (intro sum_list_nonneg) (auto dest: in_set_takeD)
  then show "days_before_year y \<le> day_of_date y mo d"
    using assms(3) by (simp add: day_of_date_def i_def)
  have "sum_list (take i (month_lengths y)) + d \<le> sum_list (take (Suc i) (month_lengths y))"
    using assms(4) i by (simp add: sum_take_Suc)
  also have "\<dots> \<le> days_before_year (y + 1) - days_before_year y"
    using sum_take_le [OF nonneg] by (simp add: days_before_year_Suc sum_month_lengths)
  finally show "day_of_date y mo d < days_before_year (y + 1)"
    by (simp add: day_of_date_def i_def)
qed

lemma parse_layout_bounds:
  assumes "parse_layout a b frac s = Some t" "\<And>s ns r. frac s = Some (ns, r) \<Longrightarrow> 0 \<le> ns \<and> ns < 1000000000"
  shows "- 366 * ns_per_day \<le> t \<and> t < year_10000"
proof -
  have "\<exists>y s1 mo d h mi se ns s2. t = day_of_date y mo d * ns_per_day + (3600 * h + 60 * mi + se) * 1000000000 + ns
      \<and> getyear s = Some (y, s1) \<and> frac s2 = Some (ns, []) \<and> \<not> (mo \<le> 0 \<or> 12 < mo) \<and> \<not> (d < 1 \<or> d > daysIn mo y)
      \<and> \<not> (h < 0 \<or> 24 \<le> h) \<and> \<not> (mi < 0 \<or> 60 \<le> mi) \<and> \<not> (se < 0 \<or> 60 \<le> se)"
    using assms(1) unfolding parse_layout_def
    by (clarsimp simp del: skip.simps simp: bind_eq_Some_conv split: if_splits) (intro exI conjI, rule refl, assumption+)
  then obtain y s1 mo d h mi se ns s2 where p: "getyear s = Some (y, s1)" "1 \<le> mo" "mo \<le> 12" "1 \<le> d" "d \<le> daysIn mo y"
    "0 \<le> h" "h < 24" "0 \<le> mi" "mi < 60" "0 \<le> se" "se < 60" "frac s2 = Some (ns, [])"
    "t = day_of_date y mo d * ns_per_day + (3600 * h + 60 * mi + se) * 1000000000 + ns"
    unfolding de_Morgan_disj not_less not_le by (metis int_one_le_iff_zero_less)
  note y = getyear_bounds [OF p(1)] and ns = assms(2) [OF p(12)]
  note day = day_of_date_bounds [OF p(2-5)]
  have lo: "days_before_year 0 \<le> day_of_date y mo d" using day(1) days_before_year_mono [of 0 y] y by linarith
  have hi: "day_of_date y mo d + 1 \<le> days_before_year 10000" using day(2) days_before_year_mono [of "y + 1" 10000] y by linarith
  have clock: "0 \<le> (3600 * h + 60 * mi + se) * 1000000000 + ns" "(3600 * h + 60 * mi + se) * 1000000000 + ns < ns_per_day"
    using p(6-11) ns by (simp_all add: ns_per_day_def)
  have "days_before_year 0 * ns_per_day \<le> day_of_date y mo d * ns_per_day"
    using lo by (intro mult_right_mono) (simp_all add: ns_per_day_def)
  moreover have "days_before_year 0 = - 366" by code_simp
  moreover have "(day_of_date y mo d + 1) * ns_per_day \<le> year_10000"
    unfolding year_10000_def using hi by (intro mult_right_mono) (simp_all add: ns_per_day_def)
  ultimately show ?thesis using clock p(13) by (simp add: algebra_simps)
qed

lemma parse_bounds:
  assumes "VersionTimeFromString s = Inr v"
  shows "- 366 * ns_per_day \<le> Time v" "Time v < year_10000"
  using assms parse_layout_bounds [of _ _ frac_000 s "Time v", OF _ frac_bounds(1)]
    parse_layout_bounds [of _ _ frac_999 s "Time v", OF _ frac_bounds(2)]
  by (auto simp: VersionTimeFromString_def split: option.splits)

section \<open>Years that cannot be read back\<close>

lemma dec_nonempty [simp]: "dec n \<noteq> []"
  by (subst dec.simps) simp

lemma length_dec: "10000 \<le> n \<Longrightarrow> 4 < length (dec n)"
  by (simp add: dec_step)

lemma days_before_year_less: "days_before_year 10000 \<le> d \<Longrightarrow> 10000 \<le> year_of_day d"
  using year_of_day_bounds(2) [of d] days_before_year_mono [of "year_of_day d + 1" 10000] by linarith

lemma set_dec_digits: "c \<in> set (dec n) \<Longrightarrow> is_digit c"
  by (induction n rule: dec.induct) (subst (asm) (2) dec.simps, auto split: if_splits)

lemma VersionTime_String_year:
  assumes "date_of_day (Time v div ns_per_day) = (y, mo, d)"
  shows "\<exists>r. VersionTime_String v = append_int y 4 @ CHR ''-'' # r"
  using assms by (simp add: VersionTime_String_def Let_def)

lemma VersionTime_String_late_digit:
  assumes "year_10000 \<le> Time v"
  shows "4 < length (VersionTime_String v)" "is_digit (VersionTime_String v ! 4)"
proof -
  obtain y mo d where date: "date_of_day (Time v div ns_per_day) = (y, mo, d)" by (metis prod_cases3)
  have "days_before_year 10000 \<le> Time v div ns_per_day"
    using assms zdiv_mono1 [of "days_before_year 10000 * ns_per_day" "Time v" ns_per_day]
    unfolding year_10000_def by (simp add: ns_per_day_def)
  then have "10000 \<le> y" using days_before_year_less date_of_day_correct(7) [OF date] by simp
  then have "4 < length (dec (nat y))" by (intro length_dec) simp
  with \<open>10000 \<le> y\<close> have len: "4 < length (append_int y 4)" "\<forall>c\<in>set (append_int y 4). is_digit c"
    by (auto simp: append_int_def Let_def dest: set_dec_digits)
  obtain r where r: "VersionTime_String v = append_int y 4 @ CHR ''-'' # r" using VersionTime_String_year [OF date] by blast
  show "4 < length (VersionTime_String v)" "is_digit (VersionTime_String v ! 4)"
    using len by (simp_all add: r nth_append)
qed

lemma parse_layout_late:
  assumes "4 < length s" "is_digit (s ! 4)"
  shows "parse_layout a b frac s = None"
proof -
  have d: "drop 4 s = s ! 4 # drop 5 s" using assms(1) Cons_nth_drop_Suc [of 4 s] by simp
  have "s ! 4 \<noteq> CHR ''-''" using assms(2) by (auto simp: is_digit_def)
  then have "skip CHR ''-'' (drop 4 s) = None" by (simp add: d)
  then show ?thesis
    by (cases "atoi (take 4 s)") (simp_all add: parse_layout_def getyear_def del: skip.simps)
qed

lemma late_not_read:
  assumes "year_10000 \<le> Time v"
  shows "\<exists>e. VersionTimeFromString (VersionTime_String v) = Inl e"
  by (simp add: VersionTimeFromString_def parse_layout_late [OF VersionTime_String_late_digit [OF assms]])

lemma VersionTime_String_late:
  assumes "year_10000 \<le> Time v" "0 \<le> Time w" "Time w < year_10000"
  shows "VersionTime_String v \<noteq> VersionTime_String w"
  using late_not_read [OF assms(1)] parse_formatted [OF assms(2,3)] by auto

section \<open>The range as a property\<close>

text \<open>C31: \<open>VersionTimeFromString\<close> returns only times of the years 0 to 9999; a time it returns that is not before
  year 1 is printed as a text that reads back as the same millisecond. A time from year 10000 on is printed with
  five digits, and no text of such a time can be read back.\<close>

theorem version_time_parse_bounds:
  "(VersionTimeFromString s = Inr v \<longrightarrow> - 366 * ns_per_day \<le> Time v \<and> Time v < year_10000
      \<and> (0 \<le> Time v \<longrightarrow> VersionTimeFromString (VersionTime_String v) = Inr (ms_trunc v)))
   \<and> (year_10000 \<le> Time v \<longrightarrow> (\<exists>e. VersionTimeFromString (VersionTime_String v) = Inl e))"
  using parse_bounds [of s v] parse_formatted [of v] late_not_read [of v] by blast

theorem version_time_parse_bounds_witness:
  "\<exists>v. VersionTimeFromString ''9999-12-31_23-59-59.999'' = Inr v \<and> Time v < year_10000
     \<and> VersionTimeFromString (VersionTime_String v) = Inr (ms_trunc v)
     \<and> (\<exists>e. VersionTimeFromString (VersionTime_String (VersionTime (Time v + millisecond))) = Inl e)"
proof -
  have v: "VersionTimeFromString ''9999-12-31_23-59-59.999'' = Inr (VersionTime (year_10000 - millisecond))" by code_simp
  have "0 \<le> year_10000 - millisecond" by code_simp
  with version_time_parse_bounds [of "''9999-12-31_23-59-59.999''" "VersionTime (year_10000 - millisecond)"]
    version_time_parse_bounds [of "[]" "VersionTime year_10000"] v
  show ?thesis by (intro exI [of _ "VersionTime (year_10000 - millisecond)"]) simp
qed

end
