(* ===== verification/LocalVersions.thy ===== *)
theory LocalVersions
  imports LocalCalls VersionBounds MetadataStore
begin

text \<open>
  The versions a tree of the file-system connection holds, the invariant of its metadata
  files, and what the reading operations return of them.
\<close>

section \<open>The committed versions of a tree\<close>

definition stored_info :: "'f local_conn \<Rightarrow> tree \<Rightarrow> uuid \<Rightarrow> version_time \<Rightarrow> version_info option" where
  "stored_info c t d v =
     (case t (versionInfoFile c d v) of
        Some (File b) \<Rightarrow> (case Unmarshal_VersionInfo (lcodec c) b of Inr info \<Rightarrow> Some info | Inl _ \<Rightarrow> None)
      | _ \<Rightarrow> None)"

definition readable_time :: "version_time \<Rightarrow> bool" where
  "readable_time v \<longleftrightarrow> 0 < Time v \<and> Time v < year_10000 \<and> ms_trunc v = v"

text \<open>A version is committed when it has a directory and metadata that can be read.\<close>

definition local_view :: "'f local_conn \<Rightarrow> tree \<Rightarrow> meta_view" where
  "local_view c t d v =
     (if readable_time v \<and> t (versionDirName c d v) = Some Dir then stored_info c t d v else None)"

definition dir_files :: "tree \<Rightarrow> fpath \<Rightarrow> string \<Rightarrow> bytes option" where
  "dir_files t dir n = (case t (dir @ [n]) of Some (File b) \<Rightarrow> Some b | _ \<Rightarrow> None)"

abbreviation local_files :: "'f local_conn \<Rightarrow> tree \<Rightarrow> uuid \<Rightarrow> version_time \<Rightarrow> string \<Rightarrow> bytes option" where
  "local_files c t d v \<equiv> dir_files t (versionDirName c d v)"

text \<open>Every metadata file that can be read holds the version its name says, and names plain files.\<close>

definition infos_ok :: "'f local_conn \<Rightarrow> tree \<Rightarrow> bool" where
  "infos_ok c t \<longleftrightarrow>
     (\<forall>d v info. stored_info c t d v = Some info \<longrightarrow>
        VersionTimeFromString (VersionTime_String v) = Inr (Version info) \<and> (\<forall>n\<in>fst ` set (Files info). plain_name n))"

definition local_inv :: "'f local_conn \<Rightarrow> ('f \<Rightarrow> tree) \<Rightarrow> ('f \<Rightarrow> bool) \<Rightarrow> ('f \<Rightarrow> bool) \<Rightarrow> 'f \<Rightarrow> bool" where
  "local_inv c tree finv calm s \<longleftrightarrow> local_spec c tree finv calm \<and> finv s \<and> infos_ok c (tree s)"

lemma local_invD:
  assumes "local_inv c tree finv calm s"
  shows "local_spec c tree finv calm" "finv s" "infos_ok c (tree s)"
  using assms by (simp_all add: local_inv_def)

lemma readable_timeD: "readable_time v \<Longrightarrow> VersionTimeFromString (VersionTime_String v) = Inr v"
  using parse_formatted [of v] by (simp add: readable_time_def)

lemma readable_trunc: "0 < Time v \<Longrightarrow> Time v < year_10000 \<Longrightarrow> truncate_ms (Time v) \<noteq> 0 \<Longrightarrow> readable_time (ms_trunc v)"
  using truncate_ms_le [of "Time v"] zmod_le_nonneg_dividend [of "Time v" millisecond]
  by (auto simp: readable_time_def truncate_ms_def)

section \<open>Distinct paths\<close>

lemma local_ids: "local_spec c tree finv calm \<Longrightarrow> prefix (id_path (lib c) d) (id_path (lib c) d') \<longleftrightarrow> d = d'"
  by (rule names_specD(6) [OF local_specD(1)])

lemma document_eq [simp]:
  assumes "local_spec c tree finv calm"
  shows "documentDir c d = documentDir c d' \<longleftrightarrow> d = d'"
  using local_ids [OF assms, of d d'] by (auto simp: local_paths(1) [OF assms])

lemma document_sub_eq:
  assumes "local_spec c tree finv calm"
  shows "documentDir c d @ [n] = documentDir c d' @ [n'] \<longleftrightarrow> d = d' \<and> n = n'"
  using local_ids [OF assms, of d d'] by (auto simp: local_paths(1) [OF assms])

lemma document_not_company:
  assumes "local_spec c tree finv calm"
  shows "\<not> prefix (documentDir c d @ p) (companyDocumentDir c k d')" "\<not> prefix (companyDocumentDir c k d') (documentDir c d @ p)"
proof -
  have par: "parallel (documentsDir c) (companiesDir c)" "parallel (companiesDir c) (documentsDir c)"
    using local_specD(6) [OF assms] by (auto simp: local_layout_def parallel_def)
  show "\<not> prefix (documentDir c d @ p) (companyDocumentDir c k d')" "\<not> prefix (companyDocumentDir c k d') (documentDir c d @ p)"
    using parallel_appendD [OF par(1)] parallel_appendD [OF par(2)] by (simp_all add: local_paths [OF assms])
qed

lemma not_in_company_area:
  assumes "local_spec c tree finv calm"
  shows "versionDirName c d v \<notin> company_area c d'" "versionInfoFile c d v \<notin> company_area c d'"
    "versionDirName c d v @ [n] \<notin> company_area c d'"
proof -
  note np = document_not_company [OF assms]
  have "documentDir c d @ [x] \<notin> company_area c d'" if "x \<noteq> ''company.id''" for x
    using that np(1) [of d "[x]"] np(2) [where d = d and p = "[x]"]
    by (simp add: company_area_def local_paths(4) [OF assms] document_sub_eq [OF assms] del: prefix_snoc)
  then show "versionDirName c d v \<notin> company_area c d'" "versionInfoFile c d v \<notin> company_area c d'"
    by (simp_all add: local_paths(2,3) [OF assms])
  have "versionDirName c d v @ [n] \<noteq> companyIDFile c d'"
  proof
    assume "versionDirName c d v @ [n] = companyIDFile c d'"
    then have "documentDir c d @ [VersionTime_String v] = documentDir c d'" by (simp add: local_paths(2,4) [OF assms])
    then have "prefix (documentDir c d) (documentDir c d')" by (metis prefixI)
    then have "d = d'" using local_ids [OF assms] by (simp add: local_paths(1) [OF assms])
    with \<open>documentDir c d @ [VersionTime_String v] = documentDir c d'\<close> show False by simp
  qed
  then show "versionDirName c d v @ [n] \<notin> company_area c d'"
    using np(1) [of d "VersionTime_String v # [n]"] np(2) [where d = d and p = "VersionTime_String v # [n]"]
    by (simp add: company_area_def local_paths(2) [OF assms])
qed

lemma not_in_version_area:
  assumes "local_spec c tree finv calm" "d \<noteq> d' \<or> VersionTime_String v \<noteq> VersionTime_String w"
  shows "versionDirName c d v \<notin> version_area c d' w" "versionInfoFile c d v \<notin> version_area c d' w"
    "versionDirName c d v @ [n] \<notin> version_area c d' w"
proof -
  note p = local_paths(1-3) [OF assms(1)] and idp = local_ids [OF assms(1)]
  have no: "\<not> prefix (documentDir c d' @ [x]) (documentDir c d @ y # q)" if "d \<noteq> d' \<or> x \<noteq> y" for x y q
  proof (cases "d = d'")
    case False
    have "\<not> prefix (documentDir c d') (documentDir c d @ y # q)"
    proof
      assume "prefix (documentDir c d') (documentDir c d @ y # q)"
      then have "prefix (id_path (lib c) d') (id_path (lib c) d @ y # q)" by (simp add: p)
      then have "prefix (id_path (lib c) d') (id_path (lib c) d) \<or> prefix (id_path (lib c) d) (id_path (lib c) d')"
        by (metis prefix_same_cases prefixI)
      then show False using idp False by auto
    qed
    then show ?thesis by (metis append_prefixD)
  qed (use that in simp)
  have v: "\<not> prefix (versionDirName c d' w) (documentDir c d @ VersionTime_String v # q)" for q
    unfolding p(2) by (rule no) (use assms(2) in auto)
  have "\<not> prefix (versionDirName c d' w) (versionInfoFile c d v)" unfolding p(2,3) by (rule no) simp
  moreover have "versionInfoFile c d v \<noteq> versionInfoFile c d' w" "versionDirName c d v \<noteq> versionInfoFile c d' w"
    using assms(2) by (auto simp: p(2,3) document_eq [OF assms(1)])
  ultimately show "versionDirName c d v \<notin> version_area c d' w" "versionInfoFile c d v \<notin> version_area c d' w"
    using v [of "[]"] by (auto simp: version_area_def version_files_area_def p(2))
  have "versionDirName c d v @ [n] \<noteq> versionInfoFile c d' w"
  proof
    assume "versionDirName c d v @ [n] = versionInfoFile c d' w"
    then have e: "documentDir c d @ [VersionTime_String v] = documentDir c d'" by (simp add: p(2,3))
    then have "prefix (documentDir c d) (documentDir c d')" by (metis prefixI)
    then have "d = d'" using idp by (simp add: p(1))
    with e show False by simp
  qed
  then show "versionDirName c d v @ [n] \<notin> version_area c d' w"
    using v [of "[n]"] by (simp add: version_area_def version_files_area_def p(2))
qed

lemma info_not_in_files_area:
  assumes "local_spec c tree finv calm"
  shows "versionInfoFile c d v \<notin> version_files_area c d' w" "companyIDFile c d \<notin> version_files_area c d' w"
proof -
  note p = local_paths(1-4) [OF assms] and idp = local_ids [OF assms]
  have no: "\<not> prefix (documentDir c d' @ [VersionTime_String w]) (documentDir c d @ [y])" if "y \<noteq> VersionTime_String w" for y
  proof
    assume "prefix (documentDir c d' @ [VersionTime_String w]) (documentDir c d @ [y])"
    then have a: "prefix (documentDir c d' @ [VersionTime_String w]) (documentDir c d) \<or> documentDir c d' @ [VersionTime_String w] = documentDir c d @ [y]"
      by (auto simp: prefix_snoc)
    then show False
    proof
      assume "prefix (documentDir c d' @ [VersionTime_String w]) (documentDir c d)"
      then have "prefix (documentDir c d') (documentDir c d)" by (metis append_prefixD)
      then have "d' = d" using idp by (simp add: p(1))
      then show False using \<open>prefix (documentDir c d' @ [VersionTime_String w]) (documentDir c d)\<close> by simp
    next
      assume "documentDir c d' @ [VersionTime_String w] = documentDir c d @ [y]"
      then show False using that by (simp add: document_sub_eq [OF assms])
    qed
  qed
  show "versionInfoFile c d v \<notin> version_files_area c d' w" "companyIDFile c d \<notin> version_files_area c d' w"
    unfolding version_files_area_def p(2-4) mem_Collect_eq by (rule no, simp)+
qed

section \<open>What an operation on other paths leaves\<close>

lemma view_unaffected:
  assumes "\<And>q. q \<in> {versionDirName c d v, versionInfoFile c d v} \<Longrightarrow> t' q = t q"
  shows "local_view c t' d v = local_view c t d v"
  using assms by (simp add: local_view_def stored_info_def)

lemma stored_info_cong: "t' (versionInfoFile c d v) = t (versionInfoFile c d v) \<Longrightarrow> stored_info c t' d v = stored_info c t d v"
  by (simp add: stored_info_def)

text \<open>\<open>infos_ok\<close> only depends on the metadata files.\<close>

lemma infos_ok_cong:
  "(\<And>d v. t' (versionInfoFile c d v) = t (versionInfoFile c d v) \<or> stored_info c t' d v = None) \<Longrightarrow> infos_ok c t \<Longrightarrow> infos_ok c t'"
  unfolding infos_ok_def by (metis not_None_eq option.distinct(1) stored_info_cong)

section \<open>What is read of a version\<close>

definition file_info_of :: "ext \<Rightarrow> string \<Rightarrow> bytes \<Rightarrow> file_info" where
  "file_info_of x n b = \<lparr>Name = n, Size = int (length b), Hash = DropboxContentHash x b\<rparr>"

lemma Unmarshal_stored: "tree s (versionInfoFile c d v) = Some (File b) \<Longrightarrow> Unmarshal_VersionInfo (lcodec c) b = Inr info
    \<Longrightarrow> stored_info c (tree s) d v = Some info"
  by (simp add: stored_info_def)

text \<open>The metadata of a version, with the company filled in where it is missing.\<close>

definition with_company :: "version_info \<Rightarrow> version_info \<Rightarrow> bool" where
  "with_company info0 info \<longleftrightarrow>
     (if CompanyID info0 = 0 then \<exists>k. info = info0\<lparr>CompanyID := k\<rparr> else info = info0)"

lemma with_companyD:
  assumes "with_company info0 info"
  shows "Version info = Version info0" "Files info = Files info0" "PrevVersion info = PrevVersion info0" "DocID info = DocID info0"
  using assms by (auto simp: with_company_def split: if_splits)

lemma documentVersionInfo_Ret:
  assumes spec: "local_spec c tree finv calm" and finv: "finv s" and run: "documentVersionInfo c cx d v s = (Ret info, s')"
  shows "s' = s" "Time v \<noteq> 0" "tree s (documentDir c d) = Some Dir"
    "\<exists>info0. stored_info c (tree s) d v = Some info0 \<and> with_company info0 info"
proof -
  show "s' = s" using documentVersionInfo_state [of c cx d v s] run by simp
  show "Time v \<noteq> 0" "tree s (documentDir c d) = Some Dir"
    using run by (auto simp: documentVersionInfo_def Validate_None_iff info_specD(3) [OF local_specD(2) [OF spec] finv]
        split: option.splits if_splits)
  obtain info0 where read: "readAndFixVersionInfoJSON c cx (versionInfoFile c d v) True s = (Ret info0, s)"
    and info: "with_company info0 info"
    using run by (auto simp: documentVersionInfo_def with_company_def readAndFix_eq
        split: option.splits if_splits outcome.splits sum.splits)
  then obtain b where "fs_ReadAll (lib c) cx (versionInfoFile c d v) s = Inr b" "Unmarshal_VersionInfo (lcodec c) b = Inr info0"
    by (auto simp: readAndFix_eq split: sum.splits)
  with read_specD(4) [OF local_specD(3) [OF spec] finv] have "stored_info c (tree s) d v = Some info0"
    by (simp add: Unmarshal_stored)
  with info show "\<exists>info0. stored_info c (tree s) d v = Some info0 \<and> with_company info0 info" by blast
qed

text \<open>A version with a directory and a metadata file is listed, so is a committed one.\<close>

lemma not_hidden: "\<not> prefix ''.'' (VersionTime_String v)" if "readable_time v"
proof
  assume "prefix ''.'' (VersionTime_String v)"
  then obtain r where "VersionTime_String v = CHR ''.'' # r" by (auto simp: prefix_def)
  with readable_timeD [OF that] have "VersionTimeFromString (CHR ''.'' # r) = Inr v" by simp
  then show False
    by (simp add: VersionTimeFromString_def parse_layout_def getyear_def is_digit_def split: option.splits)
qed

lemma entry_enumerated:
  assumes spec: "local_spec c tree finv calm" and finv: "finv s"
    and run: "enumVersionDirs c (documentDir c d) s = Inr dirs"
    and v: "readable_time v" "tree s (versionDirName c d v) = Some Dir" "tree s (versionInfoFile c d v) \<noteq> None"
  shows "(v, versionDirName c d v) \<in> set dirs"
proof -
  note p = local_paths(2,3) [OF spec] and i = info_specD [OF local_specD(2) [OF spec] finv]
  obtain names where n: "fs_ListDir (lib c) background (documentDir c d) s = Inr names"
    using run by (auto simp: enumVersionDirs_def split: sum.splits)
  have j: "fs_Join (lib c) (documentDir c d) (VersionTime_String v) = versionDirName c d v"
    "fs_Join (lib c) (documentDir c d) (VersionTime_String v @ ''.json'') = versionInfoFile c d v"
    by (simp_all add: versionDirName_def versionInfoFile_def)
  have "VersionTime_String v \<in> set names"
    using read_specD(3) [OF local_specD(3) [OF spec] finv n] v(2) by (simp add: p(1))
  moreover have "version_entry c (documentDir c d) s (VersionTime_String v) = Some (v, versionDirName c d v)"
    using v readable_timeD [OF v(1)] not_hidden [OF v(1)] i j
    by (auto simp: version_entry_Some p(1))
  ultimately show ?thesis using n by (auto simp: enumVersionDirs_mem [OF run])
qed

lemma view_listed:
  assumes "local_spec c tree finv calm" "finv s"
    and "enumVersionDirs c (documentDir c d) s = Inr dirs" "local_view c (tree s) d v = Some info"
  shows "(v, versionDirName c d v) \<in> set dirs"
  by (rule entry_enumerated [OF assms(1-3)])
    (use assms(4) in \<open>auto simp: local_view_def stored_info_def split: if_splits option.splits\<close>)

lemma latest_dir_max:
  "latest_dir v0 d0 dirs = (v, dir) \<Longrightarrow> Time v0 \<le> Time v \<and> (\<forall>(w, _)\<in>set dirs. Time w \<le> Time v)"
proof (induction v0 d0 dirs rule: latest_dir.induct)
  case (2 v0 d0 w dir' dirs)
  then show ?case by (cases "Time w > Time v0") fastforce+
qed simp

lemma latest_Ret:
  assumes spec: "local_spec c tree finv calm" and finv: "finv s" and named: "infos_ok c (tree s)"
    and run: "latestDocumentVersionInfo c cx d s = (Ret (info, dir), s')"
  obtains t n info0 where "s' = s" "readable_time (ms_trunc t) \<or> truncate_ms (Time t) = 0" "0 < Time t" "Time t < year_10000"
    "Version info = ms_trunc t" "stored_info c (tree s) d t = Some info0" "with_company info0 info"
    "plain_name n" "dir = documentDir c d @ [n]" "tree s dir = Some Dir" "tree s (documentDir c d) = Some Dir"
    "\<And>v. local_view c (tree s) d v \<noteq> None \<Longrightarrow> v \<le> Version info" "\<forall>n\<in>fst ` set (Files info). plain_name n"
proof -
  note i = info_specD [OF local_specD(2) [OF spec] finv]
  from latestDocumentVersionInfo_dir [OF spec run] obtain dirs t where l: "enumVersionDirs c (documentDir c d) s = Inr dirs"
    "latest_dir (VersionTime 0) [] dirs = (t, dir)" "Time t \<noteq> 0" "(t, dir) \<in> set dirs"
    "documentVersionInfo c cx d t s = (Ret info, s)" "s' = s" by blast
  obtain names n where n: "fs_ListDir (lib c) background (documentDir c d) s = Inr names" "n \<in> set names"
    "version_entry c (documentDir c d) s n = Some (t, dir)"
    using l(4) by (auto simp: enumVersionDirs_mem [OF l(1)])
  have entry: "tree s (documentDir c d @ [n]) \<noteq> None"
    using read_specD(3) [OF local_specD(3) [OF spec] finv n(1)] n(2) by simp
  then have plain: "plain_name n" using i(1) by (metis not_None_eq tree_okD(3))
  have dir: "dir = documentDir c d @ [n]" "tree s dir = Some Dir" "VersionTimeFromString n = Inr t"
    using n(3) i(5) names_specD(1) [OF local_specD(1) [OF spec] plain] by (auto simp: version_entry_Some)
  have t: "0 < Time t" "Time t < year_10000"
    using latest_dir_max [OF l(2)] l(3) parse_bounds(2) [OF dir(3)] by auto
  obtain info0 where info0: "stored_info c (tree s) d t = Some info0" "with_company info0 info"
    using documentVersionInfo_Ret(4) [OF spec finv l(5)] by blast
  then have ok: "VersionTimeFromString (VersionTime_String t) = Inr (Version info)" "\<forall>n\<in>fst ` set (Files info). plain_name n"
    using named by (auto simp: infos_ok_def with_companyD)
  then have ver: "Version info = ms_trunc t" using parse_formatted [of t] t by simp
  have max: "v \<le> Version info" if "local_view c (tree s) d v \<noteq> None" for v
  proof -
    from that obtain i0 where "local_view c (tree s) d v = Some i0" by blast
    from view_listed [OF spec finv l(1) this] latest_dir_max [OF l(2)] have "Time v \<le> Time t" by auto
    moreover have "ms_trunc v = v" using that by (auto simp: local_view_def readable_time_def split: if_splits)
    then have "truncate_ms (Time v) = Time v" by (cases v) simp
    moreover have "truncate_ms (Time v) \<le> truncate_ms (Time t)"
      using \<open>Time v \<le> Time t\<close> by (simp add: truncate_ms_def minus_mod_eq_mult_div zdiv_mono1 millisecond_def)
    ultimately show ?thesis by (simp add: ver less_eq_version_time_def)
  qed
  show thesis
    by (rule that [OF l(6) _ t ver info0 plain dir(1,2) documentVersionInfo_Ret(3) [OF spec finv l(5)] max ok(2)])
      (use readable_trunc [OF t] in auto)
qed

end
