(* ===== verification/LocalContent.thy ===== *)
theory LocalContent
  imports LocalVersions
begin

text \<open>
  What the operations write into a version directory and its metadata file.
\<close>

section \<open>Files copied into a directory\<close>

text \<open>The last writer of a name counts.\<close>

definition put_readers :: "file_reader list \<Rightarrow> (string \<Rightarrow> bytes option) \<Rightarrow> string \<Rightarrow> bytes option" where
  "put_readers files m = fold (\<lambda>f m. m(FileName f := (case FileData f of Inr b \<Rightarrow> Some b | Inl _ \<Rightarrow> None))) files m"

lemma put_readers_simps [simp]:
  "put_readers [] m = m"
  "put_readers (f # files) m = put_readers files (m(FileName f := (case FileData f of Inr b \<Rightarrow> Some b | Inl _ \<Rightarrow> None)))"
  by (simp_all add: put_readers_def)

text \<open>Only files directly below a directory change, and no directory becomes a file.\<close>

definition only_files_in :: "fpath \<Rightarrow> tree \<Rightarrow> tree \<Rightarrow> bool" where
  "only_files_in dir t t' \<longleftrightarrow>
     (\<forall>q. (\<nexists>n. q = dir @ [n]) \<longrightarrow> t' q = t q) \<and> (\<forall>n. t' (dir @ [n]) = Some Dir \<longleftrightarrow> t (dir @ [n]) = Some Dir)"

lemma only_files_in_refl: "only_files_in dir t t"
  by (simp add: only_files_in_def)

lemma only_files_in_trans: "only_files_in dir t t' \<Longrightarrow> only_files_in dir t' t'' \<Longrightarrow> only_files_in dir t t''"
  by (simp add: only_files_in_def)

lemma only_files_in_put: "put_file (dir @ [n]) b t t' \<Longrightarrow> only_files_in dir t t'"
  by (auto simp: only_files_in_def put_file_def)

lemma only_files_in_dir: "only_files_in dir t t' \<Longrightarrow> t' dir = t dir"
  unfolding only_files_in_def by (metis append_self_conv not_Cons_self2)

lemma only_files_in_other: "only_files_in dir t t' \<Longrightarrow> dir' \<noteq> dir \<Longrightarrow> dir_files t' dir' = dir_files t dir'"
  by (auto simp: only_files_in_def dir_files_def fun_eq_iff)

lemma dir_files_put: "put_file (dir @ [n]) b t t' \<Longrightarrow> dir_files t' dir = (dir_files t dir)(n \<mapsto> b)"
  by (auto simp: dir_files_def put_file_def fun_eq_iff)

lemma copy_file_None:
  assumes w: "write_spec fs tree finv calm" and finv: "finv s" and dir: "tree s dir = Some Dir" and f: "local_name (FileName f)"
    and run: "fs_CopyFile fs cx f dir s = (None, s')"
  obtains b where "finv s'" "calm s \<Longrightarrow> calm s'" "FileData f = Inr b" "only_files_in dir (tree s) (tree s')"
    "dir_files (tree s') dir = (dir_files (tree s) dir)(FileName f \<mapsto> b)"
proof -
  note e = effectD [OF write_specD(2) [OF w f] run finv]
  from e(3) dir obtain b where "FileData f = Inr b" "put_file (dir @ [FileName f]) b (tree s) (tree s')"
    by (auto simp: copy_good_def)
  with e(1,2) show thesis by (intro that) (auto simp: only_files_in_put dir_files_put)
qed

lemma copy_files_None:
  assumes w: "write_spec fs tree finv calm"
    and "finv s" "tree s dir = Some Dir" "\<forall>f\<in>set files. local_name (FileName f)" "copy_files fs cx files dir s = (None, s')"
  shows "finv s'" "calm s \<Longrightarrow> calm s'" "only_files_in dir (tree s) (tree s')" "\<forall>f\<in>set files. readable f"
    "dir_files (tree s') dir = put_readers files (dir_files (tree s) dir)"
proof -
  have "finv s' \<and> (calm s \<longrightarrow> calm s') \<and> only_files_in dir (tree s) (tree s') \<and> (\<forall>f\<in>set files. readable f)
    \<and> dir_files (tree s') dir = put_readers files (dir_files (tree s) dir)"
    using assms(2-5)
  proof (induction files arbitrary: s)
    case (Cons f files)
    then obtain s1 where s1: "fs_CopyFile fs cx f dir s = (None, s1)" "copy_files fs cx files dir s1 = (None, s')"
      by (auto split: prod.splits option.splits)
    obtain b where b: "finv s1" "calm s \<Longrightarrow> calm s1" "FileData f = Inr b" "only_files_in dir (tree s) (tree s1)"
      "dir_files (tree s1) dir = (dir_files (tree s) dir)(FileName f \<mapsto> b)"
      using copy_file_None [OF w Cons.prems(1,2) _ s1(1)] Cons.prems(3) by auto
    have "tree s1 dir = Some Dir" using only_files_in_dir [OF b(4)] Cons.prems(2) by simp
    from Cons.IH [OF b(1) this _ s1(2)] Cons.prems(3) b show ?case
      by (auto simp: readable_def fun_upd_def intro: only_files_in_trans)
  qed (simp add: only_files_in_refl)
  then show "finv s'" "calm s \<Longrightarrow> calm s'" "only_files_in dir (tree s) (tree s')" "\<forall>f\<in>set files. readable f"
    "dir_files (tree s') dir = put_readers files (dir_files (tree s) dir)" by simp_all
qed

lemma copy_prev_files_None:
  assumes spec: "local_spec c tree finv calm"
    and "finv s" "tree s dir = Some Dir" "\<forall>n\<in>set names. plain_name n" "prevDir \<noteq> dir"
    "copy_prev_files (lib c) cx prevDir names dir s = (None, s')"
  shows "finv s'" "calm s \<Longrightarrow> calm s'" "only_files_in dir (tree s) (tree s')"
    "dir_files (tree s') dir = (\<lambda>n. if n \<in> set names then dir_files (tree s) prevDir n else dir_files (tree s) dir n)"
    "\<forall>n\<in>set names. dir_files (tree s) prevDir n \<noteq> None"
proof -
  have "finv s' \<and> (calm s \<longrightarrow> calm s') \<and> only_files_in dir (tree s) (tree s')
    \<and> dir_files (tree s') dir = (\<lambda>n. if n \<in> set names then dir_files (tree s) prevDir n else dir_files (tree s) dir n)
    \<and> (\<forall>n\<in>set names. dir_files (tree s) prevDir n \<noteq> None)"
    using assms(2-6)
  proof (induction names arbitrary: s)
    case (Cons n names)
    define f where "f = local_reader (lib c) cx (fs_Join (lib c) prevDir n) s"
    have plain: "plain_name n" using Cons.prems(3) by simp
    then have path: "fs_Join (lib c) prevDir n = prevDir @ [n]" by (rule names_specD(1) [OF local_specD(1) [OF spec]])
    have name: "FileName f = n" by (simp add: f_def path local_reader_def file_name_def)
    from Cons.prems obtain s1 where s1: "fs_CopyFile (lib c) cx f dir s = (None, s1)"
      "copy_prev_files (lib c) cx prevDir names dir s1 = (None, s')"
      by (auto simp: f_def split: prod.splits option.splits)
    have fname: "local_name (FileName f)" using plain name by simp
    obtain b where b: "finv s1" "calm s \<Longrightarrow> calm s1" "FileData f = Inr b" "only_files_in dir (tree s) (tree s1)"
      "dir_files (tree s1) dir = (dir_files (tree s) dir)(FileName f \<mapsto> b)"
      by (rule copy_file_None [OF local_specD(4) [OF spec] Cons.prems(1,2) fname s1(1)]) blast
    have dir: "tree s1 dir = Some Dir" using only_files_in_dir [OF b(4)] Cons.prems(2) by simp
    have prev: "dir_files (tree s1) prevDir = dir_files (tree s) prevDir"
      by (rule only_files_in_other [OF b(4) Cons.prems(4)])
    have data: "dir_files (tree s) prevDir n = Some b"
      using b(3) read_specD(4) [OF local_specD(3) [OF spec] Cons.prems(1), of cx "prevDir @ [n]" b]
      by (simp add: f_def path local_reader_def dir_files_def)
    from Cons.IH [OF b(1) dir _ Cons.prems(4) s1(2)] Cons.prems(3)
    have IH: "finv s'" "calm s1 \<longrightarrow> calm s'" "only_files_in dir (tree s1) (tree s')"
      "dir_files (tree s') dir = (\<lambda>n. if n \<in> set names then dir_files (tree s1) prevDir n else dir_files (tree s1) dir n)"
      "\<forall>n\<in>set names. dir_files (tree s1) prevDir n \<noteq> None" by simp_all
    show ?case
      using IH(1,2) b(2) only_files_in_trans [OF b(4) IH(3)] IH(5) data
      by (auto simp: IH(4) prev b(5) name fun_eq_iff)
  qed (simp add: only_files_in_refl)
  then show "finv s'" "calm s \<Longrightarrow> calm s'" "only_files_in dir (tree s) (tree s')"
    "dir_files (tree s') dir = (\<lambda>n. if n \<in> set names then dir_files (tree s) prevDir n else dir_files (tree s) dir n)"
    "\<forall>n\<in>set names. dir_files (tree s) prevDir n \<noteq> None" by simp_all
qed

section \<open>The metadata of a directory\<close>

lemma read_infos_Inr:
  assumes "read_infos x files infos = Inr infos'" "distinct (map FileName files)" "wf_gomap infos"
  shows "wf_gomap infos'" "map_of infos' n = (case find (\<lambda>f. FileName f = n) files of
      Some f \<Rightarrow> (case FileData f of Inr b \<Rightarrow> Some (file_info_of x n b) | Inl _ \<Rightarrow> None) | None \<Rightarrow> map_of infos n)"
proof -
  have "wf_gomap infos' \<and> map_of infos' n = (case find (\<lambda>f. FileName f = n) files of
      Some f \<Rightarrow> (case FileData f of Inr b \<Rightarrow> Some (file_info_of x n b) | Inl _ \<Rightarrow> None) | None \<Rightarrow> map_of infos n)"
    using assms
  proof (induction files arbitrary: infos)
    case (Cons f files)
    then obtain b where b: "FileData f = Inr b"
      "read_infos x files (AList.update (FileName f) (file_info_of x (FileName f) b) infos) = Inr infos'"
      by (auto simp: ReadFileInfo_def file_info_of_def split: sum.splits)
    have "FileName f \<notin> FileName ` set files" using Cons.prems(2) by simp
    then have "find (\<lambda>g. FileName g = FileName f) files = None" by (simp add: find_reader_None)
    with Cons.IH [OF b(2)] Cons.prems b(1) show ?case by (auto split: option.split)
  qed simp
  then show "wf_gomap infos'" "map_of infos' n = (case find (\<lambda>f. FileName f = n) files of
      Some f \<Rightarrow> (case FileData f of Inr b \<Rightarrow> Some (file_info_of x n b) | Inl _ \<Rightarrow> None) | None \<Rightarrow> map_of infos n)"
    by blast+
qed

lemma read_infos_readable: "read_infos x files infos = Inr infos' \<Longrightarrow> \<forall>f\<in>set files. \<exists>b. FileData f = Inr b"
  by (induction files arbitrary: infos) (auto simp: ReadFileInfo_def split: sum.splits)

lemma dir_infos_Inr:
  assumes spec: "local_spec c tree finv calm" and finv: "finv s" and run: "dir_infos c cx dir s = Inr infos"
  shows "wf_gomap infos" "map_of infos n = map_option (file_info_of (lext c) n) (dir_files (tree s) dir n)"
    "\<forall>n\<in>fst ` set infos. plain_name n"
proof -
  obtain names where names: "fs_ListDir (lib c) background dir s = Inr names"
    and read: "read_infos (lext c) (map (\<lambda>n. local_reader (lib c) cx (fs_Join (lib c) dir n) s) names) [] = Inr infos"
    using run by (auto simp: dir_infos_def split: sum.splits)
  note l = read_specD(1-3) [OF local_specD(3) [OF spec] finv names]
  have plain: "plain_name n" if "tree s (dir @ [n]) \<noteq> None" for n
    using that info_specD(1) [OF local_specD(2) [OF spec] finv] by (metis not_None_eq tree_okD(3))
  have join: "fs_Join (lib c) dir n = dir @ [n]" if "n \<in> set names" for n
    using that l(3) plain names_specD(1) [OF local_specD(1) [OF spec]] by simp
  define r where "r n = local_reader (lib c) cx (dir @ [n]) s" for n
  have readers: "map (\<lambda>n. local_reader (lib c) cx (fs_Join (lib c) dir n) s) names = map r names"
    using join by (simp add: r_def)
  have name: "FileName (r n) = n" for n by (simp add: r_def local_reader_def file_name_def)
  have "distinct (map FileName (map r names))" using l(2) by (simp add: comp_def name)
  note rd = read_infos_Inr [OF read [unfolded readers] this]
  show "wf_gomap infos" by (rule rd(1)) simp
  have find: "find (\<lambda>f. FileName f = n) (map r names) = (if n \<in> set names then Some (r n) else None)"
    by (induction names) (auto simp: name)
  have m: "map_of infos n = (if n \<in> set names
      then (case FileData (r n) of Inr b \<Rightarrow> Some (file_info_of (lext c) n b) | Inl _ \<Rightarrow> None) else None)"
    using rd(2) [of n] by (simp add: find)
  have data: "\<exists>b. FileData (r n) = Inr b \<and> dir_files (tree s) dir n = Some b" if "n \<in> set names" for n
  proof -
    have "r n \<in> set (map r names)" using that by simp
    with read_infos_readable [OF read [unfolded readers]] obtain b where b: "FileData (r n) = Inr b" by blast
    then have "tree s (dir @ [n]) = Some (File b)"
      using read_specD(4) [OF local_specD(3) [OF spec] finv] by (simp add: r_def local_reader_def)
    with b show ?thesis by (simp add: dir_files_def)
  qed
  show "map_of infos n = map_option (file_info_of (lext c) n) (dir_files (tree s) dir n)"
  proof (cases "n \<in> set names")
    case True
    with m data [OF True] show ?thesis by auto
  next
    case False
    then have "tree s (dir @ [n]) = None" using l(3) by auto
    with m False show ?thesis by (simp add: dir_files_def)
  qed
  have "plain_name k" if "map_of infos k \<noteq> None" for k
  proof -
    have "k \<in> set names"
    proof (rule ccontr)
      assume "k \<notin> set names"
      then have "find (\<lambda>f. FileName f = k) (map r names) = None" by (auto simp: find_None_iff name)
      with rd(2) [of k] that show False by simp
    qed
    then show ?thesis using l(3) plain by simp
  qed
  then show "\<forall>n\<in>fst ` set infos. plain_name n" by (metis map_of_eq_None_keys)
qed

end
