(* ===== verification/LocalInfos.thy ===== *)
theory LocalInfos
  imports LocalContent
begin

text \<open>
  The metadata file of a version: what \<open>newVersionInfo\<close> puts into it, what is read back
  of it, and that no operation makes the metadata files inconsistent.
\<close>

section \<open>The metadata of a new version\<close>

lemma newVersionInfo_Inr:
  assumes spec: "local_spec c tree finv calm" and finv: "finv s"
    and run: "newVersionInfo c cx k d v prev user reason dir prevDir s = Inr info"
  shows "CompanyID info = k" "DocID info = d" "Version info = v" "PrevVersion info = prev" "CommitUserID info = user"
    "CommitReason info = reason" "wf_gomap (Files info)" "\<forall>n\<in>fst ` set (Files info). plain_name n"
    "map_of (Files info) n = map_option (file_info_of (lext c) n) (dir_files (tree s) dir n)"
proof -
  obtain files where files: "dir_infos c cx dir s = Inr files" "Files info = files"
    and fields: "CompanyID info = k" "DocID info = d" "Version info = v" "PrevVersion info = prev" "CommitUserID info = user"
    "CommitReason info = reason"
    using run by (auto simp: newVersionInfo_def Let_def split: if_splits sum.splits option.splits)
  show "CompanyID info = k" "DocID info = d" "Version info = v" "PrevVersion info = prev" "CommitUserID info = user"
    "CommitReason info = reason" by (fact fields)+
  show "wf_gomap (Files info)" "\<forall>n\<in>fst ` set (Files info). plain_name n"
    "map_of (Files info) n = map_option (file_info_of (lext c) n) (dir_files (tree s) dir n)"
    using dir_infos_Inr [OF spec finv files(1)] files(2) by simp_all
qed

text \<open>The change lists against the directory of the previous version.\<close>

definition change_lists :: "ext \<Rightarrow> (string \<Rightarrow> bytes option) \<Rightarrow> (string \<Rightarrow> bytes option) \<Rightarrow> version_info \<Rightarrow> bool" where
  "change_lists x prev new info \<longleftrightarrow>
     set (AddedFiles info) = {n. new n \<noteq> None \<and> prev n = None}
     \<and> set (RemovedFiles info) = {n. new n = None \<and> prev n \<noteq> None}
     \<and> set (ModifiedFiles info) =
         {n. \<exists>b b'. new n = Some b \<and> prev n = Some b' \<and> DropboxContentHash x b \<noteq> DropboxContentHash x b'}
     \<and> distinct (AddedFiles info) \<and> distinct (RemovedFiles info) \<and> distinct (ModifiedFiles info)"

lemma keys_conv: "fst ` set m = {n. map_of m n \<noteq> None}"
  using map_of_eq_None_keys [of m] by auto

lemma change_lists_newVersionInfo:
  assumes spec: "local_spec c tree finv calm" and finv: "finv s"
    and run: "newVersionInfo c cx k d v prev user reason dir prevDir s = Inr info"
  shows "change_lists (lext c) (case prevDir of None \<Rightarrow> Map.empty | Some p \<Rightarrow> dir_files (tree s) p) (dir_files (tree s) dir) info"
proof -
  obtain files where files: "dir_infos c cx dir s = Inr files" "Files info = files"
    using run by (auto simp: newVersionInfo_def Let_def split: if_splits sum.splits option.splits)
  note f = dir_infos_Inr(1,2) [OF spec finv files(1)]
  show ?thesis
  proof (cases prevDir)
    case None
    then have "AddedFiles info = sort (map fst files)" "RemovedFiles info = []" "ModifiedFiles info = []"
      using run files(1) by (auto simp: newVersionInfo_def Let_def split: if_splits)
    with f None show ?thesis by (simp add: change_lists_def keys_conv)
  next
    case (Some p)
    obtain prevs where prevs: "dir_infos c cx p s = Inr prevs"
      "AddedFiles info = sort (filter (\<lambda>n. map_of prevs n = None) (map fst files))"
      "RemovedFiles info = sort (filter (\<lambda>n. map_of files n = None) (map fst prevs))"
      "ModifiedFiles info = sort (map fst (filter (\<lambda>(n, fi).
         case map_of prevs n of None \<Rightarrow> False | Some pf \<Rightarrow> Hash fi \<noteq> Hash pf) files))"
      using run files(1) Some by (auto simp: newVersionInfo_def Let_def split: if_splits sum.splits)
    note p = dir_infos_Inr(1,2) [OF spec finv prevs(1)]
    have "set (ModifiedFiles info) = {n. \<exists>fi pf. map_of files n = Some fi \<and> map_of prevs n = Some pf \<and> Hash fi \<noteq> Hash pf}"
      by (force simp: prevs(4) wf_gomap_mem_iff [OF f(1)] split: option.splits)
    also have "\<dots> = {n. \<exists>b b'. dir_files (tree s) dir n = Some b \<and> dir_files (tree s) p n = Some b'
        \<and> DropboxContentHash (lext c) b \<noteq> DropboxContentHash (lext c) b'}"
      by (force simp: f(2) p(2) file_info_of_def)
    finally have m: "set (ModifiedFiles info) = \<dots>" .
    have "distinct (ModifiedFiles info)"
      unfolding prevs(4) using f(1) by (simp add: distinct_map_filter)
    moreover have "set (AddedFiles info) = {n. dir_files (tree s) dir n \<noteq> None \<and> dir_files (tree s) p n = None}"
      using f(2) p(2) by (auto simp: prevs(2) keys_conv)
    moreover have "set (RemovedFiles info) = {n. dir_files (tree s) dir n = None \<and> dir_files (tree s) p n \<noteq> None}"
      using f(2) p(2) by (auto simp: prevs(3) keys_conv)
    ultimately show ?thesis
      using m f(1) p(1) Some by (simp add: change_lists_def prevs(2,3) distinct_filter)
  qed
qed

section \<open>Reading back what was written\<close>

text \<open>The metadata as it is read back: times without their fraction of a millisecond.\<close>

definition stored_as :: "version_info \<Rightarrow> version_info \<Rightarrow> bool" where
  "stored_as info info' \<longleftrightarrow>
     info' = (as_stored info)\<lparr>Files := Files info'\<rparr> \<and> map_of (Files info') = map_of (Files info) \<and> wf_gomap (Files info')"

lemma stored_asD:
  assumes "stored_as info info'"
  shows "CompanyID info' = CompanyID info" "DocID info' = DocID info" "Version info' = ms_trunc (Version info)"
    "PrevVersion info' = map_option ms_trunc (PrevVersion info)" "CommitUserID info' = CommitUserID info"
    "CommitReason info' = CommitReason info" "map_of (Files info') = map_of (Files info)" "wf_gomap (Files info')"
    "AddedFiles info' = AddedFiles info" "RemovedFiles info' = RemovedFiles info" "ModifiedFiles info' = ModifiedFiles info"
proof -
  have eq: "info' = (as_stored info)\<lparr>Files := Files info'\<rparr>" and "map_of (Files info') = map_of (Files info)" "wf_gomap (Files info')"
    using assms by (simp_all add: stored_as_def)
  then show "map_of (Files info') = map_of (Files info)" "wf_gomap (Files info')" by blast+
  show "CompanyID info' = CompanyID info" "DocID info' = DocID info" "Version info' = ms_trunc (Version info)"
    "PrevVersion info' = map_option ms_trunc (PrevVersion info)" "CommitUserID info' = CommitUserID info"
    "CommitReason info' = CommitReason info"
    "AddedFiles info' = AddedFiles info" "RemovedFiles info' = RemovedFiles info" "ModifiedFiles info' = ModifiedFiles info"
    by (subst eq, simp add: as_stored_def)+
qed

definition printable :: "version_time \<Rightarrow> bool" where
  "printable v \<longleftrightarrow> 0 \<le> Time v \<and> Time v < year_10000"

lemma printableD: "printable v \<Longrightarrow> VersionTimeFromString (VersionTime_String v) = Inr (ms_trunc v)"
  using parse_formatted [of v] by (simp add: printable_def)

lemma VersionTime_String_nonempty [simp]: "VersionTime_String v \<noteq> []"
  using VersionTime_String_chars(2) [of v] by auto

lemma unmarshal_written:
  assumes j: "codec_spec j x" and b: "json_VersionInfo j info = Inr b"
  shows "printable (Version info) \<Longrightarrow> \<forall>p. PrevVersion info = Some p \<longrightarrow> printable p
      \<Longrightarrow> \<exists>info'. Unmarshal_VersionInfo j b = Inr info' \<and> stored_as info info'"
    "Unmarshal_VersionInfo j b = Inr info' \<Longrightarrow> VersionTimeFromString (VersionTime_String (Version info)) = Inr (Version info')
       \<and> map_of (Files info') = map_of (Files info)"
    "n < length b \<Longrightarrow> \<exists>e. Unmarshal_VersionInfo j (take n b) = Inl e"
proof -
  have al: "case VersionTimeFromString (VersionTime_String (Version info)) of
      Inl e \<Rightarrow> \<exists>e. json_Alias j b = Inl e
    | Inr v \<Rightarrow> \<exists>files. json_Alias j b =
        Inr (info\<lparr>Version := v, PrevVersion := None, Files := files\<rparr>, map_option VersionTime_String (PrevVersion info))
        \<and> map_of files = map_of (Files info) \<and> wf_gomap files"
    and cut: "n < length b \<Longrightarrow> \<exists>e. json_Alias j (take n b) = Inl e" for n
    using j b unfolding codec_spec_def by blast+
  show "\<exists>info'. Unmarshal_VersionInfo j b = Inr info' \<and> stored_as info info'"
    if pr: "printable (Version info)" "\<forall>p. PrevVersion info = Some p \<longrightarrow> printable p"
  proof -
    obtain files where "json_Alias j b = Inr (info\<lparr>Version := ms_trunc (Version info), PrevVersion := None, Files := files\<rparr>,
        map_option VersionTime_String (PrevVersion info))" "map_of files = map_of (Files info)" "wf_gomap files"
      using al printableD [OF pr(1)] by auto
    then show ?thesis
      using pr(2) printableD
      by (cases "PrevVersion info") (simp_all add: Unmarshal_VersionInfo_def VersionInfo_UnmarshalJSON_def stored_as_def as_stored_def)
  qed
  show "VersionTimeFromString (VersionTime_String (Version info)) = Inr (Version info') \<and> map_of (Files info') = map_of (Files info)"
    if "Unmarshal_VersionInfo j b = Inr info'"
    using al that
    by (auto simp: Unmarshal_VersionInfo_def VersionInfo_UnmarshalJSON_def split: sum.splits option.splits if_splits)
  show "\<exists>e. Unmarshal_VersionInfo j (take n b) = Inl e" if "n < length b"
    using cut [OF that] by (auto simp: Unmarshal_VersionInfo_def)
qed

lemma WriteJSON_None:
  assumes spec: "local_spec c tree finv calm" and finv: "finv s"
    and run: "WriteJSON (lib c) (lcodec c) cx p info s = (None, s')"
  obtains b where "json_VersionInfo (lcodec c) info = Inr b" "finv s'" "calm s \<Longrightarrow> calm s'" "tree s' = (tree s)(p \<mapsto> File b)"
proof -
  obtain b where b: "json_VersionInfo (lcodec c) info = Inr b" "fs_WriteAll (lib c) cx p b s = (None, s')"
    using run by (auto simp: WriteJSON_def split: sum.splits)
  note e = effectD [OF write_specD(1) [OF local_specD(4) [OF spec]] b(2) finv]
  show thesis by (rule that [OF b(1) e(1,2)]) (use e(3) in \<open>simp_all add: put_file_def\<close>)
qed

lemma written_info:
  assumes spec: "local_spec c tree finv calm" and finv: "finv s"
    and run: "WriteJSON (lib c) (lcodec c) cx (versionInfoFile c d v) info s = (None, s')"
    and "printable (Version info)" "\<forall>p. PrevVersion info = Some p \<longrightarrow> printable p"
  obtains info' where "stored_info c (tree s') d v = Some info'" "stored_as info info'"
proof -
  obtain b where b: "json_VersionInfo (lcodec c) info = Inr b" "tree s' = (tree s)(versionInfoFile c d v \<mapsto> File b)"
    using WriteJSON_None [OF spec finv run] by blast
  from unmarshal_written(1) [OF local_specD(7) [OF spec] b(1) assms(4,5)] b(2) show thesis
    by (auto simp: stored_info_def intro: that)
qed

section \<open>No operation makes the metadata files inconsistent\<close>

lemma calls_mono:
  assumes "\<And>s s'. S s s' \<Longrightarrow> S' s s'"
  shows "company_calls c d S \<Longrightarrow> company_calls c d S'" "files_calls c d v S \<Longrightarrow> files_calls c d v S'"
  using assms unfolding company_calls_def files_calls_def steps_def by blast+

definition keeps_infos :: "'f local_conn \<Rightarrow> ('f \<Rightarrow> tree) \<Rightarrow> ('f \<Rightarrow> bool) \<Rightarrow> ('f \<Rightarrow> bool) \<Rightarrow> 'f \<Rightarrow> 'f \<Rightarrow> bool" where
  "keeps_infos c tree finv calm s s' \<longleftrightarrow> (local_inv c tree finv calm s \<longrightarrow> local_inv c tree finv calm s')"

lemma step_rel_keeps_infos: "step_rel (keeps_infos c tree finv calm)"
  unfolding step_rel_def keeps_infos_def by (auto intro!: reflpI transpI)

lemma keeps_infosI:
  assumes "local_inv c tree finv calm s \<Longrightarrow> finv s'"
    and "local_inv c tree finv calm s \<Longrightarrow> \<forall>d v. tree s' (versionInfoFile c d v) = tree s (versionInfoFile c d v)
          \<or> stored_info c (tree s') d v = None"
  shows "keeps_infos c tree finv calm s s'"
  unfolding keeps_infos_def
proof
  assume "local_inv c tree finv calm s"
  with assms infos_ok_cong [of "tree s'" c "tree s"] show "local_inv c tree finv calm s'"
    by (simp add: local_inv_def)
qed

lemma keeps_infos_stays:
  "stays tree finv calm T s s' \<Longrightarrow> \<forall>d v. versionInfoFile c d v \<notin> T \<Longrightarrow> keeps_infos c tree finv calm s s'"
  by (rule keeps_infosI) (auto dest: staysD local_invD)

lemma keeps_infos_effect:
  assumes "effect tree finv calm m Good Bad"
    and "\<And>t t' q. Good t t' \<Longrightarrow> t' q = t q \<or> t' q = None \<or> t' q = Some Dir"
    and "\<And>t t' q. Bad t t' \<Longrightarrow> t' q = t q \<or> t' q = None \<or> t' q = Some Dir"
  shows "keeps_infos c tree finv calm s (snd (m s))"
proof (rule keeps_infosI)
  obtain e s' where run: "m s = (e, s')" by fastforce
  assume "local_inv c tree finv calm s"
  then have finv: "finv s" by (rule local_invD)
  note eff = effectD [OF assms(1) run finv]
  show "finv (snd (m s))" using eff(1) run by simp
  have "tree s' q = tree s q \<or> tree s' q = None \<or> tree s' q = Some Dir" for q
    using eff(3,4) assms(2,3) by (cases e) blast+
  then show "\<forall>d v. tree (snd (m s)) (versionInfoFile c d v) = tree s (versionInfoFile c d v)
      \<or> stored_info c (tree (snd (m s))) d v = None"
    using run by (auto simp: stored_info_def split: option.split node.split) (metis option.simps(3) node.distinct(1) option.inject)+
qed

lemma part_written_info:
  assumes spec: "local_spec c tree finv calm" and b: "json_VersionInfo (lcodec c) info = Inr b" "Version info = v"
    and plain: "\<forall>n\<in>fst ` set (Files info). plain_name n"
    and read: "Unmarshal_VersionInfo (lcodec c) (take n b) = Inr info'"
  shows "VersionTimeFromString (VersionTime_String v) = Inr (Version info') \<and> (\<forall>n\<in>fst ` set (Files info'). plain_name n)"
proof -
  note u = unmarshal_written [OF local_specD(7) [OF spec] b(1)]
  have "take n b = b" using u(3) [of n] read by (cases "n < length b") auto
  with read have "Unmarshal_VersionInfo (lcodec c) b = Inr info'" by simp
  from u(2) [OF this] b(2) plain show ?thesis by (simp add: keys_conv)
qed

lemma keeps_infos_WriteJSON:
  assumes new: "newVersionInfo c cx k d v prev user reason dir prevDir s = Inr info"
  shows "keeps_infos c tree finv calm s (snd (WriteJSON (lib c) (lcodec c) background (versionInfoFile c d v) info s))"
  unfolding keeps_infos_def
proof
  let ?p = "versionInfoFile c d v"
  assume inv: "local_inv c tree finv calm s"
  note spec = local_invD(1) [OF inv] and finv = local_invD(2) [OF inv] and ok = local_invD(3) [OF inv]
  show "local_inv c tree finv calm (snd (WriteJSON (lib c) (lcodec c) background ?p info s))"
  proof (cases "json_VersionInfo (lcodec c) info")
    case (Inl e)
    then show ?thesis using inv by (simp add: WriteJSON_def)
  next
    case (Inr b)
    obtain e s' where run: "fs_WriteAll (lib c) background ?p b s = (e, s')" by fastforce
    note eff = effectD [OF write_specD(1) [OF local_specD(4) [OF spec]] run finv]
    have t: "tree s' = tree s \<or> (\<exists>n. tree s' = (tree s)(?p \<mapsto> File (take n b)))"
    proof (cases e)
      case None
      then have "tree s' = (tree s)(?p \<mapsto> File (take (length b) b))" using eff(3) by (simp add: put_file_def)
      then show ?thesis by blast
    qed (use eff(4) in \<open>auto simp: part_file_def\<close>)
    note fields = newVersionInfo_Inr(3,8) [OF spec finv new]
    have "VersionTimeFromString (VersionTime_String v') = Inr (Version info') \<and> (\<forall>n\<in>fst ` set (Files info'). plain_name n)"
      if st: "stored_info c (tree s') d' v' = Some info'" for d' v' info'
    proof (cases "\<exists>n. versionInfoFile c d' v' = ?p \<and> tree s' = (tree s)(?p \<mapsto> File (take n b))")
      case True
      then obtain n where n: "versionInfoFile c d' v' = ?p" "tree s' = (tree s)(?p \<mapsto> File (take n b))" by blast
      then have "VersionTime_String v' = VersionTime_String v" by (simp add: local_paths(3) [OF spec] document_sub_eq [OF spec])
      moreover have "Unmarshal_VersionInfo (lcodec c) (take n b) = Inr info'"
        using st n by (simp add: stored_info_def split: sum.splits)
      ultimately show ?thesis using part_written_info [OF spec Inr fields] by simp
    next
      case False
      then have "tree s' (versionInfoFile c d' v') = tree s (versionInfoFile c d' v')" using t by auto
      then have "stored_info c (tree s) d' v' = Some info'" using st by (simp add: stored_info_def)
      with ok show ?thesis by (simp add: infos_ok_def)
    qed
    then have "infos_ok c (tree s')" unfolding infos_ok_def by blast
    with spec eff(1) have "local_inv c tree finv calm s'" by (simp add: local_inv_def)
    then show ?thesis using run Inr by (simp add: WriteJSON_def)
  qed
qed

lemma keeps_infos_document_calls:
  assumes spec: "local_spec c tree finv calm"
  shows "document_calls c d (keeps_infos c tree finv calm)"
  unfolding document_calls_def
proof (intro conjI allI)
  note w = local_specD(4) [OF spec] and r = local_specD(5) [OF spec]
  have k: "stays tree finv calm T s s' \<Longrightarrow> \<forall>d v. versionInfoFile c d v \<notin> T \<Longrightarrow> keeps_infos c tree finv calm s s'" for T s s'
    by (rule keeps_infos_stays)
  show "company_calls c d (keeps_infos c tree finv calm)"
    by (rule calls_mono(1) [OF _ frame_company_calls [OF spec subset_refl]], erule k) (simp add: not_in_company_area [OF spec])
  show "files_calls c d v (keeps_infos c tree finv calm)" for v
    by (rule calls_mono(2) [OF _ frame_files_calls [OF spec subset_refl]], erule k) (simp add: info_not_in_files_area [OF spec])
  show "info_calls c d v (keeps_infos c tree finv calm)" for v
    unfolding info_calls_def steps_def
  proof (intro allI conjI impI)
    show "keeps_infos c tree finv calm s (snd (fs_Remove (lib c) (versionInfoFile c d v) s))" for s
      by (rule keeps_infos_effect [OF remove_specD(1) [OF r]]) (auto simp: effects)
  qed (rule keeps_infos_WriteJSON)
  have made: "keeps_infos c tree finv calm s (snd (fs_MakeAllDirs (lib c) p s))" for s p
    by (rule keeps_infos_effect [OF write_specD(4) [OF w]]) (auto simp: effects)
  have "keeps_infos c tree finv calm s (snd (uuiddir_RemoveDir (lib c) (documentsDir c) (documentDir c d) s))" for s
    unfolding documentDir_def
    by (rule keeps_infos_effect [OF remove_specD(3) [OF r]]) (auto simp: effects split: if_splits)
  with made show "dir_calls c d (keeps_infos c tree finv calm)" by (simp add: dir_calls_def steps_def)
qed

text \<open>No sequence of calls does.\<close>

lemma exec_all_local_inv:
  assumes inv: "local_inv c tree finv calm s" and loc: "\<forall>call\<in>set calls. local_call call"
  shows "local_inv c tree finv calm (exec_all (localConn c) calls s)"
proof -
  have "steps (keeps_infos c tree finv calm) s (exec_all (localConn c) calls s)"
    by (rule exec_all_steps [OF step_rel_keeps_infos keeps_infos_document_calls [OF local_invD(1) [OF inv]] local_invD(1) [OF inv] loc])
  with inv show ?thesis by (simp add: steps_def keeps_infos_def)
qed

end
