(* ===== verification/LocalAdd.thy ===== *)
theory LocalAdd
  imports LocalInfos
begin

text \<open>
  \<open>AddDocumentVersion\<close> of the file-system connection: a call that returns metadata has
  committed that version and nothing else, a call that fails leaves the committed versions
  as they were.
\<close>

section \<open>One version more\<close>

text \<open>A committed time with the text of another one.\<close>

lemma readable_same_String:
  assumes "readable_time w" "VersionTime_String w = VersionTime_String v" "0 \<le> Time v"
  shows "w = ms_trunc v"
proof -
  have w: "VersionTimeFromString (VersionTime_String v) = Inr w" using readable_timeD [OF assms(1)] assms(2) by simp
  then have "Time v < year_10000" using late_not_read [of v] by (cases "Time v < year_10000") auto
  with printableD [of v] assms(3) w show ?thesis by (simp add: printable_def)
qed

lemma version_paths_ms_trunc [simp]:
  "versionDirName c d (ms_trunc v) = versionDirName c d v" "versionInfoFile c d (ms_trunc v) = versionInfoFile c d v"
  by (simp_all add: versionDirName_def versionInfoFile_def VersionTime_String_ms_trunc)

text \<open>Outside of the paths of one version, nothing that is committed changes.\<close>

definition keeps_versions :: "'f local_conn \<Rightarrow> uuid \<Rightarrow> version_time \<Rightarrow> tree \<Rightarrow> tree \<Rightarrow> bool" where
  "keeps_versions c d v t t' \<longleftrightarrow>
     (\<forall>d' w. d' \<noteq> d \<or> VersionTime_String w \<noteq> VersionTime_String v \<longrightarrow>
        local_view c t' d' w = local_view c t d' w \<and> local_files c t' d' w = local_files c t d' w)"

lemma keeps_versions_stays:
  assumes spec: "local_spec c tree finv calm" and finv: "finv s"
    and st: "stays tree finv calm (company_area c d \<union> version_area c d v) s s'"
  shows "keeps_versions c d v (tree s) (tree s')"
  unfolding keeps_versions_def
proof (intro allI impI conjI)
  fix d' w assume "d' \<noteq> d \<or> VersionTime_String w \<noteq> VersionTime_String v"
  note paths = not_in_version_area [OF spec this] not_in_company_area [OF spec]
  have same: "tree s' q = tree s q" if "q \<notin> company_area c d" "q \<notin> version_area c d v" for q
    using staysD(3) [OF st finv] that by blast
  show "local_view c (tree s') d' w = local_view c (tree s) d' w"
    by (rule view_unaffected) (use same paths in blast)
  show "local_files c (tree s') d' w = local_files c (tree s) d' w"
    using same paths by (simp add: dir_files_def fun_eq_iff)
qed

lemma keeps_versions_put:
  assumes keeps: "keeps_versions c d v t t'" and v: "0 \<le> Time v"
    and at: "local_view c t' d (ms_trunc v) = Some info"
  shows "local_view c t' = put_version (local_view c t) d v info"
proof (intro ext)
  fix d' w
  show "local_view c t' d' w = put_version (local_view c t) d v info d' w"
  proof (cases "d' = d \<and> VersionTime_String w = VersionTime_String v")
    case False
    then have "local_view c t' d' w = local_view c t d' w" using keeps unfolding keeps_versions_def by blast
    moreover have "d' \<noteq> d \<or> w \<noteq> ms_trunc v" using False VersionTime_String_ms_trunc by metis
    ultimately show ?thesis by (auto simp: put_version_def)
  next
    case True
    show ?thesis
    proof (cases "readable_time w")
      case r: True
      with True readable_same_String [OF r _ v] at show ?thesis by (simp add: put_version_def)
    next
      case False
      then have "w \<noteq> ms_trunc v" using at by (auto simp: local_view_def split: if_splits)
      with False show ?thesis by (simp add: put_version_def local_view_def)
    qed
  qed
qed

lemma keeps_versions_same:
  assumes keeps: "keeps_versions c d v t t'" and v: "0 \<le> Time v"
    and none: "local_view c t d (ms_trunc v) = None" and none': "t' (versionDirName c d v) \<noteq> Some Dir"
  shows "local_view c t' = local_view c t"
    "local_view c t d' w \<noteq> None \<Longrightarrow> local_files c t' d' w = local_files c t d' w"
proof -
  have same: "local_view c t' d' w = local_view c t d' w
      \<and> (local_view c t d' w \<noteq> None \<longrightarrow> local_files c t' d' w = local_files c t d' w)" for d' w
  proof (cases "d' = d \<and> VersionTime_String w = VersionTime_String v")
    case False
    then show ?thesis using keeps unfolding keeps_versions_def by blast
  next
    case True
    then have "t' (versionDirName c d w) \<noteq> Some Dir" using none' by (simp add: versionDirName_def)
    moreover have "local_view c t d w = None"
      using True readable_same_String [of w v] v none by (cases "readable_time w") (auto simp: local_view_def)
    ultimately show ?thesis using True by (simp add: local_view_def)
  qed
  then show "local_view c t' = local_view c t" by (auto simp: fun_eq_iff)
  show "local_view c t d' w \<noteq> None \<Longrightarrow> local_files c t' d' w = local_files c t d' w" using same by blast
qed

section \<open>Writing the version\<close>

lemma write_op_Ret [simp]: "write_op f s = (Ret a, s') \<longleftrightarrow> f s = (None, s')"
  by (auto simp: write_op_def split: prod.splits)

lemma local_write_version_Version:
  assumes "local_write_version c cx d userID reason prev prevDir result onNew s = (Ret info, s')"
  shows "Version info = cvr_Version result"
proof -
  obtain k t where "newVersionInfo c cx k d (cvr_Version result) (Some (Version prev)) userID reason
      (versionDirName c d (cvr_Version result)) (Some prevDir) t = Inr info"
    using assms by (auto simp: local_write_version_def Let_def try_op_Ret_iff ret_def fail_def split: if_splits)
  then show ?thesis by (auto simp: newVersionInfo_def Let_def split: if_splits sum.splits)
qed

lemma commit_version_Ret:
  assumes "commit_version c cx d k k' info onNew s = (Ret u, s')"
  shows "onNew info = Ret ()"
proof (rule ccontr)
  assume "onNew info \<noteq> Ret ()"
  then obtain e where e: "recovered (onNew info) = Inl e" by (cases "onNew info") simp_all
  obtain t where t: "(case recovered (onNew info) of
         Inr _ \<Rightarrow> (Ret (), t)
       | Inl e \<Rightarrow>
           if k' \<noteq> k then
             (case setDocumentCompanyID c cx d k t of
                (Ret _, s') \<Rightarrow> (Fail (also_err e None), s')
              | (Fail e', s') \<Rightarrow> (Fail (also_err e (Some e')), s')
              | (Panic msg, s') \<Rightarrow> (Panic msg, s'))
           else (Fail e, t)) = (Ret u, s')"
    using assms unfolding commit_version_def try_op_Ret_iff by blast
  obtain r t' where "setDocumentCompanyID c cx d k t = (r, t')" by fastforce
  with t e show False by (cases r) (auto split: if_splits)
qed

text \<open>
  The files of the version that is written: those of the previous version that are not
  removed, overlaid by the written ones.
\<close>

definition kept_and_written :: "version_info \<Rightarrow> create_version_result \<Rightarrow> (string \<Rightarrow> bytes option) \<Rightarrow> string \<Rightarrow> bytes option" where
  "kept_and_written prev result m =
     put_readers (write_readers result) (m |` (fst ` set (Files prev) - set (RemoveFiles result)))"

lemma put_readers_cong:
  "(\<And>n. n \<notin> FileName ` set files \<Longrightarrow> m n = m' n) \<Longrightarrow> put_readers files m = put_readers files m'"
proof (induction files arbitrary: m m')
  case (Cons f files)
  show ?case unfolding put_readers_simps by (rule Cons.IH) (use Cons.prems in auto)
qed (simp add: fun_eq_iff)

lemma kept_names_written:
  "put_readers (write_readers result) (\<lambda>n. if n \<in> set (kept_names prev result) then m n else None)
     = kept_and_written prev result m"
  unfolding kept_and_written_def
  by (rule put_readers_cong) (force simp: kept_names_def restrict_map_def list_ex_iff)

lemma empty_dir: "tree_ok t \<Longrightarrow> t p \<noteq> Some Dir \<Longrightarrow> dir_files t p = Map.empty"
proof (rule ext)
  fix n assume "tree_ok t" "t p \<noteq> Some Dir"
  then have "t (p @ [n]) = None" by (metis not_None_eq tree_okD(2))
  then show "dir_files t p n = None" by (simp add: dir_files_def)
qed

lemma make_version_dir:
  assumes spec: "local_spec c tree finv calm" and finv: "finv s" and new: "tree s dir = None"
    and run: "fs_MakeDir (lib c) dir s = (None, s')"
  shows "finv s'" "tree s' = (tree s)(dir \<mapsto> Dir)" "dir_files (tree s') dir = Map.empty"
proof -
  note e = effectD [OF write_specD(3) [OF local_specD(4) [OF spec]] run finv]
  show "finv s'" by (rule e(1))
  show t: "tree s' = (tree s)(dir \<mapsto> Dir)" using e(3) by (simp add: put_dir_def)
  have "dir_files (tree s) dir = Map.empty"
    by (rule empty_dir) (use info_specD(1) [OF local_specD(2) [OF spec] finv] new in simp_all)
  then show "dir_files (tree s') dir = Map.empty" by (auto simp: t dir_files_def fun_eq_iff)
qed

lemma local_write_version_Ret:
  assumes spec: "local_spec c tree finv calm" and finv: "finv s"
    and prev: "tree s (documentDir c d @ [n]) = Some Dir" "printable (Version prev)" "\<forall>n\<in>fst ` set (Files prev). plain_name n"
    and names: "\<forall>f\<in>set (write_readers result). local_name (FileName f)"
    and v: "printable (cvr_Version result)"
    and run: "local_write_version c cx d userID reason prev (documentDir c d @ [n]) result onNew s = (Ret info, s')"
  shows "\<exists>info'. stored_info c (tree s') d (cvr_Version result) = Some info' \<and> stored_as info info'"
    "tree s' (versionDirName c d (cvr_Version result)) = Some Dir" "tree s (versionDirName c d (cvr_Version result)) = None"
    "local_files c (tree s') d (cvr_Version result) = kept_and_written prev result (dir_files (tree s) (documentDir c d @ [n]))"
    "CompanyID info = (case NewCompanyID result of None \<Rightarrow> CompanyID prev | Some k \<Rightarrow> k)"
    "DocID info = d" "Version info = cvr_Version result" "PrevVersion info = Some (Version prev)" "CommitUserID info = userID"
    "CommitReason info = reason" "Files info \<noteq> []" "wf_gomap (Files info)"
    "map_of (Files info) m = map_option (file_info_of (lext c) m) (local_files c (tree s') d (cvr_Version result) m)"
    "change_lists (lext c) (dir_files (tree s) (documentDir c d @ [n])) (local_files c (tree s') d (cvr_Version result)) info"
    "\<not> EqualFiles (Some info) (Some prev)" "onNew info = Ret ()"
proof -
  let ?v = "cvr_Version result" and ?p = "documentDir c d @ [n]"
  let ?dir = "versionDirName c d ?v"
  let ?k = "case NewCompanyID result of None \<Rightarrow> CompanyID prev | Some k \<Rightarrow> k"
  note i = info_specD [OF local_specD(2) [OF spec] finv]
  have none: "tree s ?dir = None"
    using run by (auto simp: local_write_version_def Let_def i split: if_splits)
  then show "tree s ?dir = None" .
  obtain s1 s2 s3 s4 where
    s1: "fs_MakeDir (lib c) ?dir s = (None, s1)"
    and s2: "copy_prev_files (lib c) cx ?p (kept_names prev result) ?dir s1 = (None, s2)"
    and s3: "copy_files (lib c) cx (write_readers result) ?dir s2 = (None, s3)"
    and info: "newVersionInfo c cx ?k d ?v (Some (Version prev)) userID reason ?dir (Some ?p) s3 = Inr info"
    and ok: "Files info \<noteq> []" "\<not> EqualFiles (Some info) (Some prev)"
    and s4: "WriteJSON (lib c) (lcodec c) background (versionInfoFile c d ?v) info s3 = (None, s4)"
    and cm: "commit_version c cx d (CompanyID prev) ?k info onNew s4 = (Ret (), s')"
    using run none
    by (auto simp: local_write_version_def Let_def i try_op_Ret_iff ret_def fail_def write_op_Ret split: if_splits)
  note m1 = make_version_dir [OF spec finv none s1]
  have diff: "?p \<noteq> ?dir" using none prev(1) by auto
  have dir1: "tree s1 ?dir = Some Dir" by (simp add: m1(2))
  have p1: "dir_files (tree s1) ?p = dir_files (tree s) ?p"
    by (auto simp: m1(2) dir_files_def fun_eq_iff local_paths(2) [OF spec])
  have kept: "\<forall>n\<in>set (kept_names prev result). plain_name n" using prev(3) by (auto simp: kept_names_def)
  note c2 = copy_prev_files_None [OF spec m1(1) dir1 kept diff s2]
  have dir2: "tree s2 ?dir = Some Dir" using only_files_in_dir [OF c2(3)] dir1 by simp
  have p2: "dir_files (tree s2) ?p = dir_files (tree s) ?p" using only_files_in_other [OF c2(3) diff] p1 by simp
  note c3 = copy_files_None [OF local_specD(4) [OF spec] c2(1) dir2 names s3]
  have dir3: "tree s3 ?dir = Some Dir" using only_files_in_dir [OF c3(3)] dir2 by simp
  have p3: "dir_files (tree s3) ?p = dir_files (tree s) ?p" using only_files_in_other [OF c3(3) diff] p2 by simp
  have files3: "dir_files (tree s3) ?dir = kept_and_written prev result (dir_files (tree s) ?p)"
    by (simp add: c3(5) c2(4) m1(3) p1 kept_names_written [symmetric] cong: if_cong)
  note f = newVersionInfo_Inr [OF spec c3(1) info]
  have pr: "printable (Version info)" "\<forall>p. PrevVersion info = Some p \<longrightarrow> printable p"
    using v prev(2) f(3,4) by auto
  obtain b where s4': "finv s4" "tree s4 = (tree s3)(versionInfoFile c d ?v \<mapsto> File b)"
    using WriteJSON_None [OF spec c3(1) s4] by blast
  obtain info' where st: "stored_info c (tree s4) d ?v = Some info'" "stored_as info info'"
    by (rule written_info [OF spec c3(1) s4 pr])
  have "stays tree finv calm (company_area c d) s4 s'"
    using steps_commit_version [OF step_rel_stays frame_company_calls [OF spec subset_refl],
        where s = s4 and cx = cx and d = d and k = "CompanyID prev" and k' = ?k and info = info and onNew = onNew]
    by (simp only: steps_stays cm snd_conv)
  note same = staysD(3) [OF this s4'(1)]
  show "\<exists>info'. stored_info c (tree s') d ?v = Some info' \<and> stored_as info info'"
    using st same [OF not_in_company_area(2) [OF spec]] by (auto simp: stored_info_def)
  have other: "versionInfoFile c d ?v \<noteq> ?dir" "?dir @ [x] \<noteq> versionInfoFile c d ?v" for x
    by (auto simp: local_paths(2,3) [OF spec])
  show "tree s' ?dir = Some Dir"
    using same [OF not_in_company_area(1) [OF spec]] dir3 other(1) by (simp add: s4'(2))
  have files: "local_files c (tree s') d ?v = dir_files (tree s3) ?dir"
    using same [OF not_in_company_area(3) [OF spec]] other(2) by (simp add: dir_files_def s4'(2) fun_eq_iff)
  then show "local_files c (tree s') d ?v = kept_and_written prev result (dir_files (tree s) ?p)" by (simp add: files3)
  show "map_of (Files info) m = map_option (file_info_of (lext c) m) (local_files c (tree s') d ?v m)"
    by (simp add: files f(9))
  show "change_lists (lext c) (dir_files (tree s) ?p) (local_files c (tree s') d ?v) info"
    using change_lists_newVersionInfo [OF spec c3(1) info] by (simp add: files p3)
  show "CompanyID info = ?k" "DocID info = d" "Version info = ?v" "PrevVersion info = Some (Version prev)"
    "CommitUserID info = userID" "CommitReason info = reason" "wf_gomap (Files info)" by (fact f)+
  show "Files info \<noteq> []" "\<not> EqualFiles (Some info) (Some prev)" by (fact ok)+
  show "onNew info = Ret ()"
    by (rule commit_version_Ret [OF cm])
qed

section \<open>No panic\<close>

text \<open>An outcome that is no panic, by rules that follow the structure of an operation.\<close>

definition quiet :: "'a outcome \<times> 'f \<Rightarrow> bool" where
  "quiet r \<longleftrightarrow> (\<forall>msg. fst r \<noteq> Panic msg)"

named_theorems quiet_rules \<open>operations that never panic\<close>

lemma quiet_results [quiet_rules]:
  "quiet (Ret a, s)" "quiet (Fail e, s)" "quiet (to_outcome q, s)" "quiet (ret a s)" "quiet (fail e s)" "quiet (read_op g s)"
  "quiet (write_op w s)"
  by (cases q) (auto simp: quiet_def ret_def fail_def read_op_def write_op_def split: prod.splits option.splits sum.splits)

lemma quiet_branches [quiet_rules]:
  "(b \<Longrightarrow> quiet m) \<Longrightarrow> (\<not> b \<Longrightarrow> quiet m') \<Longrightarrow> quiet (if b then m else m')"
  "(e = None \<Longrightarrow> quiet m) \<Longrightarrow> (\<And>x. e = Some x \<Longrightarrow> quiet (f x)) \<Longrightarrow> quiet (case e of None \<Rightarrow> m | Some x \<Rightarrow> f x)"
  "(\<And>x. r = Inl x \<Longrightarrow> quiet (g x)) \<Longrightarrow> (\<And>x. r = Inr x \<Longrightarrow> quiet (h x)) \<Longrightarrow> quiet (case r of Inl x \<Rightarrow> g x | Inr x \<Rightarrow> h x)"
  "(\<And>a b. p = (a, b) \<Longrightarrow> quiet (k a b)) \<Longrightarrow> quiet (case p of (a, b) \<Rightarrow> k a b)"
  "quiet (q, t) \<Longrightarrow> (\<And>x. quiet (f1 x)) \<Longrightarrow> (\<And>x. quiet (f2 x))
     \<Longrightarrow> quiet (case q of Ret x \<Rightarrow> f1 x | Fail x \<Rightarrow> f2 x | Panic x \<Rightarrow> f3 x)"
  by (simp_all add: quiet_def split: option.splits sum.splits prod.splits outcome.splits)

lemma quiet_op_branches [quiet_rules]:
  "quiet (m s) \<Longrightarrow> quiet (m' s) \<Longrightarrow> quiet ((if b then m else m') s)"
  "(\<And>a b. p = (a, b) \<Longrightarrow> quiet (k a b s)) \<Longrightarrow> quiet ((case p of (a, b) \<Rightarrow> k a b) s)"
  by (simp_all split: prod.splits)

lemma quiet_try_op [quiet_rules]: "quiet (m s) \<Longrightarrow> (\<And>a t. quiet (k a t)) \<Longrightarrow> quiet (try_op m k s)"
  by (auto simp: quiet_def try_op_def split: prod.splits outcome.splits)

lemma quiet_pair: "quiet r \<Longrightarrow> r = (q, t) \<Longrightarrow> quiet (q, t)"
  by simp

lemma quiet_documentVersionInfo [quiet_rules]: "quiet (documentVersionInfo c cx d v s)"
  unfolding documentVersionInfo_def readAndFix_eq prod.case
  by (intro quiet_rules) (auto simp: quiet_def split: sum.splits)

lemma quiet_latest [quiet_rules]: "quiet (latestDocumentVersionInfo c cx d s)"
  unfolding latestDocumentVersionInfo_def Let_def by (intro quiet_rules)

lemma quiet_documentCompanyID [quiet_rules]: "quiet (documentCompanyID c cx d s)"
  unfolding documentCompanyID_def Let_def by (intro quiet_rules)

lemma quiet_setDocumentCompanyID [quiet_rules]: "quiet (setDocumentCompanyID c cx d k s)"
  unfolding setDocumentCompanyID_def Let_def by (intro quiet_rules)

lemma quiet_commit_version [quiet_rules]: "quiet (commit_version c cx d k k' info onNew s)"
  unfolding commit_version_def by (intro quiet_rules) (rule quiet_pair [OF quiet_setDocumentCompanyID], assumption)

lemma quiet_local_write_version: "quiet (local_write_version c cx d userID reason prev prevDir result onNew s)"
  unfolding local_write_version_def Let_def by (intro quiet_rules)

section \<open>A call that returns\<close>

lemma write_version_stays:
  assumes spec: "local_spec c tree finv calm" and "plain_path prevDir"
    and "\<forall>f\<in>set (write_readers result). local_name (FileName f)"
    and "local_write_version c cx d userID reason prev prevDir result onNew s = (w, t)"
  shows "stays tree finv calm (company_area c d \<union> version_area c d (cvr_Version result)) s t"
proof -
  let ?T = "company_area c d \<union> version_area c d (cvr_Version result)"
  have "company_area c d \<subseteq> ?T" "version_files_area c d (cvr_Version result) \<subseteq> ?T" "versionInfoFile c d (cvr_Version result) \<in> ?T"
    by (auto simp: version_area_def)
  from steps_local_write_version [OF step_rel_stays frame_company_calls [OF spec this(1)] frame_files_calls [OF spec this(2)]
      frame_info_calls [OF spec this(3)] local_specD(1) [OF spec] assms(2,3),
      where s = s and cx = cx and userID = userID and reason = reason and prev = prev and onNew = onNew]
  show ?thesis by (simp only: steps_stays assms(4) snd_conv)
qed

lemma put_version_dir_less:
  "After v w \<Longrightarrow> ms_trunc w = w \<Longrightarrow> 0 \<le> Time w \<Longrightarrow> 0 \<le> Time v \<and> truncate_ms (Time v) \<noteq> 0 \<and> 0 < Time v"
  using truncate_ms_le [of "Time v"]
  by (cases w) (auto simp: After_iff_ms_trunc less_version_time_def)

text \<open>The result of a call that reached the write phase, and what was committed before.\<close>

lemma add_reaches_latest:
  assumes inv: "local_inv c tree finv calm s"
    and reach: "add_reaches c cx d userID createVersion onNewVersion s prev prevDir result onNew"
  obtains n where "plain_name n" "prevDir = documentDir c d @ [n]" "tree s prevDir = Some Dir" "printable (Version prev)"
    "ms_trunc (Version prev) = Version prev" "0 \<le> Time (cvr_Version result)" "0 < Time (cvr_Version result)"
    "truncate_ms (Time (cvr_Version result)) \<noteq> 0"
    "\<forall>n\<in>fst ` set (Files prev). plain_name n" "local_view c (tree s) d (ms_trunc (cvr_Version result)) = None"
    "\<And>w. local_view c (tree s) d w \<noteq> None \<Longrightarrow> w \<le> Version prev"
proof -
  note spec = local_invD(1) [OF inv] and finv = local_invD(2) [OF inv] and ok = local_invD(3) [OF inv]
  have run: "latestDocumentVersionInfo c cx d s = (Ret (prev, prevDir), s)"
    and after: "After (cvr_Version result) (Version prev)" using reach by (simp_all add: add_reaches_def)
  obtain t n info0 where l: "0 < Time t" "Time t < year_10000" "Version prev = ms_trunc t" "plain_name n"
    "prevDir = documentDir c d @ [n]" "tree s prevDir = Some Dir"
    "\<And>v. local_view c (tree s) d v \<noteq> None \<Longrightarrow> v \<le> Version prev" "\<forall>n\<in>fst ` set (Files prev). plain_name n"
    by (rule latest_Ret [OF spec finv ok run]) blast
  have nonneg: "0 \<le> truncate_ms (Time t)" using l(1) zmod_le_nonneg_dividend [of "Time t" millisecond] by (simp add: truncate_ms_def)
  have prev: "ms_trunc (Version prev) = Version prev" "printable (Version prev)"
    using l(1-3) nonneg truncate_ms_le [of "Time t"] by (simp_all add: printable_def)
  note v = put_version_dir_less [OF after prev(1)]
  have "local_view c (tree s) d (ms_trunc (cvr_Version result)) = None"
  proof (rule ccontr)
    assume "local_view c (tree s) d (ms_trunc (cvr_Version result)) \<noteq> None"
    then have "ms_trunc (cvr_Version result) \<le> Version prev" by (rule l(7))
    with after prev(1) show False by (simp add: After_iff_ms_trunc)
  qed
  with l prev v nonneg show thesis by (intro that) (simp_all add: printable_def)
qed

definition version_written ::
  "'f local_conn \<Rightarrow> tree \<Rightarrow> tree \<Rightarrow> uuid \<Rightarrow> uuid \<Rightarrow> string \<Rightarrow> version_info \<Rightarrow> fpath \<Rightarrow> create_version_result \<Rightarrow> version_info \<Rightarrow> bool" where
  "version_written c t t' d userID reason prev prevDir result info \<longleftrightarrow>
     CompanyID info = (case NewCompanyID result of None \<Rightarrow> CompanyID prev | Some k \<Rightarrow> k)
     \<and> DocID info = d \<and> Version info = cvr_Version result \<and> PrevVersion info = Some (Version prev)
     \<and> CommitUserID info = userID \<and> CommitReason info = reason
     \<and> local_files c t' d (cvr_Version result) = kept_and_written prev result (dir_files t prevDir)
     \<and> (\<forall>n. map_of (Files info) n = map_option (file_info_of (lext c) n) (local_files c t' d (cvr_Version result) n))
     \<and> Files info \<noteq> [] \<and> \<not> EqualFiles (Some info) (Some prev)
     \<and> change_lists (lext c) (dir_files t prevDir) (local_files c t' d (cvr_Version result)) info"

lemma add_commits:
  assumes inv: "local_inv c tree finv calm s" and res: "local_results createVersion"
    and run: "local_AddDocumentVersion c cx d userID reason createVersion onNewVersion s = (Ret info, s')"
    and early: "Time (Version info) < year_10000"
  obtains prev prevDir result onNew info' where
    "add_reaches c cx d userID createVersion onNewVersion s prev prevDir result onNew"
    "version_written c (tree s) (tree s') d userID reason prev prevDir result info" "onNew info = Ret ()"
    "local_view c (tree s') = put_version (local_view c (tree s)) d (Version info) info'" "stored_as info info'"
    "local_view c (tree s) d (ms_trunc (Version info)) = None"
    "\<And>d' w. local_view c (tree s) d' w \<noteq> None \<Longrightarrow> local_files c (tree s') d' w = local_files c (tree s) d' w"
    "\<And>w. local_view c (tree s) d w \<noteq> None \<Longrightarrow> w \<le> Version prev"
  using run
proof (cases rule: AddDocumentVersion_cases)
  case 1
  then show thesis by blast
next
  case (2 prev prevDir result onNew w t)
  note spec = local_invD(1) [OF inv] and finv = local_invD(2) [OF inv]
  have w: "w = Ret info" "t = s'" using 2(3-5) by (cases w; fastforce)+
  obtain n where l: "prevDir = documentDir c d @ [n]" "tree s prevDir = Some Dir" "printable (Version prev)"
    "0 \<le> Time (cvr_Version result)" "0 < Time (cvr_Version result)" "truncate_ms (Time (cvr_Version result)) \<noteq> 0"
    "\<forall>n\<in>fst ` set (Files prev). plain_name n" "local_view c (tree s) d (ms_trunc (cvr_Version result)) = None"
    "\<And>w. local_view c (tree s) d w \<noteq> None \<Longrightarrow> w \<le> Version prev"
    by (rule add_reaches_latest [OF inv 2(1)]) blast
  have names: "\<forall>f\<in>set (write_readers result). local_name (FileName f)"
    using res 2(1) by (fastforce simp: add_reaches_def local_results_def)
  have wv: "local_write_version c cx d userID reason prev (documentDir c d @ [n]) result onNew s = (Ret info, s')"
    using 2(2) w l(1) by simp
  have "Version info = cvr_Version result" by (rule local_write_version_Version [OF wv])
  then have pr: "printable (cvr_Version result)" using early l(4) by (simp add: printable_def)
  note wr = local_write_version_Ret [OF spec finv l(2) [unfolded l(1)] l(3,7) names pr wv]
  obtain info' where info': "stored_info c (tree s') d (cvr_Version result) = Some info'" "stored_as info info'"
    using wr(1) by blast
  have "plain_path prevDir" using 2(1) plain_version_dir [OF spec] by (fastforce simp: add_reaches_def)
  from write_version_stays [OF spec this names 2(2)] w(2)
  have st: "stays tree finv calm (company_area c d \<union> version_area c d (cvr_Version result)) s s'" by simp
  note keeps = keeps_versions_stays [OF spec finv st]
  have at: "local_view c (tree s') d (ms_trunc (cvr_Version result)) = Some info'"
    using info'(1) wr(2) readable_trunc [OF l(5) _ l(6)] pr
    by (simp add: local_view_def printable_def stored_info_def)
  show thesis
  proof (rule that [OF 2(1)])
    show "version_written c (tree s) (tree s') d userID reason prev prevDir result info"
      unfolding version_written_def using wr(4-11,13-15) l(1) by simp
    show "onNew info = Ret ()" by (rule wr(16))
    show "local_view c (tree s') = put_version (local_view c (tree s)) d (Version info) info'"
      using keeps_versions_put [OF keeps l(4) at] wr(7) by simp
    show "local_view c (tree s) d (ms_trunc (Version info)) = None" using l(8) wr(7) by simp
    fix d' w assume "local_view c (tree s) d' w \<noteq> None"
    then have "d' \<noteq> d \<or> VersionTime_String w \<noteq> VersionTime_String (cvr_Version result)"
      using l(8) readable_same_String [of w, OF _ _ l(4)] by (auto simp: local_view_def split: if_splits)
    then show "local_files c (tree s') d' w = local_files c (tree s) d' w" using keeps by (simp add: keeps_versions_def)
  qed (use info'(2) l(9) in auto)
qed

section \<open>A call that fails\<close>

text \<open>The deferred clean-up removes the directory of the version, whatever is in it.\<close>

lemma add_rollback_dir:
  assumes spec: "local_spec c tree finv calm" and finv: "finv s" and calm: "calm s"
    and run: "add_rollback c d v e s = (err, s')"
  shows "tree s' (versionDirName c d v) \<noteq> Some Dir"
proof -
  let ?dir = "versionDirName c d v" and ?info = "versionInfoFile c d v"
  note r = local_specD(5) [OF spec]
  obtain err1 s1 where s1: "(if Exists (lib c) ?dir s then
      (let (e', t) = fs_RemoveRecursive (lib c) ?dir s in (also_err e e', t)) else (e, s)) = (err1, s1)" by fastforce
  have step1: "finv s1 \<and> tree s1 ?dir \<noteq> Some Dir"
  proof (cases "Exists (lib c) ?dir s")
    case True
    obtain e' t where t: "fs_RemoveRecursive (lib c) ?dir s = (e', t)" by fastforce
    then have [simp]: "s1 = t" using s1 True by auto
    have root: "?dir \<noteq> []" by (rule version_dirs_not_root [OF spec])
    note eff = effectD [OF remove_specD(2) [OF r root] t finv]
    have "e' = None" if "tree s ?dir = Some Dir"
      using remove_spec_calmD(2) [OF r finv calm that root] t by simp
    moreover have "tree t ?dir = tree s ?dir \<or> tree t ?dir = None" if "e' \<noteq> None"
      using eff(4) [OF that, unfolded part_del_tree_def, rule_format, of ?dir] by (elim disjE conjE) simp_all
    moreover have "tree t ?dir = None" if "e' = None"
      using eff(3) [OF that] unfolding del_tree_def by simp
    moreover have "finv s1" using eff(1) by simp
    ultimately show ?thesis by (metis \<open>s1 = t\<close> option.distinct(1))
  next
    case False
    then show ?thesis using s1 finv info_specD(2) [OF local_specD(2) [OF spec] finv] by auto
  qed
  show ?thesis
  proof (cases "Exists (lib c) ?info s1")
    case True
    obtain e' t where t: "fs_Remove (lib c) ?info s1 = (e', t)" by fastforce
    have "s' = t" using run unfolding add_rollback_def Let_def s1 [unfolded Let_def] prod.case if_P [OF True] t by simp
    moreover note eff = effectD [OF remove_specD(1) [OF r] t conjunct1 [OF step1]]
    have "tree t = (tree s1)(?info := None) \<or> tree t = tree s1"
      using eff(3,4) unfolding del_node_def by (cases e') simp_all
    then have "tree t ?dir = None \<or> tree t ?dir = tree s1 ?dir" by (metis fun_upd_apply)
    then have "tree t ?dir \<noteq> Some Dir" using conjunct2 [OF step1] by (metis option.distinct(1))
    ultimately show ?thesis by simp
  next
    case False
    have "s' = s1" using run unfolding add_rollback_def Let_def s1 [unfolded Let_def] prod.case if_not_P [OF False] by simp
    then show ?thesis using step1 by simp
  qed
qed

lemma failed_add_keeps:
  assumes inv: "local_inv c tree finv calm s" and calm: "calm s" and res: "local_results createVersion"
    and run: "local_AddDocumentVersion c cx d userID reason createVersion onNewVersion s = (r, s')"
    and failed: "\<forall>info. r \<noteq> Ret info"
  shows "local_view c (tree s') = local_view c (tree s)
    \<and> (\<forall>d' w. local_view c (tree s) d' w \<noteq> None \<longrightarrow> local_files c (tree s') d' w = local_files c (tree s) d' w)"
  using run
proof (cases rule: AddDocumentVersion_cases)
  case (2 prev prevDir result onNew w t)
  note spec = local_invD(1) [OF inv] and finv = local_invD(2) [OF inv]
  let ?v = "cvr_Version result"
  have "quiet (w, t)" by (rule quiet_pair [OF quiet_local_write_version 2(2)])
  then obtain e where e: "w = Fail e" using 2(3) failed by (cases w) (auto simp: quiet_def)
  obtain err where rb: "add_rollback c d ?v e t = (err, s')" using 2(5) [OF e] by blast
  have v: "0 \<le> Time ?v" "local_view c (tree s) d (ms_trunc ?v) = None"
    by (rule add_reaches_latest [OF inv 2(1)], blast)+
  have "plain_path prevDir" "\<forall>f\<in>set (write_readers result). local_name (FileName f)"
    using 2(1) res plain_version_dir [OF spec] by (fastforce simp: add_reaches_def local_results_def)+
  from write_version_stays [OF spec this 2(2)]
  have st: "stays tree finv calm (company_area c d \<union> version_area c d ?v) s t" .
  have "version_files_area c d ?v \<subseteq> company_area c d \<union> version_area c d ?v"
    "versionInfoFile c d ?v \<in> company_area c d \<union> version_area c d ?v" by (auto simp: version_area_def)
  from steps_add_rollback [OF step_rel_stays frame_files_calls [OF spec this(1)] frame_info_calls [OF spec this(2)],
      where s = t and e = e]
  have "stays tree finv calm (company_area c d \<union> version_area c d ?v) t s'" by (simp only: steps_stays rb snd_conv)
  from stays_trans [OF st this] have "stays tree finv calm (company_area c d \<union> version_area c d ?v) s s'" .
  note keeps = keeps_versions_stays [OF spec finv this]
  have "tree s' (versionDirName c d ?v) \<noteq> Some Dir"
    by (rule add_rollback_dir [OF spec staysD(1,2) [OF st finv] rb]) (rule calm)
  from keeps_versions_same [OF keeps v this] show ?thesis by blast
qed simp

end
