(* ===== verification/LocalCreate.thy ===== *)
theory LocalCreate
  imports LocalAdd
begin

text \<open>
  \<open>CreateDocument\<close> of the file-system connection: a call that returns has committed the
  first version of a document that did not exist, a call that fails leaves no document.
\<close>

section \<open>Documents apart\<close>

lemma areas_touched:
  assumes "local_spec c tree finv calm"
  shows "company_area c d \<subseteq> touched c d" "version_area c d v \<subseteq> touched c d"
  by (rule area_touched [OF assms subset_refl])+

lemma document_paths:
  assumes "local_spec c tree finv calm"
  shows "versionDirName c d v \<in> document_area c d" "versionInfoFile c d v \<in> document_area c d"
    "versionDirName c d v @ [n] \<in> document_area c d" "documentDir c d \<in> document_area c d"
  by (simp_all add: document_area_def local_paths(2,3) [OF assms])

lemma other_documents:
  assumes spec: "local_spec c tree finv calm" and finv: "finv s" and st: "stays tree finv calm (touched c d) s s'" and "d' \<noteq> d"
  shows "local_view c (tree s') d' w = local_view c (tree s) d' w" "local_files c (tree s') d' w = local_files c (tree s) d' w"
proof -
  have same: "tree s' q = tree s q" if "q \<in> document_area c d'" for q
    using staysD(3) [OF st finv] document_area_disjoint [OF spec assms(4)] that by blast
  show "local_view c (tree s') d' w = local_view c (tree s) d' w"
    by (rule view_unaffected) (use same document_paths [OF spec] in blast)
  show "local_files c (tree s') d' w = local_files c (tree s) d' w"
    by (simp add: dir_files_def fun_eq_iff same [OF document_paths(3) [OF spec]])
qed

text \<open>A document without a directory has no versions.\<close>

lemma no_document:
  assumes spec: "local_spec c tree finv calm" and finv: "finv s" and "tree s (documentDir c d) \<noteq> Some Dir"
  shows "tree s (documentDir c d @ n # p) = None" "local_view c (tree s) d w = None"
proof -
  have ok: "tree_ok (tree s)" by (rule info_specD(1) [OF local_specD(2) [OF spec] finv])
  show none: "tree s (documentDir c d @ n # p) = None" for n p
    by (rule tree_ok_below_None [OF ok assms(3)]) (simp add: strict_prefix_def)
  show "local_view c (tree s) d w = None"
    using none [of "VersionTime_String w" "[]"] by (simp add: local_view_def local_paths(2) [OF spec])
qed

section \<open>Making the directories\<close>

lemma make_all_dirs_None:
  assumes spec: "local_spec c tree finv calm" and finv: "finv s" and run: "make_all_dirs c k d base p s = (None, s')"
  shows "finv s'" "put_dirs p (tree s) (tree s')"
proof -
  obtain e where m: "fs_MakeAllDirs (lib c) p s = (e, s')" "wrapMakeAllDirsErr (lib c) k d base p e s' = None"
    using run by (auto simp: make_all_dirs_def Let_def split: prod.splits)
  then have "e = None" by (auto simp: wrapMakeAllDirsErr_def split: option.splits)
  with effectD [OF write_specD(4) [OF local_specD(4) [OF spec]] m(1) finv]
  show "finv s'" "put_dirs p (tree s) (tree s')" by simp_all
qed

lemma new_document_dir:
  assumes spec: "local_spec c tree finv calm" and finv: "finv s" and new: "tree s (documentDir c d) \<noteq> Some Dir"
    and run: "make_all_dirs c k d base (versionDirName c d v) s = (None, s')"
  shows "tree s' (versionDirName c d v) = Some Dir" "local_files c (tree s') d v = Map.empty"
    "local_view c (tree s') = local_view c (tree s)" "stays tree finv calm (touched c d) s s'"
proof -
  note m = make_all_dirs_None [OF spec finv run] and none = no_document [OF spec finv new]
  have t: "tree s' q = (if prefix q (versionDirName c d v) then Some Dir else tree s q)" for q
    using m(2) by (simp add: put_dirs_def)
  show "tree s' (versionDirName c d v) = Some Dir" by (simp add: t)
  have np: "\<not> prefix (versionDirName c d v @ [n]) (versionDirName c d v)" for n
    by (metis append_eq_append_conv2 append_self_conv not_Cons_self2 prefix_def prefix_order.antisym prefixI)
  show "local_files c (tree s') d v = Map.empty"
    using np none(1) [of "VersionTime_String v"] by (simp add: dir_files_def t local_paths(2) [OF spec] fun_eq_iff)
  from steps_make_all_dirs(1) [OF step_rel_stays frame_dir_calls [OF spec subset_refl], where d = d and k = k and base = base and v = v and s = s]
  show st: "stays tree finv calm (touched c d) s s'" by (simp only: steps_stays run snd_conv)
  have "\<not> prefix (versionInfoFile c d w) (versionDirName c d v)" for w
    by (simp add: local_paths(2,3) [OF spec])
  then have "tree s' (versionInfoFile c d w) = None" for w
    using none(1) [of "VersionTime_String w @ ''.json''"] by (simp add: t local_paths(3) [OF spec])
  then have "local_view c (tree s') d w = None" for w by (simp add: local_view_def stored_info_def)
  with other_documents(1) [OF spec finv st] none(2) show "local_view c (tree s') = local_view c (tree s)"
    by (metis ext)
qed

section \<open>A call that returns\<close>

definition document_written ::
  "'f local_conn \<Rightarrow> tree \<Rightarrow> uuid \<Rightarrow> uuid \<Rightarrow> uuid \<Rightarrow> string \<Rightarrow> version_time \<Rightarrow> file_reader list \<Rightarrow> version_info \<Rightarrow> bool" where
  "document_written c t companyID d userID reason v files info \<longleftrightarrow>
     CompanyID info = companyID \<and> DocID info = d \<and> Version info = v \<and> PrevVersion info = None
     \<and> CommitUserID info = userID \<and> CommitReason info = reason
     \<and> local_files c t d v = put_readers files Map.empty
     \<and> (\<forall>n. map_of (Files info) n = map_option (file_info_of (lext c) n) (local_files c t d v n))
     \<and> change_lists (lext c) Map.empty (local_files c t d v) info
     \<and> t (companyIDFile c d) = Some (File (string_bytes (ID_String (lext c) companyID)))
     \<and> t (companyDocumentDir c companyID d) = Some Dir"

lemma create_body_Ret:
  assumes spec: "local_spec c tree finv calm" and finv: "finv s" and new: "tree s (documentDir c d) \<noteq> Some Dir"
    and names: "\<forall>f\<in>set files. local_name (FileName f)" and v: "printable v"
    and run: "create_body c cx k d userID reason v files onNew s = (Ret (), s')"
  obtains info info' s1 where "document_written c (tree s') k d userID reason v files info" "onNew info = Ret ()"
    "stored_info c (tree s') d v = Some info'" "stored_as info info'" "tree s' (versionDirName c d v) = Some Dir"
    "finv s1" "local_view c (tree s1) = local_view c (tree s)" "stays tree finv calm (touched c d) s s1"
    "stays tree finv calm (company_area c d \<union> version_area c d v) s1 s'"
proof -
  let ?dir = "versionDirName c d v"
  let ?T = "company_area c d \<union> version_area c d v"
  obtain s1 s2 s3 s4 s5 info where
    s1: "make_all_dirs c k d (documentsDir c) ?dir s = (None, s1)"
    and s2: "fs_WriteAll (lib c) background (companyIDFile c d) (string_bytes (ID_String (lext c) k)) s1 = (None, s2)"
    and s3: "make_all_dirs c k d (companyDir c k) (companyDocumentDir c k d) s2 = (None, s3)"
    and s4: "copy_files (lib c) cx files ?dir s3 = (None, s4)"
    and info: "newVersionInfo c cx k d v None userID reason ?dir None s4 = Inr info"
    and s5: "WriteJSON (lib c) (lcodec c) background (versionInfoFile c d v) info s4 = (None, s5)"
    and cb: "recovered (onNew info) = Inr ()" "s' = s5"
    using run by (auto simp: create_body_def Let_def try_op_Ret_iff)
  note m1 = new_document_dir [OF spec finv new s1] and f1 = make_all_dirs_None(1) [OF spec finv s1]
  note w = local_specD(4) [OF spec] and t2 = effectD(1,3) [OF write_specD(1) [OF local_specD(4) [OF spec]] s2 f1]
  have t2': "tree s2 = (tree s1)(companyIDFile c d \<mapsto> File (string_bytes (ID_String (lext c) k)))"
    using t2(2) by (simp add: put_file_def)
  note t3 = make_all_dirs_None [OF spec t2(1) s3]
  have st3: "stays tree finv calm (company_area c d) s1 s3"
  proof (rule stays_trans)
    note calls = frame_company_calls [OF spec subset_refl]
    show "stays tree finv calm (company_area c d) s1 s2"
      using company_callsD(1) [OF calls, where d = d and s = s1 and b = "string_bytes (ID_String (lext c) k)"]
      by (simp only: steps_stays s2 snd_conv)
    show "stays tree finv calm (company_area c d) s2 s3"
      using steps_make_all_dirs(2) [OF step_rel_stays calls, where d = d and k = k and base = "companyDir c k" and s = s2]
      by (simp only: steps_stays s3 snd_conv)
  qed
  have np: "?dir \<notin> company_area c d" "?dir @ [n] \<notin> company_area c d" for n
    by (rule not_in_company_area [OF spec])+
  have dir3: "tree s3 ?dir = Some Dir" using staysD(3) [OF st3 f1 np(1)] m1(1) by simp
  have files3: "local_files c (tree s3) d v = Map.empty"
    using m1(2) staysD(3) [OF st3 f1 np(2)] by (simp add: dir_files_def fun_eq_iff)
  note c4 = copy_files_None [OF w t3(1) dir3 names s4]
  have files4: "local_files c (tree s4) d v = put_readers files Map.empty" by (simp add: c4(5) files3)
  note f = newVersionInfo_Inr [OF spec c4(1) info]
  obtain b where t5: "tree s5 = (tree s4)(versionInfoFile c d v \<mapsto> File b)" using WriteJSON_None [OF spec c4(1) s5] by blast
  obtain info' where st: "stored_info c (tree s5) d v = Some info'" "stored_as info info'"
    by (rule written_info [OF spec c4(1) s5]) (use v f(3,4) in simp_all)
  have other: "versionInfoFile c d v \<noteq> ?dir" "?dir @ [x] \<noteq> versionInfoFile c d v" for x
    by (auto simp: local_paths(2,3) [OF spec])
  have files5: "local_files c (tree s5) d v = put_readers files Map.empty"
    using other(2) by (simp add: files4 [symmetric] t5 dir_files_def fun_eq_iff)
  have dir5: "tree s5 ?dir = Some Dir" using only_files_in_dir [OF c4(3)] dir3 other(1) by (simp add: t5)
  have same: "tree s5 q = tree s3 q" if "q \<noteq> versionInfoFile c d v" "\<nexists>n. q = ?dir @ [n]" for q
    using c4(3) that by (simp add: t5 only_files_in_def)
  have company: "companyIDFile c d \<noteq> versionInfoFile c d v" "companyIDFile c d \<noteq> ?dir @ [n]"
    "companyDocumentDir c k d \<noteq> versionInfoFile c d v" "companyDocumentDir c k d \<noteq> ?dir @ [n]" for n
    using document_not_company(2) [OF spec, of k d d "[VersionTime_String v @ ''.json'']"]
      document_not_company(2) [OF spec, of k d d "[VersionTime_String v, n]"]
    by (auto simp: local_paths(2-4) [OF spec])
  have idf: "tree s5 (companyIDFile c d) = Some (File (string_bytes (ID_String (lext c) k)))"
  proof -
    have "\<not> prefix (companyIDFile c d) (companyDocumentDir c k d)"
      unfolding local_paths(4) [OF spec] by (rule document_not_company(1) [OF spec])
    then have "tree s3 (companyIDFile c d) = Some (File (string_bytes (ID_String (lext c) k)))"
      using t3(2) by (simp add: put_dirs_def t2')
    then show ?thesis using same company(1,2) by simp
  qed
  have cdir: "tree s5 (companyDocumentDir c k d) = Some Dir"
    using same company(3,4) t3(2) by (simp add: put_dirs_def)
  have st5: "stays tree finv calm ?T s3 s5"
  proof (rule stays_trans [of tree finv calm _ _ s4])
    have sub: "version_files_area c d v \<subseteq> ?T" "versionInfoFile c d v \<in> ?T" by (auto simp: version_area_def)
    from steps_copy_files [OF step_rel_stays frame_files_calls [OF spec sub(1)] names, where cx = cx and s = s3]
    show "stays tree finv calm ?T s3 s4" by (simp only: steps_stays s4 snd_conv)
    from info_callsD(2) [OF frame_info_calls [OF spec sub(2)] info] show "stays tree finv calm ?T s4 s5"
      by (simp only: steps_stays s5 snd_conv)
  qed
  show thesis
  proof (rule that [of info info' s1])
    show "document_written c (tree s') k d userID reason v files info"
      unfolding document_written_def cb(2)
      using f(1-6,9) files4 files5 idf cdir change_lists_newVersionInfo [OF spec c4(1) info] by simp
    show "stays tree finv calm ?T s1 s'"
      unfolding cb(2) by (rule stays_trans [OF stays_mono [OF st3] st5]) simp
  qed (use cb st dir5 f1 m1(3,4) in simp_all)
qed

text \<open>A call ends before it writes, or it runs the body and cleans up after a failure.\<close>

lemma CreateDocument_cases:
  assumes "local_CreateDocument c cx k d userID reason v files onNewVersion s = (r, s')"
  obtains "s' = s" "\<exists>e. r = Fail e"
  | onNew where "onNewVersion = Some onNew" "files \<noteq> []" "\<not> IsDir (lib c) (documentDir c d) s" "Time v \<noteq> 0"
    "create_body c cx k d userID reason v files onNew s = (Ret (), s')" "r = Ret ()"
  | onNew e t err where "onNewVersion = Some onNew" "\<not> IsDir (lib c) (documentDir c d) s"
    "create_body c cx k d userID reason v files onNew s = (Fail e, t)" "create_rollback c k d e t = (err, s')" "r = Fail err"
proof (cases "first_err [ctx_Err cx, ID_Validate (lext c) k, ID_Validate (lext c) d, ID_Validate (lext c) userID,
    VersionTime_Validate v] = None \<and> onNewVersion \<noteq> None \<and> files \<noteq> [] \<and> \<not> IsDir (lib c) (documentDir c d) s")
  case False
  then have "s' = s \<and> (\<exists>e. r = Fail e)"
    using assms by (auto simp: local_CreateDocument_def simp del: first_err_None split: option.splits if_splits)
  then show thesis using that(1) by blast
next
  case True
  then obtain onNew where g: "onNewVersion = Some onNew" "files \<noteq> []" "\<not> IsDir (lib c) (documentDir c d) s" "Time v \<noteq> 0"
    "first_err [ctx_Err cx, ID_Validate (lext c) k, ID_Validate (lext c) d, ID_Validate (lext c) userID, VersionTime_Validate v] = None"
    by (auto simp: Validate_None_iff)
  note run = assms [unfolded local_CreateDocument_def g(1,5) option.case if_not_P [OF g(2)] if_not_P [OF g(3)]]
  obtain q t where body: "create_body c cx k d userID reason v files onNew s = (q, t)" by fastforce
  show thesis
  proof (cases q)
    case (Ret u)
    then show thesis using run body g by (intro that(2)) simp_all
  next
    case (Fail e)
    obtain err u where rb: "create_rollback c k d e t = (err, u)" by fastforce
    show thesis
      by (rule that(3) [OF g(1,3) body [unfolded Fail], of err]) (use run body Fail rb in simp_all)
  next
    case (Panic msg)
    have "quiet (create_body c cx k d userID reason v files onNew s)"
      unfolding create_body_def Let_def by (intro quiet_rules)
    with body Panic show thesis by (simp add: quiet_def)
  qed
qed

lemma create_commits:
  assumes inv: "local_inv c tree finv calm s" and names: "\<forall>f\<in>set files. local_name (FileName f)" and v: "readable_time (ms_trunc v)"
    and run: "local_CreateDocument c cx k d userID reason v files onNewVersion s = (Ret u, s')"
  shows "\<exists>onNew info info'. onNewVersion = Some onNew \<and> document_written c (tree s') k d userID reason v files info
      \<and> onNew info = Ret () \<and> local_view c (tree s') = put_version (local_view c (tree s)) d v info' \<and> stored_as info info'"
    "files \<noteq> []" "tree s (documentDir c d) \<noteq> Some Dir" "local_view c (tree s) d w = None"
    "d' \<noteq> d \<Longrightarrow> local_files c (tree s') d' w = local_files c (tree s) d' w"
proof -
  note spec = local_invD(1) [OF inv] and finv = local_invD(2) [OF inv]
  obtain onNew where g: "onNewVersion = Some onNew" "files \<noteq> []" "\<not> IsDir (lib c) (documentDir c d) s"
    "create_body c cx k d userID reason v files onNew s = (Ret (), s')"
    using run by (cases rule: CreateDocument_cases) auto
  then have new: "tree s (documentDir c d) \<noteq> Some Dir" by (simp add: info_specD(3) [OF local_specD(2) [OF spec] finv])
  then show "tree s (documentDir c d) \<noteq> Some Dir" "local_view c (tree s) d w = None" "files \<noteq> []"
    using no_document(2) [OF spec finv] g(2) by simp_all
  have t: "0 < truncate_ms (Time v)" "truncate_ms (Time v) < year_10000" using v by (simp_all add: readable_time_def)
  have "Time v < year_10000"
  proof (rule ccontr)
    assume "\<not> Time v < year_10000"
    then show False
      using t(2) late_not_read [of v] readable_timeD [OF v] by (simp add: VersionTime_String_ms_trunc)
  qed
  then have pr: "printable v" "0 \<le> Time v" using t(1) truncate_ms_le [of "Time v"] by (simp_all add: printable_def)
  obtain info info' s1 where b: "document_written c (tree s') k d userID reason v files info" "onNew info = Ret ()"
    "stored_info c (tree s') d v = Some info'" "stored_as info info'" "tree s' (versionDirName c d v) = Some Dir"
    "finv s1" "local_view c (tree s1) = local_view c (tree s)" "stays tree finv calm (touched c d) s s1"
    "stays tree finv calm (company_area c d \<union> version_area c d v) s1 s'"
    by (rule create_body_Ret [OF spec finv new names pr(1) g(4)])
  have "local_view c (tree s') d (ms_trunc v) = Some info'"
    using v b(3,5) by (simp add: local_view_def stored_info_def)
  from keeps_versions_put [OF keeps_versions_stays [OF spec b(6,9)] pr(2) this]
  show "\<exists>onNew info info'. onNewVersion = Some onNew \<and> document_written c (tree s') k d userID reason v files info
      \<and> onNew info = Ret () \<and> local_view c (tree s') = put_version (local_view c (tree s)) d v info' \<and> stored_as info info'"
    using g(1) b(1,2,4,7) by auto
  have "company_area c d \<union> version_area c d v \<subseteq> touched c d" using areas_touched [OF spec] by blast
  from stays_trans [OF b(8) stays_mono [OF b(9) this]] have "stays tree finv calm (touched c d) s s'" .
  then show "local_files c (tree s') d' w = local_files c (tree s) d' w" if "d' \<noteq> d"
    using other_documents(2) [OF spec finv _ that] by blast
qed

section \<open>A call that fails\<close>

lemma RemoveDir_calm:
  assumes spec: "local_spec c tree finv calm" and finv: "finv s" and calm: "calm s" and p: "p = uuiddir_Join (lib c) base d"
    and run: "(if Exists (lib c) p s then uuiddir_RemoveDir (lib c) base p s else (None, s)) = (e, s')"
  shows "tree s' p \<noteq> Some Dir" "finv s'" "calm s'"
proof -
  have "tree s' p \<noteq> Some Dir \<and> finv s' \<and> calm s'"
  proof (cases "Exists (lib c) p s")
    case True
    then have rm: "uuiddir_RemoveDir (lib c) base p s = (e, s')" using run by simp
    note eff = effectD [OF remove_specD(3) [OF local_specD(5) [OF spec]] rm [unfolded p] finv]
    have "e = None" if "tree s p = Some Dir"
      using remove_spec_calmD(3) [OF local_specD(5) [OF spec] finv calm that [unfolded p]] rm by (simp add: p)
    moreover have "tree s' p = None" if "e = None"
      using eff(3) [OF that, unfolded del_id_def, rule_format, of p] by (simp add: p)
    moreover have "tree s' p = tree s p \<or> tree s' p = None" if "e \<noteq> None"
      using eff(4) [OF that, unfolded part_del_id_def, rule_format, of p] by (elim disjE conjE) (simp_all add: p)
    ultimately have "tree s' p \<noteq> Some Dir" by (metis option.distinct(1))
    then show ?thesis using eff(1,2) calm by simp
  next
    case False
    then show ?thesis using run finv calm info_specD(2) [OF local_specD(2) [OF spec] finv] by simp
  qed
  then show "tree s' p \<noteq> Some Dir" "finv s'" "calm s'" by simp_all
qed

lemma create_rollback_removes:
  assumes spec: "local_spec c tree finv calm" and finv: "finv s" and calm: "calm s"
    and run: "create_rollback c k d e s = (err, s')"
  shows "tree s' (documentDir c d) \<noteq> Some Dir" "tree s' (companyDocumentDir c k d) \<noteq> Some Dir" "finv s'"
proof -
  obtain e1 s1 where s1: "(if Exists (lib c) (documentDir c d) s then
      uuiddir_RemoveDir (lib c) (documentsDir c) (documentDir c d) s else (None, s)) = (e1, s1)" by fastforce
  have s2: "\<exists>e2. removeCompanyDocumentDirIfExists c k d s1 = (e2, s')"
    using run s1 by (auto simp: create_rollback_def Let_def split: if_splits prod.splits)
  then obtain e2 where s2: "removeCompanyDocumentDirIfExists c k d s1 = (e2, s')" by blast
  note r1 = RemoveDir_calm [OF spec finv calm documentDir_def s1]
  have "(if Exists (lib c) (companyDocumentDir c k d) s1 then
      uuiddir_RemoveDir (lib c) (companyDir c k) (companyDocumentDir c k d) s1 else (None, s1)) = (e2, s')"
    using s2 by (simp add: removeCompanyDocumentDirIfExists_def Let_def split: if_splits)
  note r2 = RemoveDir_calm [OF spec r1(2,3) companyDocumentDir_def this]
  show "tree s' (companyDocumentDir c k d) \<noteq> Some Dir" "finv s'" by (rule r2)+
  from steps_removeCompanyDocumentDirIfExists [OF step_rel_stays frame_company_calls [OF spec subset_refl], where d = d and k = k and s = s1]
  have st: "stays tree finv calm (company_area c d) s1 s'" by (simp only: steps_stays s2 snd_conv)
  have "documentDir c d \<notin> company_area c d"
    using document_not_company(1) [OF spec, of d "[]" _ d] document_not_company(2) [OF spec, of _ d d "[]"]
    by (auto simp: company_area_def local_paths(4) [OF spec])
  with staysD(3) [OF st r1(2)] r1(1) show "tree s' (documentDir c d) \<noteq> Some Dir" by simp
qed

lemma failed_create_keeps:
  assumes inv: "local_inv c tree finv calm s" and calm: "calm s" and names: "\<forall>f\<in>set files. local_name (FileName f)"
    and run: "local_CreateDocument c cx k d userID reason v files onNewVersion s = (r, s')" and failed: "r \<noteq> Ret ()"
  shows "local_view c (tree s') = local_view c (tree s)"
    "local_view c (tree s) d' w \<noteq> None \<Longrightarrow> local_files c (tree s') d' w = local_files c (tree s) d' w"
    "tree s (documentDir c d) \<noteq> Some Dir \<Longrightarrow> tree s' (documentDir c d) \<noteq> Some Dir"
    "s' = s \<or> tree s' (companyDocumentDir c k d) \<noteq> Some Dir"
proof -
  note spec = local_invD(1) [OF inv] and finv = local_invD(2) [OF inv]
  have "local_view c (tree s') = local_view c (tree s)
    \<and> (local_view c (tree s) d' w \<noteq> None \<longrightarrow> local_files c (tree s') d' w = local_files c (tree s) d' w)
    \<and> (tree s (documentDir c d) \<noteq> Some Dir \<longrightarrow> tree s' (documentDir c d) \<noteq> Some Dir)
    \<and> (s' = s \<or> tree s' (companyDocumentDir c k d) \<noteq> Some Dir)"
    using run
  proof (cases rule: CreateDocument_cases)
    case (3 onNew e t err)
    have new: "tree s (documentDir c d) \<noteq> Some Dir" using 3(2) by (simp add: info_specD(3) [OF local_specD(2) [OF spec] finv])
    note calls = frame_document_calls [OF spec subset_refl]
    from steps_create_body [OF step_rel_stays calls names, where cx = cx and k = k and userID = userID and reason = reason and v = v
        and onNew = onNew and s = s and d = d]
    have st1: "stays tree finv calm (touched c d) s t" by (simp only: steps_stays 3(3) snd_conv)
    from steps_create_rollback [OF step_rel_stays calls, where k = k and e = e and s = t and d = d]
    have "stays tree finv calm (touched c d) t s'" by (simp only: steps_stays 3(4) snd_conv)
    from stays_trans [OF st1 this] have st: "stays tree finv calm (touched c d) s s'" .
    note rm = create_rollback_removes [OF spec staysD(1) [OF st1 finv] staysD(2) [OF st1 finv calm] 3(4)]
    have "local_view c (tree s') d'' w = local_view c (tree s) d'' w" for d'' w
      using no_document(2) [OF spec finv new] no_document(2) [OF spec rm(3,1)] other_documents(1) [OF spec finv st]
      by (cases "d'' = d") simp_all
    then have "local_view c (tree s') = local_view c (tree s)" by (simp add: fun_eq_iff)
    moreover have "local_files c (tree s') d' w = local_files c (tree s) d' w" if "local_view c (tree s) d' w \<noteq> None"
      using that no_document(2) [OF spec finv new] other_documents(2) [OF spec finv st] by (cases "d' = d") simp_all
    ultimately show ?thesis using rm by blast
  qed (use failed in auto)
  then show "local_view c (tree s') = local_view c (tree s)"
    "local_view c (tree s) d' w \<noteq> None \<Longrightarrow> local_files c (tree s') d' w = local_files c (tree s) d' w"
    "tree s (documentDir c d) \<noteq> Some Dir \<Longrightarrow> tree s' (documentDir c d) \<noteq> Some Dir"
    "s' = s \<or> tree s' (companyDocumentDir c k d) \<noteq> Some Dir" by blast+
qed

end
