(* ===== verification/LocalDelete.thy ===== *)
theory LocalDelete
  imports LocalCreate
begin

text \<open>
  \<open>DeleteDocumentVersion\<close> of the file-system connection, and what reading returns of a
  committed version on a file system that does not fail.
\<close>

section \<open>DeleteDocumentVersion\<close>

lemma keeps_versions_drop:
  assumes keeps: "keeps_versions c d v t t'" and v: "0 \<le> Time v" and none: "t' (versionDirName c d v) \<noteq> Some Dir"
  shows "local_view c t' = drop_version (local_view c t) d v"
    "local_view c t' d' w \<noteq> None \<Longrightarrow> local_files c t' d' w = local_files c t d' w"
proof -
  have same: "local_view c t' d' w = drop_version (local_view c t) d v d' w
      \<and> (local_view c t' d' w \<noteq> None \<longrightarrow> local_files c t' d' w = local_files c t d' w)" for d' w
  proof (cases "d' = d \<and> VersionTime_String w = VersionTime_String v")
    case False
    then have "local_view c t' d' w = local_view c t d' w \<and> local_files c t' d' w = local_files c t d' w"
      using keeps unfolding keeps_versions_def by blast
    moreover have "d' \<noteq> d \<or> w \<noteq> ms_trunc v" using False VersionTime_String_ms_trunc by metis
    ultimately show ?thesis by (auto simp: drop_version_def)
  next
    case True
    then have "t' (versionDirName c d w) \<noteq> Some Dir" using none by (simp add: versionDirName_def)
    then have "local_view c t' d w = None" by (simp add: local_view_def)
    moreover have "local_view c t d w = None" if "w \<noteq> ms_trunc v"
      using that True readable_same_String [of w v] v by (auto simp: local_view_def)
    ultimately show ?thesis using True by (simp add: drop_version_def)
  qed
  then show "local_view c t' = drop_version (local_view c t) d v" by (auto simp: fun_eq_iff)
  show "local_view c t' d' w \<noteq> None \<Longrightarrow> local_files c t' d' w = local_files c t d' w" using same by blast
qed

text \<open>The calls of a deletion that returns, and the two ways it ends.\<close>

lemma DeleteDocumentVersion_Ret:
  assumes "local_DeleteDocumentVersion c cx d v s = (Ret left, s')"
  obtains s1 e2 s2 where
    "documentAndVersionDir c d v s = Inr (documentDir c d, versionDirName c d v)"
    "fs_RemoveRecursive (lib c) (versionDirName c d v) s = (None, s1)"
    "(if Exists (lib c) (versionInfoFile c d v) s1 then fs_Remove (lib c) (versionInfoFile c d v) s1 else (None, s1)) = (e2, s2)"
    "documentVersions c d s2 = Inr left"
    "if left = [] then \<exists>r s3. remove_company_entry c cx d s2 = (r, s3)
        \<and> uuiddir_RemoveDir (lib c) (documentsDir c) (documentDir c d) s3 = (None, s')
     else s' = s2"
proof -
  obtain s1 where g: "ctx_Err cx = None" "documentAndVersionDir c d v s = Inr (documentDir c d, versionDirName c d v)"
    "fs_RemoveRecursive (lib c) (versionDirName c d v) s = (None, s1)"
    using assms by (auto simp: local_DeleteDocumentVersion_def documentAndVersionDir_Inr split: option.splits sum.splits prod.splits)
  obtain e2 s2 where s2: "(if Exists (lib c) (versionInfoFile c d v) s1
      then fs_Remove (lib c) (versionInfoFile c d v) s1 else (None, s1)) = (e2, s2)" by fastforce
  obtain x where x: "(if Exists (lib c) (versionInfoFile c d v) s1
      then (let (e, t) = fs_Remove (lib c) (versionInfoFile c d v) s1 in (errors_Join [None, e], t)) else (None, s1)) = (x, s2)"
    using s2 by (cases "fs_Remove (lib c) (versionInfoFile c d v) s1") (auto split: if_splits)
  note run = assms [unfolded local_DeleteDocumentVersion_def g option.case sum.case prod.case Let_def]
  show thesis
  proof (cases "documentVersions c d s2")
    case (Inl e)
    obtain r s3 where r: "remove_company_entry c cx d s2 = (r, s3)" by fastforce
    obtain e' s4 where e': "uuiddir_RemoveDir (lib c) (documentsDir c) (documentDir c d) s3 = (e', s4)" by fastforce
    show thesis
      using run by (cases r) (simp_all add: x [unfolded Let_def] Inl r e' errors_Join_None_iff split: option.splits)
  next
    case (Inr vs)
    show thesis
    proof (cases "vs = []")
      case True
      obtain r s3 where r: "remove_company_entry c cx d s2 = (r, s3)" by fastforce
      obtain e' s4 where e': "uuiddir_RemoveDir (lib c) (documentsDir c) (documentDir c d) s3 = (e', s4)" by fastforce
      have "left = []" "e' = None" "s4 = s'"
        using run by (cases r; simp add: x [unfolded Let_def] Inr True r e' errors_Join_None_iff split: option.splits)+
      with True r e' Inr show thesis by (intro that [OF g(2,3) s2]) auto
    next
      case False
      have "left = vs" "s' = s2"
        using run by (simp_all add: x [unfolded Let_def] Inr False errors_Join_None_iff split: option.splits)
      with False Inr show thesis by (intro that [OF g(2,3) s2]) auto
    qed
  qed
qed

text \<open>The directory and the metadata file of the version, removed.\<close>

lemma version_removed:
  assumes inv: "local_inv c tree finv calm s" and v: "0 \<le> Time v"
    and s1: "fs_RemoveRecursive (lib c) (versionDirName c d v) s = (None, s1)"
    and s2: "(if Exists (lib c) (versionInfoFile c d v) s1 then fs_Remove (lib c) (versionInfoFile c d v) s1 else (None, s1)) = (e2, s2)"
  shows "stays tree finv calm (company_area c d \<union> version_area c d v) s s2" "tree s2 (versionDirName c d v) = None"
    "local_view c (tree s2) = drop_version (local_view c (tree s)) d v"
    "local_view c (tree s2) d' w \<noteq> None \<Longrightarrow> local_files c (tree s2) d' w = local_files c (tree s) d' w"
proof -
  note spec = local_invD(1) [OF inv] and finv = local_invD(2) [OF inv]
  let ?dir = "versionDirName c d v" and ?info = "versionInfoFile c d v"
  have root: "?dir \<noteq> []" by (rule version_dirs_not_root [OF spec])
  note e1 = effectD(1,3) [OF remove_specD(2) [OF local_specD(5) [OF spec] root] s1 finv]
  have gone: "tree s1 ?dir = None" using e1(2) by (simp add: del_tree_def)
  have sub: "version_files_area c d v \<subseteq> version_area c d v" "?info \<in> version_area c d v" by (auto simp: version_area_def)
  from files_callsD(2) [OF frame_files_calls [OF spec sub(1)], of s]
  have st1: "stays tree finv calm (version_area c d v) s s1" by (simp only: steps_stays s1 snd_conv)
  have st12: "stays tree finv calm {?info} s1 s2"
  proof (cases "Exists (lib c) ?info s1")
    case True
    then have "fs_Remove (lib c) ?info s1 = (e2, s2)" using s2 by simp
    with stays_Remove [OF local_specD(5) [OF spec], of ?info "{?info}" s1] show ?thesis by simp
  next
    case False
    then show ?thesis using s2 stays_refl by (metis prod.inject)
  qed
  have "?dir \<noteq> ?info" by (simp add: local_paths(2,3) [OF spec])
  then show gone2: "tree s2 ?dir = None" using staysD(3) [OF st12 e1(1)] gone by simp
  show st2: "stays tree finv calm (company_area c d \<union> version_area c d v) s s2"
    by (rule stays_trans [OF stays_mono [OF st1] stays_mono [OF st12]]) (use sub in auto)
  note keeps = keeps_versions_drop [OF keeps_versions_stays [OF spec finv st2] v]
  show "local_view c (tree s2) = drop_version (local_view c (tree s)) d v"
    by (rule keeps(1)) (simp add: gone2)
  show "local_view c (tree s2) d' w \<noteq> None \<Longrightarrow> local_files c (tree s2) d' w = local_files c (tree s) d' w"
    by (rule keeps(2)) (use gone2 in simp_all)
qed

lemma documentVersions_listed:
  assumes spec: "local_spec c tree finv calm" and finv: "finv s"
    and "documentVersions c d s = Inr vs" "local_view c (tree s) d w \<noteq> None"
  shows "w \<in> set vs"
proof -
  obtain dirs where dirs: "enumVersionDirs c (documentDir c d) s = Inr dirs" "vs = sort_key ms_trunc (map fst dirs)"
    using assms(3) by (auto simp: documentVersions_def Let_def split: if_splits sum.splits)
  from assms(4) obtain i where "local_view c (tree s) d w = Some i" by blast
  from view_listed [OF spec finv dirs(1) this] show ?thesis by (force simp: dirs(2))
qed

text \<open>The directory of a document without versions, removed with its marker.\<close>

lemma last_version_removed:
  assumes spec: "local_spec c tree finv calm" and finv: "finv s" and no: "\<And>w. local_view c (tree s) d w = None"
    and s1: "remove_company_entry c cx d s = (r, s1)"
    and s2: "uuiddir_RemoveDir (lib c) (documentsDir c) (documentDir c d) s1 = (None, s2)"
  shows "local_view c (tree s2) = local_view c (tree s)" "tree s2 (documentDir c d @ p) = None"
    "local_view c (tree s) d' w \<noteq> None \<Longrightarrow> local_files c (tree s2) d' w = local_files c (tree s) d' w"
proof -
  note calls = frame_document_calls [OF spec subset_refl]
  from steps_remove_company_entry [OF step_rel_stays document_callsD(1) [OF calls], where d = d and cx = cx and s = s]
  have st1: "stays tree finv calm (touched c d) s s1" by (simp only: steps_stays s1 snd_conv)
  from dir_callsD(3) [OF document_callsD(4) [OF calls], where d = d and s = s1]
  have "stays tree finv calm (touched c d) s1 s2" by (simp only: steps_stays s2 snd_conv)
  from stays_trans [OF st1 this] have st: "stays tree finv calm (touched c d) s s2" .
  from effectD(3) [OF remove_specD(3) [OF local_specD(5) [OF spec]] s2 [unfolded documentDir_def] staysD(1) [OF st1 finv]]
  have doc: "tree s2 (documentDir c d) = None" by (simp add: del_id_def documentDir_def)
  note none = no_document [OF spec staysD(1) [OF st finv], of d, unfolded doc]
  have "local_view c (tree s2) d'' w = local_view c (tree s) d'' w" for d'' w
    using no none(2) other_documents(1) [OF spec finv st] by (cases "d'' = d") simp_all
  then show "local_view c (tree s2) = local_view c (tree s)" by (simp add: fun_eq_iff)
  show "tree s2 (documentDir c d @ p) = None" using none(1) doc by (cases p) simp_all
  show "local_files c (tree s2) d' w = local_files c (tree s) d' w" if "local_view c (tree s) d' w \<noteq> None"
    using that no other_documents(2) [OF spec finv st] by (cases "d' = d") simp_all
qed

lemma delete_version_exact:
  assumes inv: "local_inv c tree finv calm s" and v: "0 \<le> Time v"
    and run: "local_DeleteDocumentVersion c cx d v s = (Ret left, s')"
  shows "local_view c (tree s') = drop_version (local_view c (tree s)) d v"
    "local_view c (tree s') d' w \<noteq> None \<Longrightarrow> local_files c (tree s') d' w = local_files c (tree s) d' w"
    "local_view c (tree s') d w \<noteq> None \<Longrightarrow> w \<in> set left"
    "left = [] \<Longrightarrow> tree s' (documentDir c d) = None" "tree s' (versionDirName c d v) = None"
proof -
  note spec = local_invD(1) [OF inv] and finv = local_invD(2) [OF inv]
  let ?dir = "versionDirName c d v" and ?info = "versionInfoFile c d v"
  obtain s1 e2 s2 where
    s1: "fs_RemoveRecursive (lib c) ?dir s = (None, s1)"
    and s2: "(if Exists (lib c) ?info s1 then fs_Remove (lib c) ?info s1 else (None, s1)) = (e2, s2)"
    and left: "documentVersions c d s2 = Inr left"
    and last: "if left = [] then \<exists>r s3. remove_company_entry c cx d s2 = (r, s3)
        \<and> uuiddir_RemoveDir (lib c) (documentsDir c) (documentDir c d) s3 = (None, s') else s' = s2"
    by (rule DeleteDocumentVersion_Ret [OF run])
  note gone = version_removed [OF inv v s1 s2] and fin2 = staysD(1) [OF version_removed(1) [OF inv v s1 s2] finv]
  note listed = documentVersions_listed [OF spec fin2 left]
  have fin: "local_view c (tree s') = local_view c (tree s2) \<and> (\<forall>d' w. local_view c (tree s2) d' w \<noteq> None \<longrightarrow>
      local_files c (tree s') d' w = local_files c (tree s2) d' w)
    \<and> (left = [] \<longrightarrow> tree s' (documentDir c d) = None) \<and> tree s' ?dir = None"
  proof (cases "left = []")
    case True
    then obtain r s3 where s3: "remove_company_entry c cx d s2 = (r, s3)"
      "uuiddir_RemoveDir (lib c) (documentsDir c) (documentDir c d) s3 = (None, s')" using last by auto
    have no: "local_view c (tree s2) d w = None" for w using listed [of w] True by (cases "local_view c (tree s2) d w") simp_all
    from last_version_removed [OF spec fin2 no s3] last_version_removed(2) [OF spec fin2 no s3, of "[]"] show ?thesis
      by (simp add: local_paths(2) [OF spec])
  next
    case False
    then show ?thesis using last gone(2) by simp
  qed
  then show "local_view c (tree s') = drop_version (local_view c (tree s)) d v" "left = [] \<Longrightarrow> tree s' (documentDir c d) = None"
    "tree s' ?dir = None" using gone(3) by simp_all
  show "local_view c (tree s') d' w \<noteq> None \<Longrightarrow> local_files c (tree s') d' w = local_files c (tree s) d' w"
    "local_view c (tree s') d w \<noteq> None \<Longrightarrow> w \<in> set left"
    using fin gone(4) listed by simp_all
qed

section \<open>Reading a committed version\<close>

lemma committed_dirs:
  assumes spec: "local_spec c tree finv calm" and finv: "finv s" and view: "local_view c (tree s) d v = Some info"
  shows "IsDir (lib c) (documentDir c d) s" "IsDir (lib c) (versionDirName c d v) s" "Time v \<noteq> 0"
    "\<exists>b. tree s (versionInfoFile c d v) = Some (File b) \<and> Unmarshal_VersionInfo (lcodec c) b = Inr info"
proof -
  note i = info_specD [OF local_specD(2) [OF spec] finv]
  have v: "readable_time v" "tree s (versionDirName c d v) = Some Dir" "stored_info c (tree s) d v = Some info"
    using view by (auto simp: local_view_def split: if_splits)
  then have "tree s (documentDir c d) = Some Dir" using tree_okD(2) [OF i(1)] by (simp add: local_paths(2) [OF spec])
  with v show "IsDir (lib c) (documentDir c d) s" "IsDir (lib c) (versionDirName c d v) s" "Time v \<noteq> 0"
    by (simp_all add: i(3) readable_time_def)
  show "\<exists>b. tree s (versionInfoFile c d v) = Some (File b) \<and> Unmarshal_VersionInfo (lcodec c) b = Inr info"
    using v(3) by (auto simp: stored_info_def split: option.splits node.splits sum.splits)
qed

lemma documentVersions_calm:
  assumes spec: "local_spec c tree finv calm" and "finv s" "calm s" "tree s (documentDir c d) = Some Dir"
  shows "\<exists>vs. documentVersions c d s = Inr vs"
proof -
  note r = read_specD [OF local_specD(3) [OF spec] assms(2)] and i = info_specD [OF local_specD(2) [OF spec] assms(2)]
  have "ctx_Err background = None" by (simp add: background_def)
  from r(7) [OF assms(3) this assms(4)] obtain ns where "fs_ListDir (lib c) background (documentDir c d) s = Inr ns" by blast
  then show ?thesis using i(3) assms(4) by (simp add: documentVersions_def enumVersionDirs_def Let_def)
qed

lemma local_read_committed:
  assumes spec: "local_spec c tree finv calm" and finv: "finv s" and calm: "calm s" and cx: "ctx_Err cx = None"
    and view: "local_view c (tree s) d v = Some info"
  shows "CompanyID info \<noteq> 0 \<Longrightarrow> local_DocumentVersionInfo c cx d v s = (Ret info, s)"
    "local_files c (tree s) d v n = Some b \<Longrightarrow> local_ReadDocumentVersionFile c cx d v n s = Inr b"
    "\<exists>vs. local_DocumentVersions c cx d s = Inr vs \<and> v \<in> set vs"
proof -
  note i = info_specD [OF local_specD(2) [OF spec] finv] and r = read_specD [OF local_specD(3) [OF spec] finv]
  note com = committed_dirs [OF spec finv view]
  obtain b' where b': "tree s (versionInfoFile c d v) = Some (File b')" "Unmarshal_VersionInfo (lcodec c) b' = Inr info"
    using com(4) by blast
  show "local_DocumentVersionInfo c cx d v s = (Ret info, s)" if "CompanyID info \<noteq> 0"
    using com(1,3) b'(2) that r(8) [OF calm cx b'(1)] cx
    by (simp add: local_DocumentVersionInfo_def documentVersionInfo_def readAndFix_eq VersionTime_Validate_def IsZero_def)
  show "local_ReadDocumentVersionFile c cx d v n s = Inr b" if f: "local_files c (tree s) d v n = Some b"
  proof -
    have t: "tree s (versionDirName c d v @ [n]) = Some (File b)"
      using f by (auto simp: dir_files_def split: option.splits node.splits)
    then have "plain_name n" using tree_okD(3) [OF i(1)] by blast
    then have p: "fs_Join (lib c) (versionDirName c d v) n = versionDirName c d v @ [n]"
      by (rule names_specD(1) [OF local_specD(1) [OF spec]])
    show ?thesis
      using com(1,2) cx r(8) [OF calm cx t] i(2) t
      by (simp add: local_ReadDocumentVersionFile_def documentAndVersionDir_def p)
  qed
  have dir: "tree s (documentDir c d) = Some Dir" using com(1) i(3) by simp
  from documentVersions_calm [OF spec finv calm dir] obtain vs where "documentVersions c d s = Inr vs" by blast
  with documentVersions_listed [OF spec finv this, of v] view cx
  show "\<exists>vs. local_DocumentVersions c cx d s = Inr vs \<and> v \<in> set vs" by (simp add: local_DocumentVersions_def)
qed

end
