(* ===== verification/LocalMem.thy ===== *)
theory LocalMem
  imports LocalCreate Instances
begin

text \<open>
  A file system in memory and a codec, concrete values of the parameters of the
  file-system connection that meet their specifications.
\<close>

section \<open>The file system\<close>

type_synonym mem_state = "(fpath, node) gomap"

definition mem_err :: err where
  "mem_err = OtherErr ''file system''"

definition mem_join :: "fpath \<Rightarrow> string \<Rightarrow> fpath" where
  "mem_join p n = (if plain_name n then p @ [n] else p)"

definition mem_id :: "uuid \<Rightarrow> string" where
  "mem_id d = CHR ''c'' # replicate (unat d) (CHR ''a'')"

definition mem_info :: "fpath \<Rightarrow> mem_state \<Rightarrow> file_status" where
  "mem_info p s =
     (let x = map_of s p
      in \<lparr>st_Exists = x \<noteq> None, st_IsDir = x = Some Dir, st_IsRegular = x \<noteq> None \<and> x \<noteq> Some Dir,
          st_IsHidden = p \<noteq> [] \<and> prefix ''.'' (last p),
          st_Size = (case x of Some (File b) \<Rightarrow> int (length b) | _ \<Rightarrow> 0)\<rparr>)"

definition mem_names :: "fpath \<Rightarrow> mem_state \<Rightarrow> string list" where
  "mem_names p s = map last (filter (\<lambda>q. q \<noteq> [] \<and> butlast q = p) (map fst s))"

definition mem_list :: "fpath \<Rightarrow> mem_state \<Rightarrow> err + string list" where
  "mem_list p s = (if map_of s p = Some Dir then Inr (mem_names p s) else Inl mem_err)"

definition mem_read :: "fpath \<Rightarrow> mem_state \<Rightarrow> err + bytes" where
  "mem_read p s = (case map_of s p of Some (File b) \<Rightarrow> Inr b | Some Dir \<Rightarrow> Inl mem_err | None \<Rightarrow> Inl OsErrNotExist)"

definition mem_write :: "fpath \<Rightarrow> bytes \<Rightarrow> mem_state \<Rightarrow> err option \<times> mem_state" where
  "mem_write p b s =
     (if p \<noteq> [] \<and> plain_name (last p) \<and> map_of s (butlast p) = Some Dir \<and> map_of s p \<noteq> Some Dir
      then (None, AList.update p (File b) s) else (Some mem_err, s))"

definition mem_copy :: "file_reader \<Rightarrow> fpath \<Rightarrow> mem_state \<Rightarrow> err option \<times> mem_state" where
  "mem_copy r dir s = (case FileData r of Inl e \<Rightarrow> (Some e, s) | Inr b \<Rightarrow> mem_write (dir @ [FileName r]) b s)"

definition mem_mkdir :: "fpath \<Rightarrow> mem_state \<Rightarrow> err option \<times> mem_state" where
  "mem_mkdir p s =
     (if p \<noteq> [] \<and> plain_name (last p) \<and> map_of s (butlast p) = Some Dir \<and> map_of s p = None
      then (None, AList.update p Dir s) else (Some mem_err, s))"

definition mem_mkdirs :: "fpath \<Rightarrow> mem_state \<Rightarrow> err option \<times> mem_state" where
  "mem_mkdirs p s =
     (if plain_path p \<and> list_all (\<lambda>q. map_of s q = None \<or> map_of s q = Some Dir) (prefixes p)
      then (None, put_all id (\<lambda>_. Dir) (prefixes p) s) else (Some mem_err, s))"

definition mem_remove :: "fpath \<Rightarrow> mem_state \<Rightarrow> err option \<times> mem_state" where
  "mem_remove p s = (case map_of s p of Some (File b) \<Rightarrow> (None, AList.delete p s) | _ \<Rightarrow> (Some mem_err, s))"

definition mem_rmtree :: "fpath \<Rightarrow> mem_state \<Rightarrow> err option \<times> mem_state" where
  "mem_rmtree p s = (if p = [] \<or> map_of s p = None then (Some mem_err, s) else (None, filter (\<lambda>(q, x). \<not> prefix p q) s))"

definition mem_enum :: "fpath \<Rightarrow> mem_state \<Rightarrow> err + uuid list" where
  "mem_enum p s =
     Inr (map (\<lambda>n. of_nat (length n - 1))
       (filter (\<lambda>n. mem_id (of_nat (length n - 1)) = n \<and> map_of s (p @ [n]) = Some Dir) (mem_names p s)))"

definition mem_fsys :: "mem_state fsys" where
  "mem_fsys =
     \<lparr>fs_Join = mem_join, fs_IsLocal = (\<lambda>_. True), fs_Info = mem_info, fs_ListDir = (\<lambda>_. mem_list),
      fs_ReadAll = (\<lambda>_. mem_read), fs_WriteAll = (\<lambda>_. mem_write), fs_CopyFile = (\<lambda>_. mem_copy),
      fs_MakeDir = mem_mkdir, fs_MakeAllDirs = mem_mkdirs, fs_Remove = mem_remove, fs_RemoveRecursive = mem_rmtree,
      uuiddir_Join = (\<lambda>p d. p @ [mem_id d]), uuiddir_Enum = (\<lambda>_. mem_enum),
      uuiddir_Remove = (\<lambda>base d. mem_rmtree (base @ [mem_id d])), uuiddir_RemoveDir = (\<lambda>base p. mem_rmtree p)\<rparr>"

definition mem_inv :: "mem_state \<Rightarrow> bool" where
  "mem_inv s \<longleftrightarrow> wf_gomap s \<and> tree_ok (map_of s)"

section \<open>It meets its specification\<close>

lemma mem_id_inj [simp]: "mem_id d = mem_id d' \<longleftrightarrow> d = d'"
proof
  assume "mem_id d = mem_id d'"
  then have "length (mem_id d) = length (mem_id d')" by simp
  then show "d = d'" by (simp add: mem_id_def word_unat_eq_iff)
qed simp

lemma plain_mem_id [simp]: "plain_name (mem_id d)"
  by (auto simp: plain_name_def mem_id_def)

lemma tree_ok_update:
  assumes "tree_ok t" "p \<noteq> []" "plain_name (last p)" "t (butlast p) = Some Dir" "x = Dir \<or> t p \<noteq> Some Dir"
  shows "tree_ok (t(p \<mapsto> x))"
  unfolding tree_ok_def
proof (intro conjI allI impI)
  show "(t(p \<mapsto> x)) [] = Some Dir" using assms(1,2) by (simp add: tree_okD)
  fix q n assume q: "(t(p \<mapsto> x)) (q @ [n]) \<noteq> None"
  have p: "q @ [n] = p \<Longrightarrow> butlast p = q \<and> last p = n" by auto
  have par: "t q = Some Dir \<and> plain_name n"
    using q assms(3,4) p tree_okD(2,3) [OF assms(1), of q n] by (cases "q @ [n] = p") auto
  then show "plain_name n" by simp
  show "(t(p \<mapsto> x)) q = Some Dir"
  proof (cases "q = p")
    case True
    then have "x = Dir" using par assms(5) by simp
    with True show ?thesis by simp
  qed (use par in simp)
qed

lemma mem_update_inv:
  "mem_inv s \<Longrightarrow> p \<noteq> [] \<Longrightarrow> plain_name (last p) \<Longrightarrow> map_of s (butlast p) = Some Dir \<Longrightarrow> x = Dir \<or> map_of s p \<noteq> Some Dir
     \<Longrightarrow> mem_inv (AList.update p x s)"
  by (simp add: mem_inv_def tree_ok_update del: fun_upd_apply)

lemma map_of_put_dirs: "map_of (put_all id (\<lambda>_. Dir) ps s) q = (if q \<in> set ps then Some Dir else map_of s q)"
  by (induction ps arbitrary: s) auto

lemma tree_ok_dirs:
  assumes "tree_ok t" "plain_path p"
  shows "tree_ok (\<lambda>q. if prefix q p then Some Dir else t q)"
  unfolding tree_ok_def
proof (intro conjI allI impI)
  fix q n assume q: "(if prefix (q @ [n]) p then Some Dir else t (q @ [n])) \<noteq> None"
  show "(if prefix q p then Some Dir else t q) = Some Dir"
    using q tree_okD(2) [OF assms(1), of q n] by (auto split: if_splits dest: append_prefixD)
  show "plain_name n"
    using q tree_okD(3) [OF assms(1), of q n] assms(2) by (auto simp: prefix_def plain_path_def split: if_splits)
qed simp

lemma map_of_rmtree: "map_of (filter (\<lambda>(q, x). \<not> prefix p q) s) q = (if prefix p q then None else map_of s q)"
  using map_of_filter_keys [of "\<lambda>q. \<not> prefix p q" s q] by simp

lemma tree_ok_rmtree:
  assumes "tree_ok t" "p \<noteq> []"
  shows "tree_ok (\<lambda>q. if prefix p q then None else t q)"
  unfolding tree_ok_def
proof (intro conjI allI impI)
  show "(if prefix p [] then None else t []) = Some Dir" using assms by (simp add: tree_okD)
  fix q n assume q: "(if prefix p (q @ [n]) then None else t (q @ [n])) \<noteq> None"
  then show "(if prefix p q then None else t q) = Some Dir" "plain_name n"
    using tree_okD(2,3) [OF assms(1), of q n] by (auto split: if_splits)
qed

lemma tree_ok_remove:
  assumes "tree_ok t" "t p = Some (File b)"
  shows "tree_ok (t(p := None))"
  unfolding tree_ok_def
proof (intro conjI allI impI)
  show "(t(p := None)) [] = Some Dir" using assms tree_okD(1) [OF assms(1)] by auto
  fix q n assume "(t(p := None)) (q @ [n]) \<noteq> None"
  then have "t (q @ [n]) \<noteq> None" by (auto split: if_splits)
  then have "t q = Some Dir" "plain_name n" using tree_okD(2,3) [OF assms(1), of q n] by auto
  then show "(t(p := None)) q = Some Dir" "plain_name n" using assms(2) by auto
qed

lemma wf_filter_keys: "wf_gomap s \<Longrightarrow> wf_gomap (filter (\<lambda>(q, x). P q) s)"
  by (induction s) auto

lemma mem_names_iff:
  assumes "mem_inv s"
  shows "set (mem_names p s) = {n. map_of s (p @ [n]) \<noteq> None}" "distinct (mem_names p s)"
proof -
  have "n \<in> set (mem_names p s) \<longleftrightarrow> p @ [n] \<in> fst ` set s" for n
    by (force simp: mem_names_def image_iff)
  then show "set (mem_names p s) = {n. map_of s (p @ [n]) \<noteq> None}" by (auto simp: map_of_eq_None_iff)
  have "inj_on last (set (filter (\<lambda>q. q \<noteq> [] \<and> butlast q = p) (map fst s)))"
    by (rule inj_onI) (clarsimp, metis append_butlast_last_id)
  then show "distinct (mem_names p s)"
    using assms unfolding mem_names_def mem_inv_def by (simp add: distinct_map)
qed

lemma mem_names_spec: "names_spec mem_fsys"
  by (auto simp: names_spec_def mem_fsys_def mem_join_def)

lemma mem_info_spec: "info_spec mem_fsys map_of mem_inv"
  by (simp add: info_spec_def mem_fsys_def mem_info_def mem_inv_def Let_def)

lemma mem_id_length: "mem_id (of_nat (length (mem_id d) - 1)) = mem_id d"
  by (simp add: mem_id_def)

lemma mem_enum_iff:
  assumes "mem_inv s" "mem_enum p s = Inr ids"
  shows "set ids = {d. map_of s (p @ [mem_id d]) = Some Dir}" "distinct ids"
proof -
  let ?f = "\<lambda>n. of_nat (length n - 1) :: uuid"
  let ?ns = "filter (\<lambda>n. mem_id (?f n) = n \<and> map_of s (p @ [n]) = Some Dir) (mem_names p s)"
  have ids: "ids = map ?f ?ns" using assms(2) by (simp add: mem_enum_def)
  note n = mem_names_iff [OF assms(1), of p]
  have f: "?f (mem_id d) = d" for d by (simp add: mem_id_def)
  show "set ids = {d. map_of s (p @ [mem_id d]) = Some Dir}"
  proof (rule set_eqI)
    fix d
    have "d \<in> set ids \<longleftrightarrow> mem_id d \<in> set ?ns"
      using f by (auto simp: ids image_iff)
    then show "d \<in> set ids \<longleftrightarrow> d \<in> {d. map_of s (p @ [mem_id d]) = Some Dir}" using n(1) f by auto
  qed
  have "inj_on ?f (set ?ns)"
  proof (rule inj_onI)
    fix n n' assume "n \<in> set ?ns" "n' \<in> set ?ns" and eq: "?f n = ?f n'"
    then have m: "mem_id (?f n) = n" "mem_id (?f n') = n'" by (simp_all only: set_filter mem_Collect_eq)
    have "n = mem_id (?f n)" by (rule m(1) [symmetric])
    also have "\<dots> = mem_id (?f n')" by (rule arg_cong [OF eq])
    also have "\<dots> = n'" by (rule m(2))
    finally show "n = n'" .
  qed
  then show "distinct ids" using n(2) by (simp add: ids distinct_map)
qed

lemma mem_read_spec: "read_spec mem_fsys map_of mem_inv (\<lambda>_. True)"
  unfolding read_spec_def
  using mem_names_iff mem_enum_iff
  by (auto simp: mem_fsys_def mem_list_def mem_read_def split: if_splits option.splits node.splits)

lemma effect_mem:
  assumes "\<And>s e s'. m s = (e, s') \<Longrightarrow> mem_inv s \<Longrightarrow>
      mem_inv s' \<and> (if e = None then Good (map_of s) (map_of s') else Bad (map_of s) (map_of s'))"
  shows "effect map_of mem_inv (\<lambda>_. True) m Good Bad"
  using assms unfolding effect_def by (metis option.distinct(1))

lemma mem_write_effect: "effect map_of mem_inv (\<lambda>_. True) (mem_write p b) (put_file p b) (part_file p b)"
  by (rule effect_mem) (auto simp: mem_write_def put_file_def part_file_def mem_update_inv split: if_splits)

lemma mem_copy_effect: "effect map_of mem_inv (\<lambda>_. True) (mem_copy r dir) (copy_good r dir) (copy_bad r dir)"
  by (rule effect_mem)
    (auto simp: mem_copy_def mem_write_def copy_good_def copy_bad_def put_file_def some_file_def mem_update_inv
      split: if_splits sum.splits)

lemma mem_mkdir_effect: "effect map_of mem_inv (\<lambda>_. True) (mem_mkdir p) (put_dir p) (part_dir p)"
  by (rule effect_mem) (auto simp: mem_mkdir_def put_dir_def part_dir_def mem_update_inv split: if_splits)

lemma mem_mkdirs_effect: "effect map_of mem_inv (\<lambda>_. True) (mem_mkdirs p) (put_dirs p) (part_dirs p)"
proof (rule effect_mem)
  fix s e s' assume run: "mem_mkdirs p s = (e, s')" and inv: "mem_inv s"
  show "mem_inv s' \<and> (if e = None then put_dirs p (map_of s) (map_of s') else part_dirs p (map_of s) (map_of s'))"
  proof (cases "plain_path p \<and> list_all (\<lambda>q. map_of s q = None \<or> map_of s q = Some Dir) (prefixes p)")
    case True
    then have s': "e = None" "s' = put_all id (\<lambda>_. Dir) (prefixes p) s" using run by (auto simp: mem_mkdirs_def)
    have t: "map_of s' = (\<lambda>q. if prefix q p then Some Dir else map_of s q)" by (simp add: s'(2) map_of_put_dirs fun_eq_iff)
    have "tree_ok (map_of s')" unfolding t by (rule tree_ok_dirs) (use inv True in \<open>simp_all add: mem_inv_def\<close>)
    moreover have "wf_gomap s'" using inv by (simp add: s'(2) mem_inv_def)
    ultimately show ?thesis using True s'(1) by (auto simp: mem_inv_def put_dirs_def t list_all_iff)
  next
    case False
    then have "e \<noteq> None" "s' = s" using run by (auto simp: mem_mkdirs_def split: if_splits)
    then show ?thesis using inv by (auto simp: part_dirs_def)
  qed
qed

lemma mem_write_spec: "write_spec mem_fsys map_of mem_inv (\<lambda>_. True)"
  by (simp add: write_spec_def mem_fsys_def mem_write_effect mem_copy_effect mem_mkdir_effect mem_mkdirs_effect)

lemma mem_rmtree_inv: "mem_rmtree p s = (e, s') \<Longrightarrow> mem_inv s \<Longrightarrow>
    mem_inv s' \<and> (if e = None then \<forall>q. map_of s' q = (if prefix p q then None else map_of s q) else s' = s)"
proof (cases "p = [] \<or> map_of s p = None")
  case False
  assume run: "mem_rmtree p s = (e, s')" and inv: "mem_inv s"
  then have s': "e = None" "s' = filter (\<lambda>(q, x). \<not> prefix p q) s" using False by (auto simp: mem_rmtree_def)
  have t: "map_of s' = (\<lambda>q. if prefix p q then None else map_of s q)" by (simp add: s'(2) map_of_rmtree fun_eq_iff)
  have "tree_ok (map_of s')" unfolding t by (rule tree_ok_rmtree) (use inv False in \<open>simp_all add: mem_inv_def\<close>)
  moreover have "wf_gomap s'" using inv wf_filter_keys [of s "\<lambda>q. \<not> prefix p q"] by (simp add: s'(2) mem_inv_def)
  ultimately show ?thesis using s'(1) by (simp add: mem_inv_def t)
qed (auto simp: mem_rmtree_def)

lemma mem_rmtree_effect:
  assumes "\<And>t t'. \<forall>q. t' q = (if prefix p q then None else t q) \<Longrightarrow> Good t t'" "\<And>t. Bad t t"
  shows "effect map_of mem_inv (\<lambda>_. True) (mem_rmtree p) Good Bad"
proof (rule effect_mem)
  fix s e s' assume "mem_rmtree p s = (e, s')" "mem_inv s"
  from mem_rmtree_inv [OF this] assms show "mem_inv s' \<and> (if e = None then Good (map_of s) (map_of s') else Bad (map_of s) (map_of s'))"
    by (cases e) auto
qed

lemma mem_remove_effect: "effect map_of mem_inv (\<lambda>_. True) (mem_remove p) (del_node p) (=)"
proof (rule effect_mem)
  fix s e s' assume run: "mem_remove p s = (e, s')" and inv: "mem_inv s"
  show "mem_inv s' \<and> (if e = None then del_node p (map_of s) (map_of s') else map_of s = map_of s')"
  proof (cases "\<exists>b. map_of s p = Some (File b)")
    case True
    then obtain b where b: "map_of s p = Some (File b)" by blast
    then have s': "e = None" "s' = AList.delete p s" using run by (auto simp: mem_remove_def)
    have "tree_ok (map_of s')" unfolding s'(2) map_of_delete
      by (rule tree_ok_remove [where t = "map_of s" and b = b]) (use inv b in \<open>simp_all add: mem_inv_def\<close>)
    then show ?thesis using s' inv by (simp add: mem_inv_def del_node_def)
  qed (use run inv in \<open>auto simp: mem_remove_def split: option.splits node.splits\<close>)
qed

lemma mem_remove_spec: "remove_spec mem_fsys map_of mem_inv (\<lambda>_. True)"
proof -
  have tr: "effect map_of mem_inv (\<lambda>_. True) (mem_rmtree p) (del_tree p) (part_del_tree p)"
    "effect map_of mem_inv (\<lambda>_. True) (mem_rmtree p) (del_id base p) (part_del_id base p)" for base p
    by (rule mem_rmtree_effect; simp add: effects)+
  show ?thesis
    unfolding remove_spec_def
    by (simp add: mem_fsys_def mem_remove_effect tr) (auto simp: mem_remove_def mem_rmtree_def)
qed

lemma mem_fsys_spec: "fsys_spec mem_fsys map_of mem_inv (\<lambda>_. True)"
  by (simp add: fsys_spec_def mem_names_spec mem_info_spec mem_read_spec mem_write_spec mem_remove_spec)

end
