(* ===== verification/MemCodec.thy ===== *)
theory MemCodec
  imports LocalMem
begin

text \<open>
  A codec for the metadata of a version that meets its specification, and a file-system
  connection over the file system in memory. Ids, lengths and sizes below 256 are encoded,
  others are refused.
\<close>

section \<open>Frames and chunks\<close>

text \<open>The length in front of a body, in unary: a text that was cut off is refused.\<close>

definition frame :: "bytes \<Rightarrow> bytes" where
  "frame b = replicate (length b) 1 @ 0 # b"

definition unframe :: "bytes \<Rightarrow> bytes option" where
  "unframe b =
     (let n = length (takeWhile (\<lambda>w. w = 1) b); body = drop (n + 1) b
      in if length body = n \<and> n < length b then Some body else None)"

lemma takeWhile_frame: "takeWhile (\<lambda>w. w = 1) (replicate k (1 :: 8 word) @ 0 # b) = replicate k 1"
  by (induction k) simp_all

lemma unframe_frame [simp]: "unframe (frame b) = Some b"
  by (simp add: unframe_def frame_def Let_def takeWhile_frame)

lemma unframe_take: "n < length (frame b) \<Longrightarrow> unframe (take n (frame b)) = None"
proof -
  assume n: "n < length (frame b)"
  show ?thesis
  proof (cases "n \<le> length b")
    case True
    then have "take n (frame b) = replicate n 1" by (simp add: frame_def)
    moreover have "takeWhile (\<lambda>w. w = 1) (replicate n (1 :: 8 word)) = replicate n 1" by (induction n) simp_all
    ultimately show ?thesis by (simp add: unframe_def Let_def)
  next
    case False
    define k where "k = n - length b - 1"
    with False have k: "n = length b + 1 + k" by simp
    then have "take n (frame b) = replicate (length b) 1 @ 0 # take k b" by (simp add: frame_def)
    moreover have "k < length b" using n k by (simp add: frame_def)
    ultimately show ?thesis by (simp add: unframe_def Let_def takeWhile_frame)
  qed
qed

text \<open>A list of strings, each behind its length.\<close>

fun chunks :: "string list \<Rightarrow> bytes" where
  "chunks [] = []"
| "chunks (x # xs) = of_nat (length x) # map of_char x @ chunks xs"

function unchunks :: "bytes \<Rightarrow> string list" where
  "unchunks [] = []"
| "unchunks (w # b) = bytes_string (take (unat w) b) # unchunks (drop (unat w) b)"
  by pat_completeness auto

termination
  by (relation "measure length") auto

lemma unchunks_chunks [simp]: "\<forall>x\<in>set xs. length x < 256 \<Longrightarrow> unchunks (chunks xs) = xs"
proof (induction xs)
  case (Cons x xs)
  then have "unat (of_nat (length x) :: 8 word) = length x" by (simp add: unat_of_nat)
  with Cons show ?case by simp
qed simp

section \<open>Metadata as strings\<close>

definition num :: "nat \<Rightarrow> string" where
  "num n = [char_of n]"

definition unnum :: "string \<Rightarrow> nat" where
  "unnum x = (case x of [] \<Rightarrow> 0 | c # _ \<Rightarrow> of_char c)"

lemma unnum_num [simp]: "n < 256 \<Longrightarrow> unnum (num n) = n"
  by (simp add: unnum_def num_def)

fun file_strings :: "(string \<times> file_info) list \<Rightarrow> string list" where
  "file_strings [] = []"
| "file_strings ((k, fi) # m) = k # Name fi # num (nat (Size fi)) # Hash fi # file_strings m"

fun strings_files :: "string list \<Rightarrow> (string \<times> file_info) list" where
  "strings_files (k # n # z # h # xs) = (k, \<lparr>Name = n, Size = int (unnum z), Hash = h\<rparr>) # strings_files xs"
| "strings_files _ = []"

definition info_strings :: "version_info \<Rightarrow> string list" where
  "info_strings info =
     num (unat (CompanyID info)) # num (unat (DocID info)) # VersionTime_String (Version info)
     # (case PrevVersion info of None \<Rightarrow> [] | Some p \<Rightarrow> VersionTime_String p)
     # num (unat (CommitUserID info)) # CommitReason info
     # num (length (AddedFiles info)) # num (length (RemovedFiles info)) # num (length (ModifiedFiles info))
     # AddedFiles info @ RemovedFiles info @ ModifiedFiles info @ file_strings (Files info)"

fun strings_info :: "string list \<Rightarrow> err + version_info \<times> string option" where
  "strings_info (c # d # v # p # u # r # a # q # m # xs) =
     (case VersionTimeFromString v of
        Inl e \<Rightarrow> Inl e
      | Inr version \<Rightarrow>
          (let ys = drop (unnum a) xs; zs = drop (unnum q) ys
           in Inr (\<lparr>CompanyID = of_nat (unnum c), DocID = of_nat (unnum d), Version = version, PrevVersion = None,
                    CommitUserID = of_nat (unnum u), CommitReason = r, Files = strings_files (drop (unnum m) zs),
                    AddedFiles = take (unnum a) xs, RemovedFiles = take (unnum q) ys, ModifiedFiles = take (unnum m) zs\<rparr>,
                  if p = [] then None else Some p)))"
| "strings_info _ = Inl (OtherErr ''decode'')"

definition encodable :: "version_info \<Rightarrow> bool" where
  "encodable info \<longleftrightarrow>
     list_all (\<lambda>k. unat k < 256) [CompanyID info, DocID info, CommitUserID info]
     \<and> list_all (\<lambda>xs. length xs < 256) [AddedFiles info, RemovedFiles info, ModifiedFiles info]
     \<and> list_all (\<lambda>(k, fi). 0 \<le> Size fi \<and> Size fi < 256) (Files info) \<and> wf_gomap (Files info)
     \<and> list_all (\<lambda>x. length x < 256) (info_strings info)"

lemma strings_files_inverse [simp]:
  "list_all (\<lambda>(k, fi). 0 \<le> Size fi \<and> Size fi < 256) m \<Longrightarrow> strings_files (file_strings m) = m"
  by (induction m rule: file_strings.induct) (auto simp: nat_less_iff)

lemma strings_info_inverse:
  assumes "encodable info"
  shows "strings_info (info_strings info) =
    (case VersionTimeFromString (VersionTime_String (Version info)) of
       Inl e \<Rightarrow> Inl e
     | Inr v \<Rightarrow> Inr (info\<lparr>Version := v, PrevVersion := None\<rparr>, map_option VersionTime_String (PrevVersion info)))"
  using assms
  by (cases info) (auto simp: info_strings_def encodable_def Let_def split: sum.split option.splits)

section \<open>The codec\<close>

definition mem_codec :: codec where
  "mem_codec =
     \<lparr>IDFromString = (\<lambda>n. if mem_id (of_nat (length n - 1)) = n then Inr (of_nat (length n - 1)) else Inl (OtherErr ''uu.ID'')),
      json_VersionInfo = (\<lambda>info. if encodable info then Inr (frame (chunks (info_strings info))) else Inl (OtherErr ''encode'')),
      json_Alias = (\<lambda>b. case unframe b of None \<Rightarrow> Inl (OtherErr ''decode'') | Some body \<Rightarrow> strings_info (unchunks body)),
      json_companyId = (\<lambda>b. Inl (OtherErr ''decode''))\<rparr>"

definition local_ext :: ext where
  "local_ext = mem_ext\<lparr>ID_String := mem_id\<rparr>"

lemma mem_codec_spec: "codec_spec mem_codec local_ext"
  unfolding codec_spec_def
proof (intro conjI allI impI)
  fix info b assume b: "json_VersionInfo mem_codec info = Inr b"
  then have ok: "encodable info" "b = frame (chunks (info_strings info))"
    by (auto simp: mem_codec_def split: if_splits)
  have "\<forall>x\<in>set (info_strings info). length x < 256" using ok(1) by (simp add: encodable_def list_all_iff)
  then have "json_Alias mem_codec b = strings_info (info_strings info)" by (simp add: mem_codec_def ok(2))
  then show "case VersionTimeFromString (VersionTime_String (Version info)) of
      Inl e \<Rightarrow> \<exists>e. json_Alias mem_codec b = Inl e
    | Inr v \<Rightarrow> \<exists>files. json_Alias mem_codec b =
        Inr (info\<lparr>Version := v, PrevVersion := None, Files := files\<rparr>, map_option VersionTime_String (PrevVersion info))
        \<and> map_of files = map_of (Files info) \<and> wf_gomap files"
    using ok(1) by (auto simp: strings_info_inverse encodable_def split: sum.split intro!: exI [of _ "Files info"])
  show "\<exists>e. json_Alias mem_codec (take n b) = Inl e" if "n < length b" for n
    using unframe_take [of n "chunks (info_strings info)"] that by (simp add: mem_codec_def ok(2))
next
  show "IDFromString mem_codec (ID_String local_ext k) = Inr k" for k
    by (simp add: mem_codec_def local_ext_def mem_id_def)
qed

section \<open>A connection\<close>

definition mem_local :: "mem_state local_conn" where
  "mem_local = \<lparr>lib = mem_fsys, lext = local_ext, lcodec = mem_codec, documentsDir = [''docs''], companiesDir = [''comps'']\<rparr>"

definition mem_start :: mem_state where
  "mem_start = [([], Dir), ([''docs''], Dir), ([''comps''], Dir)]"

lemma mem_local_spec [simp]: "local_spec mem_local map_of mem_inv (\<lambda>_. True)"
proof -
  have "plain_name ''docs''" "plain_name ''comps''" by (simp_all add: plain_name_def)
  moreover have "inj mem_id" by (simp add: inj_def)
  ultimately show ?thesis
    by (simp add: local_spec_def mem_local_def local_layout_def mem_fsys_spec mem_codec_spec local_ext_def [symmetric])
      (simp add: local_ext_def parallel_def)
qed

lemma mem_start_ok [simp]: "mem_inv mem_start"
proof -
  have "tree_ok (map_of mem_start)"
    unfolding tree_ok_def by (auto simp: mem_start_def plain_name_def split: if_splits)
  then show ?thesis by (simp add: mem_inv_def mem_start_def)
qed

lemma mem_start_inv: "local_inv mem_local map_of mem_inv (\<lambda>_. True) mem_start"
proof -
  have "map_of mem_start (versionInfoFile mem_local d v) = None" for d v
    by (simp add: local_paths(1,3) [OF mem_local_spec] mem_start_def)
  then show ?thesis by (simp add: local_inv_def infos_ok_def stored_info_def)
qed

end
