(* ===== verification/LocalProps.thy ===== *)
theory LocalProps
  imports LocalDelete MemCodec
begin

text \<open>
  The properties of the file-system connection, each with a run on the file system in
  memory.
\<close>

section \<open>The invariant\<close>

lemma keeps_infosD: "steps (keeps_infos c tree finv calm) s s' \<Longrightarrow> local_inv c tree finv calm s \<Longrightarrow> local_inv c tree finv calm s'"
  by (simp add: steps_def keeps_infos_def)

lemma local_inv_CreateDocument:
  assumes inv: "local_inv c tree finv calm s" and names: "\<forall>f\<in>set files. local_name (FileName f)"
    and run: "local_CreateDocument c cx k d userID reason v files onNewVersion s = (r, s')"
  shows "local_inv c tree finv calm s'"
proof -
  have "steps (keeps_infos c tree finv calm) s (snd (local_CreateDocument c cx k d userID reason v files onNewVersion s))"
    by (rule steps_CreateDocument [OF step_rel_keeps_infos keeps_infos_document_calls [OF local_invD(1) [OF inv]] names])
  from keeps_infosD [OF this inv] show ?thesis by (simp add: run)
qed

lemma local_inv_AddDocumentVersion:
  assumes inv: "local_inv c tree finv calm s" and res: "local_results createVersion"
    and run: "local_AddDocumentVersion c cx d userID reason createVersion onNewVersion s = (r, s')"
  shows "local_inv c tree finv calm s'"
proof -
  have "steps (keeps_infos c tree finv calm) s (snd (local_AddDocumentVersion c cx d userID reason createVersion onNewVersion s))"
    by (rule steps_AddDocumentVersion [OF step_rel_keeps_infos keeps_infos_document_calls [OF local_invD(1) [OF inv]]
        local_invD(1) [OF inv] res])
  from keeps_infosD [OF this inv] show ?thesis by (simp add: run)
qed

lemma local_inv_DeleteDocumentVersion:
  assumes inv: "local_inv c tree finv calm s" and run: "local_DeleteDocumentVersion c cx d v s = (r, s')"
  shows "local_inv c tree finv calm s'"
proof -
  have "steps (keeps_infos c tree finv calm) s (snd (local_DeleteDocumentVersion c cx d v s))"
    by (rule steps_DeleteDocumentVersion [OF step_rel_keeps_infos keeps_infos_document_calls [OF local_invD(1) [OF inv]]])
  from keeps_infosD [OF this inv] show ?thesis by (simp add: run)
qed

section \<open>A run in memory\<close>

definition mem_time :: version_time where
  "mem_time = VersionTime 63000000000000000000"

definition mem_later :: version_time where
  "mem_later = VersionTime 63000000001000000000"

definition mem_create :: "on_new_version_func \<Rightarrow> mem_state \<Rightarrow> unit outcome \<times> mem_state" where
  "mem_create onNew = local_CreateDocument mem_local calm_ctx 1 2 3 ''new'' mem_time [NewMemFile ''a'' [7]] (Some onNew)"

definition mem_add :: "on_new_version_func \<Rightarrow> mem_state \<Rightarrow> version_info outcome \<times> mem_state" where
  "mem_add onNew = local_AddDocumentVersion mem_local calm_ctx 2 3 ''more''
     (Some (CreateVersionWriteFiles (Time mem_later) [Some (NewMemFile ''b'' [8])])) (Some onNew)"

definition mem_one :: mem_state where
  "mem_one = snd (mem_create (\<lambda>_. Ret ()) mem_start)"

lemma mem_create_runs: "mem_create (\<lambda>_. Ret ()) mem_start = (Ret (), mem_one)"
proof -
  have "fst (mem_create (\<lambda>_. Ret ()) mem_start) = Ret ()" by code_simp
  then show ?thesis by (simp add: mem_one_def prod_eq_iff)
qed

text \<open>The entries of \<open>mem_one\<close>, by which it is evaluated.\<close>

lemma mem_one_entries [code]:
  "mem_one =
     [([], Dir), ([''docs''], Dir), ([''comps''], Dir), ([''docs'', ''caa''], Dir),
      ([''docs'', ''caa'', ''1997-05-23_16-00-00.000''], Dir), ([''docs'', ''caa'', ''company.id''], File [99, 97]),
      ([''comps'', ''ca''], Dir), ([''comps'', ''ca'', ''caa''], Dir),
      ([''docs'', ''caa'', ''1997-05-23_16-00-00.000'', ''a''], File [7]),
      ([''docs'', ''caa'', ''1997-05-23_16-00-00.000.json''], File (replicate 114 1 @
         [0, 1, 1, 1, 2, 23, 49, 57, 57, 55, 45, 48, 53, 45, 50, 51, 95, 49, 54, 45, 48, 48, 45, 48, 48, 46, 48, 48, 48,
          0, 1, 3, 3, 110, 101, 119, 1, 1, 1, 0, 1, 0, 1, 97, 1, 97, 1, 97, 1, 1, 64, 55] @ replicate 63 48))]"
  by code_simp

lemma mem_file_name [simp]: "local_name ''a''" "local_name ''b''"
  by (simp_all add: local_name_def plain_name_def)

lemma mem_one_inv: "local_inv mem_local map_of mem_inv (\<lambda>_. True) mem_one"
  by (rule local_inv_CreateDocument [OF mem_start_inv _ mem_create_runs [unfolded mem_create_def]]) (simp add: NewMemFile_def)

lemma mem_add_local: "local_results (Some (CreateVersionWriteFiles (Time mem_later) [Some (NewMemFile ''b'' [8])]))"
  by (simp add: local_results_def CreateVersionWriteFiles_def write_readers_def NewMemFile_def)

lemma mem_add_runs: "\<exists>info s'. mem_add (\<lambda>_. Ret ()) mem_one = (Ret info, s') \<and> Version info = mem_later"
proof -
  have "(case fst (mem_add (\<lambda>_. Ret ()) mem_one) of Ret info \<Rightarrow> Version info = mem_later | _ \<Rightarrow> False)" by code_simp
  then show ?thesis by (cases "mem_add (\<lambda>_. Ret ()) mem_one") (auto split: outcome.splits)
qed

section \<open>CreateDocument\<close>

text \<open>C12: \<open>CreateDocument\<close> of the file-system connection that returns without error has committed exactly one
  version of a document that had no directory: its metadata has the given company, user, reason and time, no
  predecessor, an entry with the size and the content hash of each file, and all files as added; its directory holds
  the last given content of every name; \<open>company.id\<close> and the marker directory name the company; the callback has
  accepted the metadata. No version of another document changes.\<close>

theorem local_create_document_commits:
  assumes "local_inv c tree finv calm s" "\<forall>f\<in>set files. local_name (FileName f)" "readable_time (ms_trunc newVersion)"
    and "local_CreateDocument c cx companyID docID userID reason newVersion files onNewVersion s = (Ret (), s')"
  shows "\<exists>onNew info info'. onNewVersion = Some onNew \<and> files \<noteq> []
    \<and> document_written c (tree s') companyID docID userID reason newVersion files info \<and> onNew info = Ret ()
    \<and> local_view c (tree s') = put_version (local_view c (tree s)) docID newVersion info' \<and> stored_as info info'
    \<and> tree s (documentDir c docID) \<noteq> Some Dir \<and> local_view c (tree s) docID = Map.empty
    \<and> (\<forall>d v. d \<noteq> docID \<longrightarrow> local_files c (tree s') d v = local_files c (tree s) d v)
    \<and> local_inv c tree finv calm s'"
  using create_commits [OF assms] local_inv_CreateDocument [OF assms(1,2,4)] by (auto simp: fun_eq_iff)

theorem local_create_document_commits_witness:
  "\<exists>info. local_view mem_local (map_of mem_one) 2 mem_time = Some info \<and> CompanyID info = 1 \<and> CommitReason info = ''new''
     \<and> local_files mem_local (map_of mem_one) 2 mem_time = [''a'' \<mapsto> [7]]"
proof -
  have t: "ms_trunc mem_time = mem_time" "readable_time (ms_trunc mem_time)" by code_simp+
  from local_create_document_commits [OF mem_start_inv _ t(2) mem_create_runs [unfolded mem_create_def]]
  obtain info info' where w: "document_written mem_local (map_of mem_one) 1 2 3 ''new'' mem_time [NewMemFile ''a'' [7]] info"
    "local_view mem_local (map_of mem_one) = put_version (local_view mem_local (map_of mem_start)) 2 mem_time info'"
    "stored_as info info'" by (auto simp: NewMemFile_def)
  then show ?thesis
    by (auto simp: document_written_def put_version_def t(1) NewMemFile_def stored_asD)
qed

text \<open>C13: \<open>CreateDocument\<close> of the file-system connection that does not succeed, be it an early return, a failing
  write, a copy that breaks off, or a callback that fails or panics, leaves all committed versions and their files as they
  were on a file system that still serves requests, and leaves no directory of the document and no marker of it in the
  directory of the company.\<close>

theorem local_create_document_rolls_back:
  assumes "local_inv c tree finv calm s" "calm s" "\<forall>f\<in>set files. local_name (FileName f)"
    and "local_CreateDocument c cx companyID docID userID reason newVersion files onNewVersion s = (r, s')" "r \<noteq> Ret ()"
  shows "local_view c (tree s') = local_view c (tree s)
    \<and> (\<forall>d v. local_view c (tree s) d v \<noteq> None \<longrightarrow> local_files c (tree s') d v = local_files c (tree s) d v)
    \<and> (tree s (documentDir c docID) \<noteq> Some Dir \<longrightarrow> tree s' (documentDir c docID) \<noteq> Some Dir)
    \<and> (s' = s \<or> tree s' (companyDocumentDir c companyID docID) \<noteq> Some Dir)
    \<and> local_inv c tree finv calm s'"
  using failed_create_keeps [OF assms] local_inv_CreateDocument [OF assms(1,3,4)] by blast

theorem local_create_document_rolls_back_witness:
  "\<exists>s'. (\<exists>e. mem_create (\<lambda>_. Panic ''boom'') mem_start = (Fail e, s'))
     \<and> map_of s' (documentDir mem_local 2) \<noteq> Some Dir \<and> local_view mem_local (map_of s') = local_view mem_local (map_of mem_start)"
proof -
  have "(case fst (mem_create (\<lambda>_. Panic ''boom'') mem_start) of Fail e \<Rightarrow> True | _ \<Rightarrow> False)" by code_simp
  then obtain e s' where run: "mem_create (\<lambda>_. Panic ''boom'') mem_start = (Fail e, s')"
    by (cases "mem_create (\<lambda>_. Panic ''boom'') mem_start") (auto split: outcome.splits)
  from local_create_document_rolls_back [OF mem_start_inv _ _ run [unfolded mem_create_def]]
  have "local_view mem_local (map_of s') = local_view mem_local (map_of mem_start)"
    "map_of mem_start (documentDir mem_local 2) \<noteq> Some Dir \<longrightarrow> map_of s' (documentDir mem_local 2) \<noteq> Some Dir"
    by (auto simp: NewMemFile_def)
  moreover have "map_of mem_start (documentDir mem_local 2) \<noteq> Some Dir" by code_simp
  ultimately show ?thesis using run by blast
qed

section \<open>AddDocumentVersion\<close>

text \<open>C14: \<open>AddDocumentVersion\<close> of the file-system connection that returns metadata has committed exactly that version,
  and it is later than all others of the document. Its files are those of the previous version's directory that the
  result of the callback neither removes nor overwrites, overlaid by those it writes; its metadata holds their sizes
  and content hashes, the exact change lists against the previous directory, the user and the reason, and the company of
  the previous version unless the result names another one; there is a file, and they are not the same as before; the
  second callback has accepted it. The files of the other committed versions are what they were.\<close>

theorem local_add_version_commits:
  assumes "local_inv c tree finv calm s" "local_results createVersion"
    and "local_AddDocumentVersion c cx docID userID reason createVersion onNewVersion s = (Ret info, s')"
    and "Time (Version info) < year_10000"
  shows "\<exists>prev prevDir result onNew info'.
    add_reaches c cx docID userID createVersion onNewVersion s prev prevDir result onNew
    \<and> version_written c (tree s) (tree s') docID userID reason prev prevDir result info \<and> onNew info = Ret ()
    \<and> local_view c (tree s') = put_version (local_view c (tree s)) docID (Version info) info' \<and> stored_as info info'
    \<and> (\<forall>v\<in>dom (local_view c (tree s) docID). v < ms_trunc (Version info))
    \<and> (\<forall>d v. local_view c (tree s) d v \<noteq> None \<longrightarrow> local_files c (tree s') d v = local_files c (tree s) d v)
    \<and> local_inv c tree finv calm s'"
proof -
  obtain prev prevDir result onNew info' where a:
    "add_reaches c cx docID userID createVersion onNewVersion s prev prevDir result onNew"
    "version_written c (tree s) (tree s') docID userID reason prev prevDir result info" "onNew info = Ret ()"
    "local_view c (tree s') = put_version (local_view c (tree s)) docID (Version info) info'" "stored_as info info'"
    "\<And>d' w. local_view c (tree s) d' w \<noteq> None \<Longrightarrow> local_files c (tree s') d' w = local_files c (tree s) d' w"
    "\<And>w. local_view c (tree s) docID w \<noteq> None \<Longrightarrow> w \<le> Version prev"
    by (rule add_commits [OF assms]) blast
  have "ms_trunc (Version prev) = Version prev" by (rule add_reaches_latest [OF assms(1) a(1)])
  with a(1,2) have later: "Version prev < ms_trunc (Version info)"
    by (simp add: add_reaches_def version_written_def After_iff_ms_trunc)
  have "\<forall>v\<in>dom (local_view c (tree s) docID). v < ms_trunc (Version info)"
    using a(7) order_le_less_trans [OF _ later] by blast
  with a local_inv_AddDocumentVersion [OF assms(1-3)] show ?thesis by blast
qed

theorem local_add_version_commits_witness:
  "\<exists>s' info. local_view mem_local (map_of s') 2 mem_later = Some info \<and> CommitReason info = ''more''
     \<and> local_view mem_local (map_of s') 2 mem_time = local_view mem_local (map_of mem_one) 2 mem_time"
proof -
  obtain info s' where run: "mem_add (\<lambda>_. Ret ()) mem_one = (Ret info, s')" and v: "Version info = mem_later"
    using mem_add_runs by blast
  have t: "Time mem_later < year_10000" "ms_trunc mem_later = mem_later" "mem_time \<noteq> mem_later" by code_simp+
  from local_add_version_commits [OF mem_one_inv mem_add_local run [unfolded mem_add_def]] t(1) v
  obtain prev prevDir result info' where
    "version_written mem_local (map_of mem_one) (map_of s') 2 3 ''more'' prev prevDir result info"
    "local_view mem_local (map_of s') = put_version (local_view mem_local (map_of mem_one)) 2 mem_later info'"
    "stored_as info info'" by auto
  with t(2,3) show ?thesis
    by (intro exI [of _ s'] exI [of _ info']) (simp add: version_written_def put_version_def stored_asD)
qed

text \<open>C15: \<open>AddDocumentVersion\<close> of the file-system connection that does not return metadata leaves all committed versions
  and their files as they were on a file system that still serves requests: also when a callback fails or panics, when the
  new version has the files of the previous one or none, when a copy breaks off, and when its directory already
  existed.\<close>

theorem local_add_version_rolls_back:
  assumes "local_inv c tree finv calm s" "calm s" "local_results createVersion"
    and "local_AddDocumentVersion c cx docID userID reason createVersion onNewVersion s = (r, s')" "\<forall>info. r \<noteq> Ret info"
  shows "local_view c (tree s') = local_view c (tree s)
    \<and> (\<forall>d v. local_view c (tree s) d v \<noteq> None \<longrightarrow> local_files c (tree s') d v = local_files c (tree s) d v)
    \<and> local_inv c tree finv calm s'"
  using failed_add_keeps [OF assms] local_inv_AddDocumentVersion [OF assms(1,3,4)] by blast

theorem local_add_version_rolls_back_witness:
  "\<exists>s'. (\<exists>e. mem_add (\<lambda>_. Fail ErrNoChanges) mem_one = (Fail e, s'))
     \<and> local_view mem_local (map_of s') = local_view mem_local (map_of mem_one)"
proof -
  have "(case fst (mem_add (\<lambda>_. Fail ErrNoChanges) mem_one) of Fail e \<Rightarrow> True | _ \<Rightarrow> False)" by code_simp
  then obtain e s' where run: "mem_add (\<lambda>_. Fail ErrNoChanges) mem_one = (Fail e, s')"
    by (cases "mem_add (\<lambda>_. Fail ErrNoChanges) mem_one") (auto split: outcome.splits)
  from local_add_version_rolls_back [OF mem_one_inv _ mem_add_local run [unfolded mem_add_def]] run show ?thesis by blast
qed

section \<open>DeleteDocumentVersion\<close>

text \<open>C16: \<open>DeleteDocumentVersion\<close> of the file-system connection that returns without error has removed that version and
  its directory, and no other committed version and none of their files; every version that is left is among those it
  returns, and when it returns none the directory of the document is gone too.\<close>

theorem local_delete_version_exact:
  assumes "local_inv c tree finv calm s" "0 \<le> Time version"
    and "local_DeleteDocumentVersion c cx docID version s = (Ret leftVersions, s')"
  shows "local_view c (tree s') = drop_version (local_view c (tree s)) docID version
    \<and> (\<forall>d v. local_view c (tree s') d v \<noteq> None \<longrightarrow> local_files c (tree s') d v = local_files c (tree s) d v)
    \<and> dom (local_view c (tree s') docID) \<subseteq> set leftVersions \<and> tree s' (versionDirName c docID version) = None
    \<and> (leftVersions = [] \<longrightarrow> tree s' (documentDir c docID) = None)
    \<and> local_inv c tree finv calm s'"
  using delete_version_exact [OF assms] local_inv_DeleteDocumentVersion [OF assms(1,3)] by (auto simp: dom_def)

theorem local_delete_version_exact_witness:
  "\<exists>s'. local_DeleteDocumentVersion mem_local calm_ctx 2 mem_time mem_one = (Ret [], s')
     \<and> map_of s' (documentDir mem_local 2) = None \<and> local_view mem_local (map_of s') 2 mem_time = None"
proof -
  have "fst (local_DeleteDocumentVersion mem_local calm_ctx 2 mem_time mem_one) = Ret []" by code_simp
  then obtain s' where run: "local_DeleteDocumentVersion mem_local calm_ctx 2 mem_time mem_one = (Ret [], s')"
    by (cases "local_DeleteDocumentVersion mem_local calm_ctx 2 mem_time mem_one") simp
  have "0 \<le> Time mem_time" "ms_trunc mem_time = mem_time" by code_simp+
  with local_delete_version_exact [OF mem_one_inv _ run] run show ?thesis by (auto simp: drop_version_def)
qed

section \<open>Sequences of calls\<close>

text \<open>C22: No sequence of calls on a file-system connection whose file names stay inside the version directory they
  are written to (\<open>local_call\<close>; the code does not check the names, and one with a separator or \<open>..\<close> does reach other
  documents), whatever the outcomes, callbacks that fail or panic included, changes a path of a document that none of the
  calls names: neither its directory with all versions nor its entries in the directories of the companies. And every
  metadata file stays readable as the version its name says or not at all.\<close>

theorem local_calls_keep_other_documents:
  assumes "local_inv c tree finv calm s" "\<forall>call\<in>set calls. local_call call"
  shows "local_inv c tree finv calm (exec_all (localConn c) calls s)
    \<and> (\<forall>docID. (\<forall>call\<in>set calls. docID \<notin> set (call_docs call)) \<longrightarrow>
         (\<forall>q\<in>document_area c docID. tree (exec_all (localConn c) calls s) q = tree s q)
         \<and> local_view c (tree (exec_all (localConn c) calls s)) docID = local_view c (tree s) docID)"
proof (intro conjI allI impI)
  show "local_inv c tree finv calm (exec_all (localConn c) calls s)" by (rule exec_all_local_inv [OF assms])
  fix docID assume "\<forall>call\<in>set calls. docID \<notin> set (call_docs call)"
  with exec_all_frame [OF local_invD(1,2) [OF assms(1)], of calls docID] assms(2)
  show same: "\<forall>q\<in>document_area c docID. tree (exec_all (localConn c) calls s) q = tree s q" by blast
  show "local_view c (tree (exec_all (localConn c) calls s)) docID = local_view c (tree s) docID"
    using same document_paths [OF local_invD(1) [OF assms(1)], of docID]
    by (intro ext view_unaffected) auto
qed

theorem local_calls_keep_other_documents_witness:
  "map_of (exec_all (localConn mem_local)
       [Call_DeleteDocument calm_ctx 5,
        Call_CreateDocument calm_ctx 1 6 3 [] mem_later [NewMemFile ''a'' []] (Some (\<lambda>_. Panic ''boom''))] mem_one)
       (versionInfoFile mem_local 2 mem_time)
     = map_of mem_one (versionInfoFile mem_local 2 mem_time)"
proof -
  let ?calls = "[Call_DeleteDocument calm_ctx 5,
    Call_CreateDocument calm_ctx 1 6 3 [] mem_later [NewMemFile ''a'' []] (Some (\<lambda>_. Panic ''boom''))]"
  have "\<forall>call\<in>set ?calls. local_call call" by (simp add: NewMemFile_def)
  note kept = local_calls_keep_other_documents [OF mem_one_inv this]
  have "\<forall>call\<in>set ?calls. (2 :: uuid) \<notin> set (call_docs call)" by simp
  with conjunct2 [OF kept] document_paths(2) [OF mem_local_spec] show ?thesis by blast
qed

section \<open>Reading\<close>

text \<open>C23: On a file system that serves requests, every committed version of the file-system connection is listed by
  \<open>DocumentVersions\<close>, its metadata reads back as it is stored, every file of its directory reads back with its content, and
  reading changes nothing.\<close>

theorem local_read_back:
  assumes "local_inv c tree finv calm s" "calm s" "ctx_Err cx = None" "local_view c (tree s) docID version = Some info"
    and "CompanyID info \<noteq> 0"
  shows "conn_DocumentVersionInfo (localConn c) cx docID version s = (Ret info, s)
    \<and> (\<exists>versions. conn_DocumentVersions (localConn c) cx docID s = (Ret versions, s) \<and> version \<in> set versions)
    \<and> (\<forall>filename data. local_files c (tree s) docID version filename = Some data \<longrightarrow>
         conn_ReadDocumentVersionFile (localConn c) cx docID version filename s = (Ret data, s))"
  using local_read_committed [OF local_invD(1,2) [OF assms(1)] assms(2-4)] assms(5)
  by (auto simp: localConn_def with_add_multi_def local_methods_def read_op_def)

theorem local_read_back_witness:
  "\<exists>info. conn_DocumentVersionInfo (localConn mem_local) calm_ctx 2 mem_time mem_one = (Ret info, mem_one)
     \<and> CompanyID info = 1"
proof -
  have "(case local_view mem_local (map_of mem_one) 2 mem_time of Some info \<Rightarrow> CompanyID info = 1 | None \<Rightarrow> False)"
    by code_simp
  then obtain info where info: "local_view mem_local (map_of mem_one) 2 mem_time = Some info" "CompanyID info = 1"
    by (auto split: option.splits)
  with local_read_back [OF mem_one_inv _ _ info(1), of calm_ctx] show ?thesis by simp
qed

end
