(* ===== verification/LocalRestore.thy ===== *)
theory LocalRestore
  imports LocalDelete RestoreLaws
begin

text \<open>
  \<open>RestoreDocument\<close> of the file-system connection: the loop over the versions of a backup,
  one version at a time.
\<close>

section \<open>The files of a backup\<close>

definition hashed_content :: "hashed_document \<Rightarrow> hashed_version \<Rightarrow> string \<Rightarrow> bytes option" where
  "hashed_content doc hv n = map_option (data_of doc) (map_of (FileHashes hv) n)"

lemma write_hashed_files_None:
  assumes spec: "local_spec c tree finv calm"
    and "finv s" "\<forall>(n, h)\<in>set hashes. plain_name n" "wf_gomap hashes"
    and "write_hashed_files (lib c) cx doc dir hashes s = (None, s')"
  shows "finv s'" "only_files_in dir (tree s) (tree s')"
    "dir_files (tree s') dir = (\<lambda>n. case map_of hashes n of Some h \<Rightarrow> Some (data_of doc h) | None \<Rightarrow> dir_files (tree s) dir n)"
proof -
  have "finv s' \<and> only_files_in dir (tree s) (tree s')
    \<and> dir_files (tree s') dir = (\<lambda>n. case map_of hashes n of Some h \<Rightarrow> Some (data_of doc h) | None \<Rightarrow> dir_files (tree s) dir n)"
    using assms(2-)
  proof (induction hashes arbitrary: s)
    case (Cons p hashes)
    obtain n h where p: "p = (n, h)" by fastforce
    have plain: "fs_Join (lib c) dir n = dir @ [n]"
      by (rule names_specD(1) [OF local_specD(1) [OF spec]]) (use Cons.prems(2) p in simp)
    obtain s1 where s1: "fs_WriteAll (lib c) cx (dir @ [n]) (data_of doc h) s = (None, s1)"
      "write_hashed_files (lib c) cx doc dir hashes s1 = (None, s')"
      using Cons.prems(4) by (auto simp: p plain data_of_def split: prod.splits option.splits)
    note e = effectD(1,3) [OF write_specD(1) [OF local_specD(4) [OF spec]] s1(1) Cons.prems(1)]
    have put: "only_files_in dir (tree s) (tree s1)" "dir_files (tree s1) dir = (dir_files (tree s) dir)(n \<mapsto> data_of doc h)"
      using e(2) by (auto simp: only_files_in_put dir_files_put)
    have new: "map_of hashes n = None" using Cons.prems(3) by (simp add: p map_of_eq_None_iff)
    from Cons.IH [OF e(1) _ _ s1(2)] Cons.prems(2,3) new
    show ?case by (auto simp: p put(2) fun_eq_iff intro: only_files_in_trans [OF put(1)] split: option.split)
  qed (simp add: only_files_in_refl)
  then show "finv s'" "only_files_in dir (tree s) (tree s')"
    "dir_files (tree s') dir = (\<lambda>n. case map_of hashes n of Some h \<Rightarrow> Some (data_of doc h) | None \<Rightarrow> dir_files (tree s) dir n)"
    by blast+
qed

section \<open>Versions apart\<close>

lemma readable_String_eq: "readable_time v \<Longrightarrow> readable_time w \<Longrightarrow> VersionTime_String v = VersionTime_String w \<longleftrightarrow> v = w"
  by (metis readable_timeD sum.inject(2))

text \<open>What changes only in the paths of some versions keeps the other versions.\<close>

definition versions_area :: "'f local_conn \<Rightarrow> uuid \<Rightarrow> version_time set \<Rightarrow> fpath set" where
  "versions_area c d V = (\<Union>v\<in>V. version_area c d v)"

lemma other_versions:
  assumes spec: "local_spec c tree finv calm" and finv: "finv s" and st: "stays tree finv calm (versions_area c d V) s s'"
    and V: "\<forall>v\<in>V. readable_time v" and "d' \<noteq> d \<or> w \<notin> V" "readable_time w"
  shows "local_view c (tree s') d' w = local_view c (tree s) d' w" "local_files c (tree s') d' w = local_files c (tree s) d' w"
    "tree s' (versionDirName c d' w) = tree s (versionDirName c d' w)" "tree s' (versionInfoFile c d' w) = tree s (versionInfoFile c d' w)"
proof -
  have apart: "d' \<noteq> d \<or> VersionTime_String w \<noteq> VersionTime_String v" if "v \<in> V" for v
    using assms(5,6) V that readable_String_eq by metis
  have same: "tree s' q = tree s q" if "q \<in> {versionDirName c d' w, versionInfoFile c d' w} \<union> range (\<lambda>n. versionDirName c d' w @ [n])" for q
    using that staysD(3) [OF st finv] not_in_version_area [OF spec apart] by (auto simp: versions_area_def)
  show "local_view c (tree s') d' w = local_view c (tree s) d' w" by (rule view_unaffected) (use same in blast)
  show "local_files c (tree s') d' w = local_files c (tree s) d' w" using same by (simp add: dir_files_def fun_eq_iff)
  show "tree s' (versionDirName c d' w) = tree s (versionDirName c d' w)" "tree s' (versionInfoFile c d' w) = tree s (versionInfoFile c d' w)"
    using same by blast+
qed

lemma version_area_stays: "version_area c d v \<subseteq> versions_area c d V" if "v \<in> V"
  using that by (auto simp: versions_area_def)

section \<open>One version\<close>

text \<open>A version of the backup as it is committed in a tree, after the version \<open>prev\<close>.\<close>

definition restored_version :: "'f local_conn \<Rightarrow> hashed_document \<Rightarrow> tree \<Rightarrow> version_time option \<Rightarrow> version_time \<Rightarrow> bool" where
  "restored_version c doc t prev v \<longleftrightarrow>
     (\<exists>info hv. local_view c t (hd_ID doc) v = Some info \<and> restored doc v info \<and> PrevVersion info = prev
        \<and> version_at doc v = Some hv \<and> local_files c t (hd_ID doc) v = hashed_content doc hv
        \<and> change_lists (lext c) (case prev of None \<Rightarrow> Map.empty | Some p \<Rightarrow> local_files c t (hd_ID doc) p)
            (hashed_content doc hv) info)"

text \<open>The calls for one version that is written.\<close>

lemma restore_loop_step_Ret:
  assumes "local_restore_loop c cx doc recreate existing prev (v # vs) created s = (Ret u, created', s')"
    and "\<not> (\<not> recreate \<and> local_versionTimeIn existing v)"
  obtains hv s1 s2 info s3 created1 where
    "fs_MakeDir (lib c) (versionDirName c (hd_ID doc) v) s = (None, s1)" "version_at doc v = Some hv"
    "write_hashed_files (lib c) cx doc (versionDirName c (hd_ID doc) v) (FileHashes hv) s1 = (None, s2)"
    "newVersionInfo c cx (hd_CompanyID doc) (hd_ID doc) v prev (hv_CommitUserID hv) (hv_CommitReason hv)
       (versionDirName c (hd_ID doc) v) (map_option (versionDirName c (hd_ID doc)) prev) s2 = Inr info"
    "WriteJSON (lib c) (lcodec c) background (versionInfoFile c (hd_ID doc) v) info s2 = (None, s3)"
    "local_restore_loop c cx doc recreate existing (Some v) vs created1 s3 = (Ret u, created', s')"
proof -
  note run = assms(1) [unfolded local_restore_loop.simps if_not_P [OF assms(2)] Let_def]
  obtain s1 where s1: "fs_MakeDir (lib c) (versionDirName c (hd_ID doc) v) s = (None, s1)"
    using run by (auto split: prod.splits option.splits)
  note run = run [unfolded s1 prod.case option.case]
  obtain hv where hv: "version_at doc v = Some hv" using run by (auto split: option.splits)
  note run = run [unfolded hv option.case]
  obtain s2 where s2: "write_hashed_files (lib c) cx doc (versionDirName c (hd_ID doc) v) (FileHashes hv) s1 = (None, s2)"
    using run by (auto split: prod.splits option.splits)
  note run = run [unfolded s2 prod.case option.case]
  obtain info where info: "newVersionInfo c cx (hd_CompanyID doc) (hd_ID doc) v prev (hv_CommitUserID hv) (hv_CommitReason hv)
       (versionDirName c (hd_ID doc) v) (map_option (versionDirName c (hd_ID doc)) prev) s2 = Inr info"
    using run by (auto split: sum.splits)
  note run = run [unfolded info sum.case]
  obtain s3 where s3: "WriteJSON (lib c) (lcodec c) background (versionInfoFile c (hd_ID doc) v) info s2 = (None, s3)"
    using run by (auto split: prod.splits option.splits)
  from run [unfolded s3 prod.case option.case] show thesis by (rule that [OF s1 hv s2 info s3])
qed

lemma restored_here:
  assumes spec: "local_spec c tree finv calm" and finv: "finv s" and sound: "hash_sound (lext c) doc" and doc: "plain_hashes doc"
    and v: "readable_time v" "\<forall>p. prev = Some p \<longrightarrow> readable_time p \<and> p \<noteq> v" and hv: "version_at doc v = Some hv"
    and s1: "fs_MakeDir (lib c) (versionDirName c (hd_ID doc) v) s = (None, s1)"
    and s2: "write_hashed_files (lib c) cx doc (versionDirName c (hd_ID doc) v) (FileHashes hv) s1 = (None, s2)"
    and info: "newVersionInfo c cx (hd_CompanyID doc) (hd_ID doc) v prev (hv_CommitUserID hv) (hv_CommitReason hv)
       (versionDirName c (hd_ID doc) v) (map_option (versionDirName c (hd_ID doc)) prev) s2 = Inr info"
    and s3: "WriteJSON (lib c) (lcodec c) background (versionInfoFile c (hd_ID doc) v) info s2 = (None, s3)"
    and new: "tree s (versionDirName c (hd_ID doc) v) = None"
  shows "restored_version c doc (tree s3) prev v"
proof -
  let ?d = "hd_ID doc" let ?dir = "versionDirName c (hd_ID doc) v"
  note m1 = make_version_dir [OF spec finv new s1] and h = hash_soundD [OF sound hv]
  note w = write_hashed_files_None [OF spec m1(1) plain_hashesD [OF doc hv] h(1) s2]
  have files2: "dir_files (tree s2) ?dir = hashed_content doc hv"
    by (simp add: w(3) m1(3) hashed_content_def fun_eq_iff split: option.split)
  note f = newVersionInfo_Inr [OF spec w(1) info]
  have pr: "printable (Version info)" "\<forall>p. PrevVersion info = Some p \<longrightarrow> printable p" and "map_option ms_trunc prev = prev"
    using v by (cases prev; auto simp: f(3,4) printable_def readable_time_def)+
  obtain info' where st: "stored_info c (tree s3) ?d v = Some info'" "stored_as info info'"
    by (rule written_info [OF spec w(1) s3 pr])
  obtain b where t3: "tree s3 = (tree s2)(versionInfoFile c ?d v \<mapsto> File b)"
    using WriteJSON_None [OF spec w(1) s3] by blast
  have other: "versionInfoFile c ?d v \<noteq> versionDirName c ?d x" "versionDirName c ?d x @ [n] \<noteq> versionInfoFile c ?d v" for n x
    by (auto simp: local_paths(2,3) [OF spec])
  have files3: "local_files c (tree s3) ?d x = local_files c (tree s2) ?d x" for x
    using other(2) by (simp add: t3 dir_files_def fun_eq_iff)
  have "tree s3 ?dir = Some Dir"
    using only_files_in_dir [OF w(2)] other(1) [symmetric] by (simp add: t3 m1(2))
  then have view: "local_view c (tree s3) ?d v = Some info'" using st(1) v(1) by (simp add: local_view_def)
  have content: "map_of (Files info) n = map_option (file_info_of (lext c) n) (hashed_content doc hv n)" for n
    using f(9) [of n] by (simp add: files2)
  have "map_of (Files info) = restored_files doc hv"
    using h(2) by (auto simp: fun_eq_iff content restored_files_def hashed_content_def file_info_of_def restore_info_def
        ContentHash_def option.map_comp dest!: map_of_SomeD intro!: option.map_cong0)
  then have r: "restored doc v info'"
    using hv v(1) by (auto simp: restored_def stored_asD [OF st(2)] f readable_time_def)
  have "change_lists (lext c) (case map_option (versionDirName c ?d) prev of None \<Rightarrow> Map.empty | Some p \<Rightarrow> dir_files (tree s2) p)
      (hashed_content doc hv) info"
    using change_lists_newVersionInfo [OF spec w(1) info] by (simp add: files2)
  then have "change_lists (lext c) (case prev of None \<Rightarrow> Map.empty | Some p \<Rightarrow> local_files c (tree s3) ?d p) (hashed_content doc hv) info'"
    by (cases prev) (simp_all add: change_lists_def stored_asD [OF st(2)] files3)
  with view r hv show ?thesis
    using \<open>map_option ms_trunc prev = prev\<close> files3 files2
    by (auto simp: restored_version_def stored_asD [OF st(2)] f(4))
qed

text \<open>The paths it changes.\<close>

lemma restore_step_stays:
  assumes spec: "local_spec c tree finv calm" and doc: "plain_hashes doc" and hv: "version_at doc v = Some hv"
  shows "stays tree finv calm (version_area c (hd_ID doc) v) s (snd (fs_MakeDir (lib c) (versionDirName c (hd_ID doc) v) s))"
    "stays tree finv calm (version_area c (hd_ID doc) v) s
       (snd (write_hashed_files (lib c) cx doc (versionDirName c (hd_ID doc) v) (FileHashes hv) s))"
    "newVersionInfo c cx k (hd_ID doc) v prev user reason dir prevDir s = Inr info \<Longrightarrow> stays tree finv calm (version_area c (hd_ID doc) v) s
       (snd (WriteJSON (lib c) (lcodec c) background (versionInfoFile c (hd_ID doc) v) info s))"
proof -
  have sub: "version_files_area c (hd_ID doc) v \<subseteq> version_area c (hd_ID doc) v" "versionInfoFile c (hd_ID doc) v \<in> version_area c (hd_ID doc) v"
    by (auto simp: version_area_def)
  note F = frame_files_calls [OF spec sub(1)] and J = frame_info_calls [OF spec sub(2)]
  show "stays tree finv calm (version_area c (hd_ID doc) v) s (snd (fs_MakeDir (lib c) (versionDirName c (hd_ID doc) v) s))"
    using files_callsD(1) [OF F] by (simp only: steps_stays)
  show "stays tree finv calm (version_area c (hd_ID doc) v) s
       (snd (write_hashed_files (lib c) cx doc (versionDirName c (hd_ID doc) v) (FileHashes hv) s))"
    using steps_write_hashed_files [OF step_rel_stays F plain_hashesD [OF doc hv]] by (simp only: steps_stays)
  show "newVersionInfo c cx k (hd_ID doc) v prev user reason dir prevDir s = Inr info \<Longrightarrow> stays tree finv calm (version_area c (hd_ID doc) v) s
       (snd (WriteJSON (lib c) (lcodec c) background (versionInfoFile c (hd_ID doc) v) info s))"
    using info_callsD(2) [OF J] by (simp only: steps_stays)
qed

section \<open>The loop\<close>

text \<open>The versions the loop writes.\<close>

definition written_versions :: "bool \<Rightarrow> version_time list \<Rightarrow> version_time list \<Rightarrow> version_time set" where
  "written_versions recreate existing vs = {v \<in> set vs. recreate \<or> \<not> local_versionTimeIn existing v}"

lemma written_Cons:
  "written_versions recreate existing (v # vs) =
     (if \<not> recreate \<and> local_versionTimeIn existing v then {} else {v}) \<union> written_versions recreate existing vs"
  by (auto simp: written_versions_def)

lemma versions_area_insert: "versions_area c d (insert v V) = version_area c d v \<union> versions_area c d V"
  by (simp add: versions_area_def)

lemma restored_version_other:
  assumes spec: "local_spec c tree finv calm" and finv: "finv s" and st: "stays tree finv calm (versions_area c (hd_ID doc) V) s s'"
    and "\<forall>v\<in>V. readable_time v" "v \<notin> V" "readable_time v" "\<forall>p. prev = Some p \<longrightarrow> readable_time p \<and> p \<notin> V"
    and "restored_version c doc (tree s) prev v"
  shows "restored_version c doc (tree s') prev v"
  using assms(8) other_versions [OF spec finv st assms(4), of "hd_ID doc" v] other_versions [OF spec finv st assms(4), of "hd_ID doc"] assms(5-7)
  unfolding restored_version_def by (cases prev) auto

lemma local_restore_loop_Ret:
  assumes spec: "local_spec c tree finv calm" and sound: "hash_sound (lext c) doc" and doc: "plain_hashes doc"
    and "local_restore_loop c cx doc recreate existing prev vs created s = (Ret u, created', s')" "finv s"
    and "distinct vs" "\<forall>v\<in>set vs. readable_time v" "\<forall>p. prev = Some p \<longrightarrow> readable_time p \<and> p \<notin> set vs"
  shows "stays tree finv calm (versions_area c (hd_ID doc) (written_versions recreate existing vs)) s s'"
    "vs = xs @ v # ys \<Longrightarrow> v \<in> written_versions recreate existing vs \<Longrightarrow> tree s (versionDirName c (hd_ID doc) v) = None
       \<Longrightarrow> restored_version c doc (tree s') (if xs = [] then prev else Some (last xs)) v"
proof -
  let ?W = "written_versions recreate existing" let ?d = "hd_ID doc"
  have "stays tree finv calm (versions_area c ?d (?W vs)) s s'
    \<and> (\<forall>xs v ys. vs = xs @ v # ys \<longrightarrow> v \<in> ?W vs \<longrightarrow> tree s (versionDirName c ?d v) = None
       \<longrightarrow> restored_version c doc (tree s') (if xs = [] then prev else Some (last xs)) v)"
    using assms(4-)
  proof (induction vs arbitrary: prev created s)
    case Nil
    then show ?case by (simp add: stays_refl)
  next
    case (Cons v vs)
    have prev: "\<forall>p. Some v = Some p \<longrightarrow> readable_time p \<and> p \<notin> set vs" using Cons.prems by simp
    have split: "v # vs = xs @ w # ys \<longleftrightarrow> xs = [] \<and> w = v \<and> ys = vs \<or> (\<exists>xs'. xs = v # xs' \<and> vs = xs' @ w # ys)" for xs w ys
      by (auto simp: Cons_eq_append_conv)
    show ?case
    proof (cases "\<not> recreate \<and> local_versionTimeIn existing v")
      case True
      then have run: "local_restore_loop c cx doc recreate existing (Some v) vs created s = (Ret u, created', s')"
        using Cons.prems(1) by simp
      note IH = Cons.IH [OF run Cons.prems(2) _ _ prev]
      have "restored_version c doc (tree s') (if xs = [] then prev else Some (last xs)) w"
        if "v # vs = xs @ w # ys" "w \<in> ?W (v # vs)" "tree s (versionDirName c ?d w) = None" for xs w ys
        using that(1) [unfolded split]
      proof (elim disjE exE conjE)
        assume "w = v"
        with that(2) True show ?thesis by (simp add: written_versions_def)
      next
        fix xs' assume xs: "xs = v # xs'" "vs = xs' @ w # ys"
        with that(2) Cons.prems(3) True have "w \<in> ?W vs" by (auto simp: written_versions_def)
        have "distinct vs" "\<forall>v\<in>set vs. readable_time v" using Cons.prems(3,4) by simp_all
        from conjunct2 [OF IH [OF this]] \<open>w \<in> ?W vs\<close> that(3) xs(2)
        have "restored_version c doc (tree s') (if xs' = [] then Some v else Some (last xs')) w" by blast
        then show ?thesis by (simp add: xs(1) split: if_splits)
      qed
      with IH Cons.prems(3,4) True show ?thesis by (auto simp: written_Cons)
    next
      case False
      obtain hv s1 s2 info s3 created1 where step: "fs_MakeDir (lib c) (versionDirName c ?d v) s = (None, s1)"
        "version_at doc v = Some hv" "write_hashed_files (lib c) cx doc (versionDirName c ?d v) (FileHashes hv) s1 = (None, s2)"
        "newVersionInfo c cx (hd_CompanyID doc) ?d v prev (hv_CommitUserID hv) (hv_CommitReason hv)
           (versionDirName c ?d v) (map_option (versionDirName c ?d) prev) s2 = Inr info"
        "WriteJSON (lib c) (lcodec c) background (versionInfoFile c ?d v) info s2 = (None, s3)"
        and run: "local_restore_loop c cx doc recreate existing (Some v) vs created1 s3 = (Ret u, created', s')"
        by (rule restore_loop_step_Ret [OF Cons.prems(1) False])
      note st = restore_step_stays [OF spec doc step(2)]
      have st3: "stays tree finv calm (version_area c ?d v) s s3"
        using st(1) [of s] st(2) [of s1 cx] st(3) [OF step(4)] by (simp add: step) (blast intro: stays_trans)
      note fin3 = staysD(1) [OF st3 Cons.prems(2)]
      note IH = Cons.IH [OF run fin3 _ _ prev]
      have st3': "stays tree finv calm (versions_area c ?d {v}) s s3" using st3 by (simp add: versions_area_def)
      have rest: "stays tree finv calm (versions_area c ?d (?W vs)) s3 s'" using IH Cons.prems(3,4) by simp
      have "stays tree finv calm (versions_area c ?d (?W (v # vs))) s s'"
        using False by (auto simp: written_Cons versions_area_insert intro!: stays_trans [OF stays_mono [OF st3] stays_mono [OF rest]])
      moreover have here: "restored_version c doc (tree s') prev v" if "tree s (versionDirName c ?d v) = None"
        by (rule restored_version_other [OF spec fin3 rest _ _ _ _ restored_here [OF spec Cons.prems(2) sound doc _ _ step(2,1,3,4,5) that]])
          (use Cons.prems(3-5) in \<open>auto simp: written_versions_def\<close>)
      moreover have dirs: "tree s3 (versionDirName c ?d w) = tree s (versionDirName c ?d w)" if "w \<in> set vs" for w
        by (rule other_versions(3) [OF spec Cons.prems(2) st3']) (use that Cons.prems(3,4) in auto)
      moreover have "restored_version c doc (tree s') (if xs = [] then prev else Some (last xs)) w"
        if "v # vs = xs @ w # ys" "w \<in> ?W (v # vs)" "tree s (versionDirName c ?d w) = None" for xs w ys
        using that(1) [unfolded split]
      proof (elim disjE exE conjE)
        assume "xs = []" "w = v"
        with here that(3) show ?thesis by simp
      next
        fix xs' assume xs: "xs = v # xs'" "vs = xs' @ w # ys"
        with that(2) Cons.prems(3) have "w \<in> ?W vs" by (auto simp: written_versions_def)
        have "distinct vs" "\<forall>v\<in>set vs. readable_time v" "tree s3 (versionDirName c ?d w) = None"
          using Cons.prems(3,4) dirs [of w] that(3) xs(2) by simp_all
        from conjunct2 [OF IH [OF this(1,2)]] \<open>w \<in> ?W vs\<close> this(3) xs(2)
        have "restored_version c doc (tree s') (if xs' = [] then Some v else Some (last xs')) w" by blast
        then show ?thesis by (simp add: xs(1) split: if_splits)
      qed
      ultimately show ?thesis by blast
    qed
  qed
  then show "stays tree finv calm (versions_area c ?d (?W vs)) s s'"
    "vs = xs @ v # ys \<Longrightarrow> v \<in> ?W vs \<Longrightarrow> tree s (versionDirName c ?d v) = None
       \<Longrightarrow> restored_version c doc (tree s') (if xs = [] then prev else Some (last xs)) v" by blast+
qed

end
