(* ===== verification/LocalCompany.thy ===== *)
theory LocalCompany
  imports LocalDelete
begin

text \<open>
  The company of a document of the file-system connection: what \<open>SetDocumentCompanyID\<close>
  leaves of the record and the marker directories, and what \<open>DeleteDocument\<close> removes.
\<close>

section \<open>Paths that record the company\<close>

lemma companyDocumentDir_prefix:
  assumes spec: "local_spec c tree finv calm"
  shows "prefix (companyDocumentDir c k d) (companyDocumentDir c k' d) \<longleftrightarrow> k = k'"
    "strict_prefix (companyDir c k) (companyDocumentDir c k' d) \<longleftrightarrow> k = k'"
proof -
  note p = local_paths(5,6) [OF spec]
  have "inj (ID_String (lext c))" using local_specD(6) [OF spec] by (simp add: local_layout_def)
  then have inj: "ID_String (lext c) k = ID_String (lext c) k' \<longleftrightarrow> k = k'" by (simp add: inj_eq)
  show "prefix (companyDocumentDir c k d) (companyDocumentDir c k' d) \<longleftrightarrow> k = k'" by (auto simp: p inj)
  show "strict_prefix (companyDir c k) (companyDocumentDir c k' d) \<longleftrightarrow> k = k'"
    using names_specD(4) [OF local_specD(1) [OF spec], of d] by (auto simp: p inj strict_prefix_def)
qed

lemma company_paths_apart:
  assumes spec: "local_spec c tree finv calm"
  shows "documentDir c d \<notin> company_area c d'" "\<not> prefix (companyIDFile c d) (companyDocumentDir c k d')"
    "\<not> prefix (companyDocumentDir c k d') (companyIDFile c d)" "companyIDFile c d \<noteq> companyDocumentDir c k d'"
proof -
  note np = document_not_company [OF spec]
  show no: "\<not> prefix (companyIDFile c d) (companyDocumentDir c k d')" "\<not> prefix (companyDocumentDir c k d') (companyIDFile c d)" for k d'
    unfolding local_paths(4) [OF spec] by (rule np)+
  then show "companyIDFile c d \<noteq> companyDocumentDir c k d'" by (metis prefix_order.refl)
  have "documentDir c d \<noteq> companyIDFile c d'"
  proof
    assume e: "documentDir c d = companyIDFile c d'"
    then have "prefix (documentDir c d') (documentDir c d)" by (simp add: local_paths(4) [OF spec])
    then have "d' = d" using local_ids [OF spec] by (simp add: local_paths(1) [OF spec])
    with e show False by (simp add: local_paths(4) [OF spec])
  qed
  then show "documentDir c d \<notin> company_area c d'"
    using np(1) [where d = d and p = "[]"] np(2) [where d = d and p = "[]"] by (simp add: company_area_def)
qed

text \<open>Removing the marker of one company keeps the markers of the others.\<close>

lemma remove_marker:
  assumes spec: "local_spec c tree finv calm" and finv: "finv s"
    and run: "uuiddir_RemoveDir (lib c) (companyDir c k) (companyDocumentDir c k d) s = (None, s')
      \<or> uuiddir_Remove (lib c) (companyDir c k) d s = (None, s')"
  shows "finv s'" "calm s \<Longrightarrow> calm s'" "tree s' (companyDocumentDir c k d) = None"
    "k' \<noteq> k \<Longrightarrow> tree s' (companyDocumentDir c k' d) = tree s (companyDocumentDir c k' d)"
proof -
  note r = remove_specD(3,4) [OF local_specD(5) [OF spec], where base = "companyDir c k" and d = d, folded companyDocumentDir_def]
  have e: "finv s' \<and> (calm s \<longrightarrow> calm s') \<and> del_id (companyDir c k) (companyDocumentDir c k d) (tree s) (tree s')"
    using run effectD(1-3) [OF r(1) _ finv] effectD(1-3) [OF r(2) _ finv] by blast
  then show "finv s'" "calm s \<Longrightarrow> calm s'" "tree s' (companyDocumentDir c k d) = None" by (simp_all add: del_id_def)
  show "k' \<noteq> k \<Longrightarrow> tree s' (companyDocumentDir c k' d) = tree s (companyDocumentDir c k' d)"
    using e companyDocumentDir_prefix [OF spec] unfolding del_id_def by metis
qed

text \<open>Making the marker of a company.\<close>

lemma make_marker:
  assumes spec: "local_spec c tree finv calm" and finv: "finv s"
    and run: "fs_MakeAllDirs (lib c) (companyDocumentDir c k d) s = (None, s')"
  shows "finv s'" "calm s \<Longrightarrow> calm s'" "tree s' (companyDocumentDir c k d) = Some Dir"
    "k' \<noteq> k \<Longrightarrow> tree s' (companyDocumentDir c k' d) = tree s (companyDocumentDir c k' d)"
    "tree s' (companyIDFile c d) = tree s (companyIDFile c d)"
proof -
  note e = effectD(1-3) [OF write_specD(4) [OF local_specD(4) [OF spec]] run finv]
  show "finv s'" "calm s \<Longrightarrow> calm s'" by (rule e, assumption?)+
  show "tree s' (companyDocumentDir c k d) = Some Dir"
    "k' \<noteq> k \<Longrightarrow> tree s' (companyDocumentDir c k' d) = tree s (companyDocumentDir c k' d)"
    "tree s' (companyIDFile c d) = tree s (companyIDFile c d)"
    using e(3) by (simp_all add: put_dirs_def companyDocumentDir_prefix [OF spec] company_paths_apart [OF spec])
qed

section \<open>Reading the company\<close>

lemma documentCompanyID_same: "documentCompanyID c cx d s = (r, s') \<Longrightarrow> s' = s"
  using documentCompanyID_state [of c cx d s] by simp

lemma documentCompanyID_recorded:
  assumes spec: "local_spec c tree finv calm" and finv: "finv s" and calm: "calm s"
    and rec: "tree s (companyIDFile c d) = Some (File b)"
  shows "documentCompanyID c cx d s = (to_outcome (IDFromString (lcodec c) (bytes_string b)), s)"
proof -
  have "ctx_Err background = None" by (simp add: background_def)
  from read_specD(8) [OF local_specD(3) [OF spec] finv calm this rec] rec info_specD(2) [OF local_specD(2) [OF spec] finv]
  show ?thesis by (simp add: documentCompanyID_def)
qed

lemma IDFromString_written: "local_spec c tree finv calm \<Longrightarrow> IDFromString (lcodec c) (ID_String (lext c) k) = Inr k"
  using local_specD(7) by (fastforce simp: codec_spec_def)

lemma documentCompanyID_file:
  assumes spec: "local_spec c tree finv calm" and finv: "finv s"
    and run: "documentCompanyID c cx d s = (Ret k, s')" and rec: "tree s (companyIDFile c d) \<noteq> None"
  obtains b where "tree s (companyIDFile c d) = Some (File b)" "IDFromString (lcodec c) (bytes_string b) = Inr k"
proof -
  obtain b where "fs_ReadAll (lib c) background (companyIDFile c d) s = Inr b" "IDFromString (lcodec c) (bytes_string b) = Inr k"
    using run rec info_specD(2) [OF local_specD(2) [OF spec] finv]
    by (auto simp: documentCompanyID_def Let_def split: sum.splits)
  with read_specD(4) [OF local_specD(3) [OF spec] finv] show thesis by (intro that) blast+
qed

section \<open>SetDocumentCompanyID\<close>

text \<open>
  The record of the company \<open>k\<close> that a document of company \<open>k0\<close> got: one marker more, at
  most one less.
\<close>

definition company_moved :: "'f local_conn \<Rightarrow> uuid \<Rightarrow> uuid \<Rightarrow> uuid \<Rightarrow> tree \<Rightarrow> tree \<Rightarrow> bool" where
  "company_moved c d k0 k t t' \<longleftrightarrow>
     (\<forall>k'. t' (companyDocumentDir c k' d) \<noteq> None \<longleftrightarrow> k' = k \<or> k' \<noteq> k0 \<and> t (companyDocumentDir c k' d) \<noteq> None)
     \<and> t' (companyIDFile c d) = (if k0 = k then t (companyIDFile c d) else Some (File (string_bytes (ID_String (lext c) k))))"

lemma setDocumentCompanyID_Ret:
  assumes spec: "local_spec c tree finv calm" and finv: "finv s" and run: "setDocumentCompanyID c cx d k s = (Ret (), s')"
  obtains k0 where "documentCompanyID c cx d s = (Ret k0, s)" "company_moved c d k0 k (tree s) (tree s')"
    "finv s'" "calm s \<longrightarrow> calm s'" "ID_Validate (lext c) k = None"
proof -
  note i = info_specD(2) [OF local_specD(2) [OF spec]]
  have valid: "ID_Validate (lext c) k = None" using run by (simp add: setDocumentCompanyID_def split: option.splits)
  obtain k0 where k0: "documentCompanyID c cx d s = (Ret k0, s)"
    using run documentCompanyID_same
    by (fastforce simp: setDocumentCompanyID_def try_op_Ret_iff split: option.splits if_splits)
  let ?m = "\<lambda>k. companyDocumentDir c k d"
  show thesis
  proof (cases "k0 = k")
    case True
    show thesis
    proof (cases "tree s (?m k) = None")
      case new: True
      then have mk: "fs_MakeAllDirs (lib c) (?m k) s = (None, s')"
        using run k0 True i [OF finv] by (simp add: setDocumentCompanyID_def try_op_def valid split: if_splits)
      note m = make_marker [OF spec finv mk]
      have "company_moved c d k0 k (tree s) (tree s')"
        unfolding company_moved_def using m(3-5) True by auto
      with k0 m valid show thesis by (intro that) auto
    next
      case False
      then have "s' = s" using run k0 True i [OF finv] by (simp add: setDocumentCompanyID_def try_op_def valid split: if_splits)
      with k0 finv valid False True show thesis by (intro that) (auto simp: company_moved_def)
    qed
  next
    case False
    obtain s1 s2 where s1: "(if tree s (?m k0) \<noteq> None then uuiddir_RemoveDir (lib c) (companyDir c k0) (?m k0) s = (None, s1) else s1 = s)"
      and s2: "fs_WriteAll (lib c) background (companyIDFile c d) (string_bytes (ID_String (lext c) k)) s1 = (None, s2)"
      and s3: "fs_MakeAllDirs (lib c) (?m k) s2 = (None, s')"
      using run k0 False i [OF finv]
      by (auto simp: setDocumentCompanyID_def Let_def try_op_Ret_iff valid makeCompanyDocumentDir_def ret_def split: if_splits)
    have m1: "finv s1" "calm s \<longrightarrow> calm s1" "tree s1 (?m k0) = None"
      "k' \<noteq> k0 \<Longrightarrow> tree s1 (?m k') = tree s (?m k')" for k'
      using s1 remove_marker [OF spec finv, of k0 d s1] finv by (auto split: if_splits)
    note e2 = effectD(1-3) [OF write_specD(1) [OF local_specD(4) [OF spec]] s2 m1(1)]
    have t2: "tree s2 = (tree s1)(companyIDFile c d \<mapsto> File (string_bytes (ID_String (lext c) k)))"
      using e2(3) by (simp add: put_file_def)
    have m2: "tree s2 (?m k') = tree s1 (?m k')" for k'
      using company_paths_apart(4) [OF spec, of d k' d] by (simp add: t2)
    note m3 = make_marker [OF spec e2(1) s3]
    have "company_moved c d k0 k (tree s) (tree s')"
      unfolding company_moved_def
    proof (intro conjI allI)
      fix k'
      show "(tree s' (?m k') \<noteq> None) \<longleftrightarrow> k' = k \<or> k' \<noteq> k0 \<and> tree s (?m k') \<noteq> None"
        using m3(3) m3(4) [where k' = k'] m2 m1(3) m1(4) [of k'] False by (cases "k' = k"; cases "k' = k0") auto
      show "tree s' (companyIDFile c d) = (if k0 = k then tree s (companyIDFile c d)
          else Some (File (string_bytes (ID_String (lext c) k))))"
        using m3(5) t2 False by simp
    qed
    with k0 m3(1,2) e2(2) m1(2) valid show thesis by (intro that) auto
  qed
qed

text \<open>A call on the company of a document keeps all that is committed, whatever its outcome.\<close>

lemma setDocumentCompanyID_keeps:
  assumes spec: "local_spec c tree finv calm" and finv: "finv s" and run: "setDocumentCompanyID c cx d k s = (r, s')"
  shows "local_view c (tree s') = local_view c (tree s)" "local_files c (tree s') d' v = local_files c (tree s) d' v"
    "stays tree finv calm (company_area c d) s s'"
proof -
  from steps_setDocumentCompanyID [OF step_rel_stays frame_company_calls [OF spec subset_refl], where s = s and cx = cx and d = d and k = k]
  show st: "stays tree finv calm (company_area c d) s s'" by (simp only: steps_stays run snd_conv)
  note same = staysD(3) [OF st finv] and np = not_in_company_area [OF spec]
  show "local_view c (tree s') = local_view c (tree s)"
    by (intro ext view_unaffected) (use same np in blast)
  show "local_files c (tree s') d' v = local_files c (tree s) d' v"
    by (simp add: dir_files_def fun_eq_iff same [OF np(3)])
qed

section \<open>DeleteDocument\<close>

lemma remove_company_entry_cases:
  assumes spec: "local_spec c tree finv calm" and finv: "finv s" and run: "remove_company_entry c cx d s = (r, s')"
  shows "stays tree finv calm (company_area c d) s s'" "quiet (r, s')"
    "r = Ret () \<Longrightarrow> \<exists>k0. documentCompanyID c cx d s = (Ret k0, s) \<and> tree s' (companyDocumentDir c k0 d) = None"
    "documentCompanyID c cx d s = (Ret k0, s) \<Longrightarrow> calm s \<Longrightarrow> tree s (companyDocumentDir c k0 d) = Some Dir \<Longrightarrow> r = Ret ()"
proof -
  from steps_remove_company_entry [OF step_rel_stays frame_company_calls [OF spec subset_refl], where s = s and cx = cx and d = d]
  show "stays tree finv calm (company_area c d) s s'" by (simp only: steps_stays run snd_conv)
  have "quiet (remove_company_entry c cx d s)" unfolding remove_company_entry_def by (intro quiet_rules)
  then show "quiet (r, s')" by (simp add: run)
  show "\<exists>k0. documentCompanyID c cx d s = (Ret k0, s) \<and> tree s' (companyDocumentDir c k0 d) = None" if r: "r = Ret ()"
  proof -
    obtain k0 where k0: "documentCompanyID c cx d s = (Ret k0, s)" "uuiddir_Remove (lib c) (companyDir c k0) d s = (None, s')"
      using run r documentCompanyID_same by (fastforce simp: remove_company_entry_def try_op_Ret_iff)
    with remove_marker(3) [OF spec finv] show ?thesis by blast
  qed
  show "r = Ret ()" if k0: "documentCompanyID c cx d s = (Ret k0, s)" "calm s" "tree s (companyDocumentDir c k0 d) = Some Dir"
  proof -
    have "fst (uuiddir_Remove (lib c) (companyDir c k0) d s) = None"
      by (rule remove_spec_calmD(4) [OF local_specD(5) [OF spec] finv k0(2)]) (use k0(3) in \<open>simp add: companyDocumentDir_def\<close>)
    then show ?thesis
      using run k0(1) by (auto simp: remove_company_entry_def try_op_def write_op_def split: prod.splits)
  qed
qed

lemma join_outcome_Ret: "join_outcome q e = Ret () \<longleftrightarrow> q = Ret () \<and> e = None"
  by (cases q) (simp_all add: errors_Join_None_iff)

lemma DeleteDocument_cases:
  assumes spec: "local_spec c tree finv calm" and finv: "finv s" and run: "local_DeleteDocument c cx d s = (r, s')"
  shows "stays tree finv calm (touched c d) s s'"
    "r = Ret () \<Longrightarrow> tree s' (documentDir c d) = None
       \<and> (\<exists>k0. documentCompanyID c cx d s = (Ret k0, s) \<and> tree s' (companyDocumentDir c k0 d) = None)"
    "ctx_Err cx = None \<Longrightarrow> tree s (documentDir c d) = None \<Longrightarrow> r = Fail (ErrDocumentNotFound d) \<and> s' = s"
    "ctx_Err cx = None \<Longrightarrow> calm s \<Longrightarrow> tree s (documentDir c d) = Some Dir \<Longrightarrow> tree s' (documentDir c d) = None
       \<and> (documentCompanyID c cx d s = (Ret k0, s) \<longrightarrow> tree s (companyDocumentDir c k0 d) = Some Dir \<longrightarrow> r = Ret ())"
proof -
  note i = info_specD(2) [OF local_specD(2) [OF spec] finv]
  from steps_DeleteDocument [OF step_rel_stays frame_document_calls [OF spec subset_refl], where s = s and cx = cx and d = d]
  show "stays tree finv calm (touched c d) s s'" by (simp only: steps_stays run snd_conv)
  show "ctx_Err cx = None \<Longrightarrow> tree s (documentDir c d) = None \<Longrightarrow> r = Fail (ErrDocumentNotFound d) \<and> s' = s"
    using run i by (simp add: local_DeleteDocument_def)
  obtain q s1 where q: "remove_company_entry c cx d s = (q, s1)" by fastforce
  obtain e s2 where e: "uuiddir_RemoveDir (lib c) (documentsDir c) (documentDir c d) s1 = (e, s2)" by fastforce
  note m = remove_company_entry_cases [OF spec finv q]
  note fin1 = staysD(1) [OF m(1) finv] and same = staysD(3) [OF m(1) finv company_paths_apart(1) [OF spec]]
  have body: "r = join_outcome q e \<and> s' = s2" if "ctx_Err cx = None" "tree s (documentDir c d) \<noteq> None"
    using run that i m(2) by (cases q) (auto simp: local_DeleteDocument_def remove_document_def q e quiet_def)
  note eff = effectD(3) [OF remove_specD(3) [OF local_specD(5) [OF spec]] e [unfolded documentDir_def] fin1, folded documentDir_def]
  have gone: "tree s2 (documentDir c d) = None" if "e = None" using eff [OF that] by (simp add: del_id_def)
  have apart: "\<not> prefix (documentDir c d) (companyDocumentDir c k d)" "\<not> prefix (companyDocumentDir c k d) (documentDir c d)" for k
    using document_not_company [OF spec, where p = "[]"] by simp_all
  have marker: "tree s2 (companyDocumentDir c k d) = tree s1 (companyDocumentDir c k d)" if "e = None" for k
    using eff [OF that] apart unfolding del_id_def by metis
  show "tree s' (documentDir c d) = None
       \<and> (\<exists>k0. documentCompanyID c cx d s = (Ret k0, s) \<and> tree s' (companyDocumentDir c k0 d) = None)" if r: "r = Ret ()"
  proof -
    have ex: "ctx_Err cx = None" "tree s (documentDir c d) \<noteq> None"
      using run r i by (auto simp: local_DeleteDocument_def split: option.splits if_splits)
    from body [OF ex] r have "join_outcome q e = Ret ()" "s' = s2" by simp_all
    then have "q = Ret () \<and> e = None \<and> s' = s2" unfolding join_outcome_Ret by blast
    with m(3) gone marker show ?thesis by auto
  qed
  show "tree s' (documentDir c d) = None
       \<and> (documentCompanyID c cx d s = (Ret k0, s) \<longrightarrow> tree s (companyDocumentDir c k0 d) = Some Dir \<longrightarrow> r = Ret ())"
    if ok: "ctx_Err cx = None" "calm s" "tree s (documentDir c d) = Some Dir"
  proof -
    have "fst (uuiddir_RemoveDir (lib c) (documentsDir c) (documentDir c d) s1) = None"
      unfolding documentDir_def
      by (rule remove_spec_calmD(3) [OF local_specD(5) [OF spec] fin1 staysD(2) [OF m(1) finv ok(2)]])
        (use same ok(3) in \<open>simp add: documentDir_def\<close>)
    then have "e = None" by (simp add: e)
    with body ok gone m(4) show ?thesis by (simp add: join_outcome_Ret errors_Join_None_iff)
  qed
qed

end
