(* ===== verification/LocalRestoreDoc.thy ===== *)
theory LocalRestoreDoc
  imports LocalRestore LocalCompany
begin

text \<open>
  \<open>RestoreDocument\<close> of the file-system connection as a whole: the deletion that \<open>recreate\<close>
  asks for, the start on an existing or a fresh directory, the loop and the roll-back.
\<close>

section \<open>The runs\<close>

text \<open>The state the restore starts from, after the deletion it may begin with.\<close>

definition restore_starts :: "'f local_conn \<Rightarrow> ctx \<Rightarrow> uuid \<Rightarrow> bool \<Rightarrow> 'f \<Rightarrow> 'f \<Rightarrow> bool" where
  "restore_starts c cx d recreate s s1 \<longleftrightarrow>
     (if recreate \<and> Exists (lib c) (documentDir c d) s then local_restore_delete c cx d s = (Ret (), s1) else s1 = s)"

lemma quiet_restore_delete [quiet_rules]: "quiet (local_restore_delete c cx d s)"
  unfolding local_restore_delete_def by (intro quiet_rules)

lemma quiet_restore_existing [quiet_rules]: "quiet (local_restore_existing c cx doc existed s)"
  unfolding local_restore_existing_def by (intro quiet_rules)

lemma RestoreDocument_cases:
  assumes run: "local_RestoreDocument c cx docp recreate s = (r, s')"
  obtains (refused) e where "r = Fail e" "s' = s"
  | (deletion) doc e where "docp = Some doc" "recreate" "Exists (lib c) (documentDir c (hd_ID doc)) s"
      "local_restore_delete c cx (hd_ID doc) s = (Fail e, s')" "r = Fail e"
  | (start) doc s1 e where "docp = Some doc" "restore_starts c cx (hd_ID doc) recreate s s1"
      "local_restore_existing c cx doc (Exists (lib c) (documentDir c (hd_ID doc)) s1) s1 = (Fail e, s')" "r = Fail e"
  | (loop) doc s1 existing s2 q created s3 where "docp = Some doc" "HashedDocument_Validate (lext c) docp = None"
      "restore_starts c cx (hd_ID doc) recreate s s1"
      "local_restore_existing c cx doc (Exists (lib c) (documentDir c (hd_ID doc)) s1) s1 = (Ret existing, s2)"
      "local_restore_loop c cx doc recreate existing None (VersionTimes doc) ([], []) s2 = (q, created, s3)"
      "case q of Fail e \<Rightarrow> \<exists>err. local_restore_rollback c doc (Exists (lib c) (documentDir c (hd_ID doc)) s1) created e s3 = (err, s')
           \<and> r = Fail err
       | _ \<Rightarrow> r = q \<and> s' = s3"
proof (cases "first_err [ctx_Err cx, HashedDocument_Validate (lext c) docp]")
  case (Some e)
  then show thesis using run by (intro refused [of e]) (simp_all add: local_RestoreDocument_def)
next
  case None
  then have valid: "HashedDocument_Validate (lext c) docp = None" by (auto split: option.splits)
  then obtain doc where doc: "docp = Some doc" by (cases docp) (auto simp: HashedDocument_Validate_def)
  let ?d = "hd_ID doc"
  let ?del = "recreate \<and> Exists (lib c) (documentDir c ?d) s"
  obtain q0 s1 where q0: "(if ?del then local_restore_delete c cx ?d s else (Ret (), s)) = (q0, s1)" by fastforce
  have "quiet (if ?del then local_restore_delete c cx ?d s else (Ret (), s))" by (intro quiet_rules)
  then have quiet: "quiet (q0, s1)" by (simp only: q0)
  have "(if ?del then local_restore_delete c cx ?d else ret ()) s = (q0, s1)" using q0 by (auto simp: ret_def split: if_splits)
  note run = run [unfolded local_RestoreDocument_def doc None [unfolded doc] option.case try_op_def this prod.case Let_def]
  show thesis
  proof (cases q0)
    case (Fail e)
    then show thesis using run q0 doc by (intro deletion [OF doc]) (auto split: if_splits)
  next
    case (Ret u)
    then have starts: "restore_starts c cx ?d recreate s s1" using q0 by (auto simp: restore_starts_def split: if_splits)
    obtain q1 s2 where q1: "local_restore_existing c cx doc (Exists (lib c) (documentDir c ?d) s1) s1 = (q1, s2)" by fastforce
    note run = run [unfolded Ret outcome.case q1 prod.case]
    show thesis
    proof (cases q1)
      case (Fail e)
      then show thesis using run q1 by (intro start [OF doc starts]) auto
    next
      case (Ret existing)
      obtain q created s3 where l: "local_restore_loop c cx doc recreate existing None (VersionTimes doc) ([], []) s2 = (q, created, s3)"
        by (metis prod_cases3)
      show thesis
        by (rule loop [OF doc valid starts q1 [unfolded Ret] l])
          (use run in \<open>auto simp: Ret l split: outcome.splits prod.splits\<close>)
    next
      case (Panic msg)
      then show thesis using quiet_pair [OF quiet_restore_existing q1] by (simp add: quiet_def)
    qed
  next
    case (Panic msg)
    then show thesis using quiet by (simp add: quiet_def)
  qed
qed

lemma RestoreDocument_Ret:
  assumes run: "local_RestoreDocument c cx (Some doc) recreate s = (Ret (), s')"
  obtains s1 existing s2 created where "restore_starts c cx (hd_ID doc) recreate s s1"
    "local_restore_existing c cx doc (Exists (lib c) (documentDir c (hd_ID doc)) s1) s1 = (Ret existing, s2)"
    "local_restore_loop c cx doc recreate existing None (VersionTimes doc) ([], []) s2 = (Ret (), created, s')"
  using run
proof (cases rule: RestoreDocument_cases)
  case (loop doc' s1 existing s2 q created s3)
  then have "q = Ret () \<and> s' = s3" by (cases q) simp_all
  with loop show thesis by (intro that) simp_all
qed simp_all

section \<open>The start\<close>

lemma restore_delete_cases:
  assumes spec: "local_spec c tree finv calm" and finv: "finv s" and run: "local_restore_delete c cx d s = (r, s')"
  shows "stays tree finv calm (touched c d) s s'" "r = Ret () \<Longrightarrow> tree s' (documentDir c d) = None"
    "calm s \<Longrightarrow> tree s' (documentDir c d) \<noteq> Some Dir \<or> local_view c (tree s') = local_view c (tree s)
       \<and> (\<forall>d' v. local_files c (tree s') d' v = local_files c (tree s) d' v)"
proof -
  from steps_restore_delete [OF step_rel_stays frame_document_calls [OF spec subset_refl], where s = s and cx = cx and d = d]
  show "stays tree finv calm (touched c d) s s'" by (simp only: steps_stays run snd_conv)
  show "r = Ret () \<Longrightarrow> tree s' (documentDir c d) = None"
  proof -
    assume "r = Ret ()"
    then obtain k t where t: "documentCompanyID c cx d s = (Ret k, s)" "uuiddir_Remove (lib c) (companyDir c k) d s = (None, t)"
      "uuiddir_RemoveDir (lib c) (documentsDir c) (documentDir c d) t = (None, s')"
      using run documentCompanyID_same by (fastforce simp: local_restore_delete_def try_op_Ret_iff)
    have "finv t" by (rule remove_marker(1) [OF spec finv]) (use t(2) in blast)
    from effectD(3) [OF remove_specD(3) [OF local_specD(5) [OF spec]] t(3) [unfolded documentDir_def] this]
    show "tree s' (documentDir c d) = None" by (simp add: del_id_def documentDir_def)
  qed
  show "tree s' (documentDir c d) \<noteq> Some Dir \<or> local_view c (tree s') = local_view c (tree s)
       \<and> (\<forall>d' v. local_files c (tree s') d' v = local_files c (tree s) d' v)" if calm: "calm s"
  proof -
    obtain q k where q: "documentCompanyID c cx d s = (q, s)" using documentCompanyID_same by (metis surj_pair)
    show ?thesis
    proof (cases q)
      case (Ret k)
      obtain e t where t: "uuiddir_Remove (lib c) (companyDir c k) d s = (e, t)" by fastforce
      have st: "stays tree finv calm (company_area c d) s t"
        using company_callsD(4) [OF frame_company_calls [OF spec subset_refl], where d = d and s = s and k = k]
        by (simp only: steps_stays t snd_conv)
      note np = not_in_company_area [OF spec] and same = staysD(3) [OF st finv]
      have kept: "local_view c (tree t) = local_view c (tree s)" "\<forall>d' v. local_files c (tree t) d' v = local_files c (tree s) d' v"
        using same np by (auto intro!: ext view_unaffected simp: dir_files_def)
      show ?thesis
      proof (cases e)
        case (Some x)
        with run q Ret t have "s' = t" by (simp add: local_restore_delete_def try_op_def write_op_def)
        with kept show ?thesis by blast
      next
        case None
        obtain e2 s2 where e2: "uuiddir_RemoveDir (lib c) (documentsDir c) (documentDir c d) t = (e2, s2)" by fastforce
        have s2: "s' = s2" using run q Ret t None e2 by (simp add: local_restore_delete_def try_op_def write_op_def)
        note eff = effectD(3,4) [OF remove_specD(3) [OF local_specD(5) [OF spec]] e2 [unfolded documentDir_def] staysD(1) [OF st finv],
            folded documentDir_def]
        have "tree s2 (documentDir c d) = None \<or> tree s2 (documentDir c d) = tree t (documentDir c d) \<and> e2 \<noteq> None"
          using eff by (cases "e2 = None") (auto simp: del_id_def part_del_id_def)
        moreover have "e2 = None" if "tree t (documentDir c d) = Some Dir"
          using remove_spec_calmD(3) [OF local_specD(5) [OF spec] staysD(1) [OF st finv] staysD(2) [OF st finv calm]] that e2
          by (metis documentDir_def fst_conv)
        ultimately show ?thesis by (auto simp: s2)
      qed
    qed (use run q in \<open>auto simp: local_restore_delete_def try_op_def\<close>)
  qed
qed

lemma restore_existing_True:
  assumes "local_restore_existing c cx doc True s = (r, s')"
  shows "s' = s" "r = Ret existing \<Longrightarrow> documentVersions c (hd_ID doc) s = Inr existing
     \<and> documentCompanyID c cx (hd_ID doc) s = (Ret (hd_CompanyID doc), s)"
proof -
  obtain q where q: "documentCompanyID c cx (hd_ID doc) s = (q, s)" using documentCompanyID_same by (metis surj_pair)
  with assms show "s' = s" "r = Ret existing \<Longrightarrow> documentVersions c (hd_ID doc) s = Inr existing
     \<and> documentCompanyID c cx (hd_ID doc) s = (Ret (hd_CompanyID doc), s)"
    by (cases q; auto simp: local_restore_existing_def try_op_def fail_def read_op_def split: if_splits sum.splits)+
qed

lemma restore_existing_False:
  assumes spec: "local_spec c tree finv calm" and finv: "finv s" and new: "tree s (documentDir c (hd_ID doc)) = None"
    and run: "local_restore_existing c cx doc False s = (r, s')"
  shows "stays tree finv calm (touched c (hd_ID doc)) s s'" "tree s' (versionDirName c (hd_ID doc) v) = None"
    "tree s' (versionInfoFile c (hd_ID doc) v) = None"
    "r = Ret existing \<Longrightarrow> existing = []
       \<and> tree s' (companyIDFile c (hd_ID doc)) = Some (File (string_bytes (ID_String (lext c) (hd_CompanyID doc))))
       \<and> tree s' (companyDocumentDir c (hd_CompanyID doc) (hd_ID doc)) = Some Dir"
proof -
  let ?d = "hd_ID doc" and ?k = "hd_CompanyID doc"
  from steps_restore_existing [OF step_rel_stays frame_document_calls [OF spec subset_refl], where s = s and cx = cx and doc = doc and existed = False]
  show st: "stays tree finv calm (touched c ?d) s s'" by (simp only: steps_stays run snd_conv)
  obtain e1 s1 where s1: "fs_MakeAllDirs (lib c) (documentDir c ?d) s = (e1, s1)" by fastforce
  note eff = effectD [OF write_specD(4) [OF local_specD(4) [OF spec]] s1 finv]
  have "tree s1 q = tree s q" if "\<not> prefix q (documentDir c ?d)" for q
    using eff(3,4) that by (cases "e1 = None") (auto simp: put_dirs_def part_dirs_def)
  then have none1: "tree s1 (documentDir c ?d @ [n]) = None" for n
    using no_document(1) [OF spec finv, of ?d n "[]"] new by simp
  obtain e2 s2 where s2: "fs_WriteAll (lib c) background (companyIDFile c ?d) (string_bytes (ID_String (lext c) ?k)) s1 = (e2, s2)"
    by fastforce
  obtain e3 s3 where s3: "fs_MakeAllDirs (lib c) (companyDocumentDir c ?k ?d) s2 = (e3, s3)" by fastforce
  note calls = frame_company_calls [OF spec subset_refl, of ?d]
  have st2: "stays tree finv calm (company_area c ?d) s1 s2"
    using company_callsD(1) [OF calls, where s = s1 and b = "string_bytes (ID_String (lext c) ?k)"]
    by (simp only: steps_stays s2 snd_conv)
  have st3: "stays tree finv calm (company_area c ?d) s2 s3"
    using company_callsD(2) [OF calls, where s = s2 and k = ?k] by (simp only: steps_stays s3 snd_conv)
  have s': "s' \<in> {s1, s2, s3}"
    using run by (cases e1; cases e2; cases e3)
      (auto simp: local_restore_existing_def makeCompanyDocumentDir_def try_op_def write_op_def ret_def s1 s2 s3)
  have "tree s' q = tree s1 q" if "q \<notin> company_area c ?d" for q
    using s' staysD(3) [OF st2 eff(1) that] staysD(3) [OF stays_trans [OF st2 st3] eff(1) that] by auto
  with not_in_company_area [OF spec] none1 show "tree s' (versionDirName c ?d v) = None" "tree s' (versionInfoFile c ?d v) = None"
    by (simp_all add: local_paths(2,3) [OF spec])
  show "existing = [] \<and> tree s' (companyIDFile c ?d) = Some (File (string_bytes (ID_String (lext c) ?k)))
       \<and> tree s' (companyDocumentDir c ?k ?d) = Some Dir" if "r = Ret existing"
  proof -
    have ok: "e1 = None" "e2 = None" "e3 = None" "s' = s3" "existing = []"
      using run that by (cases e1; cases e2; cases e3;
        simp add: local_restore_existing_def makeCompanyDocumentDir_def try_op_def write_op_def ret_def s1 s2 s3)+
    have "tree s2 (companyIDFile c ?d) = Some (File (string_bytes (ID_String (lext c) ?k)))"
      using effectD(3) [OF write_specD(1) [OF local_specD(4) [OF spec]] s2 eff(1)] ok(2) by (simp add: put_file_def)
    with make_marker(3,5) [OF spec staysD(1) [OF st2 eff(1)] s3 [unfolded ok(3)]] ok show ?thesis by simp
  qed
qed

section \<open>A restore that returns\<close>

text \<open>What the document has before the loop: nothing, if it is made anew.\<close>

definition start_versions :: "'f local_conn \<Rightarrow> uuid \<Rightarrow> bool \<Rightarrow> tree \<Rightarrow> version_time \<Rightarrow> version_info option" where
  "start_versions c d recreate t = (if recreate \<or> t (documentDir c d) = None then Map.empty else local_view c t d)"

lemma restore_starts_cases:
  assumes spec: "local_spec c tree finv calm" and finv: "finv s" and starts: "restore_starts c cx d recreate s s1"
  shows "stays tree finv calm (touched c d) s s1" "tree s1 (documentDir c d) \<noteq> None \<Longrightarrow> s1 = s \<and> \<not> recreate"
    "tree s1 (documentDir c d) = None \<Longrightarrow> recreate \<or> tree s (documentDir c d) = None"
proof -
  note i = info_specD(2) [OF local_specD(2) [OF spec] finv]
  have "s1 = s \<and> (recreate \<longrightarrow> tree s (documentDir c d) = None)
    \<or> recreate \<and> local_restore_delete c cx d s = (Ret (), s1)"
    using starts i by (auto simp: restore_starts_def split: if_splits)
  with restore_delete_cases(1,2) [OF spec finv] show "stays tree finv calm (touched c d) s s1"
    "tree s1 (documentDir c d) \<noteq> None \<Longrightarrow> s1 = s \<and> \<not> recreate"
    "tree s1 (documentDir c d) = None \<Longrightarrow> recreate \<or> tree s (documentDir c d) = None"
    by (auto simp: stays_refl)
qed

lemma versions_touched: "local_spec c tree finv calm \<Longrightarrow> versions_area c d V \<subseteq> touched c d"
  using areas_touched(2) by (fastforce simp: versions_area_def)

lemma company_not_in_versions:
  assumes spec: "local_spec c tree finv calm"
  shows "companyIDFile c d \<notin> versions_area c d' V" "companyDocumentDir c k d \<notin> versions_area c d' V"
proof -
  have "companyIDFile c d \<noteq> versionInfoFile c d' v" for v
    using document_sub_eq [OF spec] by (simp add: local_paths(3,4) [OF spec])
  then show "companyIDFile c d \<notin> versions_area c d' V"
    using info_not_in_files_area(2) [OF spec] by (auto simp: versions_area_def version_area_def)
  have "companyDocumentDir c k d \<noteq> versionInfoFile c d' v" "companyDocumentDir c k d \<notin> version_files_area c d' v" for v
    using document_not_company [OF spec] unfolding version_files_area_def local_paths(2,3) [OF spec] mem_Collect_eq
    by (metis prefix_order.refl)+
  then show "companyDocumentDir c k d \<notin> versions_area c d' V" by (auto simp: versions_area_def version_area_def)
qed

lemma listed_existing:
  assumes spec: "local_spec c tree finv calm" and finv: "finv s" and run: "documentVersions c d s = Inr existing"
  shows "local_view c (tree s) d v \<noteq> None \<Longrightarrow> local_versionTimeIn existing v"
    "tree s (versionInfoFile c d v) = None \<Longrightarrow> \<not> local_versionTimeIn existing v"
proof -
  obtain dirs where dirs: "enumVersionDirs c (documentDir c d) s = Inr dirs" "existing = sort_key ms_trunc (map fst dirs)"
    using run by (auto simp: documentVersions_def Let_def split: if_splits sum.splits)
  show "local_versionTimeIn existing v" if "local_view c (tree s) d v \<noteq> None"
  proof -
    from that obtain info where "local_view c (tree s) d v = Some info" by blast
    from view_listed [OF spec finv dirs(1) this] have "v \<in> set existing" by (force simp: dirs(2))
    then show ?thesis by (auto simp: local_versionTimeIn_def list_ex_iff VersionTime_Equal_def)
  qed
  show "\<not> local_versionTimeIn existing v" if none: "tree s (versionInfoFile c d v) = None"
  proof
    assume "local_versionTimeIn existing v"
    then obtain e where e: "e \<in> set existing" "VersionTime_Equal e v" by (auto simp: local_versionTimeIn_def list_ex_iff)
    then obtain dir where "(e, dir) \<in> set dirs" by (auto simp: dirs(2))
    then obtain n where "version_entry c (documentDir c d) s n = Some (e, dir)" by (auto simp: enumVersionDirs_mem [OF dirs(1)])
    then have "tree s (versionInfoFile c d e) \<noteq> None"
      using info_specD(2) [OF local_specD(2) [OF spec] finv] by (auto simp: version_entry_Some versionInfoFile_def)
    moreover have "VersionTime_String e = VersionTime_String v"
      using e(2) VersionTime_String_ms_trunc by (metis Equal_iff_ms_trunc)
    ultimately show False using none by (simp add: versionInfoFile_def)
  qed
qed

lemma restore_Ret:
  assumes spec: "local_spec c tree finv calm" and finv: "finv s"
    and doc: "plain_hashes doc" "hash_sound (lext c) doc" "wf_gomap (Versions doc)" "\<forall>v\<in>fst ` set (Versions doc). readable_time v"
    and run: "local_RestoreDocument c cx (Some doc) recreate s = (Ret (), s')"
  shows "stays tree finv calm (touched c (hd_ID doc)) s s'"
    "v \<notin> fst ` set (Versions doc) \<or> start_versions c (hd_ID doc) recreate (tree s) v \<noteq> None
      \<Longrightarrow> local_view c (tree s') (hd_ID doc) v = start_versions c (hd_ID doc) recreate (tree s) v
        \<and> (start_versions c (hd_ID doc) recreate (tree s) v \<noteq> None
             \<longrightarrow> local_files c (tree s') (hd_ID doc) v = local_files c (tree s) (hd_ID doc) v)"
    "VersionTimes doc = xs @ v # ys \<Longrightarrow> recreate \<or> tree s (documentDir c (hd_ID doc)) = None
        \<or> tree s (versionDirName c (hd_ID doc) v) = None \<and> tree s (versionInfoFile c (hd_ID doc) v) = None
      \<Longrightarrow> restored_version c doc (tree s') (if xs = [] then None else Some (last xs)) v"
    "recreate \<or> tree s (documentDir c (hd_ID doc)) = None
      \<Longrightarrow> tree s' (companyIDFile c (hd_ID doc)) = Some (File (string_bytes (ID_String (lext c) (hd_CompanyID doc))))
        \<and> tree s' (companyDocumentDir c (hd_CompanyID doc) (hd_ID doc)) = Some Dir"
proof -
  let ?d = "hd_ID doc"
  obtain s1 existing s2 created where starts: "restore_starts c cx ?d recreate s s1"
    and ex: "local_restore_existing c cx doc (Exists (lib c) (documentDir c ?d) s1) s1 = (Ret existing, s2)"
    and loop: "local_restore_loop c cx doc recreate existing None (VersionTimes doc) ([], []) s2 = (Ret (), created, s')"
    by (rule RestoreDocument_Ret [OF run])
  note st1 = restore_starts_cases [OF spec finv starts] and fin1 = staysD(1) [OF restore_starts_cases(1) [OF spec finv starts] finv]
  note i1 = info_specD(2) [OF local_specD(2) [OF spec] fin1]
  let ?W = "written_versions recreate existing (VersionTimes doc)"
  have start: "stays tree finv calm (touched c ?d) s s2 \<and> local_view c (tree s2) ?d = start_versions c ?d recreate (tree s)
    \<and> (start_versions c ?d recreate (tree s) v \<noteq> None \<longrightarrow> local_files c (tree s2) ?d v = local_files c (tree s) ?d v \<and> v \<notin> ?W)
    \<and> (recreate \<or> tree s (documentDir c ?d) = None \<longrightarrow> tree s2 (versionDirName c ?d v) = None
        \<and> \<not> local_versionTimeIn existing v
        \<and> tree s2 (companyIDFile c ?d) = Some (File (string_bytes (ID_String (lext c) (hd_CompanyID doc))))
        \<and> tree s2 (companyDocumentDir c (hd_CompanyID doc) ?d) = Some Dir)
    \<and> (tree s (versionDirName c ?d v) = None \<and> tree s (versionInfoFile c ?d v) = None
        \<longrightarrow> tree s2 (versionDirName c ?d v) = None \<and> \<not> local_versionTimeIn existing v)" for v
  proof (cases "tree s1 (documentDir c ?d) = None")
    case True
    note f = restore_existing_False [OF spec fin1 True ex [unfolded i1 True, simplified]]
    have e: "existing = []" using f(4) by blast
    have "start_versions c ?d recreate (tree s) = Map.empty" using st1(3) True by (auto simp: start_versions_def)
    moreover have "local_view c (tree s2) ?d = Map.empty" using f(2) by (auto simp: local_view_def)
    moreover have "\<not> local_versionTimeIn existing v" by (simp add: e local_versionTimeIn_def)
    ultimately show ?thesis using stays_trans [OF st1(1) f(1)] f(2,4) by simp
  next
    case False
    note s = st1(2) [OF False]
    have ex': "local_restore_existing c cx doc True s = (Ret existing, s2)" using ex False s i1 by simp
    have s2: "s2 = s" by (rule restore_existing_True(1) [OF ex'])
    have "documentVersions c ?d s = Inr existing" using restore_existing_True(2) [OF ex'] by blast
    note l = listed_existing [OF spec finv this]
    show ?thesis using l [of v] s False by (auto simp: s2 start_versions_def stays_refl written_versions_def)
  qed
  note st2 = conjunct1 [OF start]
  note fin2 = staysD(1) [OF st2 finv]
  have vs: "distinct (VersionTimes doc)" "\<forall>v\<in>set (VersionTimes doc). readable_time v"
    using doc(3,4) by (simp_all add: distinct_VersionTimes)
  note L = local_restore_loop_Ret [OF spec doc(2,1) loop fin2 vs]
  have st3: "stays tree finv calm (versions_area c ?d ?W) s2 s'" by (rule L(1)) simp
  have W: "\<forall>v\<in>?W. readable_time v" "?W \<subseteq> fst ` set (Versions doc)" using vs(2) by (auto simp: written_versions_def)
  note kept = other_versions [OF spec fin2 st3 W(1), of ?d]
  show "stays tree finv calm (touched c ?d) s s'"
    by (rule stays_trans [OF st2 stays_mono [OF st3 versions_touched [OF spec]]])
  show "local_view c (tree s') ?d v = start_versions c ?d recreate (tree s) v
        \<and> (start_versions c ?d recreate (tree s) v \<noteq> None \<longrightarrow> local_files c (tree s') ?d v = local_files c (tree s) ?d v)"
    if v: "v \<notin> fst ` set (Versions doc) \<or> start_versions c ?d recreate (tree s) v \<noteq> None"
  proof (cases "readable_time v")
    case True
    have "v \<notin> ?W" using v W(2) start [of v] by blast
    with kept(1,2) [of v] True start [of v] show ?thesis by auto
  next
    case False
    then show ?thesis by (simp add: local_view_def start_versions_def)
  qed
  show "restored_version c doc (tree s') (if xs = [] then None else Some (last xs)) v"
    if "VersionTimes doc = xs @ v # ys" "recreate \<or> tree s (documentDir c ?d) = None
        \<or> tree s (versionDirName c ?d v) = None \<and> tree s (versionInfoFile c ?d v) = None"
    by (rule L(2) [OF _ that(1)]) (use that start [of v] in \<open>auto simp: written_versions_def\<close>)
  show "tree s' (companyIDFile c ?d) = Some (File (string_bytes (ID_String (lext c) (hd_CompanyID doc))))
        \<and> tree s' (companyDocumentDir c (hd_CompanyID doc) ?d) = Some Dir"
    if "recreate \<or> tree s (documentDir c ?d) = None"
    using that start staysD(3) [OF st3 fin2] company_not_in_versions [OF spec] by auto
qed

end
