(* ===== verification/LocalRestoreUndo.thy ===== *)
theory LocalRestoreUndo
  imports LocalRestoreDoc
begin

text \<open>
  The roll-back of \<open>RestoreDocument\<close> of the file-system connection: what a loop that breaks
  off leaves behind, and what the deferred function removes of it.
\<close>

section \<open>A loop that breaks off\<close>

lemma versions_area_mono: "V \<subseteq> W \<Longrightarrow> versions_area c d V \<subseteq> versions_area c d W"
  by (auto simp: versions_area_def)

text \<open>
  The directories \<open>us\<close> the loop has made are there, and it has written metadata only for
  them.
\<close>

definition undo_known :: "'f local_conn \<Rightarrow> uuid \<Rightarrow> version_time list \<Rightarrow> created_paths \<Rightarrow> tree \<Rightarrow> bool" where
  "undo_known c d us created t \<longleftrightarrow> fst created = map (versionDirName c d) us \<and> set (snd created) \<subseteq> versionInfoFile c d ` set us
     \<and> distinct us \<and> (\<forall>u\<in>set us. readable_time u \<and> t (versionDirName c d u) = Some Dir)"

lemma MakeDir_cases:
  assumes spec: "local_spec c tree finv calm" and finv: "finv s" and run: "fs_MakeDir (lib c) p s = (e, s')"
  shows "finv s'" "calm s \<Longrightarrow> calm s'" "e = None \<Longrightarrow> tree s' p = Some Dir" "q \<noteq> p \<Longrightarrow> tree s' q = tree s q"
  using effectD [OF write_specD(3) [OF local_specD(4) [OF spec]] run finv]
  by (cases "e = None"; auto simp: put_dir_def part_dir_def)+

lemma write_hashed_files_dirs:
  assumes spec: "local_spec c tree finv calm"
    and "finv s" "\<forall>(n, h)\<in>set hashes. plain_name n" "write_hashed_files (lib c) cx doc dir hashes s = (e, s')"
  shows "finv s' \<and> (calm s \<longrightarrow> calm s') \<and> (\<forall>q. (\<nexists>n. q = dir @ [n]) \<longrightarrow> tree s' q = tree s q)"
  using assms(2-)
proof (induction hashes arbitrary: s)
  case (Cons p hashes)
  obtain n h where p: "p = (n, h)" by fastforce
  have plain: "fs_Join (lib c) dir n = dir @ [n]"
    by (rule names_specD(1) [OF local_specD(1) [OF spec]]) (use Cons.prems(2) p in simp)
  obtain e1 s1 where s1: "fs_WriteAll (lib c) cx (dir @ [n]) (data_of doc h) s = (e1, s1)" by fastforce
  note eff = effectD [OF write_specD(1) [OF local_specD(4) [OF spec]] s1 Cons.prems(1)]
  have same: "tree s1 q = tree s q" if "\<nexists>n. q = dir @ [n]" for q
    using eff(3,4) that by (cases "e1 = None") (auto simp: put_file_def part_file_def)
  show ?case
  proof (cases e1)
    case None
    then have "write_hashed_files (lib c) cx doc dir hashes s1 = (e, s')"
      using Cons.prems(3) s1 by (simp add: p plain data_of_def)
    with Cons.IH [OF eff(1) _ this] Cons.prems(2) eff(2) same show ?thesis by simp
  next
    case (Some x)
    then have "s' = s1" using Cons.prems(3) s1 by (simp add: p plain data_of_def)
    with eff(1,2) same show ?thesis by simp
  qed
qed simp

text \<open>One version, whatever its outcome.\<close>

lemma restore_loop_step:
  assumes spec: "local_spec c tree finv calm" and doc: "plain_hashes doc" and finv: "finv s" and v: "version_at doc v \<noteq> None"
    and run: "local_restore_loop c cx doc recreate existing prev (v # vs) created s = (q, created', s')"
    and fresh: "\<not> (\<not> recreate \<and> local_versionTimeIn existing v)"
  obtains (made_nothing) e where "q = Fail e" "created' = created" "stays tree finv calm (version_area c (hd_ID doc) v) s s'"
      "tree s' (versionInfoFile c (hd_ID doc) v) = tree s (versionInfoFile c (hd_ID doc) v)"
  | (broke) e where "q = Fail e" "created' = (fst created @ [versionDirName c (hd_ID doc) v], snd created)"
      "stays tree finv calm (version_area c (hd_ID doc) v) s s'" "tree s' (versionDirName c (hd_ID doc) v) = Some Dir"
  | (went_on) s1 where "stays tree finv calm (version_area c (hd_ID doc) v) s s1" "tree s1 (versionDirName c (hd_ID doc) v) = Some Dir"
      "local_restore_loop c cx doc recreate existing (Some v) vs
         (fst created @ [versionDirName c (hd_ID doc) v], snd created @ [versionInfoFile c (hd_ID doc) v]) s1 = (q, created', s')"
proof -
  let ?d = "hd_ID doc" let ?dir = "versionDirName c (hd_ID doc) v" and ?info = "versionInfoFile c (hd_ID doc) v"
  obtain hv where hv: "version_at doc v = Some hv" using v by blast
  note st = restore_step_stays [OF spec doc hv]
  note run = run [unfolded local_restore_loop.simps if_not_P [OF fresh] Let_def]
  have other: "?info \<noteq> ?dir" "\<nexists>n. ?dir = ?dir @ [n]" "?dir \<noteq> ?info" by (auto simp: local_paths(2,3) [OF spec])
  obtain e1 s1 where s1: "fs_MakeDir (lib c) ?dir s = (e1, s1)" by fastforce
  note m1 = MakeDir_cases [OF spec finv s1]
  have st1: "stays tree finv calm (version_area c ?d v) s s1" using st(1) [of s] by (simp add: s1)
  note run = run [unfolded s1 prod.case hv option.case]
  show thesis
  proof (cases e1)
    case (Some e)
    with run have "q = Fail e" "created' = created" "s' = s1" by simp_all
    with st1 m1(4) [OF other(1)] show thesis by (intro made_nothing) simp_all
  next
    case None
    obtain e2 s2 where s2: "write_hashed_files (lib c) cx doc ?dir (FileHashes hv) s1 = (e2, s2)" by fastforce
    note w = write_hashed_files_dirs [OF spec m1(1) plain_hashesD [OF doc hv] s2]
    have dir2: "tree s2 ?dir = Some Dir" using w m1(3) None other(2) by metis
    have st2: "stays tree finv calm (version_area c ?d v) s s2"
      using st(2) [of s1 cx] by (simp add: s2) (rule stays_trans [OF st1])
    note run = run [unfolded None option.case s2 prod.case]
    show thesis
    proof (cases "\<exists>info s3. e2 = None \<and> newVersionInfo c cx (hd_CompanyID doc) ?d v prev (hv_CommitUserID hv)
        (hv_CommitReason hv) ?dir (map_option (versionDirName c ?d) prev) s2 = Inr info")
      case False
      then obtain e where "q = Fail e" "created' = (fst created @ [?dir], snd created)" "s' = s2"
        using run by (cases e2) (auto split: sum.splits)
      with st2 dir2 show thesis by (intro broke) simp_all
    next
      case True
      then obtain info where info: "e2 = None" "newVersionInfo c cx (hd_CompanyID doc) ?d v prev (hv_CommitUserID hv)
          (hv_CommitReason hv) ?dir (map_option (versionDirName c ?d) prev) s2 = Inr info" by blast
      obtain e3 s3 where s3: "WriteJSON (lib c) (lcodec c) background ?info info s2 = (e3, s3)" by fastforce
      have fin2: "finv s2" using w by blast
      have st3: "stays tree finv calm (version_area c ?d v) s s3"
        using st(3) [OF info(2)] by (simp add: s3) (rule stays_trans [OF st2])
      have "stays tree finv calm {?info} s2 s3"
        using info_callsD(2) [OF frame_info_calls [OF spec, of ?d v "{?info}"] info(2)] by (simp add: s3 steps_stays)
      from staysD(3) [OF this fin2, of ?dir] other(3) dir2 have dir3: "tree s3 ?dir = Some Dir" by simp
      note run = run [unfolded info option.case sum.case s3 prod.case]
      show thesis
      proof (cases e3)
        case None
        with run st3 dir3 show thesis by (intro went_on) simp_all
      next
        case (Some e)
        with run have "q = Fail e" "created' = (fst created @ [?dir], snd created)" "s' = s3" by simp_all
        with st3 dir3 show thesis by (intro broke) simp_all
      qed
    qed
  qed
qed

lemma undo_known_stays:
  assumes spec: "local_spec c tree finv calm" and finv: "finv s" and st: "stays tree finv calm (versions_area c d V) s s'"
    and "\<forall>v\<in>V. readable_time v" "set us \<inter> V = {}" "undo_known c d us created (tree s)"
  shows "undo_known c d us created (tree s')"
proof -
  have "tree s' (versionDirName c d u) = tree s (versionDirName c d u)" if "u \<in> set us" for u
    by (rule other_versions(3) [OF spec finv st assms(4)]) (use that assms(5,6) in \<open>auto simp: undo_known_def\<close>)
  with assms(6) show ?thesis by (simp add: undo_known_def)
qed

lemma undo_known_snoc:
  assumes "undo_known c d us created t" "readable_time v" "v \<notin> set us" "t (versionDirName c d v) = Some Dir"
  shows "undo_known c d (us @ [v]) (fst created @ [versionDirName c d v], snd created) t"
    "undo_known c d (us @ [v]) (fst created @ [versionDirName c d v], snd created @ [versionInfoFile c d v]) t"
  using assms by (auto simp: undo_known_def)

lemma restore_loop_created:
  "local_restore_loop c cx doc recreate existing prev vs created s = (q, created', s') \<Longrightarrow> set (fst created) \<subseteq> set (fst created')"
proof (induction vs arbitrary: prev created s)
  case (Cons v vs)
  show ?case
    using Cons.prems Cons.IH
    by (auto simp: Let_def split: if_splits prod.splits option.splits sum.splits) (fastforce dest: Cons.IH)+
qed simp

lemma local_restore_loop_failed:
  assumes spec: "local_spec c tree finv calm" and doc: "plain_hashes doc"
    and "local_restore_loop c cx doc recreate existing prev vs created s = (q, created', s')" "q \<noteq> Ret ()" "finv s"
    and "distinct vs" "\<forall>v\<in>set vs. readable_time v \<and> version_at doc v \<noteq> None"
    and "undo_known c (hd_ID doc) us created (tree s)" "set us \<inter> set vs = {}"
  shows "\<exists>e us'. q = Fail e \<and> stays tree finv calm (versions_area c (hd_ID doc) (written_versions recreate existing vs)) s s'
    \<and> undo_known c (hd_ID doc) us' created' (tree s') \<and> set us' \<subseteq> set us \<union> written_versions recreate existing vs
    \<and> (\<forall>v\<in>written_versions recreate existing vs - set us'.
         tree s' (versionInfoFile c (hd_ID doc) v) = tree s (versionInfoFile c (hd_ID doc) v))"
  using assms(3-)
proof (induction vs arbitrary: prev created s us)
  case (Cons v vs)
  let ?W = "written_versions recreate existing" let ?d = "hd_ID doc"
  have W: "\<forall>v\<in>?W vs. readable_time v" "v \<notin> ?W vs" using Cons.prems(4,5) by (auto simp: written_versions_def)
  show ?case
  proof (cases "\<not> recreate \<and> local_versionTimeIn existing v")
    case True
    with Cons.prems(1) have run: "local_restore_loop c cx doc recreate existing (Some v) vs created s = (q, created', s')" by simp
    from Cons.IH [OF run Cons.prems(2,3) _ _ Cons.prems(6)] Cons.prems(4,5,7) True show ?thesis
      by (simp add: written_Cons)
  next
    case fresh: False
    then have Wv: "?W (v # vs) = insert v (?W vs)" by (auto simp: written_Cons)
    have at: "version_at doc v \<noteq> None" "readable_time v" "v \<notin> set us" using Cons.prems(5,7) by auto
    have sub: "versions_area c ?d {v} \<subseteq> versions_area c ?d (?W (v # vs))" "versions_area c ?d (?W vs) \<subseteq> versions_area c ?d (?W (v # vs))"
      by (rule versions_area_mono, simp add: Wv subset_insertI)+
    have here: "version_area c ?d v = versions_area c ?d {v}" by (simp add: versions_area_def)
    note after = undo_known_stays [OF spec Cons.prems(3) _ _ _ Cons.prems(6), where V = "{v}", folded here]
    have infos: "\<forall>w\<in>?W vs. tree t (versionInfoFile c ?d w) = tree s (versionInfoFile c ?d w)"
      if "stays tree finv calm (version_area c ?d v) s t" for t
      using other_versions(4) [OF spec Cons.prems(3) that [unfolded here]] W at(2) by (metis singletonD singletonI)
    from spec doc Cons.prems(3) at(1) Cons.prems(1) fresh show ?thesis
    proof (cases rule: restore_loop_step)
      case (made_nothing e)
      with after at Cons.prems(6) stays_mono [OF made_nothing(3) sub(1) [folded here]] infos [OF made_nothing(3)]
      show ?thesis by (intro exI [of _ e] exI [of _ us]) (auto simp: Wv)
    next
      case (broke e)
      have "undo_known c ?d (us @ [v]) created' (tree s')"
        unfolding broke(2) by (rule undo_known_snoc(1) [OF after [OF broke(3)] at(2,3) broke(4)]) (use at in auto)
      with broke stays_mono [OF broke(3) sub(1) [folded here]] infos [OF broke(3)]
      show ?thesis by (intro exI [of _ e] exI [of _ "us @ [v]"]) (auto simp: Wv)
    next
      case (went_on s1)
      note fin1 = staysD(1) [OF went_on(1) Cons.prems(3)]
      have known: "undo_known c ?d (us @ [v]) (fst created @ [versionDirName c ?d v], snd created @ [versionInfoFile c ?d v]) (tree s1)"
        by (rule undo_known_snoc(2) [OF after [OF went_on(1)] at(2,3) went_on(2)]) (use at in auto)
      have rest: "distinct vs" "\<forall>v\<in>set vs. readable_time v \<and> version_at doc v \<noteq> None" "set (us @ [v]) \<inter> set vs = {}"
        using Cons.prems(4,5,7) by auto
      from Cons.IH [OF went_on(3) Cons.prems(2) fin1 rest(1,2) known rest(3)]
      obtain e us' where IH: "q = Fail e" "stays tree finv calm (versions_area c ?d (?W vs)) s1 s'" "undo_known c ?d us' created' (tree s')"
        "set us' \<subseteq> set (us @ [v]) \<union> ?W vs"
        "\<forall>w\<in>?W vs - set us'. tree s' (versionInfoFile c ?d w) = tree s1 (versionInfoFile c ?d w)" by blast
      have st: "stays tree finv calm (versions_area c ?d (?W (v # vs))) s s'"
        by (rule stays_trans [OF stays_mono [OF went_on(1) sub(1) [folded here]] stays_mono [OF IH(2) sub(2)]])
      have "v \<in> set us'"
      proof -
        have "versionDirName c ?d v \<in> set (fst created')"
          using restore_loop_created [OF went_on(3)] by simp
        then obtain u where u: "u \<in> set us'" "versionDirName c ?d u = versionDirName c ?d v" using IH(3) by (auto simp: undo_known_def)
        then have "u = v"
          using IH(3) at(2) by (auto simp: undo_known_def local_paths(2) [OF spec] readable_String_eq)
        with u show ?thesis by simp
      qed
      with IH infos [OF went_on(1)] st show ?thesis
        by (intro exI [of _ e] exI [of _ us']) (auto simp: Wv)
    qed
  qed
qed simp

section \<open>The roll-back\<close>

lemma remove_dirs_calm:
  assumes spec: "local_spec c tree finv calm"
    and "finv s" "calm s" "distinct us" "\<forall>u\<in>set us. readable_time u \<and> tree s (versionDirName c d u) = Some Dir"
    and "remove_dirs (lib c) (map (versionDirName c d) us) e s = (e', s')"
  shows "stays tree finv calm (versions_area c d (set us)) s s' \<and> (\<forall>u\<in>set us. tree s' (versionDirName c d u) = None)"
  using assms(2-)
proof (induction us arbitrary: e s)
  case (Cons u us)
  have root: "versionDirName c d u \<noteq> []" by (rule version_dirs_not_root [OF spec])
  obtain s1 where s1: "fs_RemoveRecursive (lib c) (versionDirName c d u) s = (None, s1)"
    using remove_spec_calmD(2) [OF local_specD(5) [OF spec] Cons.prems(1,2) _ root] Cons.prems(4)
    by (cases "fs_RemoveRecursive (lib c) (versionDirName c d u) s") auto
  note eff = effectD(1-3) [OF remove_specD(2) [OF local_specD(5) [OF spec] root] s1 Cons.prems(1)]
  have area: "version_files_area c d u \<subseteq> versions_area c d {u}" by (auto simp: versions_area_def version_area_def)
  have st1: "stays tree finv calm (versions_area c d {u}) s s1"
    using files_callsD(2) [OF frame_files_calls [OF spec area]] by (simp only: steps_stays) (metis s1 snd_conv)
  have gone: "tree s1 (versionDirName c d u) = None" using eff(3) by (simp add: del_tree_def)
  have u: "\<forall>v\<in>{u}. readable_time v" using Cons.prems(4) by simp
  have "tree s1 (versionDirName c d w) = tree s (versionDirName c d w)" if "w \<in> set us" for w
    by (rule other_versions(3) [OF spec Cons.prems(1) st1 u]) (use that Cons.prems(3,4) in auto)
  then have IH: "stays tree finv calm (versions_area c d (set us)) s1 s' \<and> (\<forall>u\<in>set us. tree s' (versionDirName c d u) = None)"
    using Cons.IH [OF eff(1) eff(2) [OF Cons.prems(2)]] Cons.prems(3-5) s1 by (auto simp: Let_def split_def)
  have "tree s' (versionDirName c d u) = tree s1 (versionDirName c d u)"
    by (rule other_versions(3) [OF spec eff(1) conjunct1 [OF IH]]) (use Cons.prems(3,4) in auto)
  moreover have "stays tree finv calm (versions_area c d (set (u # us))) s s'"
    by (rule stays_trans [OF stays_mono [OF st1] stays_mono [OF conjunct1 [OF IH]]]) (auto intro!: versions_area_mono)
  ultimately show ?case using gone IH by simp
qed (simp add: stays_refl)

lemma remove_files_stays:
  assumes spec: "local_spec c tree finv calm"
  shows "set ps \<subseteq> P \<Longrightarrow> stays tree finv calm P s (snd (remove_files (lib c) ps e s))"
proof (induction ps arbitrary: e s)
  case (Cons p ps)
  obtain e1 s1 where s1: "fs_Remove (lib c) p s = (e1, s1)" by fastforce
  have "stays tree finv calm P s s1" using stays_Remove [OF local_specD(5) [OF spec], of p P s] Cons.prems by (simp add: s1)
  with Cons show ?case by (auto simp: s1 Let_def intro: stays_trans)
qed (simp add: stays_refl)

lemma restore_rollback_calm:
  assumes spec: "local_spec c tree finv calm" and finv: "finv s" and calm: "calm s"
    and known: "undo_known c (hd_ID doc) us created (tree s)"
    and run: "local_restore_rollback c doc existed created e s = (err, s')"
  obtains s2 where "stays tree finv calm (versions_area c (hd_ID doc) (set us)) s s2"
    "\<forall>u\<in>set us. tree s2 (versionDirName c (hd_ID doc) u) = None"
    "if existed then s' = s2 else stays tree finv calm (touched c (hd_ID doc)) s2 s' \<and> tree s' (documentDir c (hd_ID doc)) \<noteq> Some Dir"
proof -
  let ?d = "hd_ID doc"
  obtain e1 s1 where s1: "remove_dirs (lib c) (fst created) e s = (e1, s1)" by fastforce
  have dirs: "stays tree finv calm (versions_area c ?d (set us)) s s1 \<and> (\<forall>u\<in>set us. tree s1 (versionDirName c ?d u) = None)"
    by (rule remove_dirs_calm [OF spec finv calm, where e = e and e' = e1]) (use known s1 in \<open>auto simp: undo_known_def\<close>)
  note fin1 = staysD(1) [OF conjunct1 [OF dirs] finv]
  obtain e2 s2 where s2: "remove_files (lib c) (snd created) e1 s1 = (e2, s2)" by fastforce
  have sub: "set (snd created) \<subseteq> versionInfoFile c ?d ` set us" using known by (simp add: undo_known_def)
  have st2: "stays tree finv calm (versionInfoFile c ?d ` set us) s1 s2"
    using remove_files_stays [OF spec sub, of s1 e1] by (simp add: s2)
  have "versionInfoFile c ?d ` set us \<subseteq> versions_area c ?d (set us)" by (auto simp: versions_area_def version_area_def)
  from stays_trans [OF conjunct1 [OF dirs] stays_mono [OF st2 this]]
  have st: "stays tree finv calm (versions_area c ?d (set us)) s s2" .
  have gone: "\<forall>u\<in>set us. tree s2 (versionDirName c ?d u) = None"
  proof
    fix u assume "u \<in> set us"
    moreover have "versionDirName c ?d u \<notin> versionInfoFile c ?d ` set us" by (auto simp: local_paths(2,3) [OF spec])
    ultimately show "tree s2 (versionDirName c ?d u) = None" using dirs staysD(3) [OF st2 fin1] by auto
  qed
  show thesis
  proof (cases existed)
    case True
    then show thesis using run st gone by (intro that) (auto simp: local_restore_rollback_def s1 s2)
  next
    case False
    note fin2 = staysD(1) [OF st finv] and calm2 = staysD(2) [OF st finv calm]
    obtain e3 s3 where s3: "removeCompanyDocumentDirIfExists c (hd_CompanyID doc) ?d s2 = (e3, s3)" by fastforce
    have st3: "stays tree finv calm (company_area c ?d) s2 s3"
      using steps_removeCompanyDocumentDirIfExists [OF step_rel_stays frame_company_calls [OF spec subset_refl], where k = "hd_CompanyID doc" and d = ?d and s = s2]
      by (simp only: steps_stays s3 snd_conv)
    note fin3 = staysD(1) [OF st3 fin2] and calm3 = staysD(2) [OF st3 fin2 calm2]
    have st3': "stays tree finv calm (touched c ?d) s2 s3" by (rule stays_mono [OF st3 areas_touched(1) [OF spec]])
    note i = info_specD(2) [OF local_specD(2) [OF spec] fin3]
    obtain e4 s4 where s4: "uuiddir_RemoveDir (lib c) (documentsDir c) (documentDir c ?d) s3 = (e4, s4)" by fastforce
    have st4: "stays tree finv calm (touched c ?d) s3 s4"
      using dir_callsD(3) [OF document_callsD(4) [OF frame_document_calls [OF spec subset_refl]], where d = ?d and s = s3]
      by (simp only: steps_stays s4 snd_conv)
    note eff = effectD(3,4) [OF remove_specD(3) [OF local_specD(5) [OF spec]] s4 [unfolded documentDir_def] fin3, folded documentDir_def]
    have "tree s4 (documentDir c ?d) \<noteq> Some Dir"
    proof (cases "tree s3 (documentDir c ?d) = Some Dir")
      case True
      then have "e4 = None"
        using remove_spec_calmD(3) [OF local_specD(5) [OF spec] fin3 calm3] s4 by (metis documentDir_def fst_conv)
      then show ?thesis using eff(1) by (simp add: del_id_def)
    next
      case False
      then show ?thesis using eff unfolding del_id_def part_del_id_def by (cases "e4 = None") (auto, metis option.distinct(1))
    qed
    then have "stays tree finv calm (touched c ?d) s2 s' \<and> tree s' (documentDir c ?d) \<noteq> Some Dir"
      using run False i st3' stays_trans [OF st3' st4]
      by (auto simp: local_restore_rollback_def s1 s2 s3 s4 Let_def split: if_splits)
    with st gone False show thesis by (intro that) auto
  qed
qed

section \<open>What the restore starts from\<close>

text \<open>No metadata file lies around without its version directory.\<close>

definition no_stray_infos :: "'f local_conn \<Rightarrow> hashed_document \<Rightarrow> tree \<Rightarrow> bool" where
  "no_stray_infos c doc t \<longleftrightarrow> (\<forall>v\<in>set (VersionTimes doc). t (versionDirName c (hd_ID doc) v) \<noteq> Some Dir
     \<longrightarrow> t (versionInfoFile c (hd_ID doc) v) = None)"

lemma valid_versions:
  assumes "HashedDocument_Validate x (Some doc) = None" "v \<in> fst ` set (Versions doc)"
  shows "version_at doc v \<noteq> None"
proof -
  obtain hvp where hvp: "map_of (Versions doc) v = Some hvp"
    using assms(2) by (metis map_of_eq_None_iff option.exhaust)
  then have "(v, hvp) \<in> set (Versions doc)" by (rule map_of_SomeD)
  with assms(1) have "hvp \<noteq> None" unfolding HashedDocument_Validate_None_iff by fastforce
  with hvp show ?thesis by (simp add: version_at_def)
qed

lemma entry_listed:
  assumes spec: "local_spec c tree finv calm" and finv: "finv s" and run: "documentVersions c d s = Inr existing"
    and v: "readable_time v" "tree s (versionDirName c d v) = Some Dir" "tree s (versionInfoFile c d v) \<noteq> None"
  shows "local_versionTimeIn existing v"
proof -
  obtain dirs where dirs: "enumVersionDirs c (documentDir c d) s = Inr dirs" "existing = sort_key ms_trunc (map fst dirs)"
    using run by (auto simp: documentVersions_def Let_def split: if_splits sum.splits)
  from entry_enumerated [OF spec finv dirs(1) v] have "v \<in> set existing" by (force simp: dirs(2))
  then show ?thesis by (auto simp: local_versionTimeIn_def list_ex_iff VersionTime_Equal_def)
qed

section \<open>A restore that fails\<close>

text \<open>The versions and files that are committed in a tree are those of another one.\<close>

definition same_versions :: "'f local_conn \<Rightarrow> tree \<Rightarrow> tree \<Rightarrow> bool" where
  "same_versions c t t' \<longleftrightarrow> local_view c t' = local_view c t
     \<and> (\<forall>d v. local_view c t d v \<noteq> None \<longrightarrow> local_files c t' d v = local_files c t d v)"

lemma same_or_gone:
  assumes spec: "local_spec c tree finv calm" and finv: "finv s" and st: "stays tree finv calm (touched c d) s s'"
    and "local_view c (tree s) d = Map.empty" "local_view c (tree s') d = Map.empty"
  shows "same_versions c (tree s) (tree s')"
proof -
  have "local_view c (tree s') d' = local_view c (tree s) d'" for d'
    using assms(4,5) other_documents(1) [OF spec finv st] by (cases "d' = d") auto
  moreover have "local_view c (tree s) d' v \<noteq> None \<Longrightarrow> local_files c (tree s') d' v = local_files c (tree s) d' v" for d' v
    using assms(4) other_documents(2) [OF spec finv st] by (cases "d' = d") auto
  ultimately show ?thesis by (auto simp: same_versions_def)
qed

lemma no_document_view: "local_spec c tree finv calm \<Longrightarrow> finv s \<Longrightarrow> tree s (documentDir c d) \<noteq> Some Dir
    \<Longrightarrow> local_view c (tree s) d = Map.empty"
  using no_document(2) by (fastforce simp: fun_eq_iff)

text \<open>The hypotheses on a backup.\<close>

definition restorable :: "'f local_conn \<Rightarrow> hashed_document \<Rightarrow> tree \<Rightarrow> bool" where
  "restorable c doc t \<longleftrightarrow> plain_hashes doc \<and> wf_gomap (Versions doc) \<and> (\<forall>v\<in>fst ` set (Versions doc). readable_time v)
     \<and> no_stray_infos c doc t"

text \<open>What is left of a failed restore: the versions there were, or no document where \<open>recreate\<close> was asked for.\<close>

definition left_by_restore ::
  "'f local_conn \<Rightarrow> ('f \<Rightarrow> tree) \<Rightarrow> ('f \<Rightarrow> bool) \<Rightarrow> ('f \<Rightarrow> bool) \<Rightarrow> uuid \<Rightarrow> bool \<Rightarrow> 'f \<Rightarrow> 'f \<Rightarrow> bool" where
  "left_by_restore c tree finv calm d recreate s s' \<longleftrightarrow> same_versions c (tree s) (tree s')
     \<or> recreate \<and> stays tree finv calm (touched c d) s s' \<and> local_view c (tree s') d = Map.empty"

lemma left_by_restore_empty:
  assumes spec: "local_spec c tree finv calm" and finv: "finv s" and st: "stays tree finv calm (touched c d) s s'"
    and empty: "local_view c (tree s') d = Map.empty" and start: "\<not> recreate \<Longrightarrow> tree s (documentDir c d) \<noteq> Some Dir"
  shows "left_by_restore c tree finv calm d recreate s s'"
proof (cases recreate)
  case False
  then have "local_view c (tree s) d = Map.empty" by (rule no_document_view [OF spec finv start])
  from same_or_gone [OF spec finv st this empty] show ?thesis by (simp add: left_by_restore_def)
qed (use st empty in \<open>simp add: left_by_restore_def\<close>)

lemma failed_deletion:
  assumes spec: "local_spec c tree finv calm" and finv: "finv s" and "calm s"
    and del: "local_restore_delete c cx d s = (r, s')" and "recreate"
  shows "left_by_restore c tree finv calm d recreate s s'"
proof (cases "tree s' (documentDir c d) = Some Dir")
  case True
  with restore_delete_cases(3) [OF spec finv del assms(3)] show ?thesis by (simp add: left_by_restore_def same_versions_def)
next
  case False
  note st = restore_delete_cases(1) [OF spec finv del]
  from no_document_view [OF spec staysD(1) [OF st finv] False] st assms(5) show ?thesis by (simp add: left_by_restore_def)
qed

lemma failed_start:
  assumes spec: "local_spec c tree finv calm" and finv: "finv s" and starts: "restore_starts c cx (hd_ID doc) recreate s s1"
    and ex: "local_restore_existing c cx doc (Exists (lib c) (documentDir c (hd_ID doc)) s1) s1 = (Fail e, s')"
  shows "left_by_restore c tree finv calm (hd_ID doc) recreate s s'"
proof -
  note st1 = restore_starts_cases [OF spec finv starts]
  note fin1 = staysD(1) [OF st1(1) finv]
  note i1 = info_specD(2) [OF local_specD(2) [OF spec] fin1]
  show ?thesis
  proof (cases "tree s1 (documentDir c (hd_ID doc)) = None")
    case True
    then have "local_restore_existing c cx doc False s1 = (Fail e, s')" using ex i1 by simp
    note f = restore_existing_False(1,2) [OF spec fin1 True this]
    have "local_view c (tree s') (hd_ID doc) = Map.empty" using f(2) by (auto simp: local_view_def)
    with st1(3) [OF True] show ?thesis by (intro left_by_restore_empty [OF spec finv stays_trans [OF st1(1) f(1)]]) auto
  next
    case False
    then have "local_restore_existing c cx doc True s = (Fail e, s')" using ex st1(2) i1 by simp
    from restore_existing_True(1) [OF this] show ?thesis by (simp add: left_by_restore_def same_versions_def)
  qed
qed

text \<open>The state the loop starts in.\<close>

lemma restore_ready:
  assumes spec: "local_spec c tree finv calm" and finv: "finv s" and doc: "restorable c doc (tree s)"
    and starts: "restore_starts c cx (hd_ID doc) recreate s s1"
    and ex: "local_restore_existing c cx doc (Exists (lib c) (documentDir c (hd_ID doc)) s1) s1 = (Ret existing, s2)"
  shows "stays tree finv calm (touched c (hd_ID doc)) s s2"
    "v \<in> written_versions recreate existing (VersionTimes doc) \<Longrightarrow> tree s2 (versionInfoFile c (hd_ID doc) v) = None"
    "Exists (lib c) (documentDir c (hd_ID doc)) s1 \<Longrightarrow> s2 = s"
    "\<not> Exists (lib c) (documentDir c (hd_ID doc)) s1 \<Longrightarrow> \<not> recreate \<Longrightarrow> tree s (documentDir c (hd_ID doc)) = None"
proof -
  let ?d = "hd_ID doc" let ?W = "written_versions recreate existing (VersionTimes doc)"
  note st1 = restore_starts_cases [OF spec finv starts]
  note fin1 = staysD(1) [OF st1(1) finv]
  note i1 = info_specD(2) [OF local_specD(2) [OF spec] fin1]
  have all: "stays tree finv calm (touched c ?d) s s2 \<and> (v \<in> ?W \<longrightarrow> tree s2 (versionInfoFile c ?d v) = None)
      \<and> (tree s1 (documentDir c ?d) \<noteq> None \<longrightarrow> s2 = s)" for v
  proof (cases "tree s1 (documentDir c ?d) = None")
    case False
    note s = st1(2) [OF False]
    have ex': "local_restore_existing c cx doc True s = (Ret existing, s2)" using ex i1 False s by simp
    have s2: "s2 = s" by (rule restore_existing_True(1) [OF ex'])
    have run: "documentVersions c ?d s = Inr existing" using restore_existing_True(2) [OF ex'] by blast
    have "tree s (versionInfoFile c ?d v) = None" if v: "v \<in> ?W"
    proof -
      have in_doc: "v \<in> set (VersionTimes doc)" "\<not> local_versionTimeIn existing v"
        using v s by (simp_all add: written_versions_def)
      then have "readable_time v" using doc by (simp only: restorable_def set_VersionTimes)
      with entry_listed [OF spec finv run, of v] doc in_doc show ?thesis unfolding restorable_def no_stray_infos_def by blast
    qed
    then show ?thesis by (simp add: s2 stays_refl)
  next
    case True
    then have "local_restore_existing c cx doc False s1 = (Ret existing, s2)" using ex i1 by simp
    note f = restore_existing_False [OF spec fin1 True this]
    from stays_trans [OF st1(1) f(1)] f(3) True show ?thesis by simp
  qed
  show "stays tree finv calm (touched c ?d) s s2" "v \<in> ?W \<Longrightarrow> tree s2 (versionInfoFile c ?d v) = None"
    using all [of v] by blast+
  show "Exists (lib c) (documentDir c ?d) s1 \<Longrightarrow> s2 = s" using all i1 by simp
  show "\<not> Exists (lib c) (documentDir c ?d) s1 \<Longrightarrow> \<not> recreate \<Longrightarrow> tree s (documentDir c ?d) = None"
    using st1(3) i1 by simp
qed

text \<open>Versions that lack a directory or a metadata file are not committed.\<close>

lemma undone_versions:
  assumes spec: "local_spec c tree finv calm" and finv: "finv s" and st: "stays tree finv calm (versions_area c d W) s s'"
    and W: "\<forall>v\<in>W. readable_time v \<and> tree s (versionInfoFile c d v) = None
      \<and> (tree s' (versionDirName c d v) = None \<or> tree s' (versionInfoFile c d v) = None)"
  shows "same_versions c (tree s) (tree s')"
proof -
  have none: "local_view c (tree s') d v = None \<and> local_view c (tree s) d v = None" if "v \<in> W" for v
    using W that by (auto simp: local_view_def stored_info_def)
  have "\<forall>v\<in>W. readable_time v" using W by blast
  note other = other_versions(1,2) [OF spec finv st this]
  have "local_view c (tree s') d' v = local_view c (tree s) d' v" for d' v
    using none [of v] other(1) [of d' v] by (cases "readable_time v"; cases "d' = d \<and> v \<in> W") (auto simp: local_view_def)
  moreover have "local_files c (tree s') d' v = local_files c (tree s) d' v" if "local_view c (tree s) d' v \<noteq> None" for d' v
  proof -
    have "readable_time v" using that by (auto simp: local_view_def split: if_splits)
    moreover have "d' \<noteq> d \<or> v \<notin> W" using that none by auto
    ultimately show ?thesis by (rule other(2) [rotated])
  qed
  ultimately show ?thesis by (simp add: same_versions_def fun_eq_iff)
qed

lemma failed_loop:
  assumes spec: "local_spec c tree finv calm" and finv: "finv s" and calm: "calm s" and doc: "restorable c doc (tree s)"
    and valid: "HashedDocument_Validate (lext c) (Some doc) = None"
    and starts: "restore_starts c cx (hd_ID doc) recreate s s1"
    and ex: "local_restore_existing c cx doc (Exists (lib c) (documentDir c (hd_ID doc)) s1) s1 = (Ret existing, s2)"
    and loop: "local_restore_loop c cx doc recreate existing None (VersionTimes doc) ([], []) s2 = (q, created, s3)" "q \<noteq> Ret ()"
  shows "\<exists>e. q = Fail e \<and> (\<forall>err s'.
    local_restore_rollback c doc (Exists (lib c) (documentDir c (hd_ID doc)) s1) created e s3 = (err, s')
       \<longrightarrow> left_by_restore c tree finv calm (hd_ID doc) recreate s s')"
proof -
  let ?d = "hd_ID doc" let ?W = "written_versions recreate existing (VersionTimes doc)"
  have vs: "distinct (VersionTimes doc)" "\<forall>v\<in>set (VersionTimes doc). readable_time v \<and> version_at doc v \<noteq> None"
    using doc valid_versions [OF valid] by (simp_all add: distinct_VersionTimes restorable_def)
  have plain: "plain_hashes doc" using doc by (simp add: restorable_def)
  note two = restore_ready [OF spec finv doc starts ex]
  note fin2 = staysD(1) [OF two(1) finv] and calm2 = staysD(2) [OF two(1) finv calm]
  have known: "undo_known c ?d [] ([], []) (tree s2)" by (simp add: undo_known_def)
  obtain e us where L: "q = Fail e" "stays tree finv calm (versions_area c ?d ?W) s2 s3" "undo_known c ?d us created (tree s3)"
    "set us \<subseteq> ?W" "\<forall>v\<in>?W - set us. tree s3 (versionInfoFile c ?d v) = tree s2 (versionInfoFile c ?d v)"
    using local_restore_loop_failed [OF spec plain loop fin2 vs known] by auto
  note fin3 = staysD(1) [OF L(2) fin2] and calm3 = staysD(2) [OF L(2) fin2 calm2]
  show ?thesis
  proof (intro exI [of _ e] conjI allI impI)
    show "q = Fail e" by (rule L(1))
    fix err s' assume roll: "local_restore_rollback c doc (Exists (lib c) (documentDir c ?d) s1) created e s3 = (err, s')"
    obtain s4 where R: "stays tree finv calm (versions_area c ?d (set us)) s3 s4"
      "\<forall>u\<in>set us. tree s4 (versionDirName c ?d u) = None"
      "if Exists (lib c) (documentDir c ?d) s1 then s' = s4
       else stays tree finv calm (touched c ?d) s4 s' \<and> tree s' (documentDir c ?d) \<noteq> Some Dir"
      by (rule restore_rollback_calm [OF spec fin3 calm3 L(3) roll])
    have st4: "stays tree finv calm (versions_area c ?d ?W) s2 s4"
      by (rule stays_trans [OF L(2) stays_mono [OF R(1) versions_area_mono [OF L(4)]]])
    show "left_by_restore c tree finv calm ?d recreate s s'"
    proof (cases "Exists (lib c) (documentDir c ?d) s1")
      case True
      have us: "\<forall>u\<in>set us. readable_time u" "\<forall>v\<in>?W. readable_time v" using vs(2) L(4) by (auto simp: written_versions_def)
      have "tree s4 (versionInfoFile c ?d v) = tree s3 (versionInfoFile c ?d v)" if "v \<in> ?W" "v \<notin> set us" for v
        by (rule other_versions(4) [OF spec fin3 R(1) us(1)]) (use that us(2) in auto)
      then have "\<forall>v\<in>?W. readable_time v \<and> tree s2 (versionInfoFile c ?d v) = None
          \<and> (tree s4 (versionDirName c ?d v) = None \<or> tree s4 (versionInfoFile c ?d v) = None)"
        using us(2) two(2) R(2) L(5) by (metis DiffI)
      from undone_versions [OF spec fin2 st4 this] two(3) [OF True] R(3) True show ?thesis by (simp add: left_by_restore_def)
    next
      case False
      have st: "stays tree finv calm (touched c ?d) s s'"
        by (rule stays_trans [OF two(1) stays_trans [OF stays_mono [OF st4 versions_touched [OF spec]]]]) (use R(3) False in simp)
      have "local_view c (tree s') ?d = Map.empty"
        by (rule no_document_view [OF spec staysD(1) [OF st finv]]) (use R(3) False in simp)
      with two(4) [OF False] show ?thesis by (intro left_by_restore_empty [OF spec finv st]) auto
    qed
  qed
qed

lemma restore_failed:
  assumes spec: "local_spec c tree finv calm" and finv: "finv s" and calm: "calm s"
    and doc: "\<And>doc. docp = Some doc \<Longrightarrow> restorable c doc (tree s)"
    and run: "local_RestoreDocument c cx docp recreate s = (r, s')" "r \<noteq> Ret ()"
  shows "(\<exists>e. r = Fail e) \<and> (s' = s \<or> (\<exists>doc. docp = Some doc \<and> left_by_restore c tree finv calm (hd_ID doc) recreate s s'))"
  using run(1)
proof (cases rule: RestoreDocument_cases)
  case (deletion doc e)
  with failed_deletion [OF spec finv calm deletion(4)] show ?thesis by simp
next
  case (start doc s1 e)
  with failed_start [OF spec finv start(2,3)] show ?thesis by simp
next
  case (loop doc s1 existing s2 q created s3)
  have "q \<noteq> Ret ()" using loop(6) run(2) by (cases q) auto
  from failed_loop [OF spec finv calm doc [OF loop(1)] loop(2) [unfolded loop(1)] loop(3-5) this] loop(1,6)
  show ?thesis by auto
qed simp

end
