(* ===== verification/LocalDocProps.thy ===== *)
theory LocalDocProps
  imports LocalProps LocalRestoreUndo
begin

text \<open>
  The properties of the file-system connection that concern a document as a whole: its
  restore from a backup, its company and its deletion.
\<close>

section \<open>The invariant\<close>

lemma local_inv_document:
  assumes inv: "local_inv c tree finv calm s"
    and "\<And>S. step_rel S \<Longrightarrow> document_calls c d S \<Longrightarrow> steps S s s'"
  shows "local_inv c tree finv calm s'"
  using keeps_infosD [OF assms(2) [OF step_rel_keeps_infos keeps_infos_document_calls [OF local_invD(1) [OF inv]]] inv] .

lemma local_inv_RestoreDocument:
  assumes inv: "local_inv c tree finv calm s" and doc: "\<And>doc. docp = Some doc \<Longrightarrow> plain_hashes doc"
    and run: "local_RestoreDocument c cx docp recreate s = (r, s')"
  shows "local_inv c tree finv calm s'"
proof (cases docp)
  case None
  then have "s' = s" using run by (auto simp: local_RestoreDocument_def split: option.splits)
  with inv show ?thesis by simp
next
  case (Some doc)
  have "steps S s s'" if "step_rel S" "document_calls c (hd_ID doc) S" for S
    using steps_RestoreDocument [OF that doc [OF Some], of s cx recreate] run Some by simp
  from local_inv_document [OF inv this] show ?thesis .
qed

lemma local_inv_DeleteDocument:
  assumes "local_inv c tree finv calm s" "local_DeleteDocument c cx d s = (r, s')"
  shows "local_inv c tree finv calm s'"
proof (rule local_inv_document [OF assms(1)])
  show "steps S s s'" if "step_rel S" "document_calls c d S" for S
    using steps_DeleteDocument [OF that, of s cx] assms(2) by simp
qed

lemma local_inv_setDocumentCompanyID:
  assumes "local_inv c tree finv calm s" "setDocumentCompanyID c cx d k s = (r, s')"
  shows "local_inv c tree finv calm s'"
proof (rule local_inv_document [OF assms(1)])
  show "steps S s s'" if "step_rel S" "document_calls c d S" for S
    using steps_setDocumentCompanyID [OF that(1) document_callsD(1) [OF that(2)], of s cx k] assms(2) by simp
qed

section \<open>RestoreDocument\<close>

text \<open>C17: \<open>RestoreDocument\<close> of the file-system connection that returns without error has merged the backup into the
  document: a version it has, and every version the backup lacks, keeps its metadata and its files; each version of
  the backup of which there was neither a directory nor a metadata file is committed with the company, user and
  reason of the backup, with exactly its files, with the preceding version of the backup as its predecessor and the
  exact change lists against the files of that one. A document that is made anew, because it did not exist or
  because \<open>recreate\<close> was asked for, has nothing else, and \<open>company.id\<close> and the marker directory name its company. No
  version of another document changes.\<close>

theorem local_restore_document:
  assumes "local_inv c tree finv calm s" "plain_hashes doc" "hash_sound (lext c) doc" "wf_gomap (Versions doc)"
    and "\<forall>v\<in>fst ` set (Versions doc). readable_time v"
    and "local_RestoreDocument c cx (Some doc) recreate s = (Ret (), s')"
  shows "(\<forall>v. v \<notin> fst ` set (Versions doc) \<or> start_versions c (hd_ID doc) recreate (tree s) v \<noteq> None \<longrightarrow>
        local_view c (tree s') (hd_ID doc) v = start_versions c (hd_ID doc) recreate (tree s) v
        \<and> (start_versions c (hd_ID doc) recreate (tree s) v \<noteq> None
             \<longrightarrow> local_files c (tree s') (hd_ID doc) v = local_files c (tree s) (hd_ID doc) v))
    \<and> (\<forall>xs v ys. VersionTimes doc = xs @ v # ys \<longrightarrow> recreate \<or> tree s (documentDir c (hd_ID doc)) = None
          \<or> tree s (versionDirName c (hd_ID doc) v) = None \<and> tree s (versionInfoFile c (hd_ID doc) v) = None \<longrightarrow>
        restored_version c doc (tree s') (if xs = [] then None else Some (last xs)) v)
    \<and> (recreate \<or> tree s (documentDir c (hd_ID doc)) = None \<longrightarrow>
        tree s' (companyIDFile c (hd_ID doc)) = Some (File (string_bytes (ID_String (lext c) (hd_CompanyID doc))))
        \<and> tree s' (companyDocumentDir c (hd_CompanyID doc) (hd_ID doc)) = Some Dir)
    \<and> (\<forall>d v. d \<noteq> hd_ID doc \<longrightarrow> local_view c (tree s') d v = local_view c (tree s) d v
        \<and> local_files c (tree s') d v = local_files c (tree s) d v)
    \<and> local_inv c tree finv calm s'"
proof -
  note spec = local_invD(1) [OF assms(1)] and finv = local_invD(2) [OF assms(1)]
  note R = restore_Ret [OF spec finv assms(2-6)]
  have "local_inv c tree finv calm s'" by (rule local_inv_RestoreDocument [OF assms(1) _ assms(6)]) (use assms(2) in simp)
  with R(2-4) other_documents [OF spec finv R(1)] show ?thesis by blast
qed

text \<open>A backup of document 2 with the version of \<open>mem_one\<close> and a later one.\<close>

definition mem_backup :: "uuid \<Rightarrow> hashed_document" where
  "mem_backup user = \<lparr>hd_ID = 2, hd_CompanyID = 1,
     HashedFiles = [(ContentHash local_ext [7], [7]), (ContentHash local_ext [8], [8])],
     Versions = [(mem_time, Some \<lparr>hv_CommitUserID = 3, hv_CommitReason = ''new'',
                    FileHashes = [(''a'', ContentHash local_ext [7])]\<rparr>),
                 (mem_later, Some \<lparr>hv_CommitUserID = user, hv_CommitReason = ''more'',
                    FileHashes = [(''b'', ContentHash local_ext [8])]\<rparr>)]\<rparr>"

lemma mem_times: "readable_time mem_time" "readable_time mem_later" "mem_time \<noteq> mem_later" "ms_trunc mem_time = mem_time"
  "ms_trunc mem_later = mem_later"
  by code_simp+

lemma mem_backup_ok:
  "plain_hashes (mem_backup user)" "wf_gomap (Versions (mem_backup user))" "\<forall>v\<in>fst ` set (Versions (mem_backup user)). readable_time v"
  "hash_sound (lext mem_local) (mem_backup user)"
  "VersionTimes (mem_backup user) = [mem_time, mem_later]"
proof -
  have t: "mem_time < mem_later" by code_simp
  show "plain_hashes (mem_backup user)" using mem_file_name by (simp add: plain_hashes_def mem_backup_def local_name_def)
  show "wf_gomap (Versions (mem_backup user))" using mem_times(3) by (simp add: mem_backup_def)
  show "\<forall>v\<in>fst ` set (Versions (mem_backup user)). readable_time v" using mem_times by (simp add: mem_backup_def)
  have "ContentHash local_ext [8] \<noteq> ContentHash local_ext [7]" by code_simp
  then show "hash_sound (lext mem_local) (mem_backup user)"
    using mem_times(3) by (auto simp: hash_sound_def mem_backup_def version_at_def data_of_def mem_local_def split: if_splits)
  show "VersionTimes (mem_backup user) = [mem_time, mem_later]"
    using t mem_times(4,5) by (simp add: VersionTimes_def mem_backup_def less_imp_le)
qed

definition mem_restore :: "uuid \<Rightarrow> mem_state \<Rightarrow> unit outcome \<times> mem_state" where
  "mem_restore user = local_RestoreDocument mem_local calm_ctx (Some (mem_backup user)) False"

theorem local_restore_document_witness:
  "\<exists>s' info. mem_restore 3 mem_one = (Ret (), s') \<and> local_view mem_local (map_of s') 2 mem_later = Some info
     \<and> CommitReason info = ''more'' \<and> PrevVersion info = Some mem_time
     \<and> local_view mem_local (map_of s') 2 mem_time = local_view mem_local (map_of mem_one) 2 mem_time"
proof -
  have "fst (mem_restore 3 mem_one) = Ret ()" by code_simp
  then obtain s' where run: "mem_restore 3 mem_one = (Ret (), s')" by (cases "mem_restore 3 mem_one") simp
  have new: "map_of mem_one (versionDirName mem_local 2 mem_later) = None" "map_of mem_one (versionInfoFile mem_local 2 mem_later) = None"
    "map_of mem_one (documentDir mem_local 2) \<noteq> None" by code_simp+
  have old: "local_view mem_local (map_of mem_one) 2 mem_time \<noteq> None" by code_simp
  note R = local_restore_document [OF mem_one_inv mem_backup_ok(1,4,2,3) run [unfolded mem_restore_def]]
  have ID: "hd_ID (mem_backup 3) = 2" by (simp add: mem_backup_def)
  have "restored_version mem_local (mem_backup 3) (map_of s') (if [mem_time] = [] then None else Some (last [mem_time])) mem_later"
    using conjunct1 [OF conjunct2 [OF R]] mem_backup_ok(5) [of 3] new(1,2) ID by (metis append.simps)
  then obtain info where "local_view mem_local (map_of s') 2 mem_later = Some info" "restored (mem_backup 3) mem_later info"
    "PrevVersion info = Some mem_time" by (auto simp: restored_version_def ID)
  moreover have "local_view mem_local (map_of s') 2 mem_time = local_view mem_local (map_of mem_one) 2 mem_time"
    using conjunct1 [OF R] old new(3) ID by (simp add: start_versions_def)
  ultimately show ?thesis
    using run mem_times(3) by (auto simp: restored_def mem_backup_def version_at_def)
qed



section \<open>SetDocumentCompanyID\<close>

text \<open>C19: \<open>SetDocumentCompanyID\<close> of the file-system connection keeps the metadata and the files of every committed
  version, whatever its outcome. If it returns without error, the document had a company, the new one is valid
  and has the marker of the document now, the previous company has it no more unless it is the same, the markers of
  all other companies are what they were, and \<open>DocumentCompanyID\<close> returns the new company on a file system that serves
  requests, unless the document already had it without a \<open>company.id\<close>.\<close>

theorem local_set_company:
  assumes "local_inv c tree finv calm s" "local_SetDocumentCompanyID c cx docID companyID s = (r, s')"
  shows "local_view c (tree s') = local_view c (tree s) \<and> (\<forall>d v. local_files c (tree s') d v = local_files c (tree s) d v)
    \<and> local_inv c tree finv calm s'
    \<and> (r = Ret () \<longrightarrow> ID_Validate (lext c) companyID = None
        \<and> (\<exists>prev. documentCompanyID c cx docID s = (Ret prev, s) \<and> company_moved c docID prev companyID (tree s) (tree s')
            \<and> (calm s \<and> (prev \<noteq> companyID \<or> tree s (companyIDFile c docID) \<noteq> None) \<longrightarrow>
                 local_DocumentCompanyID c cx docID s' = (Ret companyID, s'))))"
proof (cases "ctx_Err cx")
  case (Some e)
  then show ?thesis using assms by (auto simp: local_SetDocumentCompanyID_def)
next
  case None
  note spec = local_invD(1) [OF assms(1)] and finv = local_invD(2) [OF assms(1)]
  have run: "setDocumentCompanyID c cx docID companyID s = (r, s')" using assms(2) None by (simp add: local_SetDocumentCompanyID_def)
  note K = setDocumentCompanyID_keeps [OF spec finv run]
  have "ID_Validate (lext c) companyID = None
        \<and> (\<exists>prev. documentCompanyID c cx docID s = (Ret prev, s) \<and> company_moved c docID prev companyID (tree s) (tree s')
            \<and> (calm s \<and> (prev \<noteq> companyID \<or> tree s (companyIDFile c docID) \<noteq> None) \<longrightarrow>
                 local_DocumentCompanyID c cx docID s' = (Ret companyID, s')))" if r: "r = Ret ()"
  proof -
    obtain prev where p: "documentCompanyID c cx docID s = (Ret prev, s)" "company_moved c docID prev companyID (tree s) (tree s')"
      "finv s'" "calm s \<longrightarrow> calm s'" "ID_Validate (lext c) companyID = None"
      by (rule setDocumentCompanyID_Ret [OF spec finv run [unfolded r]])
    have "documentCompanyID c cx docID s' = (Ret companyID, s')"
      if calm: "calm s" "prev \<noteq> companyID \<or> tree s (companyIDFile c docID) \<noteq> None"
    proof -
      obtain b where b: "tree s' (companyIDFile c docID) = Some (File b)" "IDFromString (lcodec c) (bytes_string b) = Inr companyID"
      proof (cases "prev = companyID")
        case True
        with calm(2) documentCompanyID_file [OF spec finv p(1)] p(2) that show thesis by (auto simp: company_moved_def)
      next
        case False
        with p(2) IDFromString_written [OF spec] that show thesis by (simp add: company_moved_def)
      qed
      from documentCompanyID_recorded [OF spec p(3) _ b(1)] p(4) calm(1) b(2) show ?thesis by simp
    qed
    with p None show ?thesis by (auto simp: local_DocumentCompanyID_def)
  qed
  with K local_inv_setDocumentCompanyID [OF assms(1) run] show ?thesis by blast
qed

theorem local_set_company_witness:
  "\<exists>s'. local_SetDocumentCompanyID mem_local calm_ctx 2 5 mem_one = (Ret (), s')
     \<and> local_DocumentCompanyID mem_local calm_ctx 2 s' = (Ret 5, s')
     \<and> local_view mem_local (map_of s') = local_view mem_local (map_of mem_one)"
proof -
  have "fst (local_SetDocumentCompanyID mem_local calm_ctx 2 5 mem_one) = Ret ()" by code_simp
  then obtain s' where run: "local_SetDocumentCompanyID mem_local calm_ctx 2 5 mem_one = (Ret (), s')"
    by (cases "local_SetDocumentCompanyID mem_local calm_ctx 2 5 mem_one") simp
  have "map_of mem_one (companyIDFile mem_local 2) \<noteq> None" by code_simp
  with local_set_company [OF mem_one_inv run] run show ?thesis by auto
qed

section \<open>DeleteDocument\<close>

text \<open>C20: \<open>DeleteDocument\<close> of the file-system connection that returns without error has removed the directory of the
  document with all versions and its marker in its company's directory. A document without a directory is not found and nothing
  changes. On a file system that serves requests the directory is gone afterwards even when the company can not be
  read or removed, and the call succeeds if the company has the marker. No path of another document changes.\<close>

theorem local_delete_document:
  assumes "local_inv c tree finv calm s" "local_DeleteDocument c cx docID s = (r, s')"
  shows "(r = Ret () \<longrightarrow> tree s' (documentDir c docID) = None \<and> local_view c (tree s') docID = Map.empty
        \<and> (\<exists>k. documentCompanyID c cx docID s = (Ret k, s) \<and> tree s' (companyDocumentDir c k docID) = None))
    \<and> (ctx_Err cx = None \<and> tree s (documentDir c docID) = None \<longrightarrow> r = Fail (ErrDocumentNotFound docID) \<and> s' = s)
    \<and> (ctx_Err cx = None \<and> calm s \<and> tree s (documentDir c docID) = Some Dir \<longrightarrow>
        tree s' (documentDir c docID) = None \<and> local_view c (tree s') docID = Map.empty
        \<and> (\<forall>k. documentCompanyID c cx docID s = (Ret k, s) \<and> tree s (companyDocumentDir c k docID) = Some Dir \<longrightarrow> r = Ret ()))
    \<and> (\<forall>d. d \<noteq> docID \<longrightarrow> (\<forall>q\<in>document_area c d. tree s' q = tree s q))
    \<and> local_inv c tree finv calm s'"
proof -
  note spec = local_invD(1) [OF assms(1)] and finv = local_invD(2) [OF assms(1)]
  note D = DeleteDocument_cases [OF spec finv assms(2)]
  have gone: "tree s' (documentDir c docID) = None \<Longrightarrow> local_view c (tree s') docID = Map.empty"
    by (rule no_document_view [OF spec staysD(1) [OF D(1) finv]]) simp
  have "\<forall>q\<in>document_area c d. tree s' q = tree s q" if "d \<noteq> docID" for d
    using staysD(3) [OF D(1) finv] document_area_disjoint [OF spec that] by blast
  moreover have "r = Ret () \<longrightarrow> tree s' (documentDir c docID) = None \<and> local_view c (tree s') docID = Map.empty
      \<and> (\<exists>k. documentCompanyID c cx docID s = (Ret k, s) \<and> tree s' (companyDocumentDir c k docID) = None)"
    using D(2) gone by metis
  moreover have "ctx_Err cx = None \<and> calm s \<and> tree s (documentDir c docID) = Some Dir \<longrightarrow>
        tree s' (documentDir c docID) = None \<and> local_view c (tree s') docID = Map.empty
        \<and> (\<forall>k. documentCompanyID c cx docID s = (Ret k, s) \<and> tree s (companyDocumentDir c k docID) = Some Dir \<longrightarrow> r = Ret ())"
    using D(4) gone by metis
  ultimately show ?thesis using D(3) local_inv_DeleteDocument [OF assms] by metis
qed

theorem local_delete_document_witness:
  "\<exists>s'. local_DeleteDocument mem_local calm_ctx 2 mem_one = (Ret (), s') \<and> local_view mem_local (map_of s') 2 = Map.empty"
proof -
  have "fst (local_DeleteDocument mem_local calm_ctx 2 mem_one) = Ret ()" by code_simp
  then obtain s' where run: "local_DeleteDocument mem_local calm_ctx 2 mem_one = (Ret (), s')"
    by (cases "local_DeleteDocument mem_local calm_ctx 2 mem_one") simp
  from conjunct1 [OF local_delete_document [OF mem_one_inv run]] run show ?thesis by auto
qed

end
