(* ===== verification/LocalSafe.thy ===== *)
theory LocalSafe
  imports LocalDocProps
begin

text \<open>
  Calls on a file-system connection do not panic: whatever the state, they return or fail,
  also when a callback panics.
\<close>

section \<open>Operations\<close>

text \<open>A callback that returns a result or fails, as its type asks for in Go, or panics.\<close>

definition gives_result :: "create_version_func option \<Rightarrow> bool" where
  "gives_result createVersion \<longleftrightarrow> (\<forall>create d v p. createVersion = Some create \<longrightarrow> create d v p \<noteq> Ret None)"

fun call_gives_result :: "conn_call \<Rightarrow> bool" where
  "call_gives_result (Call_AddDocumentVersion cx docID userID reason createVersion onNewVersion) = gives_result createVersion"
| "call_gives_result (Call_AddMultiDocumentVersion cx docIDs userID reason createVersion onNewVersion) = gives_result createVersion"
| "call_gives_result _ = True"

lemma quiet_outcome: "quiet m \<Longrightarrow> fst m \<noteq> Panic msg"
  by (simp add: quiet_def)

lemma quiet_neq: "quiet m \<Longrightarrow> m \<noteq> (Panic msg, s')"
  by (auto simp: quiet_def)

lemma recovered_None: "recovered r = Inr None \<longleftrightarrow> r = Ret None"
  by (cases r) simp_all

lemma quiet_SetDocumentCompanyID [quiet_rules]: "quiet (local_SetDocumentCompanyID c cx d k s)"
  unfolding local_SetDocumentCompanyID_def by (cases "ctx_Err cx") (auto intro: quiet_rules)

lemma quiet_reads [quiet_rules]:
  "quiet (local_DocumentCompanyID c cx d s)" "quiet (local_LatestDocumentVersionInfo c cx d s)"
  "quiet (local_LatestDocumentVersion c cx d s)" "quiet (local_DocumentVersionInfo c cx d v s)"
proof -
  show latest: "quiet (local_LatestDocumentVersionInfo c cx d s)" for s
    unfolding local_LatestDocumentVersionInfo_def by (auto intro!: quiet_rules split: option.split)
  show "quiet (local_DocumentCompanyID c cx d s)"
    unfolding local_DocumentCompanyID_def by (auto intro!: quiet_rules split: option.split)
  show "quiet (local_LatestDocumentVersion c cx d s)"
    unfolding local_LatestDocumentVersion_def by (intro quiet_rules latest)
  show "quiet (local_DocumentVersionInfo c cx d v s)"
    unfolding local_DocumentVersionInfo_def by (auto intro!: quiet_rules split: option.split)
qed

lemma quiet_remove_company_entry [quiet_rules]: "quiet (remove_company_entry c cx d s)"
  unfolding remove_company_entry_def by (intro quiet_rules)

lemma quiet_DeleteDocument [quiet_rules]: "quiet (local_DeleteDocument c cx d s)"
proof -
  obtain r s1 where r: "remove_company_entry c cx d s = (r, s1)" by fastforce
  with quiet_remove_company_entry [of c cx d s] show ?thesis
    by (cases r) (auto simp: quiet_def local_DeleteDocument_def remove_document_def split: option.split prod.split)
qed

lemma quiet_DeleteDocumentVersion [quiet_rules]: "quiet (local_DeleteDocumentVersion c cx d v s)"
  unfolding local_DeleteDocumentVersion_def Let_def
  by (intro quiet_rules) (rule quiet_pair [OF quiet_remove_company_entry], assumption)+

lemma quiet_CreateDocument [quiet_rules]: "quiet (local_CreateDocument c cx k d u reason v files onNewVersion s)"
proof (cases onNewVersion)
  case (Some onNew)
  have "quiet (create_body c cx k d u reason v files onNew s)"
    unfolding create_body_def Let_def by (intro quiet_rules)
  moreover obtain r s1 where r: "create_body c cx k d u reason v files onNew s = (r, s1)" by fastforce
  ultimately show ?thesis
    unfolding local_CreateDocument_def Some option.case r prod.case Let_def
    by (cases r) (auto simp: quiet_def split: option.split prod.split)
qed (auto simp: local_CreateDocument_def quiet_def split: option.split)

lemma quiet_AddDocumentVersion:
  assumes "gives_result createVersion"
  shows "quiet (local_AddDocumentVersion c cx d u reason createVersion onNew s)"
proof -
  have none: "recovered (create d v p) \<noteq> Inr None" if "createVersion = Some create" for create v p
    using assms that by (simp add: recovered_None gives_result_def)
  show ?thesis
    using none quiet_neq [OF quiet_latest, of c cx d] quiet_neq [OF quiet_local_write_version, of c cx d u reason]
    unfolding local_AddDocumentVersion_def Let_def quiet_def
    by (auto split: option.split prod.split outcome.split sum.split)
qed

lemma restore_loop_quiet:
  assumes "\<forall>v\<in>set vs. version_at doc v \<noteq> None"
    and "local_restore_loop c cx doc recreate existing prev vs created s = (q, created', s')"
  shows "q \<noteq> Panic msg"
  using assms
proof (induction vs arbitrary: prev created s)
  case (Cons v vs)
  show ?case
    using Cons.prems Cons.IH
    by (auto simp: Let_def split: if_splits prod.splits option.splits sum.splits)
qed auto

lemma quiet_RestoreDocument [quiet_rules]: "quiet (local_RestoreDocument c cx docp recreate s)"
proof -
  obtain r s' where run: "local_RestoreDocument c cx docp recreate s = (r, s')" by fastforce
  then have "r \<noteq> Panic msg" for msg
  proof (cases rule: RestoreDocument_cases)
    case (loop doc s1 existing s2 q created s3)
    have "\<forall>v\<in>set (VersionTimes doc). version_at doc v \<noteq> None"
      using valid_versions [OF loop(2) [unfolded loop(1)]] by simp
    from restore_loop_quiet [OF this loop(5)] loop(6) show ?thesis by (cases q) auto
  qed simp_all
  with run show ?thesis by (simp add: quiet_def)
qed

text \<open>\<open>AddMultiDocumentVersion\<close> recovers from every panic, and its roll-back does not panic.\<close>

lemma undo_created_quiet:
  assumes "\<And>cx d v s. quiet (conn_DeleteDocumentVersion c cx d v s)"
  shows "quiet (undo_created cx c created e s)"
proof (induction created arbitrary: e s)
  case (Cons dv created)
  obtain r s1 where r: "conn_DeleteDocumentVersion c cx (fst dv) (snd dv) s = (r, s1)" by fastforce
  with assms have "quiet (r, s1)" by metis
  with r Cons show ?case by (cases dv; cases r) (auto simp: quiet_def)
qed (simp add: quiet_def)

lemma quiet_AddMulti:
  assumes "\<And>cx d v s. quiet (conn_DeleteDocumentVersion c cx d v s)"
  shows "quiet (AddMultiDocumentVersionImpl cx c docIDs u reason createVersion onNew s)"
proof -
  obtain r created s1 where "add_multi_loop cx c u reason createVersion onNew docIDs [] s = ((r, created), s1)"
    by (metis prod.collapse)
  with undo_created_quiet [OF assms] show ?thesis
    by (cases r) (auto simp: AddMultiDocumentVersionImpl_def quiet_def)
qed

section \<open>Calls\<close>

lemma map_outcome_Panic [simp]: "map_outcome f r = Panic msg \<longleftrightarrow> r = Panic msg"
  by (cases r) simp_all

text \<open>C21: No call on a file-system connection ends in a panic, whatever the state, provided that a callback it calls
  returns a result, fails or panics, that its context and the readers of the files of \<open>CreateDocument\<close> are not \<open>nil\<close>
  (the types of the model leave no room for those: in Go they panic, the reader when it is copied), and that the
  functions of \<open>go-fs\<close>, \<open>uuiddir\<close> and the codec return. With \<open>nil\<close> callbacks, a \<open>nil\<close> backup or a file system that
  fails every request the call fails with an error. So does it when a callback panics: the panic is recovered and never
  propagated, which the comments of \<open>Conn\<close> leave open.\<close>

theorem local_calls_never_panic:
  assumes "call_gives_result call"
  shows "call_result (localConn c) call s \<noteq> Panic msg"
proof -
  note defs = localConn_def with_add_multi_def local_methods_def
  have reads: "fst (read_op f s) \<noteq> Panic msg" for f :: "'a \<Rightarrow> err + 'b" by (metis read_op_Panic surjective_pairing)
  show ?thesis
  proof (cases call)
    case (Call_AddDocumentVersion cx docID userID reason createVersion onNewVersion)
    then have "quiet (local_AddDocumentVersion c cx docID userID reason createVersion onNewVersion s)"
      using assms by (intro quiet_AddDocumentVersion) simp
    with Call_AddDocumentVersion show ?thesis
      by (auto simp: defs local_add_accepts_def dest: quiet_neq split: prod.split outcome.split)
  next
    case (Call_AddMultiDocumentVersion cx docIDs userID reason createVersion onNewVersion)
    have "quiet (conn_DeleteDocumentVersion (local_methods c) cx d v s)" for cx d v s
      by (simp add: local_methods_def quiet_DeleteDocumentVersion)
    from quiet_outcome [OF quiet_AddMulti [OF this]] Call_AddMultiDocumentVersion show ?thesis
      by (simp add: localConn_def with_add_multi_def)
  qed (simp_all add: defs quiet_outcome [OF quiet_SetDocumentCompanyID] quiet_outcome [OF quiet_reads(1)]
      quiet_outcome [OF quiet_reads(2)] quiet_outcome [OF quiet_reads(3)] quiet_outcome [OF quiet_reads(4)]
      quiet_outcome [OF quiet_DeleteDocument] quiet_outcome [OF quiet_DeleteDocumentVersion]
      quiet_outcome [OF quiet_CreateDocument] quiet_outcome [OF quiet_RestoreDocument] read_op_def split: sum.split)
qed

theorem local_calls_never_panic_witness:
  "call_result (localConn mem_local)
      (Call_AddDocumentVersion calm_ctx 2 3 [] (Some (\<lambda>_ _ _. Panic ''boom'')) (Some (\<lambda>_. Ret ()))) mem_one \<noteq> Panic ''boom''
   \<and> (case call_result (localConn mem_local)
      (Call_AddDocumentVersion calm_ctx 2 3 [] (Some (\<lambda>_ _ _. Panic ''boom'')) (Some (\<lambda>_. Ret ()))) mem_one of
        Fail e \<Rightarrow> e = OtherErr ''boom'' | Ret u \<Rightarrow> False | Panic msg \<Rightarrow> False)"
proof
  show "call_result (localConn mem_local)
      (Call_AddDocumentVersion calm_ctx 2 3 [] (Some (\<lambda>_ _ _. Panic ''boom'')) (Some (\<lambda>_. Ret ()))) mem_one \<noteq> Panic ''boom''"
    by (rule local_calls_never_panic) (simp add: gives_result_def)
  show "case call_result (localConn mem_local)
      (Call_AddDocumentVersion calm_ctx 2 3 [] (Some (\<lambda>_ _ _. Panic ''boom'')) (Some (\<lambda>_. Ret ()))) mem_one of
        Fail e \<Rightarrow> e = OtherErr ''boom'' | Ret u \<Rightarrow> False | Panic msg \<Rightarrow> False" by code_simp
qed

end
