(* ===== verification/LocalMulti.thy ===== *)
theory LocalMulti
  imports LocalSafe AddMulti
begin

text \<open>
  \<open>AddMultiDocumentVersion\<close> of the file-system connection: it keeps the contract the shared
  implementation relies on, so a call adds the versions one after another or none at all.
\<close>

section \<open>A deletion on a file system that does not fail\<close>

lemma drop_version_None: "mv d (ms_trunc v) = None \<Longrightarrow> drop_version mv d v = mv"
  by (auto simp: drop_version_def fun_eq_iff)

lemma delete_version_calm:
  assumes inv: "local_inv c tree finv calm s" and v: "0 \<le> Time v" and calm: "calm s" and cx: "ctx_Err cx = None"
    and run: "local_DeleteDocumentVersion c cx d v s = (r, s')"
  shows "local_view c (tree s') = drop_version (local_view c (tree s)) d v"
    "local_view c (tree s') d' w \<noteq> None \<Longrightarrow> local_files c (tree s') d' w = local_files c (tree s) d' w"
proof -
  note spec = local_invD(1) [OF inv] and finv = local_invD(2) [OF inv]
  note rem = remove_spec_calmD [OF local_specD(5) [OF spec]]
  let ?dir = "versionDirName c d v" and ?info = "versionInfoFile c d v" and ?doc = "documentDir c d"
  have "local_view c (tree s') = drop_version (local_view c (tree s)) d v
    \<and> (\<forall>d' w. local_view c (tree s') d' w \<noteq> None \<longrightarrow> local_files c (tree s') d' w = local_files c (tree s) d' w)"
  proof (cases "documentAndVersionDir c d v s = Inr (?doc, ?dir)")
    case False
    then have "s' = s" using run cx
      by (auto simp: local_DeleteDocumentVersion_def documentAndVersionDir_Inr split: sum.splits)
    moreover have "local_view c (tree s) d (ms_trunc v) = None"
    proof (rule ccontr)
      assume "local_view c (tree s) d (ms_trunc v) \<noteq> None"
      then obtain i where "local_view c (tree s) d (ms_trunc v) = Some i" by blast
      note com = committed_dirs [OF spec finv this]
      have "Time v \<noteq> 0" using com(3) by auto
      with com(1,2) False show False by (simp add: documentAndVersionDir_Inr)
    qed
    ultimately show ?thesis by (simp add: drop_version_None)
  next
    case True
    then have dirs: "tree s ?doc = Some Dir" "tree s ?dir = Some Dir"
      using info_specD(3) [OF local_specD(2) [OF spec] finv] by (simp_all add: documentAndVersionDir_Inr)
    obtain s1 where s1: "fs_RemoveRecursive (lib c) ?dir s = (None, s1)"
      using rem(2) [OF finv calm dirs(2) version_dirs_not_root(1) [OF spec]] by (metis prod.collapse)
    obtain e2 s2 where s2: "(if Exists (lib c) ?info s1 then fs_Remove (lib c) ?info s1 else (None, s1)) = (e2, s2)" by fastforce
    obtain x where x: "(if Exists (lib c) ?info s1
        then (let (e, t) = fs_Remove (lib c) ?info s1 in (errors_Join [None, e], t)) else (None, s1)) = (x, s2)"
      using s2 by (cases "fs_Remove (lib c) ?info s1") (auto split: if_splits)
    note gone = version_removed [OF inv v s1 s2]
    note st2 = staysD [OF gone(1) finv]
    have "?doc \<notin> version_area c d v" by (auto simp: version_area_def version_files_area_def local_paths(2,3) [OF spec])
    then have doc2: "tree s2 ?doc = Some Dir" using st2(3) [of ?doc] company_paths_apart(1) [OF spec] dirs(1) by simp
    from documentVersions_calm [OF spec st2(1) st2(2) [OF calm] doc2] obtain left where left: "documentVersions c d s2 = Inr left"
      by blast
    note run = run [unfolded local_DeleteDocumentVersion_def cx True s1 x option.case sum.case prod.case Let_def]
    show ?thesis
    proof (cases "left = []")
      case False
      have "s' = s2" using run by (simp add: x [unfolded Let_def] left False split: option.splits)
      with gone(3,4) show ?thesis by simp
    next
      case left_nil: True
      have no: "local_view c (tree s2) d w = None" for w
        using documentVersions_listed [OF spec st2(1) left, of w] left_nil by (cases "local_view c (tree s2) d w") simp_all
      obtain re s3 where s3: "remove_company_entry c cx d s2 = (re, s3)" by fastforce
      from steps_remove_company_entry [OF step_rel_stays frame_company_calls [OF spec subset_refl], where s = s2 and cx = cx and d = d]
      have "stays tree finv calm (company_area c d) s2 s3" by (simp only: steps_stays s3 snd_conv)
      note st3 = staysD [OF this st2(1)]
      have "tree s3 ?doc = Some Dir" using st3(3) [OF company_paths_apart(1) [OF spec]] doc2 by simp
      then have "fst (uuiddir_RemoveDir (lib c) (documentsDir c) ?doc s3) = None"
        using rem(3) [OF st3(1) st3(2) [OF st2(2) [OF calm]], of "documentsDir c" d] by (simp add: documentDir_def)
      then obtain s4 where s4: "uuiddir_RemoveDir (lib c) (documentsDir c) ?doc s3 = (None, s4)" by (metis prod.collapse)
      have "\<And>msg. re \<noteq> Panic msg" using quiet_outcome [OF quiet_remove_company_entry [of c cx d s2]] s3 by simp
      then have "s' = s4"
        using run by (cases re) (auto simp: x [unfolded Let_def] left left_nil s3 s4 split: option.splits)
      with last_version_removed [OF spec st2(1) no s3 s4] gone(3,4) show ?thesis by simp
    qed
  qed
  then show "local_view c (tree s') = drop_version (local_view c (tree s)) d v"
    "local_view c (tree s') d' w \<noteq> None \<Longrightarrow> local_files c (tree s') d' w = local_files c (tree s) d' w" by blast+
qed

section \<open>The contract\<close>

text \<open>A callback whose versions can be read back from the names of their directories.\<close>

definition early_results :: "create_version_func option \<Rightarrow> bool" where
  "early_results createVersion \<longleftrightarrow> (\<forall>create d v p result. createVersion = Some create \<longrightarrow>
     create d v p = Ret (Some result) \<longrightarrow> Time (cvr_Version result) < year_10000)"

definition local_stored :: "version_info \<Rightarrow> version_info \<Rightarrow> bool" where
  "local_stored info info' \<longleftrightarrow> stored_as info info' \<and> 0 \<le> Time (Version info)"

definition live_ctx :: "ctx \<Rightarrow> ctx" where
  "live_ctx cx = cx\<lparr>ctx_Err := None\<rparr>"

lemma live_ctx [simp]: "ctx_Err (live_ctx cx) = None" "ctx_Err cx = None \<Longrightarrow> live_ctx cx = cx"
  by (simp_all add: live_ctx_def)

lemma localConn_calls:
  "conn_AddDocumentVersion (localConn c) cx d userID reason createVersion onNewVersion s =
     (let (r, s') = local_AddDocumentVersion c cx d userID reason createVersion onNewVersion s in (local_add_accepts r, s'))"
  "conn_DeleteDocumentVersion (localConn c) cx d v s = local_DeleteDocumentVersion c cx d v s"
  by (simp_all add: localConn_def with_add_multi_def local_methods_def)

lemma local_add_accepts:
  "local_add_accepts r = (Ret u, infos) \<longleftrightarrow> (\<exists>info. r = Ret info \<and> infos = [info])"
  "r' \<noteq> Ret () \<Longrightarrow> local_add_accepts r = (r', infos) \<Longrightarrow> infos = [] \<and> (\<forall>info. r \<noteq> Ret info)"
  by (auto simp: local_add_accepts_def split: outcome.splits)

lemma added_times:
  assumes "local_inv c tree finv calm s"
    and "local_AddDocumentVersion c cx d userID reason createVersion onNewVersion s = (Ret info, s')"
  shows "0 \<le> Time (Version info)" "early_results createVersion \<Longrightarrow> Time (Version info) < year_10000"
proof -
  from assms(2) have "0 \<le> Time (Version info) \<and> (early_results createVersion \<longrightarrow> Time (Version info) < year_10000)"
  proof (cases rule: AddDocumentVersion_cases)
    case (2 prev prevDir result onNew w t)
    then have "w = Ret info" by (cases w; fastforce)
    with 2(2) have "local_write_version c cx d userID reason prev prevDir result onNew s = (Ret info, t)" by simp
    then have "Version info = cvr_Version result" by (rule local_write_version_Version)
    moreover have "0 \<le> Time (cvr_Version result)" by (rule add_reaches_latest [OF assms(1) 2(1)])
    ultimately show ?thesis using 2(1) unfolding add_reaches_def early_results_def by auto
  qed simp
  then show "0 \<le> Time (Version info)" "early_results createVersion \<Longrightarrow> Time (Version info) < year_10000" by simp_all
qed

lemma stays_calm: "local_inv c tree finv calm s \<Longrightarrow> calm s \<Longrightarrow> stays tree finv calm T s s' \<Longrightarrow> calm s'"
  by (rule staysD(2) [OF _ local_invD(2)])

interpretation local_multi: versioned_files "localConn c" "live_ctx cx" "\<lambda>s. local_view c (tree s)"
    "local_inv c tree finv calm" calm "\<lambda>createVersion. local_results createVersion \<and> early_results createVersion"
    local_stored UNIV "\<lambda>s. local_files c (tree s)"
  for c cx tree finv calm
proof (unfold_locales, goal_cases)
  case (1 docID s createVersion userID reason onNewVersion u infos s')
  then obtain info where run: "local_AddDocumentVersion c (live_ctx cx) docID userID reason createVersion onNewVersion s = (Ret info, s')"
    and infos: "infos = [info]" by (auto simp: localConn_calls local_add_accepts(1) split: prod.splits)
  have res: "local_results createVersion" "Time (Version info) < year_10000"
    using 1(3) added_times(2) [OF 1(2) run] by simp_all
  obtain prev prevDir result onNew info' where a:
    "add_reaches c (live_ctx cx) docID userID createVersion onNewVersion s prev prevDir result onNew"
    "version_written c (tree s) (tree s') docID userID reason prev prevDir result info" "onNew info = Ret ()"
    "local_view c (tree s') = put_version (local_view c (tree s)) docID (Version info) info'" "stored_as info info'"
    "local_view c (tree s) docID (ms_trunc (Version info)) = None"
    by (rule add_commits [OF 1(2) res(1) run res(2)]) blast
  have "local_stored info info'" using a(5) added_times(1) [OF 1(2) run] by (simp add: local_stored_def)
  with a infos local_inv_AddDocumentVersion [OF 1(2) res(1) run] show ?case
    by (auto simp: add_reaches_def version_written_def)
next
  case (2 docID s createVersion userID reason onNewVersion r infos s')
  then obtain ra where run: "local_AddDocumentVersion c (live_ctx cx) docID userID reason createVersion onNewVersion s = (ra, s')"
    and ra: "local_add_accepts ra = (r, infos)" by (auto simp: localConn_calls split: prod.splits)
  note no = local_add_accepts(2) [OF 2(5) ra] and res = 2(3) [THEN conjunct1]
  from local_inv_AddDocumentVersion [OF 2(2) res run] failed_add_keeps [OF 2(2) _ res run] no show ?case by blast
next
  case (3 docID s createVersion userID reason onNewVersion r infos s')
  note spec = local_invD(1) [OF 3(2)]
  from steps_AddDocumentVersion [OF step_rel_stays frame_document_calls [OF spec subset_refl] spec 3(3) [THEN conjunct1],
      where s = s and cx = "live_ctx cx" and userID = userID and reason = reason and onNewVersion = onNewVersion and d = docID] 3(5)
  have "stays tree finv calm (touched c docID) s s'" by (simp add: steps_stays localConn_calls split: prod.splits)
  with 3(2,4) show ?case by (rule stays_calm)
next
  case (4 docID s v rd s')
  then have run: "local_DeleteDocumentVersion c (live_ctx cx) docID v s = (rd, s')" by (simp add: localConn_calls)
  with local_inv_DeleteDocumentVersion [OF 4(2) run] quiet_outcome [OF quiet_DeleteDocumentVersion [of c "live_ctx cx" docID v s]]
  show ?case by simp
next
  case (5 docID s info info' v rd s')
  note spec = local_invD(1) [OF 5(2)]
  have run: "local_DeleteDocumentVersion c (live_ctx cx) docID v s = (rd, s')" using 5(6) by (simp add: localConn_calls)
  have v: "0 \<le> Time v" using 5(4,5) by (auto simp: local_stored_def)
  from steps_DeleteDocumentVersion [OF step_rel_stays frame_document_calls [OF spec subset_refl],
      where s = s and cx = "live_ctx cx" and d = docID and v = v] run
  have "stays tree finv calm (touched c docID) s s'" by (simp add: steps_stays)
  with 5(2,3) have "calm s'" by (rule stays_calm)
  with delete_version_calm(1) [OF 5(2) v 5(3) live_ctx(1) run] show ?case by simp
next
  case (6 docID s createVersion userID reason onNewVersion r infos s' d w)
  then obtain ra where run: "local_AddDocumentVersion c (live_ctx cx) docID userID reason createVersion onNewVersion s = (ra, s')"
    by (auto simp: localConn_calls split: prod.splits)
  have res: "local_results createVersion" using 6(3) by simp
  show ?case
  proof (cases "\<exists>info. ra = Ret info")
    case True
    then obtain info where info: "ra = Ret info" by blast
    have "Time (Version info) < year_10000" using 6(3) added_times(2) [OF 6(2) run [unfolded info]] by simp
    from 6(2) res run [unfolded info] this show ?thesis by (rule add_commits) (use 6(6) in simp)
  next
    case False
    with failed_add_keeps [OF 6(2,4) res run] 6(6) show ?thesis by blast
  qed
next
  case (7 docID s info info' v rd s' d w)
  have run: "local_DeleteDocumentVersion c (live_ctx cx) docID v s = (rd, s')" using 7(6) by (simp add: localConn_calls)
  have v: "0 \<le> Time v" using 7(4,5) by (auto simp: local_stored_def)
  from delete_version_calm(2) [OF 7(2) v 7(3) live_ctx(1) run 7(7)] show ?case .
qed

section \<open>The property\<close>

definition mem_multi :: "uuid list \<Rightarrow> unit outcome \<times> mem_state" where
  "mem_multi docIDs = conn_AddMultiDocumentVersion (localConn mem_local) calm_ctx docIDs 3 ''all''
     (Some (CreateVersionWriteFiles (Time mem_later) [Some (NewMemFile ''b'' [8])])) (Some (\<lambda>_. Ret ())) mem_one"

text \<open>C35: \<open>AddMultiDocumentVersion\<close> of the file-system connection is all or nothing when the file system works and
  the callback asks for versions before the year 10000: without an error it added, one after another, at least
  one version, each accepted by the callback, each for another position of the given documents and each at a time
  the document had no version at; with an error, whatever failed and whether or not a callback panicked, the
  committed versions are what they were. It never panics, and either way the files of every version that was
  committed before are untouched.\<close>

theorem local_add_multi_atomic:
  assumes "conn_AddMultiDocumentVersion (localConn c) cx docIDs userID reason createVersion onNewVersion s = (r, s')"
    and "local_inv c tree finv calm s" "calm s" "ctx_Err cx = None"
    and "local_results createVersion" "early_results createVersion"
  shows "local_inv c tree finv calm s'
    \<and> (\<forall>d v. local_view c (tree s) d v \<noteq> None \<longrightarrow> local_files c (tree s') d v = local_files c (tree s) d v)
    \<and> (case r of
         Ret _ \<Rightarrow> \<exists>infos. infos \<noteq> [] \<and> accepted_by onNewVersion infos \<and> subseq (map DocID infos) docIDs
           \<and> adds local_stored (local_view c (tree s)) infos (local_view c (tree s'))
       | Fail e \<Rightarrow> local_view c (tree s') = local_view c (tree s)
       | Panic msg \<Rightarrow> False)"
proof -
  have run: "AddMultiDocumentVersionImpl (live_ctx cx) (localConn c) docIDs userID reason createVersion onNewVersion s = (r, s')"
    using assms(1,4) by (simp add: localConn_def AddMulti_with_self [symmetric])
  have ok: "local_results createVersion \<and> early_results createVersion" using assms(5,6) by simp
  note keeps = local_multi.add_multi_keeps [OF run assms(2) subset_UNIV ok assms(3)]
  show ?thesis
  proof (cases "r = Ret ()")
    case True
    from local_multi.add_multi_Ret [OF run [unfolded True] assms(2) subset_UNIV ok] assms(3) keeps True show ?thesis by auto
  next
    case False
    from local_multi.add_multi_fails [OF run assms(2) subset_UNIV ok False] assms(3) keeps show ?thesis by auto
  qed
qed

lemma mem_later_early: "Time (VersionTimeFrom (Time mem_later)) < year_10000"
  by code_simp

theorem local_add_multi_atomic_witness:
  "(\<exists>e. fst (mem_multi [2, 9]) = Fail e)
   \<and> local_view mem_local (map_of (snd (mem_multi [2, 9]))) = local_view mem_local (map_of mem_one)"
proof -
  have failed: "(case fst (mem_multi [2, 9]) of Fail e \<Rightarrow> True | _ \<Rightarrow> False)" by code_simp
  have early: "early_results (Some (CreateVersionWriteFiles (Time mem_later) [Some (NewMemFile ''b'' [8])]))"
    using mem_later_early by (simp add: early_results_def CreateVersionWriteFiles_def)
  from local_add_multi_atomic [where c = mem_local and tree = map_of and finv = mem_inv and calm = "\<lambda>_. True",
      OF surjective_pairing mem_one_inv TrueI _ mem_add_local early, of calm_ctx "[2, 9]" 3 "''all''" "Some (\<lambda>_. Ret ())"] failed
  show ?thesis by (auto simp: mem_multi_def calm_ctx_def split: outcome.splits)
qed

end
