(* ===== verification/DocDB.thy ===== *)
theory DocDB
  imports Conn
begin

text \<open>
  The package functions of \<open>docdb.go\<close>, \<open>utils.go\<close>, \<open>config.go\<close> and \<open>debug.go\<close>, and the
  backup and synchronisation functions of \<open>hasheddocument.go\<close>. \<open>c\<close> is the connection
  that \<open>GetConn\<close> returns; the functions without one get it as their argument.
\<close>

section \<open>The global connection\<close>

text \<open>\<open>Configure\<close> panics for a nil connection and replaces the global one otherwise.\<close>

definition Configure :: "'s conn option \<Rightarrow> 's conn \<Rightarrow> unit outcome \<times> 's conn" where
  "Configure db globalConn =
     (case db of
        None \<Rightarrow> (Panic ''docdb.Configure called with nil Conn'', globalConn)
      | Some c \<Rightarrow> (Ret (), c))"

section \<open>Functions over the global connection\<close>

text \<open>These call the method of the same name.\<close>

definition DocumentExists :: "'s conn \<Rightarrow> ctx \<Rightarrow> uuid \<Rightarrow> ('s, bool) op" where
  "DocumentExists c cx docID = conn_DocumentExists c cx docID"

definition CompanyIDs :: "'s conn \<Rightarrow> ctx \<Rightarrow> ('s, uuid list) op" where
  "CompanyIDs c cx = conn_CompanyIDs c cx"

definition CompanyDocumentIDs :: "'s conn \<Rightarrow> ctx \<Rightarrow> uuid \<Rightarrow> ('s, uuid list) op" where
  "CompanyDocumentIDs c cx companyID = conn_CompanyDocumentIDs c cx companyID"

definition DocumentCompanyID :: "'s conn \<Rightarrow> ctx \<Rightarrow> uuid \<Rightarrow> ('s, uuid) op" where
  "DocumentCompanyID c cx docID = conn_DocumentCompanyID c cx docID"

definition SetDocumentCompanyID :: "'s conn \<Rightarrow> ctx \<Rightarrow> uuid \<Rightarrow> uuid \<Rightarrow> ('s, unit) op" where
  "SetDocumentCompanyID c cx docID companyID = conn_SetDocumentCompanyID c cx docID companyID"

definition DocumentVersions :: "'s conn \<Rightarrow> ctx \<Rightarrow> uuid \<Rightarrow> ('s, version_time list) op" where
  "DocumentVersions c cx docID = conn_DocumentVersions c cx docID"

definition LatestDocumentVersion :: "'s conn \<Rightarrow> ctx \<Rightarrow> uuid \<Rightarrow> ('s, version_time) op" where
  "LatestDocumentVersion c cx docID = conn_LatestDocumentVersion c cx docID"

definition DocumentVersionInfo :: "'s conn \<Rightarrow> ctx \<Rightarrow> uuid \<Rightarrow> version_time \<Rightarrow> ('s, version_info) op" where
  "DocumentVersionInfo c cx docID version = conn_DocumentVersionInfo c cx docID version"

definition LatestDocumentVersionInfo :: "'s conn \<Rightarrow> ctx \<Rightarrow> uuid \<Rightarrow> ('s, version_info) op" where
  "LatestDocumentVersionInfo c cx docID = conn_LatestDocumentVersionInfo c cx docID"

definition DocumentVersionFileProvider :: "'s conn \<Rightarrow> ctx \<Rightarrow> uuid \<Rightarrow> version_time \<Rightarrow> ('s, file_provider) op" where
  "DocumentVersionFileProvider c cx docID version = conn_DocumentVersionFileProvider c cx docID version"

definition ReadDocumentVersionFile :: "'s conn \<Rightarrow> ctx \<Rightarrow> uuid \<Rightarrow> version_time \<Rightarrow> string \<Rightarrow> ('s, bytes) op" where
  "ReadDocumentVersionFile c cx docID version filename = conn_ReadDocumentVersionFile c cx docID version filename"

definition DeleteDocument :: "'s conn \<Rightarrow> ctx \<Rightarrow> uuid \<Rightarrow> ('s, unit) op" where
  "DeleteDocument c cx docID = conn_DeleteDocument c cx docID"

definition DeleteDocumentVersion :: "'s conn \<Rightarrow> ctx \<Rightarrow> uuid \<Rightarrow> version_time \<Rightarrow> ('s, version_time list) op" where
  "DeleteDocumentVersion c cx docID version = conn_DeleteDocumentVersion c cx docID version"

definition CreateDocument :: "'s conn \<Rightarrow> ctx \<Rightarrow> uuid \<Rightarrow> uuid \<Rightarrow> uuid \<Rightarrow> string \<Rightarrow> version_time
     \<Rightarrow> file_reader list \<Rightarrow> on_new_version_func option \<Rightarrow> ('s, unit) op" where
  "CreateDocument c cx companyID docID userID reason version files onNewVersion = conn_CreateDocument c cx companyID docID userID reason version files onNewVersion"

definition AddDocumentVersion :: "'s conn \<Rightarrow> ctx \<Rightarrow> uuid \<Rightarrow> uuid \<Rightarrow> string \<Rightarrow> create_version_func option
     \<Rightarrow> on_new_version_func option \<Rightarrow> 's \<Rightarrow> (unit outcome \<times> version_info list) \<times> 's" where
  "AddDocumentVersion c cx docID userID reason createVersion onNewVersion = conn_AddDocumentVersion c cx docID userID reason createVersion onNewVersion"

definition AddMultiDocumentVersion :: "'s conn \<Rightarrow> ctx \<Rightarrow> uuid list \<Rightarrow> uuid \<Rightarrow> string \<Rightarrow> create_version_func option
     \<Rightarrow> on_new_version_func option \<Rightarrow> ('s, unit) op" where
  "AddMultiDocumentVersion c cx docIDs userID reason createVersion onNewVersion = conn_AddMultiDocumentVersion c cx docIDs userID reason createVersion onNewVersion"

definition ReadDocumentFile :: "'s conn \<Rightarrow> ctx \<Rightarrow> uuid \<Rightarrow> string \<Rightarrow> ('s, bytes \<times> version_info) op" where
  "ReadDocumentFile c cx docID filename =
     try_op (conn_LatestDocumentVersionInfo c cx docID) (\<lambda>versionInfo.
     try_op (conn_ReadDocumentVersionFile c cx docID (Version versionInfo) filename) (\<lambda>data.
     ret (data, versionInfo)))"

text \<open>The first version after the given one, or else the last.\<close>

definition substitute_from :: "uuid \<Rightarrow> version_time \<Rightarrow> version_time list \<Rightarrow> ('s, version_time) op" where
  "substitute_from docID version versions =
     (if versions = [] then fail (ErrDocumentNotFound docID)
      else case find (\<lambda>v. Time v > Time version) versions of
             Some v \<Rightarrow> ret v
           | None \<Rightarrow> ret (last versions))"

definition SubstituteDeletedDocumentVersion :: "'s conn \<Rightarrow> ctx \<Rightarrow> uuid \<Rightarrow> version_time \<Rightarrow> ('s, version_time) op" where
  "SubstituteDeletedDocumentVersion c cx docID version s =
     (case conn_DocumentVersionInfo c cx docID version s of
        (Ret _, s') \<Rightarrow> (Ret version, s')
      | (Panic msg, s') \<Rightarrow> (Panic msg, s')
      | (Fail e, s') \<Rightarrow>
          if \<not> errors_As is_DocumentVersionNotFound e then (Fail e, s')
          else try_op (conn_DocumentVersions c cx docID) (substitute_from docID version) s')"

definition ReadLatestDocumentVersionFile :: "'s conn \<Rightarrow> ctx \<Rightarrow> uuid \<Rightarrow> string \<Rightarrow> ('s, bytes \<times> version_time) op" where
  "ReadLatestDocumentVersionFile c cx docID filename =
     try_op (conn_LatestDocumentVersion c cx docID) (\<lambda>version.
     try_op (conn_ReadDocumentVersionFile c cx docID version filename) (\<lambda>data.
     ret (data, version)))"

definition DocumentVersionFileReader :: "'s conn \<Rightarrow> ctx \<Rightarrow> uuid \<Rightarrow> version_time \<Rightarrow> string \<Rightarrow> ('s, file_reader) op" where
  "DocumentVersionFileReader c cx docID version filename =
     try_op (conn_ReadDocumentVersionFile c cx docID version filename) (\<lambda>data.
     ret (NewMemFile filename data))"

definition DocumentFileReader :: "'s conn \<Rightarrow> ctx \<Rightarrow> uuid \<Rightarrow> string \<Rightarrow> ('s, file_reader \<times> version_info) op" where
  "DocumentFileReader c cx docID filename =
     try_op (conn_LatestDocumentVersionInfo c cx docID) (\<lambda>versionInfo.
     try_op (conn_ReadDocumentVersionFile c cx docID (Version versionInfo) filename) (\<lambda>data.
     ret (NewMemFile filename data, versionInfo)))"

definition DocumentFileExists :: "'s conn \<Rightarrow> ctx \<Rightarrow> uuid \<Rightarrow> string \<Rightarrow> ('s, bool) op" where
  "DocumentFileExists c cx docID filename s =
     (case DocumentFileReader c cx docID filename s of
        (Ret (file, _), s') \<Rightarrow> (Ret (FileExists file), s')
      | (Fail e, s') \<Rightarrow> if errors_As is_DocumentFileNotFound e then (Ret False, s') else (Fail e, s')
      | (Panic msg, s') \<Rightarrow> (Panic msg, s'))"

section \<open>utils.go\<close>

text \<open>
  \<open>reflect.DeepEqual\<close> of two metadata values: the maps are compared as maps, the lists in
  order. Its distinction of a nil slice from an empty one is not in the model.
\<close>

definition DeepEqual_info :: "version_info \<Rightarrow> version_info \<Rightarrow> bool" where
  "DeepEqual_info a b \<longleftrightarrow>
     CompanyID a = CompanyID b \<and> DocID a = DocID b \<and> Version a = Version b \<and> PrevVersion a = PrevVersion b
     \<and> CommitUserID a = CommitUserID b \<and> CommitReason a = CommitReason b
     \<and> length (Files a) = length (Files b) \<and> list_all (\<lambda>(n, fi). map_of (Files b) n = Some fi) (Files a)
     \<and> AddedFiles a = AddedFiles b \<and> RemovedFiles a = RemovedFiles b \<and> ModifiedFiles a = ModifiedFiles b"

definition IdenticalDocumentVersionsOfDrivers ::
  "ctx \<Rightarrow> uuid \<Rightarrow> 's conn \<Rightarrow> version_time \<Rightarrow> 's conn \<Rightarrow> version_time \<Rightarrow> ('s, bool) op" where
  "IdenticalDocumentVersionsOfDrivers cx docID driverA versionA driverB versionB =
     try_op (conn_DocumentVersionInfo driverA cx docID versionA) (\<lambda>a.
     try_op (conn_DocumentVersionInfo driverB cx docID versionB) (\<lambda>b.
     ret (DeepEqual_info a b)))"

definition LatestDocumentVersionFileProvider :: "'s conn \<Rightarrow> ctx \<Rightarrow> uuid \<Rightarrow> ('s, file_provider) op" where
  "LatestDocumentVersionFileProvider c cx docID =
     try_op (conn_LatestDocumentVersion c cx docID) (\<lambda>version.
     conn_DocumentVersionFileProvider c cx docID version)"

definition FirstDocumentVersionCommitUserID :: "'s conn \<Rightarrow> ctx \<Rightarrow> uuid \<Rightarrow> ('s, uuid) op" where
  "FirstDocumentVersionCommitUserID c cx docID =
     try_op (conn_DocumentVersions c cx docID) (\<lambda>versions.
     if versions = [] then fail (ErrDocumentNotFound docID)
     else try_op (conn_DocumentVersionInfo c cx docID (hd versions)) (\<lambda>versionInfo.
          ret (CommitUserID versionInfo)))"

fun check_expected_files :: "file_provider \<Rightarrow> file_reader list \<Rightarrow> err option" where
  "check_expected_files provider [] = None"
| "check_expected_files provider (f # fs) =
     (case HasFile provider (FileName f) of
        Inl e \<Rightarrow> Some e
      | Inr False \<Rightarrow> Some (Errorf ''document version is missing file'' [])
      | Inr True \<Rightarrow>
     (case FileData f of
        Inl e \<Rightarrow> Some e
      | Inr expectedData \<Rightarrow>
     (case ReadFile provider (FileName f) of
        Inl e \<Rightarrow> Some e
      | Inr data \<Rightarrow>
         if data \<noteq> expectedData then Some (Errorf ''document version file content not as expected'' [])
         else check_expected_files provider fs)))"

definition CheckConnDocumentVersionFiles ::
  "ctx \<Rightarrow> 's conn \<Rightarrow> uuid \<Rightarrow> version_time \<Rightarrow> file_reader list \<Rightarrow> ('s, unit) op" where
  "CheckConnDocumentVersionFiles cx c docID version expectedFiles =
     try_op (conn_DocumentVersionInfo c cx docID version) (\<lambda>info.
     if length (Files info) \<noteq> length expectedFiles then
       fail (Errorf ''document version has an unexpected number of files'' [])
     else try_op (conn_DocumentVersionFileProvider c cx docID version) (\<lambda>provider s.
       (err_outcome (check_expected_files provider expectedFiles), s)))"

section \<open>Backup\<close>

text \<open>The loop over the listed files of one version.\<close>

fun hash_files ::
  "ext \<Rightarrow> file_provider \<Rightarrow> version_info \<Rightarrow> string list \<Rightarrow> (string, bytes) gomap \<Rightarrow> (string, string) gomap
     \<Rightarrow> err + (string, bytes) gomap \<times> (string, string) gomap" where
  "hash_files x p info [] hashed names = Inr (hashed, names)"
| "hash_files x p info (n # ns) hashed names =
     (case map_of (Files info) n of
        None \<Rightarrow> Inl (Errorf ''file exists in storage but is not tracked in version info'' [])
      | Some fileInfo \<Rightarrow>
     (case ReadFile p n of
        Inl e \<Rightarrow> Inl e
      | Inr data \<Rightarrow>
         if int (length data) \<noteq> Size fileInfo then
           Inl (Errorf ''file has a size other than expected according to version info'' [])
         else if ContentHash x data \<noteq> Hash fileInfo then
           Inl (Errorf ''file has a hash other than expected according to version info'' [])
         else hash_files x p info ns (AList.update (ContentHash x data) data hashed)
                (AList.update n (ContentHash x data) names)))"

definition read_hashed_version ::
  "ext \<Rightarrow> ctx \<Rightarrow> 's conn \<Rightarrow> uuid \<Rightarrow> version_time \<Rightarrow> hashed_document \<Rightarrow> ('s, hashed_document) op" where
  "read_hashed_version x cx c docID version doc =
     try_op (conn_DocumentVersionInfo c cx docID version) (\<lambda>info.
     try_op (conn_DocumentVersionFileProvider c cx docID version) (\<lambda>p.
     case ListFiles p of
       Inl e \<Rightarrow> fail e
     | Inr filenames \<Rightarrow>
    (case hash_files x p info filenames (HashedFiles doc) [] of
       Inl e \<Rightarrow> fail e
     | Inr (hashed, names) \<Rightarrow>
        if list_ex (\<lambda>(n, fi). map_of names n = None) (Files info) then
          fail (Errorf ''file is tracked in version info but missing from storage'' [])
        else ret (doc\<lparr>HashedFiles := hashed,
               Versions := AList.update version
                 (Some \<lparr>hv_CommitUserID = CommitUserID info, hv_CommitReason = CommitReason info, FileHashes = names\<rparr>)
                 (Versions doc)\<rparr>))))"

fun read_hashed_versions ::
  "ext \<Rightarrow> ctx \<Rightarrow> 's conn \<Rightarrow> uuid \<Rightarrow> version_time list \<Rightarrow> hashed_document \<Rightarrow> ('s, hashed_document) op" where
  "read_hashed_versions x cx c docID [] doc = ret doc"
| "read_hashed_versions x cx c docID (v # vs) doc =
     try_op (read_hashed_version x cx c docID v doc) (read_hashed_versions x cx c docID vs)"

definition ReadHashedDocument :: "ext \<Rightarrow> ctx \<Rightarrow> 's conn \<Rightarrow> uuid \<Rightarrow> ('s, hashed_document) op" where
  "ReadHashedDocument x cx c docID =
     try_op (conn_DocumentCompanyID c cx docID) (\<lambda>companyID.
     try_op (conn_DocumentVersions c cx docID) (\<lambda>versions.
     read_hashed_versions x cx c docID versions
       \<lparr>hd_ID = docID, hd_CompanyID = companyID, HashedFiles = [], Versions = []\<rparr>))"

section \<open>Synchronisation\<close>

definition SyncDocument :: "ext \<Rightarrow> ctx \<Rightarrow> 's conn \<Rightarrow> 's conn \<Rightarrow> uuid \<Rightarrow> bool \<Rightarrow> ('s, unit) op" where
  "SyncDocument x cx srcConn destConn docID recreate =
     try_op (ReadHashedDocument x cx srcConn docID) (\<lambda>doc.
     conn_RestoreDocument destConn cx (Some doc) recreate)"

text \<open>
  What \<open>SyncAllCompanyDocuments\<close> returns, and the calls of \<open>onProgress\<close>: the document, its
  index and their number.
\<close>

record sync_result =
  syncedDocIDs :: "uuid list"
  sync_err :: "err option"
  progress :: "(uuid \<times> nat \<times> nat) list"

fun sync_loop ::
  "ext \<Rightarrow> ctx \<Rightarrow> 's conn \<Rightarrow> 's conn \<Rightarrow> bool \<Rightarrow> bool \<Rightarrow> bool \<Rightarrow> nat \<Rightarrow> (nat \<times> uuid) list \<Rightarrow> sync_result
     \<Rightarrow> ('s, sync_result) op" where
  "sync_loop x cx srcConn destConn recreate continueOnError onProgress totalDocs [] res s = (Ret res, s)"
| "sync_loop x cx srcConn destConn recreate continueOnError onProgress totalDocs ((index, docID) # docs) res s =
     (let res1 = (if onProgress then res\<lparr>progress := progress res @ [(docID, index, totalDocs)]\<rparr> else res)
      in case SyncDocument x cx srcConn destConn docID recreate s of
           (Ret _, s') \<Rightarrow>
             sync_loop x cx srcConn destConn recreate continueOnError onProgress totalDocs docs
               (res1\<lparr>syncedDocIDs := syncedDocIDs res1 @ [docID]\<rparr>) s'
         | (Fail e, s') \<Rightarrow>
             (let res2 = res1\<lparr>sync_err := join_err (sync_err res1) e\<rparr>
              in if \<not> continueOnError then (Ret res2, s')
                 else sync_loop x cx srcConn destConn recreate continueOnError onProgress totalDocs docs res2 s')
         | (Panic msg, s') \<Rightarrow> (Panic msg, s'))"

definition SyncAllCompanyDocuments ::
  "ext \<Rightarrow> ctx \<Rightarrow> 's conn \<Rightarrow> 's conn \<Rightarrow> uuid \<Rightarrow> bool \<Rightarrow> bool \<Rightarrow> bool \<Rightarrow> ('s, sync_result) op" where
  "SyncAllCompanyDocuments x cx srcConn destConn companyID recreate continueOnError onProgress s =
     (case conn_CompanyDocumentIDs srcConn cx companyID s of
        (Fail e, s') \<Rightarrow> (Ret \<lparr>syncedDocIDs = [], sync_err = Some e, progress = []\<rparr>, s')
      | (Panic msg, s') \<Rightarrow> (Panic msg, s')
      | (Ret docIDs, s') \<Rightarrow>
          sync_loop x cx srcConn destConn recreate continueOnError onProgress (length docIDs) (enumerate 0 docIDs)
            \<lparr>syncedDocIDs = [], sync_err = None, progress = []\<rparr> s')"

section \<open>debug.go\<close>

text \<open>
  What the debug functions print, as lines: each holds the prefix and the values that its
  \<open>Printf\<close> verb formats. Output that was printed before an error stays printed.
\<close>

datatype debug_line =
    CompanyLine string uuid
  | DocumentLine string uuid uuid nat
  | VersionLine string version_time uuid string
  | FileLine string string int string

definition file_lines :: "string \<Rightarrow> (string, file_info) gomap \<Rightarrow> debug_line list" where
  "file_lines filePrefix files =
     map (\<lambda>n. case map_of files n of Some file \<Rightarrow> FileLine filePrefix (Name file) (Size file) (Hash file)
              | None \<Rightarrow> FileLine filePrefix [] 0 [])
       (sort (map fst files))"

fun debug_versions ::
  "ctx \<Rightarrow> 's conn \<Rightarrow> uuid \<Rightarrow> string \<Rightarrow> string \<Rightarrow> version_time list \<Rightarrow> debug_line list
     \<Rightarrow> 's \<Rightarrow> (unit outcome \<times> debug_line list) \<times> 's" where
  "debug_versions cx c docID versionPrefix filePrefix [] out s = ((Ret (), out), s)"
| "debug_versions cx c docID versionPrefix filePrefix (v # vs) out s =
     (case conn_DocumentVersionInfo c cx docID v s of
        (Ret info, s') \<Rightarrow>
          debug_versions cx c docID versionPrefix filePrefix vs
            (out @ [VersionLine versionPrefix v (CommitUserID info) (CommitReason info)]
                 @ file_lines filePrefix (Files info)) s'
      | (Fail e, s') \<Rightarrow> ((Fail e, out), s')
      | (Panic msg, s') \<Rightarrow> ((Panic msg, out), s'))"

definition DebugPrintDocument ::
  "ctx \<Rightarrow> 's conn \<Rightarrow> uuid \<Rightarrow> string \<Rightarrow> string \<Rightarrow> 's \<Rightarrow> (unit outcome \<times> debug_line list) \<times> 's" where
  "DebugPrintDocument cx c docID linePrefix indent s =
     (case conn_DocumentCompanyID c cx docID s of
        (Fail e, s1) \<Rightarrow> ((Fail e, []), s1)
      | (Panic msg, s1) \<Rightarrow> ((Panic msg, []), s1)
      | (Ret companyID, s1) \<Rightarrow>
     (case conn_DocumentVersions c cx docID s1 of
        (Fail e, s2) \<Rightarrow> ((Fail e, []), s2)
      | (Panic msg, s2) \<Rightarrow> ((Panic msg, []), s2)
      | (Ret versions, s2) \<Rightarrow>
         debug_versions cx c docID (linePrefix @ indent) (linePrefix @ indent @ indent) versions
           [DocumentLine linePrefix docID companyID (length versions)] s2))"

fun debug_documents ::
  "ctx \<Rightarrow> 's conn \<Rightarrow> string \<Rightarrow> string \<Rightarrow> uuid list \<Rightarrow> debug_line list
     \<Rightarrow> 's \<Rightarrow> (unit outcome \<times> debug_line list) \<times> 's" where
  "debug_documents cx c linePrefix indent [] out s = ((Ret (), out), s)"
| "debug_documents cx c linePrefix indent (docID # docIDs) out s =
     (case DebugPrintDocument cx c docID (linePrefix @ indent) indent s of
        ((Ret _, lines), s') \<Rightarrow> debug_documents cx c linePrefix indent docIDs (out @ lines) s'
      | ((r, lines), s') \<Rightarrow> ((r, out @ lines), s'))"

definition DebugPrintCompanyDocuments ::
  "ctx \<Rightarrow> 's conn \<Rightarrow> uuid \<Rightarrow> string \<Rightarrow> string \<Rightarrow> 's \<Rightarrow> (unit outcome \<times> debug_line list) \<times> 's" where
  "DebugPrintCompanyDocuments cx c companyID linePrefix indent s =
     (case conn_CompanyDocumentIDs c cx companyID s of
        (Fail e, s') \<Rightarrow> ((Fail e, [CompanyLine linePrefix companyID]), s')
      | (Panic msg, s') \<Rightarrow> ((Panic msg, [CompanyLine linePrefix companyID]), s')
      | (Ret docIDs, s') \<Rightarrow>
          debug_documents cx c linePrefix indent docIDs [CompanyLine linePrefix companyID] s')"

end
