(* ===== verification/DocDBProps.thy ===== *)
theory DocDBProps
  imports DocDB SplitConn
begin

text \<open>
  What the package functions guarantee over any connection whose reads do not change its
  state, and over the split-store connection.
\<close>

lemma reads_onlyD:
  assumes "reads_only c"
  shows "conn_DocumentVersionInfo c cx docID v s = (r1, s') \<Longrightarrow> s' = s"
    "conn_DocumentVersions c cx docID s = (r2, s') \<Longrightarrow> s' = s"
    "conn_DocumentCompanyID c cx docID s = (r3, s') \<Longrightarrow> s' = s"
    "conn_DocumentVersionFileProvider c cx docID v s = (r4, s') \<Longrightarrow> s' = s"
proof -
  have "exec c call s = s" if "\<not> is_write call" for call using assms that by (simp add: reads_only_def)
  from this [of "Call_DocumentVersionInfo cx docID v"] this [of "Call_DocumentVersions cx docID"]
    this [of "Call_DocumentCompanyID cx docID"] this [of "Call_DocumentVersionFileProvider cx docID v"]
  show "conn_DocumentVersionInfo c cx docID v s = (r1, s') \<Longrightarrow> s' = s"
    "conn_DocumentVersions c cx docID s = (r2, s') \<Longrightarrow> s' = s"
    "conn_DocumentCompanyID c cx docID s = (r3, s') \<Longrightarrow> s' = s"
    "conn_DocumentVersionFileProvider c cx docID v s = (r4, s') \<Longrightarrow> s' = s"
    by simp_all
qed

section \<open>Substitution of deleted versions\<close>

lemma find_sorted_Min:
  "sorted vs \<Longrightarrow> find (\<lambda>v. t < v) vs = Some w \<Longrightarrow> w = Min {v \<in> set vs. t < v}"
proof (induction vs)
  case (Cons v vs)
  then show ?case
  proof (cases "t < v")
    case True
    with Cons.prems have "w = v" by simp
    moreover have "Min {u \<in> set (v # vs). t < u} = v"
      using Cons.prems(1) True by (intro Min_eqI) auto
    ultimately show ?thesis by simp
  next
    case False
    then have "{u \<in> set (v # vs). t < u} = {u \<in> set vs. t < u}" by auto
    with False Cons show ?thesis by simp
  qed
qed simp

lemma substitute_from_Ret:
  assumes "substitute_from docID v vs s = (Ret u, s')" "sorted vs"
  shows "s' = s \<and> vs \<noteq> [] \<and> u = (if \<exists>w\<in>set vs. v < w then Min {w \<in> set vs. v < w} else Max (set vs))"
proof (cases "find (\<lambda>w. v < w) vs")
  case None
  then have "\<not> (\<exists>w\<in>set vs. v < w)" by (auto simp: find_None_iff)
  with None assms show ?thesis
    by (auto simp: substitute_from_def less_version_time_def [symmetric] Max_set_sorted split: if_splits)
next
  case (Some w)
  with find_SomeD [OF Some] find_sorted_Min [OF assms(2) Some] assms show ?thesis
    by (auto simp: substitute_from_def less_version_time_def [symmetric] split: if_splits)
qed

text \<open>C38: \<open>SubstituteDeletedDocumentVersion\<close> returns, without error, the given version if it exists, and
  otherwise, when the connection says that the version was not found, the earliest version after it, or the
  latest of the document if there is none after it.\<close>

theorem substitute_deleted_version:
  assumes "SubstituteDeletedDocumentVersion c cx docID v s = (Ret u, s')" "reads_only c"
    and "\<forall>vs t. conn_DocumentVersions c cx docID s = (Ret vs, t) \<longrightarrow> sorted vs"
  shows "s' = s \<and>
    ((\<exists>info. conn_DocumentVersionInfo c cx docID v s = (Ret info, s) \<and> u = v) \<or>
     (\<exists>e vs. conn_DocumentVersionInfo c cx docID v s = (Fail e, s) \<and> errors_As is_DocumentVersionNotFound e
        \<and> conn_DocumentVersions c cx docID s = (Ret vs, s) \<and> vs \<noteq> []
        \<and> u = (if \<exists>w\<in>set vs. v < w then Min {w \<in> set vs. v < w} else Max (set vs))))"
proof -
  obtain r t where info: "conn_DocumentVersionInfo c cx docID v s = (r, t)" by fastforce
  have t: "t = s" by (rule reads_onlyD(1) [OF assms(2) info])
  show ?thesis
  proof (cases r)
    case (Ret i)
    with assms(1) info t show ?thesis by (simp add: SubstituteDeletedDocumentVersion_def)
  next
    case (Fail e)
    with assms(1) info t have e: "errors_As is_DocumentVersionNotFound e"
      and "try_op (conn_DocumentVersions c cx docID) (substitute_from docID v) s = (Ret u, s')"
      by (auto simp: SubstituteDeletedDocumentVersion_def split: if_splits)
    then obtain vs t1 where vs: "conn_DocumentVersions c cx docID s = (Ret vs, t1)"
      and sub: "substitute_from docID v vs t1 = (Ret u, s')" by (auto simp: try_op_Ret_iff)
    have "t1 = s" by (rule reads_onlyD(2) [OF assms(2) vs])
    with substitute_from_Ret [OF sub] assms(3) vs info Fail t e show ?thesis by auto
  next
    case (Panic msg)
    with assms(1) info show ?thesis by (simp add: SubstituteDeletedDocumentVersion_def)
  qed
qed

text \<open>A connection that answers \<open>ErrDocumentVersionNotFound\<close> for a missing version of a document.\<close>

definition telling_conn :: "(string, bytes) gomap split_state conn" where
  "telling_conn = (sc_conn mem_ext mem_ds mem_ms)\<lparr>conn_DocumentVersionInfo := (\<lambda>cx docID v. read_op (\<lambda>s.
     case sc_DocumentVersionInfo mem_ms docID v s of
       Inl e \<Rightarrow> Inl (if doc_rows docID (snd s) = [] then e else ErrDocumentVersionNotFound docID v)
     | Inr info \<Rightarrow> Inr info))\<rparr>"

lemma reads_only_telling_conn: "reads_only telling_conn"
  unfolding reads_only_def
proof (intro allI impI)
  fix call and s :: "(string, bytes) gomap split_state"
  assume w: "\<not> is_write call"
  have sc: "exec (sc_conn mem_ext mem_ds mem_ms) call s = s"
    using reads_only_sc_conn w unfolding reads_only_def by blast
  show "exec telling_conn call s = s"
    using w sc by (cases call) (simp_all add: telling_conn_def)
qed

theorem substitute_deleted_version_witness:
  "SubstituteDeletedDocumentVersion telling_conn calm_ctx 1 (VersionTime 4000000) sample_state
      = (Ret (VersionTime 5000000), sample_state)
    \<and> (\<exists>e. conn_DocumentVersionInfo telling_conn calm_ctx 1 (VersionTime 4000000) sample_state = (Fail e, sample_state)
        \<and> errors_As is_DocumentVersionNotFound e)"
proof -
  have "fst (SubstituteDeletedDocumentVersion telling_conn calm_ctx 1 (VersionTime 4000000) sample_state) = Ret (VersionTime 5000000)"
    by code_simp
  then have run: "SubstituteDeletedDocumentVersion telling_conn calm_ctx 1 (VersionTime 4000000) sample_state
      = (Ret (VersionTime 5000000), snd (SubstituteDeletedDocumentVersion telling_conn calm_ctx 1 (VersionTime 4000000) sample_state))"
    by (simp add: prod_eq_iff)
  have "fst (conn_DocumentVersions telling_conn calm_ctx 1 sample_state) = Ret [VersionTime 5000000]" by code_simp
  then have "\<forall>vs t. conn_DocumentVersions telling_conn calm_ctx 1 sample_state = (Ret vs, t) \<longrightarrow> sorted vs"
    by auto
  from substitute_deleted_version [OF run reads_only_telling_conn this] run
  show ?thesis by (elim conjE disjE exE) simp_all
qed

text \<open>On the split-store connection \<open>SubstituteDeletedDocumentVersion\<close> never substitutes: for a version that
  does not exist the metadata store answers \<open>ErrDocumentNotFound\<close>, which the function returns as it is, even
  if the document has other versions.\<close>

theorem split_substitute_never:
  assumes "split_inv cl x objs calm env s" "pg_calm env (snd s)" "Time v \<noteq> 0"
    and "pg_view (snd s) docID (ms_trunc v) = None"
  shows "SubstituteDeletedDocumentVersion (sc_conn x (s3_store cl x) (pg_store env)) cx docID v s
    = (Fail (ErrDocumentNotFound docID), s)"
proof -
  have ok: "pg_ok (snd s)" using assms(1) by (simp add: split_inv_def pg_inv_def)
  have "pg_DocumentVersionInfo env docID v (snd s) = Inl (ErrDocumentNotFound docID)"
    by (rule pg_DocumentVersionInfo(3) [OF ok pg_calmD [OF assms(2)] assms(3,4)])
  then show ?thesis
    by (simp add: SubstituteDeletedDocumentVersion_def sc_conn_def with_add_multi_def sc_methods_def
        sc_DocumentVersionInfo_def pg_store_def read_op_def)
qed

theorem split_substitute_never_witness:
  "SubstituteDeletedDocumentVersion (sc_conn mem_ext mem_ds mem_ms) calm_ctx 1 (VersionTime 4000000) sample_state
    = (Fail (ErrDocumentNotFound 1), sample_state) \<and> pg_view (snd sample_state) 1 \<noteq> Map.empty"
proof -
  have "(case pg_view (snd sample_state) 1 (ms_trunc (VersionTime 4000000)) of None \<Rightarrow> True | Some i \<Rightarrow> False)"
    by code_simp
  then have none: "pg_view (snd sample_state) 1 (ms_trunc (VersionTime 4000000)) = None" by (simp split: option.splits)
  have some: "pg_view (snd sample_state) 1 \<noteq> Map.empty" using sample_state_version by auto
  with split_substitute_never [OF sample_state_inv(1) _ _ none, of calm_ctx] show ?thesis by simp
qed

section \<open>Backup\<close>

text \<open>Every content lies under its hash.\<close>

definition sound_hashed :: "ext \<Rightarrow> (string, bytes) gomap \<Rightarrow> bool" where
  "sound_hashed x hashed \<longleftrightarrow> wf_gomap hashed \<and> (\<forall>h b. map_of hashed h = Some b \<longrightarrow> ContentHash x b = h)"

lemma sound_hashed_update: "sound_hashed x hashed \<Longrightarrow> sound_hashed x (AList.update (ContentHash x b) b hashed)"
  by (auto simp: sound_hashed_def)

lemma hash_files_Inr:
  assumes "hash_files x p info ns hashed names = Inr (hashed', names')" "sound_hashed x hashed" "wf_gomap names"
  shows "sound_hashed x hashed' \<and> dom (map_of hashed) \<subseteq> dom (map_of hashed') \<and> wf_gomap names'
    \<and> (\<forall>n\<in>set ns. \<exists>fi. map_of (Files info) n = Some fi \<and> Hash fi \<in> dom (map_of hashed'))
    \<and> map_of names' = (\<lambda>n. if n \<in> set ns then map_option Hash (map_of (Files info) n) else map_of names n)"
  using assms
proof (induction x p info ns hashed names rule: hash_files.induct)
  case (2 x p info n ns hashed names)
  from 2(2) obtain fi data where fi: "map_of (Files info) n = Some fi" and data: "ReadFile p n = Inr data"
    and len: "int (length data) = Size fi" and h: "ContentHash x data = Hash fi"
    by (auto split: option.splits sum.splits if_splits)
  have run: "hash_files x p info ns (AList.update (ContentHash x data) data hashed)
      (AList.update n (ContentHash x data) names) = Inr (hashed', names')"
    using 2(2) fi data len h by simp
  have c: "\<not> int (length data) \<noteq> Size fi" "\<not> ContentHash x data \<noteq> Hash fi" using len h by simp_all
  note IH = 2(1) [OF fi data c run sound_hashed_update [OF 2(3)] wf_gomap_update [OF 2(4)], unfolded map_of_update h]
  have "insert (Hash fi) (dom (map_of hashed)) \<subseteq> dom (map_of hashed')"
    using IH [THEN conjunct2, THEN conjunct1] by (simp only: dom_fun_upd option.simps if_False)
  then have "dom (map_of hashed) \<subseteq> dom (map_of hashed')" "Hash fi \<in> dom (map_of hashed')" by blast+
  then show ?case using IH fi by (simp add: fun_eq_iff)
qed (auto simp: fun_eq_iff)

text \<open>What one version of the backup holds of the version's metadata.\<close>

definition backs_up :: "version_info \<Rightarrow> (string, bytes) gomap \<Rightarrow> hashed_version \<Rightarrow> bool" where
  "backs_up info hashed hv \<longleftrightarrow>
     hv_CommitUserID hv = CommitUserID info \<and> hv_CommitReason hv = CommitReason info \<and> wf_gomap (FileHashes hv)
     \<and> map_of (FileHashes hv) = map_option Hash \<circ> map_of (Files info)
     \<and> Hash ` ran (map_of (Files info)) \<subseteq> dom (map_of hashed)"

lemma backs_up_mono: "backs_up info hashed hv \<Longrightarrow> dom (map_of hashed) \<subseteq> dom (map_of hashed') \<Longrightarrow> backs_up info hashed' hv"
  unfolding backs_up_def using subset_trans by blast

text \<open>The version's provider lists exactly the tracked files.\<close>

definition lists_exactly :: "'s conn \<Rightarrow> ctx \<Rightarrow> uuid \<Rightarrow> version_time \<Rightarrow> 's \<Rightarrow> version_info \<Rightarrow> bool" where
  "lists_exactly c cx docID v s info \<longleftrightarrow> (\<exists>p ns. conn_DocumentVersionFileProvider c cx docID v s = (Ret p, s)
     \<and> ListFiles p = Inr ns \<and> set ns = dom (map_of (Files info)))"

lemma read_hashed_version_Ret:
  assumes run: "read_hashed_version x cx c docID v doc s = (Ret doc', s')"
    and c: "reads_only c" and doc: "sound_hashed x (HashedFiles doc)"
  shows "s' = s \<and> sound_hashed x (HashedFiles doc') \<and> hd_ID doc' = hd_ID doc \<and> hd_CompanyID doc' = hd_CompanyID doc
    \<and> dom (map_of (HashedFiles doc)) \<subseteq> dom (map_of (HashedFiles doc'))
    \<and> (\<exists>info hv. conn_DocumentVersionInfo c cx docID v s = (Ret info, s) \<and> backs_up info (HashedFiles doc') hv
        \<and> lists_exactly c cx docID v s info \<and> Versions doc' = AList.update v (Some hv) (Versions doc))"
proof -
  from run obtain info t p t' where info: "conn_DocumentVersionInfo c cx docID v s = (Ret info, t)"
    and p: "conn_DocumentVersionFileProvider c cx docID v t = (Ret p, t')"
    and k: "(case ListFiles p of
       Inl e \<Rightarrow> fail e
     | Inr filenames \<Rightarrow>
    (case hash_files x p info filenames (HashedFiles doc) [] of
       Inl e \<Rightarrow> fail e
     | Inr (hashed, names) \<Rightarrow>
        if list_ex (\<lambda>(n, fi). map_of names n = None) (Files info) then
          fail (Errorf ''file is tracked in version info but missing from storage'' [])
        else ret (doc\<lparr>HashedFiles := hashed,
               Versions := AList.update v
                 (Some \<lparr>hv_CommitUserID = CommitUserID info, hv_CommitReason = CommitReason info, FileHashes = names\<rparr>)
                 (Versions doc)\<rparr>))) t' = (Ret doc', s')"
    by (auto simp: read_hashed_version_def try_op_Ret_iff)
  have t: "t = s" "t' = s" using reads_onlyD(1) [OF c info] reads_onlyD(4) [OF c p] by simp_all
  from k obtain ns hashed names where ns: "ListFiles p = Inr ns"
    and h: "hash_files x p info ns (HashedFiles doc) [] = Inr (hashed, names)"
    and all: "\<not> list_ex (\<lambda>(n, fi). map_of names n = None) (Files info)"
    and doc': "doc' = doc\<lparr>HashedFiles := hashed, Versions := AList.update v
         (Some \<lparr>hv_CommitUserID = CommitUserID info, hv_CommitReason = CommitReason info, FileHashes = names\<rparr>)
         (Versions doc)\<rparr>" and s': "s' = t'"
    by (auto split: sum.splits if_splits)
  note H = hash_files_Inr [OF h doc]
  have all': "map_of names n \<noteq> None" if "map_of (Files info) n = Some fi" for n fi
    using all map_of_SomeD [OF that] by (auto simp: list_ex_iff)
  have names: "map_of names = map_option Hash \<circ> map_of (Files info)"
  proof
    fix n
    show "map_of names n = (map_option Hash \<circ> map_of (Files info)) n"
      using H all' [of n] by (cases "n \<in> set ns"; cases "map_of (Files info) n") auto
  qed
  have "Hash ` ran (map_of (Files info)) \<subseteq> dom (map_of hashed)"
  proof
    fix h' assume "h' \<in> Hash ` ran (map_of (Files info))"
    then obtain n fi where fi: "map_of (Files info) n = Some fi" "h' = Hash fi" by (auto simp: ran_def)
    then have "n \<in> set ns" using H all' [OF fi(1)] by (auto split: if_splits)
    with H fi show "h' \<in> dom (map_of hashed)" by auto
  qed
  have "set ns = dom (map_of (Files info))"
  proof
    show "set ns \<subseteq> dom (map_of (Files info))" using H by auto
    show "dom (map_of (Files info)) \<subseteq> set ns"
    proof
      fix n assume "n \<in> dom (map_of (Files info))"
      then obtain fi where "map_of (Files info) n = Some fi" by blast
      from all' [OF this] H show "n \<in> set ns" by (auto split: if_splits)
    qed
  qed
  then have "lists_exactly c cx docID v s info" using p ns t by (auto simp: lists_exactly_def)
  moreover from \<open>Hash ` ran (map_of (Files info)) \<subseteq> dom (map_of hashed)\<close> H names have "backs_up info hashed \<lparr>hv_CommitUserID = CommitUserID info, hv_CommitReason = CommitReason info, FileHashes = names\<rparr>"
    by (simp add: backs_up_def)
  ultimately show ?thesis using H info t s' by (auto simp: doc')
qed

lemma version_at_Some: "map_of (Versions doc) v = Some (Some hv) \<Longrightarrow> version_at doc v = Some hv"
  by (simp add: version_at_def)

lemma read_hashed_versions_Ret:
  assumes "read_hashed_versions x cx c docID vs doc s = (Ret doc', s')"
    and "reads_only c" "sound_hashed x (HashedFiles doc)" "wf_gomap (Versions doc)"
  shows "s' = s \<and> sound_hashed x (HashedFiles doc') \<and> hd_ID doc' = hd_ID doc \<and> hd_CompanyID doc' = hd_CompanyID doc
    \<and> dom (map_of (HashedFiles doc)) \<subseteq> dom (map_of (HashedFiles doc')) \<and> wf_gomap (Versions doc')
    \<and> (\<forall>v\<in>set vs. \<exists>info hv. conn_DocumentVersionInfo c cx docID v s = (Ret info, s)
         \<and> map_of (Versions doc') v = Some (Some hv) \<and> backs_up info (HashedFiles doc') hv
         \<and> lists_exactly c cx docID v s info)
    \<and> (\<forall>v. v \<notin> set vs \<longrightarrow> map_of (Versions doc') v = map_of (Versions doc) v)"
  using assms
proof (induction vs arbitrary: doc s)
  case (Cons v vs)
  from Cons.prems(1) obtain doc1 t where one: "read_hashed_version x cx c docID v doc s = (Ret doc1, t)"
    and rest: "read_hashed_versions x cx c docID vs doc1 t = (Ret doc', s')" by (auto simp: try_op_Ret_iff)
  from read_hashed_version_Ret [OF one Cons.prems(2,3)] obtain info hv where
    d1: "t = s" "sound_hashed x (HashedFiles doc1)" "hd_ID doc1 = hd_ID doc" "hd_CompanyID doc1 = hd_CompanyID doc"
      "dom (map_of (HashedFiles doc)) \<subseteq> dom (map_of (HashedFiles doc1))"
    and v: "conn_DocumentVersionInfo c cx docID v s = (Ret info, s)" "backs_up info (HashedFiles doc1) hv"
      "lists_exactly c cx docID v s info" "Versions doc1 = AList.update v (Some hv) (Versions doc)" by blast
  have "wf_gomap (Versions doc1)" using v(4) Cons.prems(4) by simp
  note IH = Cons.IH [OF rest [unfolded d1(1)] Cons.prems(2) d1(2) this]
  have "\<exists>info hv. conn_DocumentVersionInfo c cx docID v s = (Ret info, s)
      \<and> map_of (Versions doc') v = Some (Some hv) \<and> backs_up info (HashedFiles doc') hv
      \<and> lists_exactly c cx docID v s info"
  proof (cases "v \<in> set vs")
    case False
    then have "map_of (Versions doc') v = Some (Some hv)" using IH v(4) by simp
    with v(1,3) backs_up_mono [OF v(2)] IH show ?thesis by blast
  qed (use IH in blast)
  with IH d1 v(4) show ?case by auto
qed simp

lemma read_hashed_document_Ret:
  assumes "ReadHashedDocument x cx c docID s = (Ret doc, s')" "reads_only c"
  shows "s' = s \<and> hd_ID doc = docID \<and> conn_DocumentCompanyID c cx docID s = (Ret (hd_CompanyID doc), s)
    \<and> wf_gomap (Versions doc) \<and> sound_hashed x (HashedFiles doc)
    \<and> (\<exists>vs. conn_DocumentVersions c cx docID s = (Ret vs, s) \<and> dom (map_of (Versions doc)) = set vs
      \<and> (\<forall>v\<in>set vs. \<exists>info hv. conn_DocumentVersionInfo c cx docID v s = (Ret info, s)
           \<and> version_at doc v = Some hv \<and> backs_up info (HashedFiles doc) hv \<and> lists_exactly c cx docID v s info))"
proof -
  from assms(1) obtain companyID t vs t' where comp: "conn_DocumentCompanyID c cx docID s = (Ret companyID, t)"
    and vs: "conn_DocumentVersions c cx docID t = (Ret vs, t')"
    and run: "read_hashed_versions x cx c docID vs
      \<lparr>hd_ID = docID, hd_CompanyID = companyID, HashedFiles = [], Versions = []\<rparr> t' = (Ret doc, s')"
    by (auto simp: ReadHashedDocument_def try_op_Ret_iff)
  have t: "t = s" "t' = s" using reads_onlyD(3) [OF assms(2) comp] reads_onlyD(2) [OF assms(2) vs] by simp_all
  have H: "s' = s \<and> sound_hashed x (HashedFiles doc) \<and> hd_ID doc = docID \<and> hd_CompanyID doc = companyID
    \<and> wf_gomap (Versions doc)
    \<and> (\<forall>v\<in>set vs. \<exists>info hv. conn_DocumentVersionInfo c cx docID v s = (Ret info, s)
         \<and> map_of (Versions doc) v = Some (Some hv) \<and> backs_up info (HashedFiles doc) hv
         \<and> lists_exactly c cx docID v s info)
    \<and> (\<forall>v. v \<notin> set vs \<longrightarrow> map_of (Versions doc) v = None)"
    using read_hashed_versions_Ret [OF run [unfolded t] assms(2)] by (simp add: sound_hashed_def)
  have "dom (map_of (Versions doc)) = set vs" using H by (force simp: dom_def)
  moreover have "\<forall>v\<in>set vs. \<exists>info hv. conn_DocumentVersionInfo c cx docID v s = (Ret info, s)
       \<and> version_at doc v = Some hv \<and> backs_up info (HashedFiles doc) hv \<and> lists_exactly c cx docID v s info"
    using H version_at_Some [of doc] by blast
  ultimately show ?thesis using H comp vs t by auto
qed

text \<open>C37: \<open>ReadHashedDocument\<close> without error has read exactly the versions of the document and the company it
  belongs to: each version of the backup has the user, the reason and exactly the tracked files of the version's
  metadata, each under its recorded hash, and every content in it is stored under its own content hash. Nothing
  is written.\<close>

theorem read_hashed_document_correct:
  assumes "ReadHashedDocument x cx c docID s = (Ret doc, s')" "reads_only c"
  shows "s' = s \<and> hd_ID doc = docID \<and> conn_DocumentCompanyID c cx docID s = (Ret (hd_CompanyID doc), s)
    \<and> wf_gomap (Versions doc) \<and> sound_hashed x (HashedFiles doc)
    \<and> (\<exists>vs. conn_DocumentVersions c cx docID s = (Ret vs, s) \<and> dom (map_of (Versions doc)) = set vs
      \<and> (\<forall>v\<in>set vs. \<exists>info hv. conn_DocumentVersionInfo c cx docID v s = (Ret info, s)
           \<and> version_at doc v = Some hv \<and> backs_up info (HashedFiles doc) hv))"
  using read_hashed_document_Ret [OF assms] by blast

definition sample_backup :: "hashed_document outcome \<times> (string, bytes) gomap split_state" where
  "sample_backup = ReadHashedDocument mem_ext calm_ctx (sc_conn mem_ext mem_ds mem_ms) 1 sample_state"

lemma sample_backup_Ret: "\<exists>doc. fst sample_backup = Ret doc \<and> length (HashedFiles doc) = 1"
proof -
  have "(case fst sample_backup of Ret doc \<Rightarrow> length (HashedFiles doc) = 1 | Fail e \<Rightarrow> False | Panic m \<Rightarrow> False)"
    by code_simp
  then show ?thesis by (simp split: outcome.splits)
qed

theorem read_hashed_document_correct_witness:
  "\<exists>doc. fst sample_backup = Ret doc \<and> hd_ID doc = 1 \<and> sound_hashed mem_ext (HashedFiles doc) \<and> HashedFiles doc \<noteq> []"
proof -
  obtain doc where doc: "fst sample_backup = Ret doc" "length (HashedFiles doc) = 1" using sample_backup_Ret by blast
  then have "ReadHashedDocument mem_ext calm_ctx (sc_conn mem_ext mem_ds mem_ms) 1 sample_state = (Ret doc, snd sample_backup)"
    by (simp add: sample_backup_def prod_eq_iff)
  from read_hashed_document_correct [OF this reads_only_sc_conn] doc show ?thesis by auto
qed

text \<open>On the split-store connection a renamed file blocks the backup of its document: if a version has a
  file under a content hash that is also stored under a name the version does not have, then
  \<open>ReadHashedDocument\<close>, and with it every synchronisation, fails. Renaming a file without changing its
  content produces such a version.\<close>

theorem split_backup_blocked_by_rename:
  assumes "split_inv cl x objs calm env s"
    and "pg_view (snd s) docID v = Some info" "h \<in> hashes_of info"
    and "s3_blobs x objs (fst s) docID (n, h) \<noteq> None" "n \<noteq> []" "n \<notin> dom (map_of (Files info))"
  shows "fst (ReadHashedDocument x cx (sc_conn x (s3_store cl x) (pg_store env)) docID s) \<noteq> Ret doc"
proof
  let ?c = "sc_conn x (s3_store cl x) (pg_store env)"
  assume "fst (ReadHashedDocument x cx ?c docID s) = Ret doc"
  then have "ReadHashedDocument x cx ?c docID s = (Ret doc, snd (ReadHashedDocument x cx ?c docID s))"
    by (simp add: prod_eq_iff)
  from read_hashed_document_Ret [OF this reads_only_sc_conn] obtain vs where
    vs: "conn_DocumentVersions ?c cx docID s = (Ret vs, s)"
    and each: "\<forall>v\<in>set vs. \<exists>info. conn_DocumentVersionInfo ?c cx docID v s = (Ret info, s) \<and> lists_exactly ?c cx docID v s info"
    by blast
  have inv: "s3_inv cl x objs calm (fst s)" "pg_inv env (snd s)" using assms(1) by (auto simp: split_inv_def)
  have "ms_DocumentVersions (pg_store env) docID (snd s) = Inr vs"
    using vs by (simp add: sc_conn_def with_add_multi_def sc_methods_def sc_DocumentVersions_def)
  from pg.versions_Inr [OF inv(2) this] assms(2) have v: "v \<in> set vs" by auto
  have trunc: "ms_trunc v = v" using pg.view_Version [OF inv(2) assms(2)] by simp
  from each v obtain i where i: "conn_DocumentVersionInfo ?c cx docID v s = (Ret i, s)"
    and l: "lists_exactly ?c cx docID v s i" by blast
  have mi: "ms_DocumentVersionInfo (pg_store env) docID v (snd s) = Inr i"
    using i by (simp add: sc_conn_def with_add_multi_def sc_methods_def sc_DocumentVersionInfo_def)
  then have "i = info" using pg.version_info_Inr [OF inv(2) mi] assms(2) trunc by simp
  with l obtain p ns where "sc_DocumentVersionFileProvider (s3_store cl x) (pg_store env) docID v s = Inr p"
    and ns: "ListFiles p = Inr ns" "set ns = dom (map_of (Files info))"
    by (auto simp: lists_exactly_def sc_conn_def with_add_multi_def sc_methods_def)
  then have "ds_DocumentHashFileProvider (s3_store cl x) docID (map (Hash \<circ> snd) (Files info)) (fst s) = Inr p"
    using mi \<open>i = info\<close> by (simp add: sc_DocumentVersionFileProvider_def)
  from s3.provider_Inr [OF inv(1) this] ns(1)
  have "set ns = {n. n \<noteq> [] \<and> (\<exists>h\<in>set (map (Hash \<circ> snd) (Files info)). (n, h) \<in> dom (s3_blobs x objs (fst s) docID))}"
    by (auto simp: provides_hashes_def)
  moreover have "h \<in> set (map (Hash \<circ> snd) (Files info))"
    using assms(3) by (force simp: hashes_of_def ran_def dest: map_of_SomeD)
  ultimately have "n \<in> set ns" using assms(4,5) by blast
  with ns(2) assms(6) show False by simp
qed

text \<open>The sample document after its only file \<open>a\<close> was renamed to \<open>c\<close>.\<close>

definition sample_rename :: "version_info outcome \<times> (string, bytes) gomap split_state" where
  "sample_rename =
     sc_AddDocumentVersion calm_ctx mem_ext mem_ds mem_ms 1 2 ''rename''
       (Some (\<lambda>docID prevVersion prevFiles. Ret (Some \<lparr>cvr_Version = VersionTime 7000000,
          WriteFiles = [Some (sample_file ''c'' 3)], RemoveFiles = [''a''], NewCompanyID = None\<rparr>)))
       (Some (\<lambda>_. Ret ())) sample_state"

definition sample_empty_backup :: hashed_document where
  "sample_empty_backup = \<lparr>hd_ID = 1, hd_CompanyID = 3, HashedFiles = [], Versions = []\<rparr>"

theorem split_backup_blocked_by_rename_witness:
  "\<exists>info. fst sample_rename = Ret info \<and> map fst (Files info) = [''c'']
    \<and> fst (ReadHashedDocument mem_ext calm_ctx (sc_conn mem_ext mem_ds mem_ms) 1 (snd sample_rename)) \<noteq> Ret sample_empty_backup"
proof -
  let ?h = "ContentHash mem_ext (replicate 3 7)"
  have "(case fst sample_rename of Ret info \<Rightarrow> map fst (Files info) = [''c''] | Fail e \<Rightarrow> False | Panic m \<Rightarrow> False)"
    by code_simp
  then obtain info where r: "fst sample_rename = Ret info" "map fst (Files info) = [''c'']"
    by (auto split: outcome.splits)
  have inv: "mem_inv (snd sample_rename)"
    using split_add_Ret(1) [OF _ sample_state_inv(1), of calm_ctx] r(1)
    by (fastforce simp: sample_rename_def prod_eq_iff)
  have "(case pg_view (snd (snd sample_rename)) 1 (VersionTime 7000000) of
      Some i \<Rightarrow> map fst (Files i) = [''c''] \<and> (case map_of (Files i) ''c'' of Some fi \<Rightarrow> Hash fi = ?h | None \<Rightarrow> False)
    | None \<Rightarrow> False)" by code_simp
  then obtain i fi where i: "pg_view (snd (snd sample_rename)) 1 (VersionTime 7000000) = Some i"
    "map fst (Files i) = [''c'']" "map_of (Files i) ''c'' = Some fi" "Hash fi = ?h"
    by (auto split: option.splits)
  have h: "?h \<in> hashes_of i" using i(3,4) by (force simp: hashes_of_def ran_def)
  have "(case s3_blobs mem_ext map_of (fst (snd sample_rename)) 1 (''a'', ?h) of Some b \<Rightarrow> True | None \<Rightarrow> False)"
    by code_simp
  then have a: "s3_blobs mem_ext map_of (fst (snd sample_rename)) 1 (''a'', ?h) \<noteq> None" by (simp split: option.splits)
  have "''a'' \<notin> dom (map_of (Files i))"
    using i(2) by (simp add: map_of_dom_keys flip: list.set_map)
  from split_backup_blocked_by_rename [OF inv i(1) h a _ this, of calm_ctx sample_empty_backup] r show ?thesis by auto
qed

section \<open>Synchronisation of a company\<close>










end
