(* ===== verification/RestoreProps.thy ===== *)
theory RestoreProps
  imports DocDBProps
begin

text \<open>
  What \<open>RestoreDocument\<close> of the split-store connection guarantees, and with
  \<open>ReadHashedDocument\<close> the synchronisation of a document from any connection into it.
\<close>

lemma sc_conn_RestoreDocument:
  "conn_RestoreDocument (sc_conn x ds ms) cx doc recreate = sc_RestoreDocument cx x ds ms doc recreate"
  by (simp add: sc_conn_def with_add_multi_def sc_methods_def)

section \<open>Restore\<close>

text \<open>The versions of the document the restore starts from: none if an existing document is replaced.\<close>

definition start_view :: "ext \<Rightarrow> ('s \<Rightarrow> string \<rightharpoonup> bytes) \<Rightarrow> uuid \<Rightarrow> bool \<Rightarrow> 's split_state \<Rightarrow> meta_view" where
  "start_view x objs docID recreate s =
     (if recreate \<and> s3_blobs x objs (fst s) docID \<noteq> Map.empty
      then (pg_view (snd s))(docID := Map.empty) else pg_view (snd s))"

text \<open>C7: \<open>RestoreDocument\<close> of the split-store connection without error merges the backup into the document: a
  version the document has keeps its metadata, each version it lacks is added with the company, user, reason and
  exactly the files of the backup, and no other version of it and no other document changes. With \<open>recreate\<close>
  an existing document is replaced instead. The stores stay consistent.\<close>

theorem split_restore_document:
  assumes "sc_RestoreDocument cx x (s3_store cl x) (pg_store env) (Some doc) recreate s = (Ret u, s')"
    and "split_inv cl x objs calm env s" "\<not> VersionsExist cx" "hash_sound x doc" "split_consistent x objs s"
  shows "split_inv cl x objs calm env s' \<and> split_consistent x objs s'
    \<and> restored_view doc (start_view x objs (hd_ID doc) recreate s) (pg_view (snd s'))
    \<and> (\<forall>d. d \<noteq> hd_ID doc \<longrightarrow> s3_blobs x objs (fst s') d = s3_blobs x objs (fst s) d)"
  using split_restore_Ret [OF assms(1-4)] assms(5) by (simp add: start_view_def)

text \<open>A backup of document 1 with two versions, the first of which \<open>sample_state\<close> has.\<close>

definition sample_doc :: hashed_document where
  "sample_doc = \<lparr>hd_ID = 1, hd_CompanyID = 3,
     HashedFiles = [(ContentHash mem_ext [7, 7, 7], [7, 7, 7]), (ContentHash mem_ext [1], [1])],
     Versions = [(VersionTime 5000000, Some \<lparr>hv_CommitUserID = 2, hv_CommitReason = ''first'',
                    FileHashes = [(''a'', ContentHash mem_ext [7, 7, 7])]\<rparr>),
                 (VersionTime 9000000, Some \<lparr>hv_CommitUserID = 2, hv_CommitReason = ''later'',
                    FileHashes = [(''a'', ContentHash mem_ext [1])]\<rparr>)]\<rparr>"

lemma sample_doc_sound: "hash_sound mem_ext sample_doc"
proof -
  have "ContentHash mem_ext (data_of sample_doc h) = h"
    if "h \<in> {ContentHash mem_ext [7, 7, 7], ContentHash mem_ext [1]}" for h
    using that by (auto simp: data_of_def sample_doc_def)
  then show ?thesis
    by (auto simp: hash_sound_def version_at_def sample_doc_def split: if_splits)
qed

definition sample_restore :: "bool \<Rightarrow> unit outcome \<times> (string, bytes) gomap split_state" where
  "sample_restore recreate = sc_RestoreDocument calm_ctx mem_ext mem_ds mem_ms (Some sample_doc) recreate sample_state"

theorem split_restore_document_witness:
  "fst (sample_restore False) = Ret () \<and> mem_consistent (snd (sample_restore False))
   \<and> pg_view (snd (snd (sample_restore False))) 1 (VersionTime 5000000) = pg_view (snd sample_state) 1 (VersionTime 5000000)"
proof -
  have ok: "fst (sample_restore False) = Ret ()" by code_simp
  then have run: "sc_RestoreDocument calm_ctx mem_ext mem_ds mem_ms (Some sample_doc) False sample_state
      = (Ret (), snd (sample_restore False))" by (simp add: sample_restore_def prod_eq_iff)
  obtain info where "pg_view (snd sample_state) 1 (VersionTime 5000000) = Some info" using sample_state_version by blast
  with split_restore_document [OF run sample_state_inv(1) _ sample_doc_sound sample_state_inv(2)] ok
  show ?thesis by (simp add: restored_view_def start_view_def sample_doc_def)
qed






section \<open>Synchronisation of a document\<close>

lemma backs_up_hash:
  assumes "backs_up info (HashedFiles doc) hv" "sound_hashed x (HashedFiles doc)" "(n, h) \<in> set (FileHashes hv)"
  shows "ContentHash x (data_of doc h) = h"
proof -
  have "map_of (FileHashes hv) n = Some h" using assms(1,3) map_of_is_SomeI [of "FileHashes hv" n h] by (simp add: backs_up_def)
  then obtain fi where "map_of (Files info) n = Some fi" "Hash fi = h" using assms(1) by (auto simp: backs_up_def)
  then have "h \<in> dom (map_of (HashedFiles doc))" using assms(1) by (force simp: backs_up_def ran_def)
  with assms(2) show ?thesis by (auto simp: sound_hashed_def data_of_def)
qed

lemma read_hashed_document_sound:
  assumes "ReadHashedDocument x cx c docID s = (Ret doc, s')" "reads_only c"
  shows "hash_sound x doc"
  unfolding hash_sound_def
proof (intro allI impI conjI ballI)
  note R = read_hashed_document_Ret [OF assms]
  fix v hv assume v: "version_at doc v = Some hv"
  then have "v \<in> dom (map_of (Versions doc))" by (auto simp: version_at_def bind_eq_Some_conv)
  with R v obtain info where b: "backs_up info (HashedFiles doc) hv" by (metis option.inject)
  then show "wf_gomap (FileHashes hv)" by (simp add: backs_up_def)
  fix p assume "p \<in> set (FileHashes hv)"
  moreover obtain n h where "p = (n, h)" by fastforce
  ultimately show "case p of (n, h) \<Rightarrow> ContentHash x (data_of doc h) = h" using backs_up_hash [OF b, of x] R by (simp add: split_def)
qed

text \<open>What a copied version keeps of the metadata of its source.\<close>

definition copies :: "uuid \<Rightarrow> version_info \<Rightarrow> version_info \<Rightarrow> bool" where
  "copies companyID info i \<longleftrightarrow> CompanyID i = companyID \<and> CommitUserID i = CommitUserID info
     \<and> CommitReason i = CommitReason info
     \<and> map_option Hash \<circ> map_of (Files i) = map_option Hash \<circ> map_of (Files info)"

lemma restored_copies:
  assumes "restored doc v i" "version_at doc v = Some hv" "backs_up info (HashedFiles doc) hv"
  shows "copies (hd_CompanyID doc) info i"
  using assms by (auto simp: restored_def backs_up_def copies_def restored_files_def fun_eq_iff restore_info_def
      option.map_comp o_def map_option.identity)

text \<open>C9: \<open>SyncDocument\<close> without error from any connection that only reads, which may share its state with the
  destination, into a split-store connection makes the destination hold the source's document: a version of
  the source that the destination lacks is there afterwards with the source's company, user, reason and the
  same content hash under each file name; versions the destination had, and other documents, are as before.
  With \<open>recreate\<close> an existing document of the destination is replaced.\<close>

theorem sync_document_copies:
  assumes "SyncDocument x cx src (conn_via get put (sc_conn x (s3_store cl x) (pg_store env))) docID recreate t = (Ret u, t')"
    and "reads_only src" "\<forall>s t. get (put s t) = s"
    and "split_inv cl x objs calm env (get t)" "\<not> VersionsExist cx" "split_consistent x objs (get t)"
  shows "split_inv cl x objs calm env (get t') \<and> split_consistent x objs (get t')
    \<and> (\<exists>vs companyID. conn_DocumentVersions src cx docID t = (Ret vs, t) \<and> conn_DocumentCompanyID src cx docID t = (Ret companyID, t)
      \<and> (\<forall>v\<in>set vs. \<exists>info. conn_DocumentVersionInfo src cx docID v t = (Ret info, t)
           \<and> (start_view x objs docID recreate (get t) docID (ms_trunc v) = None \<longrightarrow>
                (\<exists>i. pg_view (snd (get t')) docID (ms_trunc v) = Some i \<and> copies companyID info i)))
      \<and> (\<forall>w. w \<notin> ms_trunc ` set vs \<or> start_view x objs docID recreate (get t) docID w \<noteq> None \<longrightarrow>
           pg_view (snd (get t')) docID w = start_view x objs docID recreate (get t) docID w))
    \<and> (\<forall>d. d \<noteq> docID \<longrightarrow> pg_view (snd (get t')) d = pg_view (snd (get t)) d)"
proof -
  from assms(1) obtain doc t1 where read: "ReadHashedDocument x cx src docID t = (Ret doc, t1)"
    and run: "conn_RestoreDocument (conn_via get put (sc_conn x (s3_store cl x) (pg_store env))) cx (Some doc) recreate t1 = (Ret u, t')"
    by (auto simp: SyncDocument_def try_op_Ret_iff)
  note R = read_hashed_document_Ret [OF read assms(2)]
  then have t1: "t1 = t" and ID: "hd_ID doc = docID" by blast+
  note R1 = R [THEN conjunct2, THEN conjunct2, THEN conjunct2, THEN conjunct2, THEN conjunct2]
  then obtain vs where vs: "conn_DocumentVersions src cx docID t = (Ret vs, t)" and D: "dom (map_of (Versions doc)) = set vs"
    and each': "\<forall>v\<in>set vs. \<exists>info hv. conn_DocumentVersionInfo src cx docID v t = (Ret info, t)
       \<and> version_at doc v = Some hv \<and> backs_up info (HashedFiles doc) hv \<and> lists_exactly src cx docID v t info"
    by (elim conjE exE)
  have dom: "fst ` set (Versions doc) = set vs" using D by (simp add: dom_map_of_conv_image_fst)
  have each: "\<exists>info hv. conn_DocumentVersionInfo src cx docID v t = (Ret info, t)
       \<and> version_at doc v = Some hv \<and> backs_up info (HashedFiles doc) hv" if "v \<in> set vs" for v
    using each' that by blast
  from run obtain s' where "sc_RestoreDocument cx x (s3_store cl x) (pg_store env) (Some doc) recreate (get t) = (Ret u, s')"
    and t': "t' = put s' t1"
    by (auto simp: conn_via_def via_eq sc_conn_RestoreDocument t1)
  note S = split_restore_Ret [OF this(1) assms(4,5) read_hashed_document_sound [OF read assms(2)]]
  have get: "get t' = s'" unfolding t' using assms(3) by blast
  have view: "restored_view doc (start_view x objs docID recreate (get t)) (pg_view (snd s'))"
    using S(2) unfolding start_view_def ID .
  have copied: "\<exists>info. conn_DocumentVersionInfo src cx docID v t = (Ret info, t)
      \<and> (start_view x objs docID recreate (get t) docID (ms_trunc v) = None \<longrightarrow>
          (\<exists>i. pg_view (snd s') docID (ms_trunc v) = Some i \<and> copies (hd_CompanyID doc) info i))" if "v \<in> set vs" for v
  proof -
    from each [OF that] obtain info hv where i: "conn_DocumentVersionInfo src cx docID v t = (Ret info, t)"
      "version_at doc v = Some hv" "backs_up info (HashedFiles doc) hv" by blast
    from that view ID dom have "start_view x objs docID recreate (get t) docID (ms_trunc v) = None \<longrightarrow>
        (\<exists>i. pg_view (snd s') docID (ms_trunc v) = Some i \<and> restored doc v i)" unfolding restored_view_def by blast
    moreover have "copies (hd_CompanyID doc) info i" if "restored doc v i" for i
      by (rule restored_copies [OF that i(2,3)])
    ultimately show ?thesis using i(1) by (intro exI [of _ info]) auto
  qed
  have kept: "pg_view (snd s') docID w = start_view x objs docID recreate (get t) docID w"
    if "w \<notin> ms_trunc ` set vs \<or> start_view x objs docID recreate (get t) docID w \<noteq> None" for w
    using that view ID dom by (auto simp: restored_view_def)
  have others: "pg_view (snd s') d = pg_view (snd (get t)) d" if "d \<noteq> docID" for d
    using view that ID by (auto simp: restored_view_def start_view_def)
  from S(1) S(4) [OF assms(6)] R vs copied kept others show ?thesis
    unfolding get by blast
qed

text \<open>From the sample stores into empty ones beside them.\<close>

definition sample_sync_document ::
  "unit outcome \<times> (string, bytes) gomap split_state \<times> (string, bytes) gomap split_state" where
  "sample_sync_document =
     SyncDocument mem_ext calm_ctx (conn_via fst (\<lambda>s t. (s, snd t)) (sc_conn mem_ext mem_ds mem_ms))
       (conn_via snd (\<lambda>s t. (fst t, s)) (sc_conn mem_ext mem_ds mem_ms)) 1 False (sample_state, [], empty_db)"

lemma reads_only_via:
  assumes "reads_only c" "\<And>t. put (get t) t = t"
  shows "reads_only (conn_via get put c)"
  unfolding reads_only_def
proof (intro allI impI)
  fix call t assume w: "\<not> is_write call"
  then have "exec c call (get t) = get t" using assms(1) unfolding reads_only_def by blast
  then show "exec (conn_via get put c) call t = t"
    using w assms(2) [of t] by (cases call) (simp_all add: conn_via_def via_def split_def)
qed

theorem sync_document_copies_witness:
  "fst sample_sync_document = Ret () \<and> mem_consistent (snd (snd sample_sync_document))
   \<and> pg_view (snd (snd (snd sample_sync_document))) 2 = Map.empty"
proof -
  have ok: "fst sample_sync_document = Ret ()" by code_simp
  have src: "reads_only (conn_via fst (\<lambda>s t. (s, snd t)) (sc_conn mem_ext mem_ds mem_ms)
      :: ((string, bytes) gomap split_state \<times> (string, bytes) gomap split_state) conn)"
    by (rule reads_only_via [OF reads_only_sc_conn]) simp
  have run: "SyncDocument mem_ext calm_ctx (conn_via fst (\<lambda>s t. (s, snd t)) (sc_conn mem_ext mem_ds mem_ms))
       (conn_via snd (\<lambda>s t. (fst t, s)) (sc_conn mem_ext mem_ds mem_ms)) 1 False (sample_state, [], empty_db)
     = (Ret (), snd sample_sync_document)" using ok by (simp add: sample_sync_document_def prod_eq_iff)
  from sync_document_copies [OF run src, where objs = map_of and calm = "\<lambda>_. True"] empty_state_inv ok
  show ?thesis by simp
qed

end
