(* ===== verification/LocalSync.thy ===== *)
theory LocalSync
  imports LocalDocProps RestoreProps
begin

text \<open>
  Backups of any connection taken into a file-system connection: \<open>SyncDocument\<close> with
  \<open>localfsdb\<close> as the destination.
\<close>

section \<open>A backup read from a source\<close>

text \<open>The listed versions of the document have times and file names a directory can have.\<close>

definition local_source :: "'s conn \<Rightarrow> ctx \<Rightarrow> uuid \<Rightarrow> 's \<Rightarrow> bool" where
  "local_source src cx docID s \<longleftrightarrow>
     (\<forall>vs v. conn_DocumentVersions src cx docID s = (Ret vs, s) \<longrightarrow> v \<in> set vs \<longrightarrow> readable_time v
        \<and> (\<forall>info. conn_DocumentVersionInfo src cx docID v s = (Ret info, s) \<longrightarrow> (\<forall>n\<in>dom (map_of (Files info)). plain_name n)))"

lemma read_document_local:
  assumes read: "ReadHashedDocument x cx src docID s = (Ret doc, s')" and src: "reads_only src" "local_source src cx docID s"
  shows "plain_hashes doc" "\<forall>v\<in>fst ` set (Versions doc). readable_time v"
proof -
  note R = read_hashed_document_Ret [OF read src(1)]
  then obtain vs where wf: "wf_gomap (Versions doc)" and vs: "conn_DocumentVersions src cx docID s = (Ret vs, s)"
    and D: "dom (map_of (Versions doc)) = set vs"
    and each: "\<And>v. v \<in> set vs \<Longrightarrow> \<exists>info hv. conn_DocumentVersionInfo src cx docID v s = (Ret info, s)
       \<and> version_at doc v = Some hv \<and> backs_up info (HashedFiles doc) hv" by blast
  have dom: "fst ` set (Versions doc) = set vs" using D by (simp add: dom_map_of_conv_image_fst)
  then show "\<forall>v\<in>fst ` set (Versions doc). readable_time v" using src(2) vs by (simp add: local_source_def)
  show "plain_hashes doc"
    unfolding plain_hashes_def
  proof (intro ballI, clarify)
    fix v hv n h assume v: "(v, Some hv) \<in> set (Versions doc)" and n: "(n, h) \<in> set (FileHashes hv)"
    have at: "version_at doc v = Some hv" using v wf by (simp add: version_at_def)
    have "v \<in> set vs" using v dom by force
    with each obtain info where info: "conn_DocumentVersionInfo src cx docID v s = (Ret info, s)"
      "backs_up info (HashedFiles doc) hv" using at by fastforce
    have "map_of (FileHashes hv) n = Some h" using info(2) n map_of_is_SomeI [of "FileHashes hv" n h] by (simp add: backs_up_def)
    then have "n \<in> dom (map_of (Files info))" using info(2) by (auto simp: backs_up_def)
    with info(1) \<open>v \<in> set vs\<close> vs src(2) show "plain_name n" unfolding local_source_def by blast
  qed
qed

text \<open>The contents of a restored version have the hashes of the source.\<close>

lemma restored_contents:
  assumes "restored_version c doc t prev v" "version_at doc v = Some hv" "backs_up info (HashedFiles doc) hv"
    and "hash_sound x doc"
  shows "\<exists>i. local_view c t (hd_ID doc) v = Some i \<and> copies (hd_CompanyID doc) info i"
    "map_option (ContentHash x) (local_files c t (hd_ID doc) v n) = map_option Hash (map_of (Files info) n)"
proof -
  show "\<exists>i. local_view c t (hd_ID doc) v = Some i \<and> copies (hd_CompanyID doc) info i"
    using assms(1) restored_copies [OF _ assms(2,3)] unfolding restored_version_def by blast
  have "local_files c t (hd_ID doc) v n = hashed_content doc hv n" using assms(1,2) by (auto simp: restored_version_def)
  moreover have "map_of (FileHashes hv) n = map_option Hash (map_of (Files info) n)" using assms(3) by (simp add: backs_up_def)
  moreover have "ContentHash x (data_of doc h) = h" if "map_of (FileHashes hv) n = Some h" for h
    using hash_soundD(2) [OF assms(4,2)] map_of_SomeD [OF that] by blast
  ultimately show "map_option (ContentHash x) (local_files c t (hd_ID doc) v n) = map_option Hash (map_of (Files info) n)"
    by (cases "map_of (Files info) n") (simp_all add: hashed_content_def)
qed

section \<open>SyncDocument\<close>

text \<open>A version the destination has nothing of, or has to make anew.\<close>

definition local_lacks :: "'f local_conn \<Rightarrow> uuid \<Rightarrow> bool \<Rightarrow> tree \<Rightarrow> version_time \<Rightarrow> bool" where
  "local_lacks c d recreate t v \<longleftrightarrow> recreate \<or> t (documentDir c d) = None
     \<or> t (versionDirName c d v) = None \<and> t (versionInfoFile c d v) = None"

text \<open>C10: \<open>SyncDocument\<close> without error from any connection that only reads, which may share its state with the
  destination, into a file-system connection makes the destination hold the source's document, if the file names and
  times of the source can be names of files and directories: a listed version of the source that the destination
  lacks is there afterwards with the source's company, user and reason, and its directory holds exactly the source's
  file names, each with a content of the source's hash. Versions the destination had, and other documents, keep
  metadata and files. With \<open>recreate\<close> an existing document of the destination is replaced.\<close>

theorem local_sync_document:
  assumes "SyncDocument (lext c) cx src (conn_via get put (localConn c)) docID recreate t = (Ret u, t')"
    and "reads_only src" "local_source src cx docID t" "\<forall>s t. get (put s t) = s" "local_inv c tree finv calm (get t)"
  shows "local_inv c tree finv calm (get t')
    \<and> (\<exists>vs companyID. conn_DocumentVersions src cx docID t = (Ret vs, t) \<and> conn_DocumentCompanyID src cx docID t = (Ret companyID, t)
      \<and> (\<forall>v\<in>set vs. \<exists>info. conn_DocumentVersionInfo src cx docID v t = (Ret info, t)
           \<and> (local_lacks c docID recreate (tree (get t)) v \<longrightarrow>
                (\<exists>i. local_view c (tree (get t')) docID v = Some i \<and> copies companyID info i)
                \<and> (\<forall>n. map_option (ContentHash (lext c)) (local_files c (tree (get t')) docID v n)
                       = map_option Hash (map_of (Files info) n))))
      \<and> (\<forall>v. v \<notin> set vs \<or> start_versions c docID recreate (tree (get t)) v \<noteq> None \<longrightarrow>
           local_view c (tree (get t')) docID v = start_versions c docID recreate (tree (get t)) v
           \<and> (start_versions c docID recreate (tree (get t)) v \<noteq> None \<longrightarrow>
                local_files c (tree (get t')) docID v = local_files c (tree (get t)) docID v)))
    \<and> (\<forall>d v. d \<noteq> docID \<longrightarrow> local_view c (tree (get t')) d v = local_view c (tree (get t)) d v
         \<and> local_files c (tree (get t')) d v = local_files c (tree (get t)) d v)"
proof -
  note spec = local_invD(1) [OF assms(5)] and finv = local_invD(2) [OF assms(5)]
  from assms(1) obtain doc t1 where read: "ReadHashedDocument (lext c) cx src docID t = (Ret doc, t1)"
    and run: "conn_RestoreDocument (conn_via get put (localConn c)) cx (Some doc) recreate t1 = (Ret u, t')"
    by (auto simp: SyncDocument_def try_op_Ret_iff)
  note R = read_hashed_document_Ret [OF read assms(2)]
  then have t1: "t1 = t" and ID: "hd_ID doc = docID" and wf: "wf_gomap (Versions doc)"
    and comp: "conn_DocumentCompanyID src cx docID t = (Ret (hd_CompanyID doc), t)" by blast+
  from R obtain vs where vs: "conn_DocumentVersions src cx docID t = (Ret vs, t)" and D: "dom (map_of (Versions doc)) = set vs"
    and each: "\<And>v. v \<in> set vs \<Longrightarrow> \<exists>info hv. conn_DocumentVersionInfo src cx docID v t = (Ret info, t)
       \<and> version_at doc v = Some hv \<and> backs_up info (HashedFiles doc) hv" by blast
  have dom: "fst ` set (Versions doc) = set vs" using D by (simp add: dom_map_of_conv_image_fst)
  from run obtain s' where res: "local_RestoreDocument c cx (Some doc) recreate (get t) = (Ret (), s')"
    and t': "t' = put s' t1"
    by (auto simp: conn_via_def via_eq localConn_def with_add_multi_def local_methods_def t1)
  have get: "get t' = s'" unfolding t' using assms(4) by blast
  note loc = read_document_local [OF read assms(2,3)] and sound = read_hashed_document_sound [OF read assms(2)]
  note S = restore_Ret [OF spec finv loc(1) sound wf loc(2) res, unfolded ID dom]
  have "\<exists>info. conn_DocumentVersionInfo src cx docID v t = (Ret info, t)
      \<and> (local_lacks c docID recreate (tree (get t)) v \<longrightarrow>
           (\<exists>i. local_view c (tree s') docID v = Some i \<and> copies (hd_CompanyID doc) info i)
           \<and> (\<forall>n. map_option (ContentHash (lext c)) (local_files c (tree s') docID v n)
                  = map_option Hash (map_of (Files info) n)))" if v: "v \<in> set vs" for v
  proof -
    from each [OF v] obtain info hv where i: "conn_DocumentVersionInfo src cx docID v t = (Ret info, t)"
      "version_at doc v = Some hv" "backs_up info (HashedFiles doc) hv" by blast
    from v dom have "v \<in> set (VersionTimes doc)" by simp
    then obtain xs ys where "VersionTimes doc = xs @ v # ys" by (meson split_list)
    with S(3) have "\<exists>prev. restored_version c doc (tree s') prev v" if "local_lacks c docID recreate (tree (get t)) v"
      using that unfolding local_lacks_def by blast
    then show ?thesis using i(1) restored_contents [OF _ i(2,3) sound] ID by blast
  qed
  moreover have "local_inv c tree finv calm s'"
    by (rule local_inv_RestoreDocument [OF assms(5) _ res]) (use loc(1) in simp)
  ultimately show ?thesis
    using vs comp S(2) other_documents [OF spec finv S(1)] unfolding get by blast
qed

text \<open>From one file system in memory into another beside it.\<close>

definition mem_sync :: "unit outcome \<times> mem_state \<times> mem_state" where
  "mem_sync = SyncDocument (lext mem_local) calm_ctx (conn_via fst (\<lambda>s t. (s, snd t)) (localConn mem_local))
     (conn_via snd (\<lambda>s t. (fst t, s)) (localConn mem_local)) 2 False (mem_one, mem_start)"

lemma mem_one_versions: "local_DocumentVersions mem_local calm_ctx 2 mem_one = Inr [mem_time]"
  by code_simp

lemma mem_source:
  "local_source (conn_via fst (\<lambda>s t. (s, snd t)) (localConn mem_local)) calm_ctx 2 (mem_one, t)"
proof -
  have "(case fst (local_DocumentVersionInfo mem_local calm_ctx 2 mem_time mem_one) of
      Ret info \<Rightarrow> list_all plain_name (map fst (Files info)) | _ \<Rightarrow> False)" by code_simp
  then have "plain_name n" if "local_DocumentVersionInfo mem_local calm_ctx 2 mem_time mem_one = (Ret info, s)"
    "n \<in> dom (map_of (Files info))" for info s n
    using that by (auto simp: list_all_iff dom_map_of_conv_image_fst)
  with mem_one_versions mem_times(1) show ?thesis
    by (auto simp: local_source_def conn_via_def via_eq localConn_def with_add_multi_def local_methods_def)
qed

theorem local_sync_document_witness:
  "fst mem_sync = Ret () \<and> local_inv mem_local map_of LocalMem.mem_inv (\<lambda>_. True) (snd (snd mem_sync))
   \<and> (\<exists>i. local_view mem_local (map_of (snd (snd mem_sync))) 2 mem_time = Some i)
   \<and> local_view mem_local (map_of (snd (snd mem_sync))) 3 mem_time = local_view mem_local (map_of mem_start) 3 mem_time"
proof -
  have ok: "fst mem_sync = Ret ()" by code_simp
  have src: "reads_only (conn_via fst (\<lambda>s t. (s, snd t)) (localConn mem_local) :: (mem_state \<times> mem_state) conn)"
    by (rule reads_only_via [OF reads_only_localConn]) simp
  have run: "SyncDocument (lext mem_local) calm_ctx (conn_via fst (\<lambda>s t. (s, snd t)) (localConn mem_local))
      (conn_via snd (\<lambda>s t. (fst t, s)) (localConn mem_local)) 2 False (mem_one, mem_start) = (Ret (), snd mem_sync)"
    using ok by (simp add: mem_sync_def prod_eq_iff)
  have lacks: "local_lacks mem_local 2 False (map_of mem_start) mem_time" by code_simp
  have vs: "conn_DocumentVersions (conn_via fst (\<lambda>s t. (s, snd t)) (localConn mem_local)) calm_ctx 2 (mem_one, mem_start)
      = (Ret [mem_time], (mem_one, mem_start))"
    using mem_one_versions by (simp add: conn_via_def via_eq localConn_def with_add_multi_def local_methods_def)
  from local_sync_document [OF run src mem_source, where tree = map_of and finv = LocalMem.mem_inv and calm = "\<lambda>_. True"]
    mem_start_inv ok lacks vs
  show ?thesis by auto
qed

end
