(* ===== verification/Mocks.thy ===== *)
theory Mocks
  imports Conn
begin

text \<open>
  \<open>mockconn.go\<close> and \<open>MockFileProvider\<close> of \<open>fileprovider.go\<close>: test doubles whose methods
  call function fields. A field that is nil is \<open>None\<close>, and the call of it panics; a file
  provider has no panics of its own, so its double takes set fields.
\<close>

record 's mock_conn =
  DocumentExistsMock :: "(ctx \<Rightarrow> uuid \<Rightarrow> ('s, bool) op) option"
  CompanyIDsMock :: "(ctx \<Rightarrow> ('s, uuid list) op) option"
  CompanyDocumentIDsMock :: "(ctx \<Rightarrow> uuid \<Rightarrow> ('s, uuid list) op) option"
  DocumentCompanyIDMock :: "(ctx \<Rightarrow> uuid \<Rightarrow> ('s, uuid) op) option"
  SetDocumentCompanyIDMock :: "(ctx \<Rightarrow> uuid \<Rightarrow> uuid \<Rightarrow> ('s, unit) op) option"
  DocumentVersionsMock :: "(ctx \<Rightarrow> uuid \<Rightarrow> ('s, version_time list) op) option"
  LatestDocumentVersionMock :: "(ctx \<Rightarrow> uuid \<Rightarrow> ('s, version_time) op) option"
  DocumentVersionInfoMock :: "(ctx \<Rightarrow> uuid \<Rightarrow> version_time \<Rightarrow> ('s, version_info) op) option"
  LatestDocumentVersionInfoMock :: "(ctx \<Rightarrow> uuid \<Rightarrow> ('s, version_info) op) option"
  DocumentVersionFileProviderMock :: "(ctx \<Rightarrow> uuid \<Rightarrow> version_time \<Rightarrow> ('s, file_provider) op) option"
  ReadDocumentVersionFileMock :: "(ctx \<Rightarrow> uuid \<Rightarrow> version_time \<Rightarrow> string \<Rightarrow> ('s, bytes) op) option"
  DeleteDocumentMock :: "(ctx \<Rightarrow> uuid \<Rightarrow> ('s, unit) op) option"
  DeleteDocumentVersionMock :: "(ctx \<Rightarrow> uuid \<Rightarrow> version_time \<Rightarrow> ('s, version_time list) op) option"
  CreateDocumentMock :: "(ctx \<Rightarrow> uuid \<Rightarrow> uuid \<Rightarrow> uuid \<Rightarrow> string \<Rightarrow> version_time \<Rightarrow> file_reader list
    \<Rightarrow> on_new_version_func option \<Rightarrow> ('s, unit) op) option"
  AddDocumentVersionMock :: "(ctx \<Rightarrow> uuid \<Rightarrow> uuid \<Rightarrow> string \<Rightarrow> create_version_func option
    \<Rightarrow> on_new_version_func option \<Rightarrow> 's \<Rightarrow> (unit outcome \<times> version_info list) \<times> 's) option"
  AddMultiDocumentVersionMock :: "(ctx \<Rightarrow> uuid list \<Rightarrow> uuid \<Rightarrow> string \<Rightarrow> create_version_func option
    \<Rightarrow> on_new_version_func option \<Rightarrow> ('s, unit) op) option"
  RestoreDocumentMock :: "(ctx \<Rightarrow> hashed_document option \<Rightarrow> bool \<Rightarrow> ('s, unit) op) option"

definition nil_call :: "('s, 'a) op" where
  "nil_call = panic ''nil pointer dereference''"

definition MockConn :: "'s mock_conn \<Rightarrow> 's conn" where
  "MockConn mock =
     \<lparr>conn_DocumentExists = (\<lambda>cx docID. case DocumentExistsMock mock of None \<Rightarrow> nil_call | Some m \<Rightarrow> m cx docID),
      conn_CompanyIDs = (\<lambda>cx. case CompanyIDsMock mock of None \<Rightarrow> nil_call | Some m \<Rightarrow> m cx),
      conn_CompanyDocumentIDs = (\<lambda>cx companyID.
        case CompanyDocumentIDsMock mock of None \<Rightarrow> nil_call | Some m \<Rightarrow> m cx companyID),
      conn_DocumentCompanyID = (\<lambda>cx docID. case DocumentCompanyIDMock mock of None \<Rightarrow> nil_call | Some m \<Rightarrow> m cx docID),
      conn_SetDocumentCompanyID = (\<lambda>cx docID companyID.
        case SetDocumentCompanyIDMock mock of None \<Rightarrow> nil_call | Some m \<Rightarrow> m cx docID companyID),
      conn_DocumentVersions = (\<lambda>cx docID. case DocumentVersionsMock mock of None \<Rightarrow> nil_call | Some m \<Rightarrow> m cx docID),
      conn_LatestDocumentVersion = (\<lambda>cx docID.
        case LatestDocumentVersionMock mock of None \<Rightarrow> nil_call | Some m \<Rightarrow> m cx docID),
      conn_DocumentVersionInfo = (\<lambda>cx docID v.
        case DocumentVersionInfoMock mock of None \<Rightarrow> nil_call | Some m \<Rightarrow> m cx docID v),
      conn_LatestDocumentVersionInfo = (\<lambda>cx docID.
        case LatestDocumentVersionInfoMock mock of None \<Rightarrow> nil_call | Some m \<Rightarrow> m cx docID),
      conn_DocumentVersionFileProvider = (\<lambda>cx docID v.
        case DocumentVersionFileProviderMock mock of None \<Rightarrow> nil_call | Some m \<Rightarrow> m cx docID v),
      conn_ReadDocumentVersionFile = (\<lambda>cx docID v filename.
        case ReadDocumentVersionFileMock mock of None \<Rightarrow> nil_call | Some m \<Rightarrow> m cx docID v filename),
      conn_DeleteDocument = (\<lambda>cx docID. case DeleteDocumentMock mock of None \<Rightarrow> nil_call | Some m \<Rightarrow> m cx docID),
      conn_DeleteDocumentVersion = (\<lambda>cx docID v.
        case DeleteDocumentVersionMock mock of None \<Rightarrow> nil_call | Some m \<Rightarrow> m cx docID v),
      conn_CreateDocument = (\<lambda>cx companyID docID userID reason v files onNewVersion.
        case CreateDocumentMock mock of None \<Rightarrow> nil_call | Some m \<Rightarrow> m cx companyID docID userID reason v files onNewVersion),
      conn_AddDocumentVersion = (\<lambda>cx docID userID reason createVersion onNewVersion.
        case AddDocumentVersionMock mock of
          None \<Rightarrow> (\<lambda>s. ((Panic ''nil pointer dereference'', []), s))
        | Some m \<Rightarrow> m cx docID userID reason createVersion onNewVersion),
      conn_AddMultiDocumentVersion = (\<lambda>cx docIDs userID reason createVersion onNewVersion.
        case AddMultiDocumentVersionMock mock of
          None \<Rightarrow> nil_call | Some m \<Rightarrow> m cx docIDs userID reason createVersion onNewVersion),
      conn_RestoreDocument = (\<lambda>cx doc recreate.
        case RestoreDocumentMock mock of None \<Rightarrow> nil_call | Some m \<Rightarrow> m cx doc recreate)\<rparr>"

text \<open>The double with the methods of a connection as its fields behaves as the connection.\<close>

definition mock_of :: "'s conn \<Rightarrow> 's mock_conn" where
  "mock_of c =
     \<lparr>DocumentExistsMock = Some (conn_DocumentExists c), CompanyIDsMock = Some (conn_CompanyIDs c),
      CompanyDocumentIDsMock = Some (conn_CompanyDocumentIDs c), DocumentCompanyIDMock = Some (conn_DocumentCompanyID c),
      SetDocumentCompanyIDMock = Some (conn_SetDocumentCompanyID c), DocumentVersionsMock = Some (conn_DocumentVersions c),
      LatestDocumentVersionMock = Some (conn_LatestDocumentVersion c),
      DocumentVersionInfoMock = Some (conn_DocumentVersionInfo c),
      LatestDocumentVersionInfoMock = Some (conn_LatestDocumentVersionInfo c),
      DocumentVersionFileProviderMock = Some (conn_DocumentVersionFileProvider c),
      ReadDocumentVersionFileMock = Some (conn_ReadDocumentVersionFile c), DeleteDocumentMock = Some (conn_DeleteDocument c),
      DeleteDocumentVersionMock = Some (conn_DeleteDocumentVersion c), CreateDocumentMock = Some (conn_CreateDocument c),
      AddDocumentVersionMock = Some (conn_AddDocumentVersion c),
      AddMultiDocumentVersionMock = Some (conn_AddMultiDocumentVersion c),
      RestoreDocumentMock = Some (conn_RestoreDocument c)\<rparr>"

lemma MockConn_mock_of: "MockConn (mock_of c) = c"
  by (simp add: MockConn_def mock_of_def)

record mock_file_provider =
  HasFileMock :: "string \<Rightarrow> err + bool"
  ListFilesMock :: "err + string list"
  ReadFileMock :: "string \<Rightarrow> err + bytes"

definition MockFileProvider :: "mock_file_provider \<Rightarrow> file_provider" where
  "MockFileProvider fp = \<lparr>HasFile = HasFileMock fp, ListFiles = ListFilesMock fp, ReadFile = ReadFileMock fp\<rparr>"

end
