(* ===== verification/Spec2Isabelle.thy ===== *)
theory Spec2Isabelle
  imports ConnProps CopyFiles CoreProps LocalMulti LocalSync Mocks
begin

text \<open>
  A verification development for go-docdb, a Go package that stores versioned documents: a
  document belongs to a company and is a sequence of versions, each an immutable set of
  named files with metadata. The package defines an interface of connections and functions
  over it; the implementations are a connection over directories (\<open>localfsdb\<close>), one over
  two stores (\<open>storeconn\<close>: blobs in S3, metadata in PostgreSQL) and wrappers.

  Parts and theories. Each theory names in its first lines what it holds.

  \<^item> Data. \<open>Prelude\<close>: Go maps as association lists with distinct keys, 128-bit ids.
    \<open>Errors\<close> (\<open>errors.go\<close>): error values with \<open>errors.Is\<close>, \<open>As\<close> and \<open>Join\<close>; the
    outcome of a call that may also panic. \<open>VersionTime\<close> (\<open>versiontime.go\<close>): nanoseconds
    since year 1, the text layouts, the calendar; \<open>VersionBounds\<close>: the range of parsed times.
    \<open>VersionInfo\<close> (\<open>fileinfo.go\<close>, \<open>versioninfo.go\<close>), \<open>FileProvider\<close>
    (\<open>fileprovider.go\<close>), \<open>CreateVersion\<close> (\<open>createversion.go\<close>), \<open>HashedDocument\<close>
    (\<open>hasheddocument.go\<close>, the data part). \<open>CoreProps\<close>: their properties.
  \<^item> Interfaces. \<open>DocumentStore\<close>, \<open>MetadataStore\<close> (\<open>storeconn/documentstore.go\<close>,
    \<open>storeconn/metadatastore.go\<close>): each a record of methods over a state and a locale with
    its contract. \<open>Conn\<close> (\<open>conn.go\<close>, \<open>AddMultiDocumentVersionImpl\<close> of \<open>docdb.go\<close>): the
    record of a connection's methods; \<open>AddMulti\<close>: the contract of a connection that keeps
    versions and the all-or-nothing theorem proved from it.
  \<^item> Split-store connection. \<open>StoreConn\<close> (\<open>storeconn/conn.go\<close>); \<open>StoreConnLaws\<close>,
    \<open>RestoreLaws\<close>: what it guarantees over any two stores that meet their contracts.
    \<open>S3Store\<close>, \<open>S3Laws\<close> (\<open>storeconn/s3store\<close>) and \<open>PgStore\<close>, \<open>PgLaws\<close>
    (\<open>storeconn/pgstore\<close> with its schema): the two stores, with the interpretations that discharge the
    contracts. \<open>SplitStore\<close>, \<open>SplitConn\<close>, \<open>RestoreProps\<close>, \<open>StoreProps\<close>: the properties
    of the composed system. \<open>Instances\<close>: concrete parameters.
  \<^item> File-system connection. \<open>LocalFS\<close>: the functions of \<open>go-fs\<close>, \<open>uuiddir\<close> and the
    JSON codec as parameters, \<open>DirFileProvider\<close>, \<open>WriteJSON\<close>. \<open>LocalDB\<close>,
    \<open>LocalWrite\<close> (\<open>localfsdb/conn.go\<close>): reading and writing methods, every deferred
    clean-up included. \<open>FileTree\<close>, \<open>LocalSpec\<close>: the documented behaviour of the parameters
    over the tree of directories and files a state stands for. \<open>LocalFrame\<close>, \<open>LocalArea\<close>,
    \<open>LocalCalls\<close>: which paths an operation, and a sequence of calls, may change.
    \<open>LocalVersions\<close>: the committed versions of a tree and the invariant of the metadata files;
    \<open>LocalContent\<close>, \<open>LocalInfos\<close>: what is written into a version; \<open>LocalAdd\<close>,
    \<open>LocalCreate\<close>, \<open>LocalDelete\<close>, \<open>LocalCompany\<close>: the operations on it; \<open>LocalRestore\<close>,
    \<open>LocalRestoreDoc\<close>, \<open>LocalRestoreUndo\<close>: the restore of a backup and its roll-back. \<open>LocalMem\<close>, \<open>MemCodec\<close>: a
    file system in memory and a codec that meet the hypotheses. \<open>LocalProps\<close>,
    \<open>LocalDocProps\<close>: the properties. \<open>LocalSafe\<close>: no call panics.
    \<open>LocalMulti\<close>: the interpretation of the contract of \<open>AddMulti\<close> and multi-document updates.
    \<open>LocalSync\<close>: backups of other connections taken in.
  \<^item> Package functions and wrappers. \<open>DocDB\<close> (\<open>docdb.go\<close>, \<open>utils.go\<close>, \<open>config.go\<close>,
    \<open>debug.go\<close>, backup and sync of \<open>hasheddocument.go\<close>), \<open>CopyFiles\<close> (copies to a directory),
    \<open>DocDBProps\<close>; \<open>WrapperConns\<close> (\<open>readonlyconn.go\<close>, \<open>errconn.go\<close>,
    \<open>routerconn\<close>, \<open>logconn\<close>), \<open>ConnProps\<close>; \<open>Mocks\<close> (\<open>mockconn.go\<close>).

  State and operations. A method takes the state and returns an outcome (\<open>Ret\<close>, \<open>Fail\<close> with
  an error, \<open>Panic\<close>) and the state it leaves behind, on every path; \<open>try_op\<close> passes errors
  and panics on as an early return does. The state of the split-store connection is the
  bucket beside the two tables, that of the file-system connection is the state of the file system,
  that of a wrapper the state of what it wraps. A callback is a function that may return, fail or
  panic. Ids and bytes are machine words, version times are unbounded, as are sizes. What is
  committed is, for both connections, a map from documents and whole milliseconds to metadata
  (\<open>pg_view\<close>, \<open>local_view\<close>), and the operations are specified over it.

  Parameters and hypotheses. Code of other modules is a parameter: the S3 client
  (\<open>s3_client_spec\<close>: what a request that reports no error has done, nothing about
  success), the database's ids and faults (\<open>pg_env_spec\<close>), content hash and text of an id
  (\<open>ext\<close>, \<open>id_text_ok\<close>), \<open>go-fs\<close> and \<open>uuiddir\<close> (\<open>fsys_spec\<close>: which paths a call may change,
  what it has done when it returns no error, what a failing one may leave behind; nothing about
  success of a write), the JSON codec (\<open>codec_spec\<close>: what was encoded decodes again, a text that
  was cut off does not). \<open>calm\<close> predicates say that a request does not fail by itself; only claims about
  roll-back and reading back use them, and only for removal and reading. \<open>local_layout\<close> is the
  configuration: two separate directories, ids that are plain names. File names given to the
  file-system connection have to stay inside the version directory (\<open>local_name\<close>); the code does not
  check that.

  Bounds. \<open>year_10000\<close> ends the range in which a time survives its text form; a version from
  then on is committed but never read back, so the claims on commits carry the bound. The batched
  deletion of s3store takes 1000 keys at a time and recurses on the rest. Loops are structural
  recursions or carry a measure (\<open>diagnosePathConflict\<close>: the length of the path); there is no fuel.

  Not modelled: the per-document mutex and concurrent callers (one call after the other is what is
  modelled), log output and the wrapping of errors with call parameters, message texts of errors, the
  \<open>String\<close> methods for debugging, \<open>TempFileCopy\<close> and \<open>NewTestConn\<close> (temporary files of the operating
  system), connection set-up and environment variables, the test fixtures, the message texts and timestamps of
  \<open>logconn\<close>'s file provider. A \<open>nil\<close> context and \<open>nil\<close> entries of a list of file readers
  (other than \<open>WriteFiles\<close> of a callback's result) have no counterpart in the model, and functions of other
  modules do not panic in it; texts given to the codec are taken to be valid UTF-8. The pages of a
  prefix that is deleted are those listed when the deletion starts, as continuation tokens make them.
\<close>

end
